(* ===== verification/ASFW_Prelude.thy ===== *)
theory ASFW_Prelude
  imports Main "HOL-Library.Word"
begin

text \<open>
  Shared vocabulary of the development.

  \<^item> Names for the fixed-width integers of the driver (\<open>u8\<close>, \<open>u16\<close>, \<open>u32\<close>, \<open>u64\<close>) and
    the narrowing cast \<open>static_cast<uint8_t>\<close> as \<open>cast8\<close>.
  \<^item> \<open>std::expected<T, E>\<close> is the sum type \<open>'e + 't\<close> with the error on the left; a loop
    that leaves its function with an error on the way is \<open>efold\<close>, and the early return of a
    called function's error is \<open>ebind\<close>.
  \<^item> Generic lemmas on these, on list update and on masked words, collected in the named
    theorem lists \<open>expected_simps\<close>, \<open>array_simps\<close> and \<open>mask_simps\<close>.
\<close>

unbundle bit_operations_syntax

type_synonym u8 = "8 word"
type_synonym u16 = "16 word"
type_synonym u32 = "32 word"
type_synonym u64 = "64 word"

named_theorems expected_simps \<open>rewrite rules for the error monad\<close>
named_theorems array_simps \<open>rewrite rules for fixed-size arrays modelled as lists\<close>
named_theorems mask_simps \<open>bounds and disjointness of masked words\<close>

section \<open>Narrowing casts\<close>

text \<open>\<open>static_cast<uint8_t>(x)\<close> of an unsigned value, read back as a number.\<close>

definition cast8 :: "'a::len word \<Rightarrow> nat" where
  "cast8 w = unat w mod 256"

lemma cast8_less [simp]: "cast8 w < 256"
  by (simp add: cast8_def)

lemma cast8_id: "unat w < 256 \<Longrightarrow> cast8 w = unat w"
  by (simp add: cast8_def)

section \<open>Results with an error\<close>

definition ebind :: "'e + 'a \<Rightarrow> ('a \<Rightarrow> 'e + 'b) \<Rightarrow> 'e + 'b" where
  "ebind r k = (case r of Inl e \<Rightarrow> Inl e | Inr x \<Rightarrow> k x)"

lemma ebind_Inl [simp]: "ebind (Inl e) k = Inl e"
  by (simp add: ebind_def)

lemma ebind_Inr [simp]: "ebind (Inr x) k = k x"
  by (simp add: ebind_def)

lemma ebind_eq_Inr [expected_simps]:
  "ebind r k = Inr y \<longleftrightarrow> (\<exists>x. r = Inr x \<and> k x = Inr y)"
  by (cases r) auto

lemma ebind_eq_Inl [expected_simps]:
  "ebind r k = Inl e \<longleftrightarrow> r = Inl e \<or> (\<exists>x. r = Inr x \<and> k x = Inl e)"
  by (cases r) auto

text \<open>A \<open>for\<close> loop over a range whose body may return an error out of the function.\<close>

fun efold :: "('a \<Rightarrow> 's \<Rightarrow> 'e + 's) \<Rightarrow> 'a list \<Rightarrow> 's \<Rightarrow> 'e + 's" where
  "efold f [] s = Inr s"
| "efold f (x # xs) s = ebind (f x s) (efold f xs)"

lemma efold_append [expected_simps]:
  "efold f (xs @ ys) s = ebind (efold f xs s) (efold f ys)"
proof (induction xs arbitrary: s)
  case Nil
  then show ?case by simp
next
  case (Cons x xs)
  then show ?case by (cases "f x s") simp_all
qed

text \<open>The invariant rule of the loop, for runs that reach its end.\<close>

lemma efold_invariant:
  assumes "efold f xs s = Inr t" and "P [] s"
    and "\<And>ys x zs u v. xs = ys @ x # zs \<Longrightarrow> P ys u \<Longrightarrow> f x u = Inr v \<Longrightarrow> P (ys @ [x]) v"
  shows "P xs t"
proof -
  have "P ys u \<Longrightarrow> xs = ys @ zs \<Longrightarrow> efold f zs u = Inr t \<Longrightarrow> P (ys @ zs) t" for ys zs u
  proof (induction zs arbitrary: ys u)
    case Nil
    then show ?case by simp
  next
    case (Cons z zs)
    then obtain v where v: "f z u = Inr v" "efold f zs v = Inr t"
      by (auto simp: ebind_eq_Inr)
    have "P (ys @ [z]) v" using assms(3) Cons.prems(1,2) v(1) by blast
    with Cons.IH [of "ys @ [z]" v] Cons.prems(2) v(2) show ?case by simp
  qed
  from this [of "[]" s xs] assms(1,2) show ?thesis by simp
qed

section \<open>Arrays\<close>

lemma nth_update_cases [array_simps]:
  "i < length xs \<Longrightarrow> xs[i := x] ! j = (if i = j then x else xs ! j)"
  by auto

lemma list_update_out [array_simps]: "length xs \<le> i \<Longrightarrow> xs[i := x] = xs"
  by (rule list_update_beyond)

section \<open>Masked words\<close>

lemma bit_imp_le_unat: "bit w n \<Longrightarrow> 2 ^ n \<le> unat w" for w :: "'a::len word"
proof (rule ccontr)
  assume bit: "bit w n" and "\<not> 2 ^ n \<le> unat w"
  then have "take_bit n (unat w) = unat w" by (simp add: take_bit_nat_eq_self_iff)
  then have "\<not> bit (unat w) n" by (metis bit_take_bit_iff less_irrefl)
  then show False using bit by (simp add: bit_unsigned_iff bit_imp_possible_bit)
qed

lemma and_nonzero_bit: "w AND push_bit n 1 \<noteq> 0 \<longleftrightarrow> bit w n" for w :: "'a::len word"
  by (metis and.commute and_exp_eq_0_iff_not_bit push_bit_of_1)

lemma and_3_bits: "w AND 3 = 2 * of_bool (bit w 1) + of_bool (bit w 0)" for w :: u32
proof -
  have "w AND 3 = take_bit 2 w" by (simp add: take_bit_eq_mask mask_eq_exp_minus_1)
  also have "\<dots> = 2 * of_bool (bit w 1) + of_bool (bit w 0)"
    by (simp add: numeral_2_eq_2 take_bit_Suc bit_Suc bit_0 mod_2_eq_odd)
  finally show ?thesis .
qed

lemma unat_and_mask_less [mask_simps]: "unat (w AND mask n) < 2 ^ n" for w :: "'a::len word"
  by (simp flip: take_bit_eq_mask add: unsigned_take_bit_eq)

lemma unat_and_le [mask_simps]: "unat (w AND m) \<le> unat m" for w m :: "'a::len word"
  by (rule word_and_le1 [THEN word_le_nat_alt [THEN iffD1]])

section \<open>Words bit by bit\<close>

text \<open>
  Two words are equal when they agree on each of their bits. With the bit positions listed, the
  simplifier evaluates the bits of masks and shifts one by one; a flag that is written as a
  conditional mask is a conjunction.
\<close>

lemma upt_8: "[0..<8] = [0, 1, 2, 3, 4, 5, 6, 7]"
  by (simp add: upt_rec)

lemma upt_16: "[0..<16] = [0, 1, 2, 3, 4, 5, 6, 7, 8, 9, 10, 11, 12, 13, 14, 15]"
  by (simp add: upt_rec)

lemma upt_32: "[0..<32] = [0, 1, 2, 3, 4, 5, 6, 7, 8, 9, 10, 11, 12, 13, 14, 15, 16, 17, 18, 19, 20, 21, 22,
    23, 24, 25, 26, 27, 28, 29, 30, 31]"
  by (simp add: upt_rec)

lemma u32_eqI: "list_all (\<lambda>n. bit a n = bit b n) [0..<32] \<Longrightarrow> a = (b :: u32)"
  by (rule bit_word_eqI) (simp add: list_all_iff)

lemma u16_eqI: "list_all (\<lambda>n. bit a n = bit b n) [0..<16] \<Longrightarrow> a = (b :: u16)"
  by (rule bit_word_eqI) (simp add: list_all_iff)

lemma u8_eqI: "list_all (\<lambda>n. bit a n = bit b n) [0..<8] \<Longrightarrow> a = (b :: u8)"
  by (rule bit_word_eqI) (simp add: list_all_iff)

lemma bit_if_0 [mask_simps]: "bit (if c then m else 0) n \<longleftrightarrow> c \<and> bit m n" for m :: "'a::len word"
  by simp

lemma and_exp_eq_0 [mask_simps]: "w AND 2 ^ n = 0 \<longleftrightarrow> \<not> bit w n" for w :: "'a::len word"
  using and_nonzero_bit [of w n] unfolding push_bit_of_1 by blast

lemma not_bit_if_less: "unat w < 2 ^ k \<Longrightarrow> k \<le> n \<Longrightarrow> \<not> bit w n" for w :: "'a::len word"
  using bit_imp_le_unat [of w n] power_increasing [of k n "2 :: nat"] by linarith

lemma not_bit_u32 [mask_simps]: "32 \<le> n \<Longrightarrow> \<not> bit w n" for w :: u32
  using bit_imp_le_length [of w n] by auto

lemma not_bit_u16 [mask_simps]: "16 \<le> n \<Longrightarrow> \<not> bit w n" for w :: u16
  using bit_imp_le_length [of w n] by auto

lemma not_bit_u8 [mask_simps]: "8 \<le> n \<Longrightarrow> \<not> bit w n" for w :: u8
  using bit_imp_le_length [of w n] by auto

lemma unat_Suc_less: "w < m \<Longrightarrow> unat (w + 1) = Suc (unat w) \<and> w + 1 \<le> m" for w m :: "'a::len word"
proof -
  assume "w < m"
  then have "unat w < unat m" by (simp add: word_less_nat_alt)
  moreover have "unat m < 2 ^ LENGTH('a)" by simp
  ultimately have "Suc (unat w) < 2 ^ LENGTH('a)" by linarith
  then have "unat (w + 1) = Suc (unat w)" by (cases "LENGTH('a) = 1") (simp_all add: unat_word_ariths)
  moreover note \<open>unat w < unat m\<close>
  ultimately show ?thesis by (simp add: word_le_nat_alt)
qed

section \<open>Invariants of objects\<close>

text \<open>
  An object with operations \<open>step\<close>, each of which keeps its invariant when its arguments are \<open>good\<close>:
  the invariant then holds after any sequence of them.
\<close>

locale class_invariant =
  fixes inv :: "'s \<Rightarrow> bool" and good :: "'o \<Rightarrow> bool" and step :: "'o \<Rightarrow> 's \<Rightarrow> 's"
  assumes keeps: "inv s \<Longrightarrow> good op \<Longrightarrow> inv (step op s)"
begin

lemma after_ops: "inv s \<Longrightarrow> list_all good ops \<Longrightarrow> inv (fold step ops s)"
  by (induction ops arbitrary: s) (simp_all add: keeps)

end

end
