(* ===== verification/SelfID_Wire.thy ===== *)
theory SelfID_Wire
  imports ASFW_Prelude
begin

text \<open>
  The Self-ID wire format of \<^verbatim>\<open>Bus/TopologyTypes.hpp\<close>: bit fields of a Self-ID quadlet, the
  port states, and \<open>SelfIDSequenceEnumerator\<close>, which cuts a quadlet stream into the packet
  sequences of the nodes. Quadlets are \<open>u32\<close> words; decoded small fields are numbers.
\<close>

section \<open>Bit fields\<close>

definition kSelfIDTagMask :: u32 where "kSelfIDTagMask = 0xC0000000"
definition kSelfIDTagValue :: u32 where "kSelfIDTagValue = 0x80000000"
definition kSelfIDPhyMask :: u32 where "kSelfIDPhyMask = 0x3F000000"
definition kSelfIDIsExtendedMask :: u32 where "kSelfIDIsExtendedMask = 0x00800000"
definition kSelfIDLinkActiveMask :: u32 where "kSelfIDLinkActiveMask = 0x00400000"
definition kSelfIDGapMask :: u32 where "kSelfIDGapMask = 0x003F0000"
definition kSelfIDSeqMask :: u32 where "kSelfIDSeqMask = 0x00700000"
definition kSelfIDSpeedMask :: u32 where "kSelfIDSpeedMask = 0x0000C000"
definition kSelfIDContenderMask :: u32 where "kSelfIDContenderMask = 0x00000800"
definition kSelfIDPowerMask :: u32 where "kSelfIDPowerMask = 0x00000700"
definition kSelfIDMoreMask :: u32 where "kSelfIDMoreMask = 0x00000001"

lemmas selfid_masks = kSelfIDTagMask_def kSelfIDTagValue_def kSelfIDPhyMask_def
  kSelfIDIsExtendedMask_def kSelfIDLinkActiveMask_def kSelfIDGapMask_def kSelfIDSeqMask_def
  kSelfIDSpeedMask_def kSelfIDContenderMask_def kSelfIDPowerMask_def kSelfIDMoreMask_def

datatype PortState = NotPresent | NotActive | Parent | Child

definition kInvalidPhysicalId :: nat where "kInvalidPhysicalId = 255"
definition kMaxFireWireNodes :: nat where "kMaxFireWireNodes = 63"
definition kMaxPhysicalIds :: nat where "kMaxPhysicalIds = 63"
definition kMaxPhyPorts :: nat where "kMaxPhyPorts = 16"

definition kSpeedToMbps :: "nat list" where
  "kSpeedToMbps = [100, 200, 400, 800, 1600, 3200, 6400, 12800]"

definition DecodePort :: "u32 \<Rightarrow> PortState" where
  "DecodePort code =
     (let c = code AND 3 in
      if c = 0 then NotPresent else if c = 1 then NotActive else if c = 2 then Parent else Child)"

definition DecodeSpeed :: "nat \<Rightarrow> nat" where
  "DecodeSpeed code =
     kSpeedToMbps ! (if code < length kSpeedToMbps then code else length kSpeedToMbps - 1)"

definition IsSelfIDTag :: "u32 \<Rightarrow> bool" where
  "IsSelfIDTag quad \<longleftrightarrow> quad AND kSelfIDTagMask = kSelfIDTagValue"

definition ExtractPhyID :: "u32 \<Rightarrow> nat" where
  "ExtractPhyID quad = cast8 (drop_bit 24 (quad AND kSelfIDPhyMask))"

definition IsExtended :: "u32 \<Rightarrow> bool" where
  "IsExtended quad \<longleftrightarrow> quad AND kSelfIDIsExtendedMask \<noteq> 0"

definition IsLinkActive :: "u32 \<Rightarrow> bool" where
  "IsLinkActive quad \<longleftrightarrow> quad AND kSelfIDLinkActiveMask \<noteq> 0"

definition IsInitiatedReset :: "u32 \<Rightarrow> bool" where
  "IsInitiatedReset quad \<longleftrightarrow> quad AND 2 \<noteq> 0"

definition ExtractGapCount :: "u32 \<Rightarrow> nat" where
  "ExtractGapCount quad = cast8 (drop_bit 16 (quad AND kSelfIDGapMask))"

definition ExtractSeq :: "u32 \<Rightarrow> nat" where
  "ExtractSeq quad = cast8 (drop_bit 20 (quad AND kSelfIDSeqMask))"

definition IsContender :: "u32 \<Rightarrow> bool" where
  "IsContender quad \<longleftrightarrow> quad AND kSelfIDContenderMask \<noteq> 0"

definition ExtractPowerClass :: "u32 \<Rightarrow> nat" where
  "ExtractPowerClass quad = unat (drop_bit 8 (quad AND kSelfIDPowerMask))"

definition ExtractSpeedCode :: "u32 \<Rightarrow> nat" where
  "ExtractSpeedCode quad = cast8 (drop_bit 14 (quad AND kSelfIDSpeedMask))"

definition HasMorePackets :: "u32 \<Rightarrow> bool" where
  "HasMorePackets quad \<longleftrightarrow> quad AND kSelfIDMoreMask \<noteq> 0"

definition ExtractPortState :: "u32 \<Rightarrow> nat \<Rightarrow> PortState" where
  "ExtractPortState quad portIndex =
     (if portIndex > 2 then NotPresent
      else DecodePort (drop_bit (6 - portIndex * 2) quad AND 3))"

section \<open>The sequence enumerator\<close>

definition kSelfIDSequenceMaximumQuadletCount :: nat where
  "kSelfIDSequenceMaximumQuadletCount = 4"

text \<open>
  \<open>cursor\<close> is a pointer into the quadlet vector: here an index into the list \<open>qs\<close> passed along,
  \<open>None\<close> for the null pointer. \<open>next_loop\<close> is the \<open>while\<close> loop of \<open>next()\<close>: \<open>start\<close> is the index
  of the current quadlet, \<open>count\<close> the quadlets of the sequence so far. It runs at most
  \<open>kSelfIDSequenceMaximumQuadletCount\<close> times.
\<close>

record SelfIDSequenceEnumerator =
  cursor :: "nat option"
  quadlet_count :: nat

function next_loop :: "u32 list \<Rightarrow> nat \<Rightarrow> nat \<Rightarrow> nat \<Rightarrow> nat \<Rightarrow> nat option" where
  "next_loop qs qcount start count sequence =
     (if qs ! start AND kSelfIDMoreMask \<noteq> 0 then
        (if count \<ge> qcount \<or> count \<ge> kSelfIDSequenceMaximumQuadletCount then None
         else if \<not> IsExtended (qs ! Suc start) \<or> sequence \<noteq> ExtractSeq (qs ! Suc start) then None
         else next_loop qs qcount (Suc start) (Suc count) (Suc sequence))
      else Some count)"
  by pat_completeness auto
termination
  by (relation "measure (\<lambda>(qs, qcount, start, count, sequence). qcount - count)") auto

declare next_loop.simps [simp del]

definition enumerator_next ::
  "u32 list \<Rightarrow> SelfIDSequenceEnumerator \<Rightarrow> ((nat \<times> nat) \<times> SelfIDSequenceEnumerator) option"
  where
  "enumerator_next qs e =
     (case cursor e of
        None \<Rightarrow> None
      | Some c \<Rightarrow>
          if quadlet_count e = 0 then None
          else (case next_loop qs (quadlet_count e) c 1 0 of
                  None \<Rightarrow> None
                | Some count \<Rightarrow>
                    Some ((c, count),
                      e\<lparr>cursor := Some (c + count), quadlet_count := quadlet_count e - count\<rparr>)))"

section \<open>Bounds of the decoded fields\<close>

lemma unat_drop_and_le:
  "unat (drop_bit k (quad AND m)) \<le> unat m div 2 ^ k" for quad m :: "'a::len word"
  using unat_and_le [of quad m]
  by (simp only: unat_drop_bit_eq) (simp add: drop_bit_eq_div div_le_mono)

lemma ExtractPhyID_le [mask_simps]: "ExtractPhyID q \<le> 63"
  using unat_drop_and_le [of 24 q kSelfIDPhyMask]
  by (simp add: ExtractPhyID_def cast8_def kSelfIDPhyMask_def)

lemma ExtractGapCount_le [mask_simps]: "ExtractGapCount q \<le> 63"
  using unat_drop_and_le [of 16 q kSelfIDGapMask]
  by (simp add: ExtractGapCount_def cast8_def kSelfIDGapMask_def)

lemma ExtractSeq_le [mask_simps]: "ExtractSeq q \<le> 7"
  using unat_drop_and_le [of 20 q kSelfIDSeqMask]
  by (simp add: ExtractSeq_def cast8_def kSelfIDSeqMask_def)

lemma ExtractSpeedCode_le [mask_simps]: "ExtractSpeedCode q \<le> 3"
  using unat_drop_and_le [of 14 q kSelfIDSpeedMask]
  by (simp add: ExtractSpeedCode_def cast8_def kSelfIDSpeedMask_def)

lemma ExtractPowerClass_le [mask_simps]: "ExtractPowerClass q \<le> 7"
  using unat_drop_and_le [of 8 q kSelfIDPowerMask]
  by (simp add: ExtractPowerClass_def kSelfIDPowerMask_def)

section \<open>The enumerator stays inside its buffer\<close>

text \<open>What a sequence found by the loop looks like.\<close>

lemma next_loop_bounds:
  assumes "next_loop qs qcount start count sequence = Some n" and "count \<le> qcount"
    and "count \<le> kSelfIDSequenceMaximumQuadletCount"
  shows "count \<le> n \<and> n \<le> qcount \<and> n \<le> kSelfIDSequenceMaximumQuadletCount"
  using assms
proof (induction qs qcount start count sequence rule: next_loop.induct)
  case (1 qs qcount start count sequence)
  then show ?case
    by (subst (asm) (2) next_loop.simps) (auto split: if_splits)
qed

text \<open>
  Quadlet \<open>k\<close> of a found sequence is an extended packet with sequence number \<open>k - 1\<close>, every
  quadlet but the last announces another one and the last does not.
\<close>

lemma next_loop_chain:
  assumes "next_loop qs qcount start count sequence = Some n"
  shows "(\<forall>k < n - count. HasMorePackets (qs ! (start + k)) \<and> IsExtended (qs ! Suc (start + k))
            \<and> ExtractSeq (qs ! Suc (start + k)) = sequence + k)
         \<and> \<not> HasMorePackets (qs ! (start + (n - count)))"
  using assms
proof (induction qs qcount start count sequence rule: next_loop.induct)
  case (1 qs qcount start count sequence)
  show ?case
  proof (cases "HasMorePackets (qs ! start)")
    case False
    with "1.prems" show ?thesis
      by (subst (asm) next_loop.simps) (auto simp: HasMorePackets_def)
  next
    case True
    with "1.prems" have step: "next_loop qs qcount (Suc start) (Suc count) (Suc sequence) = Some n"
      and ext: "IsExtended (qs ! Suc start)" "ExtractSeq (qs ! Suc start) = sequence"
      and lt: "count < qcount" "count < kSelfIDSequenceMaximumQuadletCount"
      by (subst (asm) next_loop.simps, auto simp: HasMorePackets_def split: if_splits)+
    have le: "Suc count \<le> n" using next_loop_bounds [OF step] lt by simp
    then have eq: "n - count = Suc (n - Suc count)" by simp
    have ih: "(\<forall>k < n - Suc count. HasMorePackets (qs ! (Suc start + k))
          \<and> IsExtended (qs ! Suc (Suc start + k))
          \<and> ExtractSeq (qs ! Suc (Suc start + k)) = Suc sequence + k)
        \<and> \<not> HasMorePackets (qs ! (Suc start + (n - Suc count)))"
      using "1.IH" step True ext lt by (simp add: HasMorePackets_def)
    show ?thesis unfolding eq
      using ih True ext by (auto simp: All_less_Suc2)
  qed
qed

section \<open>Port states by their two bits\<close>

lemma DecodePort_bits:
  "DecodePort w = (if bit w 1 then if bit w 0 then Child else Parent
                   else if bit w 0 then NotActive else NotPresent)"
  by (simp add: DecodePort_def and_3_bits Let_def)

lemma DecodePort_at:
  "DecodePort (drop_bit k w AND 3) =
     (if bit w (k + 1) then if bit w k then Child else Parent
      else if bit w k then NotActive else NotPresent)"
  by (simp add: DecodePort_bits bit_simps)

lemma IsExtended_bit: "IsExtended q \<longleftrightarrow> bit q 23"
  using and_nonzero_bit [of q 23] by (simp add: IsExtended_def kSelfIDIsExtendedMask_def)

lemma ExtractSeq_le_1_bit:
  assumes "ExtractSeq q \<le> 1"
  shows "\<not> bit q 22"
proof
  assume "bit q 22"
  then have "bit (drop_bit 20 (q AND kSelfIDSeqMask)) 2"
    by (simp add: bit_simps kSelfIDSeqMask_def bit_numeral_rec)
  from bit_imp_le_unat [OF this] have "4 \<le> unat (drop_bit 20 (q AND kSelfIDSeqMask))" by simp
  moreover have "unat (drop_bit 20 (q AND kSelfIDSeqMask)) \<le> 7"
    using unat_drop_and_le [of 20 q kSelfIDSeqMask] by (simp add: kSelfIDSeqMask_def)
  ultimately show False using assms by (simp add: ExtractSeq_def cast8_def)
qed

end
