(* ===== verification/SelfID_Capture.thy ===== *)
theory SelfID_Capture
  imports SelfID_Wire
begin

text \<open>
  \<^verbatim>\<open>Bus/SelfIDCapture.cpp\<close>: the Self-ID DMA buffer, its arming, and \<open>Decode\<close>, which validates the
  captured quadlets (controller error bit, capacity, generation double read, inverse pairs) and
  cuts them into sequences. DriverKit (buffer, mapping and DMA creation) and the register file are
  outside the sources: what they answer is an argument.
\<close>

section \<open>State\<close>

datatype kern_return = kIOReturnSuccess | kIOReturnBadArgument | kIOReturnNoMemory
  | kIOReturnNoResources | kIOReturnNotAligned | kIOReturnNotReady | kIOReturnUnsupported
  | kIOReturnOther u32

record SelfIDResult =
  res_quads :: "u32 list"
  res_sequences :: "(nat \<times> nat) list"
  res_generation :: u32
  res_valid :: bool
  res_timedOut :: bool
  res_crcError :: bool

datatype DecodeErrorCode = BufferUnavailable | ControllerErrorBit | EmptyCapture | CountOverflow
  | NullMapAddress | GenerationMismatch | InvalidInversePair | MalformedSequence

record DecodeError =
  de_code :: DecodeErrorCode
  de_countRegister :: u32
  de_generation :: u32
  de_quadletIndex :: nat

definition MakeDecodeError :: "DecodeErrorCode \<Rightarrow> u32 \<Rightarrow> u32 \<Rightarrow> nat \<Rightarrow> DecodeError" where
  "MakeDecodeError code countRegister generation quadletIndex =
     \<lparr>de_code = code, de_countRegister = countRegister, de_generation = generation,
      de_quadletIndex = quadletIndex\<rparr>"

text \<open>
  The mapped buffer is the address of the mapping and the quadlets it shows. \<open>buffer_\<close> and
  \<open>dmaCommand_\<close> only keep DriverKit objects alive; whether they are held is a flag.
\<close>

record SelfIDCapture =
  cap_buffer :: bool
  cap_dmaCommand :: bool
  cap_map :: "(u64 \<times> u32 list) option"
  cap_segmentAddress :: u64
  cap_segmentLength :: u64
  cap_segmentValid :: bool
  cap_bufferBytes :: u64
  cap_quadCapacity :: u64
  cap_armed :: bool

text \<open>What DriverKit answers to the calls of \<open>PrepareBuffers\<close>.\<close>

record DriverKitAnswers =
  dk_create :: "kern_return \<times> bool"
  dk_mapping :: "kern_return \<times> (u64 \<times> u32 list) option"
  dk_dmaCommand :: bool
  dk_prepare :: "kern_return \<times> nat \<times> u64 \<times> u64"

definition kSelfIDAlignment :: u64 where "kSelfIDAlignment = 2048"

definition RoundUp :: "u64 \<Rightarrow> u64 \<Rightarrow> u64" where
  "RoundUp value alignment = (value + alignment - 1) AND NOT (alignment - 1)"

definition ReleaseBuffers :: "SelfIDCapture \<Rightarrow> SelfIDCapture" where
  "ReleaseBuffers c = c\<lparr>cap_dmaCommand := False, cap_map := None, cap_buffer := False,
     cap_segmentValid := False, cap_bufferBytes := 0, cap_quadCapacity := 0, cap_armed := False\<rparr>"

definition PrepareBuffers ::
  "u64 \<Rightarrow> DriverKitAnswers \<Rightarrow> SelfIDCapture \<Rightarrow> kern_return \<times> SelfIDCapture" where
  "PrepareBuffers quadCapacity dk c0 =
     (let c = ReleaseBuffers c0 in
      if quadCapacity = 0 then (kIOReturnBadArgument, c)
      else
        let requestedBytes = quadCapacity * 4;
            allocBytes = RoundUp (max requestedBytes 2048) kSelfIDAlignment;
            (kr, descriptor) = dk_create dk
        in if kr \<noteq> kIOReturnSuccess \<or> \<not> descriptor
           then (if kr \<noteq> kIOReturnSuccess then kr else kIOReturnNoMemory, c)
           else
             let c = c\<lparr>cap_buffer := True, cap_bufferBytes := allocBytes\<rparr>;
                 (kr, map) = dk_mapping dk
             in if kr \<noteq> kIOReturnSuccess \<or> map = None
                then (if kr \<noteq> kIOReturnSuccess then kr else kIOReturnNoMemory, ReleaseBuffers c)
                else
                  let c = c\<lparr>cap_map := map\<rparr> in
                  if \<not> dk_dmaCommand dk then (kIOReturnNoResources, ReleaseBuffers c)
                  else
                    let c = c\<lparr>cap_dmaCommand := True\<rparr>;
                        (kr, segmentCount, address, len) = dk_prepare dk
                    in if kr \<noteq> kIOReturnSuccess \<or> segmentCount < 1 \<or> address = 0 \<or> len < allocBytes
                       then (if kr \<noteq> kIOReturnSuccess then kr else kIOReturnNoResources,
                             ReleaseBuffers c)
                       else if address AND (kSelfIDAlignment - 1) \<noteq> 0
                       then (kIOReturnNotAligned, ReleaseBuffers c)
                       else
                         (kIOReturnSuccess,
                          c\<lparr>cap_segmentAddress := address, cap_segmentLength := len,
                            cap_segmentValid := True, cap_quadCapacity := allocBytes div 4,
                            cap_map := map_option (\<lambda>(a, qs).
                                if a \<noteq> 0 then (a, replicate (unat (allocBytes div 4)) 0)
                                else (a, qs)) map,
                            cap_armed := False\<rparr>))"

text \<open>
  \<open>TryBeginAccess\<close> fails when the hardware is gone: \<open>access\<close> says whether it succeeded. The result
  carries the value written to the \<open>SelfIDBuffer\<close> register, if one is written.
\<close>

definition Arm :: "bool \<Rightarrow> SelfIDCapture \<Rightarrow> kern_return \<times> u32 option \<times> SelfIDCapture" where
  "Arm access c =
     (if \<not> cap_segmentValid c then (kIOReturnNotReady, None, c)
      else if cap_segmentAddress c > 0xFFFFFFFF then (kIOReturnUnsupported, None, c)
      else if access
        then (kIOReturnSuccess, Some (ucast (cap_segmentAddress c)), c\<lparr>cap_armed := True\<rparr>)
      else (kIOReturnNotReady, None, c))"

definition Disarm :: "bool \<Rightarrow> SelfIDCapture \<Rightarrow> u32 option \<times> SelfIDCapture" where
  "Disarm access c =
     (if cap_armed c \<and> access then Some 0 else None, c\<lparr>cap_armed := False\<rparr>)"

section \<open>Decoding\<close>

definition kSizeMask :: u32 where "kSizeMask = 0x000007FC"
definition kGenerationMask :: u32 where "kGenerationMask = 0x00FF0000"
definition kError :: u32 where "kError = 0x80000000"

text \<open>The loop over the (quadlet, inverse) pairs; \<open>Inl\<close> is the index of the first bad pair.\<close>

fun normalize_pairs :: "nat \<Rightarrow> u32 list \<Rightarrow> nat + u32 list" where
  "normalize_pairs index (quadlet # inversed # rest) =
     (if quadlet \<noteq> NOT inversed then Inl index
      else ebind (normalize_pairs (index + 2) rest) (\<lambda>qs. Inr (quadlet # qs)))"
| "normalize_pairs index _ = Inr []"

definition NormalizeSelfIDQuadlets :: "u32 list \<Rightarrow> u32 \<Rightarrow> u32 \<Rightarrow> DecodeError + u32 list" where
  "NormalizeSelfIDQuadlets rawQuadlets countRegister generation =
     (if length rawQuadlets \<le> 1 then Inl (MakeDecodeError EmptyCapture countRegister generation 0)
      else
        let payload = tl rawQuadlets in
        if length payload mod 2 \<noteq> 0
        then Inl (MakeDecodeError InvalidInversePair countRegister generation
                    (length rawQuadlets - 1))
        else (case normalize_pairs 0 payload of
                Inl index \<Rightarrow>
                  Inl (MakeDecodeError InvalidInversePair countRegister generation (index + 1))
              | Inr qs \<Rightarrow> Inr (hd rawQuadlets # qs)))"

function decode_loop ::
  "u32 list \<Rightarrow> SelfIDSequenceEnumerator \<Rightarrow> (nat \<times> nat) list \<Rightarrow> (nat \<times> nat) list option" where
  "decode_loop qs e sequences =
     (if quadlet_count e = 0 then Some sequences
      else (case cursor e of
              None \<Rightarrow> None
            | Some c \<Rightarrow>
                if \<not> IsSelfIDTag (qs ! c) then None
                else (case enumerator_next qs e of
                        None \<Rightarrow> None
                      | Some (item, e') \<Rightarrow> decode_loop qs e' (sequences @ [item]))))"
  by pat_completeness auto
termination
  by (relation "measure (\<lambda>(qs, e, sequences). quadlet_count e)")
     (auto simp: enumerator_next_def kSelfIDSequenceMaximumQuadletCount_def
       split: if_splits option.splits dest!: next_loop_bounds)

declare decode_loop.simps [simp del]

text \<open>The end of \<open>Decode\<close>: the result of a validated capture, or a malformed sequence.\<close>

definition decode_quads :: "u32 \<Rightarrow> u32 \<Rightarrow> u32 list \<Rightarrow> DecodeError + SelfIDResult" where
  "decode_quads selfIDCountReg generation quads =
     (let e = (if length quads > 1 then \<lparr>cursor = Some 1, quadlet_count = length quads - 1\<rparr>
               else \<lparr>cursor = None, quadlet_count = 0\<rparr>)
      in case decode_loop quads e [] of
           None \<Rightarrow> Inl (MakeDecodeError MalformedSequence selfIDCountReg generation 0)
         | Some sequences \<Rightarrow>
             Inr \<lparr>res_quads = quads, res_sequences = sequences, res_generation = generation,
                  res_valid = True, res_timedOut = False, res_crcError = False\<rparr>)"

text \<open>
  \<open>count2\<close> is the second read of the \<open>SelfIDCount\<close> register, \<open>None\<close> when register access is refused.
\<close>

definition Decode :: "u32 \<Rightarrow> u32 option \<Rightarrow> SelfIDCapture \<Rightarrow> DecodeError + SelfIDResult" where
  "Decode selfIDCountReg count2 c =
     (case cap_map c of
        None \<Rightarrow> Inl (MakeDecodeError BufferUnavailable selfIDCountReg 0 0)
      | Some (addr, buf) \<Rightarrow>
          if \<not> cap_segmentValid c then Inl (MakeDecodeError BufferUnavailable selfIDCountReg 0 0)
          else
            let quadCount = drop_bit 2 (selfIDCountReg AND kSizeMask);
                generation = drop_bit 16 (selfIDCountReg AND kGenerationMask)
            in if quadCount = 0 then Inl (MakeDecodeError EmptyCapture selfIDCountReg generation 0)
               else if selfIDCountReg AND kError \<noteq> 0
               then Inl (MakeDecodeError ControllerErrorBit selfIDCountReg generation 0)
               else if unat quadCount > unat (cap_quadCapacity c)
               then Inl (MakeDecodeError CountOverflow selfIDCountReg generation 0)
               else if addr = 0 then Inl (MakeDecodeError NullMapAddress selfIDCountReg generation 0)
               else
                 let genMem = drop_bit 16 (buf ! 0) AND 0xFF in
                 (case count2 of
                    None \<Rightarrow> Inl (MakeDecodeError BufferUnavailable selfIDCountReg generation 0)
                  | Some reg2 \<Rightarrow>
                      if generation \<noteq> genMem
                      then Inl (MakeDecodeError GenerationMismatch selfIDCountReg generation 0)
                      else if generation \<noteq> drop_bit 16 (reg2 AND kGenerationMask)
                      then Inl (MakeDecodeError GenerationMismatch selfIDCountReg generation 0)
                      else
                        ebind (NormalizeSelfIDQuadlets (take (unat quadCount) buf) selfIDCountReg
                                 generation)
                          (decode_quads selfIDCountReg generation)))"

section \<open>What a decoded stream looks like\<close>

text \<open>
  Consecutive sequences \<open>(start, count)\<close> that cover the indices from \<open>a\<close> to \<open>b\<close> without gap or
  overlap, and the shape of one sequence: a tagged base quadlet followed by extended quadlets
  numbered from zero, every quadlet but the last announcing another one.
\<close>

fun seq_chain :: "nat \<Rightarrow> nat \<Rightarrow> (nat \<times> nat) list \<Rightarrow> bool" where
  "seq_chain a b [] \<longleftrightarrow> a = b"
| "seq_chain a b ((s, n) # xs) \<longleftrightarrow> s = a \<and> 1 \<le> n \<and> n \<le> 4 \<and> seq_chain (a + n) b xs"

definition sequence_ok :: "u32 list \<Rightarrow> nat \<times> nat \<Rightarrow> bool" where
  "sequence_ok qs sn \<longleftrightarrow> (case sn of (s, n) \<Rightarrow>
     IsSelfIDTag (qs ! s)
     \<and> (\<forall>k < n - 1. HasMorePackets (qs ! (s + k)) \<and> IsExtended (qs ! Suc (s + k))
            \<and> ExtractSeq (qs ! Suc (s + k)) = k)
     \<and> \<not> HasMorePackets (qs ! (s + (n - 1))))"

lemma seq_chain_le: "seq_chain a b xs \<Longrightarrow> a \<le> b"
  by (induction a b xs rule: seq_chain.induct) auto

lemma next_loop_complete:
  assumes "\<forall>k < n - count. HasMorePackets (qs ! (start + k)) \<and> IsExtended (qs ! Suc (start + k))
              \<and> ExtractSeq (qs ! Suc (start + k)) = sequence + k"
    and "\<not> HasMorePackets (qs ! (start + (n - count)))"
    and "count \<le> n" and "n \<le> qcount" and "n \<le> kSelfIDSequenceMaximumQuadletCount"
  shows "next_loop qs qcount start count sequence = Some n"
  using assms
proof (induction qs qcount start count sequence rule: next_loop.induct)
  case (1 qs qcount start count sequence)
  show ?case
  proof (cases "count = n")
    case True
    with "1.prems" show ?thesis by (subst next_loop.simps) (simp add: HasMorePackets_def)
  next
    case False
    with "1.prems" have lt: "count < n" by simp
    then have eq: "n - count = Suc (n - Suc count)" by simp
    from "1.prems"(1) [unfolded eq]
    have here: "HasMorePackets (qs ! start)" "IsExtended (qs ! Suc start)"
        "ExtractSeq (qs ! Suc start) = sequence"
      and rest: "\<forall>k < n - Suc count. HasMorePackets (qs ! (Suc start + k))
          \<and> IsExtended (qs ! Suc (Suc start + k))
          \<and> ExtractSeq (qs ! Suc (Suc start + k)) = Suc sequence + k"
      by (auto simp: All_less_Suc2)
    from "1.prems"(2) [unfolded eq] have "\<not> HasMorePackets (qs ! (Suc start + (n - Suc count)))"
      by simp
    with "1.IH" here rest lt "1.prems"(4,5)
    have "next_loop qs qcount (Suc start) (Suc count) (Suc sequence) = Some n"
      by (simp add: HasMorePackets_def)
    with here lt "1.prems"(4,5) show ?thesis
      by (subst next_loop.simps) (simp add: HasMorePackets_def)
  qed
qed

lemma enumerator_next_iff:
  assumes "cursor e = Some c" and "0 < quadlet_count e" and "IsSelfIDTag (qs ! c)"
  shows "enumerator_next qs e = Some ((s, n), e') \<longleftrightarrow>
    s = c \<and> 1 \<le> n \<and> n \<le> 4 \<and> n \<le> quadlet_count e \<and> sequence_ok qs (c, n)
    \<and> e' = e\<lparr>cursor := Some (c + n), quadlet_count := quadlet_count e - n\<rparr>"
    (is "?L = ?R")
proof
  assume ?L
  then have nl: "next_loop qs (quadlet_count e) c 1 0 = Some n" and
    rest: "s = c" "e' = e\<lparr>cursor := Some (c + n), quadlet_count := quadlet_count e - n\<rparr>"
    using assms by (auto simp: enumerator_next_def split: option.splits)
  have "1 \<le> n \<and> n \<le> quadlet_count e \<and> n \<le> 4"
    using next_loop_bounds [OF nl] assms(2) by (simp add: kSelfIDSequenceMaximumQuadletCount_def)
  moreover have "sequence_ok qs (c, n)"
    using next_loop_chain [OF nl] assms(3) by (simp add: sequence_ok_def)
  ultimately show ?R using rest by simp
next
  assume R: ?R
  then have "next_loop qs (quadlet_count e) c 1 0 = Some n"
    by (intro next_loop_complete)
       (auto simp: sequence_ok_def kSelfIDSequenceMaximumQuadletCount_def)
  with R assms show ?L by (simp add: enumerator_next_def)
qed

text \<open>
  The decoding loop finds a cover of the stream by well-formed sequences exactly when there is
  one, and it is the only one.
\<close>

lemma decode_loop_iff:
  assumes "cursor e = Some c"
  shows "decode_loop qs e acc = Some seqs \<longleftrightarrow>
    (\<exists>new. seqs = acc @ new \<and> seq_chain c (c + quadlet_count e) new
           \<and> list_all (sequence_ok qs) new)"
  using assms
proof (induction qs e acc arbitrary: c rule: decode_loop.induct)
  case (1 qs e acc)
  show ?case
  proof (cases "quadlet_count e = 0 \<or> \<not> IsSelfIDTag (qs ! c)")
    case True
    have "seq_chain c (c + quadlet_count e) new \<and> list_all (sequence_ok qs) new \<longleftrightarrow>
        quadlet_count e = 0 \<and> new = []" for new
    proof (cases new)
      case (Cons x xs)
      then show ?thesis using True
        by (cases x) (auto simp: sequence_ok_def dest: seq_chain_le)
    qed auto
    moreover have "decode_loop qs e acc = Some seqs \<longleftrightarrow> quadlet_count e = 0 \<and> seqs = acc"
      using True "1.prems" by (subst decode_loop.simps) auto
    ultimately show ?thesis by auto
  next
    case False
    then have pos: "0 < quadlet_count e" and tag: "IsSelfIDTag (qs ! c)" by auto
    note nx = enumerator_next_iff [OF "1.prems" pos tag]
    have unfold: "decode_loop qs e acc = Some seqs \<longleftrightarrow>
        (\<exists>n e'. enumerator_next qs e = Some ((c, n), e')
           \<and> decode_loop qs e' (acc @ [(c, n)]) = Some seqs)"
    proof -
      have "decode_loop qs e acc = (case enumerator_next qs e of None \<Rightarrow> None
          | Some (item, e') \<Rightarrow> decode_loop qs e' (acc @ [item]))"
        using pos tag "1.prems" by (subst decode_loop.simps) simp
      moreover have "s = c" if "enumerator_next qs e = Some ((s, n), e')" for s n e'
        using that unfolding nx by simp
      ultimately show ?thesis by (cases "enumerator_next qs e") auto
    qed
    have step: "decode_loop qs e' (acc @ [(c, n)]) = Some seqs \<longleftrightarrow>
        (\<exists>new. seqs = (acc @ [(c, n)]) @ new \<and> seq_chain (c + n) (c + quadlet_count e) new
           \<and> list_all (sequence_ok qs) new)"
      if "enumerator_next qs e = Some ((c, n), e')" for n e'
    proof -
      from that have cur: "cursor e' = Some (c + n)"
        and eq: "c + n + quadlet_count e' = c + quadlet_count e"
        unfolding nx by auto
      from "1.IH" [OF _ "1.prems" _ that refl cur] pos tag show ?thesis
        unfolding eq by simp
    qed
    show ?thesis
    proof
      assume "decode_loop qs e acc = Some seqs"
      then obtain n e' where en: "enumerator_next qs e = Some ((c, n), e')"
        and "decode_loop qs e' (acc @ [(c, n)]) = Some seqs" unfolding unfold by blast
      then obtain new where "seqs = (acc @ [(c, n)]) @ new"
        "seq_chain (c + n) (c + quadlet_count e) new" "list_all (sequence_ok qs) new"
        unfolding step [OF en] by blast
      then show "\<exists>new. seqs = acc @ new \<and> seq_chain c (c + quadlet_count e) new
           \<and> list_all (sequence_ok qs) new"
        using en unfolding nx by (intro exI [of _ "(c, n) # new"]) simp
    next
      assume "\<exists>new. seqs = acc @ new \<and> seq_chain c (c + quadlet_count e) new
           \<and> list_all (sequence_ok qs) new"
      then obtain all where all: "seqs = acc @ all" "seq_chain c (c + quadlet_count e) all"
        "list_all (sequence_ok qs) all" by blast
      then obtain s n new where "all = (s, n) # new" using pos by (cases all) auto
      with all have *: "seqs = acc @ (c, n) # new" "1 \<le> n" "n \<le> 4"
        "seq_chain (c + n) (c + quadlet_count e) new" "sequence_ok qs (c, n)"
        "list_all (sequence_ok qs) new" by auto
      then have "n \<le> quadlet_count e" using seq_chain_le by fastforce
      with * have en: "enumerator_next qs e = Some ((c, n),
          e\<lparr>cursor := Some (c + n), quadlet_count := quadlet_count e - n\<rparr>)"
        unfolding nx by simp
      show "decode_loop qs e acc = Some seqs"
        unfolding unfold using en step [OF en] * by auto
    qed
  qed
qed

text \<open>Inverse pairs: the normalized stream is exactly what the controller interleaved.\<close>

definition interleave :: "u32 list \<Rightarrow> u32 list" where
  "interleave qs = concat (map (\<lambda>q. [q, NOT q]) qs)"

lemma normalize_pairs_iff:
  "even (length payload) \<Longrightarrow> normalize_pairs i payload = Inr qs \<longleftrightarrow> payload = interleave qs"
proof (induction i payload arbitrary: qs rule: normalize_pairs.induct)
  case (1 index quadlet inversed rest)
  then show ?case
    by (cases qs) (auto simp: interleave_def ebind_eq_Inr)
qed (auto simp: interleave_def Cons_eq_append_conv)

lemma NormalizeSelfIDQuadlets_iff:
  "NormalizeSelfIDQuadlets raw reg g = Inr quads \<longleftrightarrow>
     (\<exists>h qs. quads = h # qs \<and> qs \<noteq> [] \<and> raw = h # interleave qs)"
proof -
  have len: "length (interleave qs) = 2 * length qs" for qs
    by (induction qs) (auto simp: interleave_def)
  show ?thesis
  proof (cases raw)
    case Nil
    then show ?thesis by (simp add: NormalizeSelfIDQuadlets_def)
  next
    case (Cons h payload)
    show ?thesis
    proof (cases "payload = [] \<or> odd (length payload)")
      case True
      moreover have "payload \<noteq> interleave qs" if "qs \<noteq> []" for qs
        using True that len [of qs] by auto
      ultimately show ?thesis using Cons
        by (auto simp: NormalizeSelfIDQuadlets_def Let_def odd_iff_mod_2_eq_one
            split: sum.splits)
    next
      case False
      with Cons have "NormalizeSelfIDQuadlets raw reg g = Inr quads \<longleftrightarrow>
          (\<exists>qs. normalize_pairs 0 payload = Inr qs \<and> quads = h # qs)"
        by (auto simp: NormalizeSelfIDQuadlets_def Let_def even_iff_mod_2_eq_zero
            split: sum.splits)
      also have "\<dots> \<longleftrightarrow> (\<exists>qs. payload = interleave qs \<and> quads = h # qs)"
        using False by (simp add: normalize_pairs_iff)
      also have "\<dots> \<longleftrightarrow> (\<exists>k qs. quads = k # qs \<and> qs \<noteq> [] \<and> raw = k # interleave qs)"
      proof -
        have "qs \<noteq> []" if "payload = interleave qs" for qs
          using False that by (auto simp: interleave_def)
        then show ?thesis unfolding Cons by blast
      qed
      finally show ?thesis .
    qed
  qed
qed

section \<open>Buffer geometry\<close>

lemma unat_RoundUp:
  assumes "unat v + 2047 < 2 ^ 64"
  shows "unat (RoundUp v kSelfIDAlignment) = (unat v + 2047) div 2048 * 2048"
proof -
  have "RoundUp v kSelfIDAlignment = (v + 2047) AND NOT (mask 11)"
    by (simp add: RoundUp_def kSelfIDAlignment_def mask_eq_exp_minus_1 add.commute)
  also have "\<dots> = push_bit 11 (drop_bit 11 (v + 2047))"
    by (rule bit_word_eqI) (auto simp: bit_simps)
  finally have "unat (RoundUp v kSelfIDAlignment) = unat (drop_bit 11 (v + 2047)) * 2048 mod 2 ^ 64"
    by (simp add: push_bit_eq_mult unat_word_ariths)
  moreover have "unat (v + 2047) = unat v + 2047"
    using assms by (simp add: unat_word_ariths)
  ultimately have "unat (RoundUp v kSelfIDAlignment) = (unat v + 2047) div 2048 * 2048 mod 2 ^ 64"
    by (simp add: drop_bit_eq_div unat_div)
  moreover have "(unat v + 2047) div 2048 * 2048 < 2 ^ 64"
    using assms by (meson div_times_less_eq_dividend le_less_trans)
  ultimately show ?thesis by simp
qed

text \<open>
  \<open>PrepareBuffers\<close> either fails with everything released (no mapping, no valid segment, zero
  capacity, not armed), or succeeds with a non-null, 2048-aligned DMA segment at least as long as
  the buffer, whose length is a multiple of 2048, with room for the requested quadlets, and not yet
  armed.
\<close>

lemma PrepareBuffers_correct:
  assumes "PrepareBuffers quadCapacity dk c = (kr, c')"
    and "unat quadCapacity * 4 + 4095 < 2 ^ 64"
  shows "if kr = kIOReturnSuccess
    then cap_segmentValid c' \<and> \<not> cap_armed c' \<and> cap_map c' \<noteq> None
      \<and> cap_segmentAddress c' \<noteq> 0 \<and> cap_segmentAddress c' AND 2047 = 0
      \<and> cap_bufferBytes c' \<le> cap_segmentLength c'
      \<and> 2048 dvd unat (cap_bufferBytes c')
      \<and> unat (cap_quadCapacity c') = unat (cap_bufferBytes c') div 4
      \<and> unat quadCapacity \<le> unat (cap_quadCapacity c')
    else \<not> cap_segmentValid c' \<and> cap_map c' = None \<and> cap_quadCapacity c' = 0 \<and> \<not> cap_armed c'"
proof -
  let ?r = "max (quadCapacity * 4) 2048"
  let ?a = "RoundUp ?r kSelfIDAlignment"
  have mult: "unat (quadCapacity * 4) = unat quadCapacity * 4"
    using assms(2) by (simp add: unat_word_ariths)
  have r: "unat ?r = max (unat quadCapacity * 4) 2048"
    by (simp add: max_def word_le_nat_alt mult)
  then have "unat ?a = (unat ?r + 2047) div 2048 * 2048"
    using assms(2) by (intro unat_RoundUp) simp
  then have a: "2048 dvd unat ?a" "unat quadCapacity * 4 \<le> unat ?a"
    using r by auto
  then have cap: "unat quadCapacity \<le> unat (?a div 4)"
    by (simp add: unat_div)
  show ?thesis
    using assms(1) a cap
    by (auto simp: PrepareBuffers_def ReleaseBuffers_def Let_def kSelfIDAlignment_def unat_div
        split: prod.splits if_splits)
qed

section \<open>Decoding is exact\<close>

lemma Decode_iff:
  assumes "cap_map c = Some (addr, buf)" and "addr \<noteq> 0" and "cap_segmentValid c"
    and "length buf = unat (cap_quadCapacity c)"
  shows "Decode reg (Some reg2) c = Inr r \<longleftrightarrow>
    (let n = unat (drop_bit 2 (reg AND kSizeMask)); g = drop_bit 16 (reg AND kGenerationMask) in
     n \<noteq> 0 \<and> n \<le> length buf \<and> reg AND kError = 0
     \<and> g = drop_bit 16 (reg2 AND kGenerationMask)
     \<and> (\<exists>h qs seqs. qs \<noteq> [] \<and> take n buf = h # interleave qs \<and> g = drop_bit 16 h AND 0xFF
          \<and> seq_chain 1 (length qs + 1) seqs \<and> list_all (sequence_ok (h # qs)) seqs
          \<and> r = \<lparr>res_quads = h # qs, res_sequences = seqs, res_generation = g,
                 res_valid = True, res_timedOut = False, res_crcError = False\<rparr>))"
proof -
  let ?n = "unat (drop_bit 2 (reg AND kSizeMask))"
  let ?g = "drop_bit 16 (reg AND kGenerationMask)"
  have head: "buf ! 0 = h" if "take k buf = h # xs" for k h xs
    using that by (cases k; cases buf) auto
  have zero: "drop_bit 2 (reg AND kSizeMask) = 0 \<longleftrightarrow> ?n = 0"
    by (simp add: unat_eq_0)
  have loop: "decode_loop (h # qs) \<lparr>cursor = Some 1, quadlet_count = length qs\<rparr> [] = Some seqs \<longleftrightarrow>
      seq_chain 1 (length qs + 1) seqs \<and> list_all (sequence_ok (h # qs)) seqs" for h qs seqs
    using decode_loop_iff [of "\<lparr>cursor = Some 1, quadlet_count = length qs\<rparr>" 1 "h # qs" "[]" seqs]
    by (simp add: add.commute)
  show ?thesis
  proof (cases "?n \<noteq> 0 \<and> ?n \<le> length buf \<and> reg AND kError = 0
      \<and> ?g = drop_bit 16 (buf ! 0) AND 0xFF \<and> ?g = drop_bit 16 (reg2 AND kGenerationMask)")
    case False
    then show ?thesis
      using assms zero head by (auto simp: Decode_def Let_def)
  next
    case True
    then have "Decode reg (Some reg2) c =
        ebind (NormalizeSelfIDQuadlets (take ?n buf) reg ?g) (decode_quads reg ?g)"
      using assms zero by (auto simp add: Decode_def Let_def)
    also have "\<dots> = Inr r \<longleftrightarrow> (\<exists>h qs seqs. qs \<noteq> [] \<and> take ?n buf = h # interleave qs
        \<and> decode_loop (h # qs) \<lparr>cursor = Some 1, quadlet_count = length qs\<rparr> [] = Some seqs
        \<and> r = \<lparr>res_quads = h # qs, res_sequences = seqs, res_generation = ?g,
                 res_valid = True, res_timedOut = False, res_crcError = False\<rparr>)"
      unfolding ebind_eq_Inr NormalizeSelfIDQuadlets_iff
      by (fastforce simp: decode_quads_def split: option.splits)
    finally show ?thesis
      unfolding loop Let_def using True head by metis
  qed
qed

text \<open>
  With a mapped buffer, \<open>Decode\<close> returns a result exactly when the controller reports no error
  and a non-zero quadlet count within the buffer, the generations of the register, of the buffer
  header and of the second register read agree, the quadlets after the header are pairs of a
  quadlet and its complement, and the quadlets without their complements are covered, in order and
  without gap, by well-formed Self-ID sequences of one to four quadlets. The result then holds
  those quadlets and that cover.
\<close>

lemma Decode_exact:
  assumes "cap_map c = Some (addr, buf)" and "addr \<noteq> 0" and "cap_segmentValid c"
    and "length buf = unat (cap_quadCapacity c)"
  shows "Decode reg (Some reg2) c = Inr r \<longleftrightarrow>
    (let n = unat (drop_bit 2 (reg AND kSizeMask)); g = drop_bit 16 (reg AND kGenerationMask) in
     n \<noteq> 0 \<and> n \<le> length buf \<and> reg AND kError = 0
     \<and> g = drop_bit 16 (reg2 AND kGenerationMask)
     \<and> (\<exists>h qs seqs. qs \<noteq> [] \<and> take n buf = h # interleave qs \<and> g = drop_bit 16 h AND 0xFF
          \<and> seq_chain 1 (length qs + 1) seqs \<and> list_all (sequence_ok (h # qs)) seqs
          \<and> r = \<lparr>res_quads = h # qs, res_sequences = seqs, res_generation = g,
                 res_valid = True, res_timedOut = False, res_crcError = False\<rparr>))"
  using assms by (rule Decode_iff)

section \<open>Witnesses\<close>

definition sample_capture :: "u64 \<Rightarrow> u32 list \<Rightarrow> SelfIDCapture" where
  "sample_capture addr buf =
     \<lparr>cap_buffer = True, cap_dmaCommand = True, cap_map = Some (addr, buf), cap_segmentAddress = 0x1000,
      cap_segmentLength = 0x800, cap_segmentValid = True, cap_bufferBytes = 0x800,
      cap_quadCapacity = of_nat (length buf), cap_armed = True\<rparr>"

definition sample_driverkit :: DriverKitAnswers where
  "sample_driverkit =
     \<lparr>dk_create = (kIOReturnSuccess, True), dk_mapping = (kIOReturnSuccess, Some (0x7000, [])),
      dk_dmaCommand = True, dk_prepare = (kIOReturnSuccess, 1, 0x4000, 0x800)\<rparr>"

text \<open>One node on the bus: a header, its Self-ID quadlet and the complement.\<close>

end
