(* ===== verification/SelfID_Parser.thy ===== *)
theory SelfID_Parser
  imports SelfID_Capture
begin

text \<open>
  \<^verbatim>\<open>Bus/SelfIDStreamParser.cpp\<close>: from the captured sequences to one record per node, ordered by
  physical ID, with the records and error codes of \<^verbatim>\<open>Bus/TopologyTypes.hpp\<close>.
\<close>

section \<open>Records and errors\<close>

datatype TopologyBuildErrorCode = NoError | InvalidSelfID | EmptySequenceSet
  | NonContiguousPhysicalIds | DuplicatePhysicalId | MissingBasePacket | InvalidExtendedPacketOrder
  | NonRootWithoutParentPort | RootHasParentPort | ChildPortWithEmptyStack
  | PoppedNodeHasNoUnresolvedParent | UnresolvedStackAfterRoot | ReciprocalLinkMissing
  | EdgeCountMismatch | LocalNodeUnavailable

record TopologyBuildError =
  be_code :: TopologyBuildErrorCode
  be_detail :: string

definition build_error :: "TopologyBuildErrorCode \<Rightarrow> string \<Rightarrow> TopologyBuildError" where
  "build_error code detail = \<lparr>be_code = code, be_detail = detail\<rparr>"

text \<open>\<open>std::to_string\<close> of an unsigned number.\<close>

fun to_string :: "nat \<Rightarrow> string" where
  "to_string n = (if n < 10 then [char_of (n + 48)]
                  else to_string (n div 10) @ [char_of (n mod 10 + 48)])"

declare to_string.simps [simp del]

record SelfIDNodeRecord =
  sr_physicalId :: nat
  sr_linkActive :: bool
  sr_contender :: bool
  sr_initiatedReset :: bool
  sr_gapCount :: nat
  sr_powerClass :: nat
  sr_speedCode :: nat
  sr_maxSpeedMbps :: nat
  sr_baseRaw :: u32
  sr_ports :: "PortState list"
  sr_portCount :: nat
  sr_hasBasePacket :: bool

section \<open>Parsing\<close>

text \<open>The body of the loop over the extended quadlets: ports 3 to 10 or 11 to 15.\<close>

definition extended_ports :: "u32 \<Rightarrow> PortState list \<Rightarrow> PortState list" where
  "extended_ports extQuad ports =
     (if ExtractSeq extQuad = 0
      then fold (\<lambda>p ps. ps[3 + p := DecodePort (drop_bit (22 - p * 2) extQuad AND 3)]) [0..<8] ports
      else if ExtractSeq extQuad = 1
      then fold (\<lambda>p ps. ps[11 + p := DecodePort (drop_bit (22 - p * 2) extQuad AND 3)]) [0..<5] ports
      else ports)"

definition base_ports :: "u32 \<Rightarrow> PortState list" where
  "base_ports baseQuad =
     (replicate kMaxPhyPorts NotPresent)
       [0 := ExtractPortState baseQuad 0, 1 := ExtractPortState baseQuad 1,
        2 := ExtractPortState baseQuad 2]"

text \<open>The number of ports kept: one more than the highest port that is present.\<close>

definition actual_port_count :: "PortState list \<Rightarrow> nat" where
  "actual_port_count ports =
     fold (\<lambda>p actual. if ports ! p \<noteq> NotPresent then p + 1 else actual) [0..<kMaxPhyPorts] 0"

text \<open>The record of one sequence: its base quadlet and the extended quadlets after it.\<close>

definition sequence_record :: "u32 \<Rightarrow> u32 list \<Rightarrow> SelfIDNodeRecord" where
  "sequence_record baseQuad extQuads =
     (let ports = fold extended_ports extQuads (base_ports baseQuad) in
      \<lparr>sr_physicalId = ExtractPhyID baseQuad,
       sr_linkActive = IsLinkActive baseQuad,
       sr_contender = IsContender baseQuad,
       sr_initiatedReset = IsInitiatedReset baseQuad,
       sr_gapCount = ExtractGapCount baseQuad,
       sr_powerClass = ExtractPowerClass baseQuad,
       sr_speedCode = ExtractSpeedCode baseQuad,
       sr_maxSpeedMbps = DecodeSpeed (ExtractSpeedCode baseQuad),
       sr_baseRaw = baseQuad,
       sr_ports = ports,
       sr_portCount = actual_port_count ports,
       sr_hasBasePacket = True\<rparr>)"

definition parse_sequence ::
  "u32 list \<Rightarrow> nat \<times> nat \<Rightarrow> (nat \<rightharpoonup> SelfIDNodeRecord) \<Rightarrow> TopologyBuildError + (nat \<rightharpoonup> SelfIDNodeRecord)"
  where
  "parse_sequence quads sn nodeMap =
     (let (first, count) = sn in
      if first \<ge> length quads \<or> first + count > length quads
      then Inl (build_error InvalidSelfID ''Self-ID sequence bounds exceed buffer'')
      else if count = 0 then Inr nodeMap
      else
        let baseQuad = quads ! first; phyId = ExtractPhyID baseQuad in
        if phyId \<ge> kMaxFireWireNodes
        then Inl (build_error InvalidSelfID
                   (''Self-ID packet contains out-of-range physical ID: '' @ to_string phyId))
        else if nodeMap phyId \<noteq> None
        then Inl (build_error DuplicatePhysicalId
                   (''Duplicate physical ID in Self-ID stream: '' @ to_string phyId))
        else Inr (nodeMap(phyId \<mapsto> sequence_record baseQuad
                                       (map (\<lambda>i. quads ! (first + i)) [1..<count]))))"

text \<open>\<open>std::map<uint8_t, ...>\<close> is iterated in increasing key order.\<close>

definition map_keys :: "(nat \<rightharpoonup> 'a) \<Rightarrow> nat list" where
  "map_keys m = filter (\<lambda>i. m i \<noteq> None) [0..<256]"

definition ValidateContiguousPhysicalIds :: "SelfIDNodeRecord list \<Rightarrow> bool" where
  "ValidateContiguousPhysicalIds records \<longleftrightarrow>
     records \<noteq> [] \<and> list_all (\<lambda>i. sr_physicalId (records ! i) = i mod 256) [0..<length records]"

definition Parse :: "SelfIDResult \<Rightarrow> TopologyBuildError + SelfIDNodeRecord list" where
  "Parse result =
     (if \<not> res_valid result
      then Inl (build_error InvalidSelfID ''Self-ID capture result is invalid'')
      else if res_quads result = []
      then Inl (build_error EmptySequenceSet ''Self-ID quadlet buffer is empty'')
      else
        ebind (efold (parse_sequence (res_quads result)) (res_sequences result) Map.empty)
          (\<lambda>nodeMap.
             if map_keys nodeMap = []
             then Inl (build_error EmptySequenceSet ''No valid Self-ID sequences found in stream'')
             else
               let records = map (\<lambda>i. the (nodeMap i)) (map_keys nodeMap) in
               if \<not> ValidateContiguousPhysicalIds records
               then Inl (build_error NonContiguousPhysicalIds
                          ''Self-ID physical IDs are not contiguous from 0 to root'')
               else Inr records))"

section \<open>The record of a sequence\<close>

lemma length_fold_update [array_simps]:
  "length (fold (\<lambda>p ps. ps[g p := h p]) ks xs) = length xs"
  by (induction ks arbitrary: xs) simp_all

lemma length_extended_ports [simp]: "length (extended_ports q ps) = length ps"
  by (simp add: extended_ports_def array_simps)

lemma length_fold_extended_ports [simp]: "length (fold extended_ports qs ps) = length ps"
  by (induction qs arbitrary: ps) simp_all

lemma length_sequence_ports [simp]: "length (sr_ports (sequence_record b es)) = 16"
  by (simp add: sequence_record_def base_ports_def kMaxPhyPorts_def Let_def)

lemma sequence_record_physicalId [simp]: "sr_physicalId (sequence_record b es) = ExtractPhyID b"
  by (simp add: sequence_record_def Let_def)

text \<open>The port count covers every present port and ends with one.\<close>

lemma actual_port_count_loop:
  "fold (\<lambda>p actual. if P p then p + 1 else actual) [0..<n] 0 = m \<Longrightarrow>
     m \<le> n \<and> (\<forall>p < n. P p \<longrightarrow> p < m) \<and> (0 < m \<longrightarrow> P (m - 1))" for m n :: nat
proof (induction n arbitrary: m)
  case (Suc n)
  then show ?case
    by (cases "P n") (auto simp: less_Suc_eq dest: less_trans)
qed simp

lemma actual_port_count_spec:
  "actual_port_count ports \<le> 16
   \<and> (\<forall>p < 16. ports ! p \<noteq> NotPresent \<longrightarrow> p < actual_port_count ports)
   \<and> (0 < actual_port_count ports \<longrightarrow> ports ! (actual_port_count ports - 1) \<noteq> NotPresent)"
  unfolding actual_port_count_def kMaxPhyPorts_def
  by (rule actual_port_count_loop [OF refl])

section \<open>Parsing is exact\<close>

text \<open>The physical ID and the record of the sequence at \<open>(first, count)\<close>.\<close>

definition seq_id :: "u32 list \<Rightarrow> nat \<times> nat \<Rightarrow> nat" where
  "seq_id quads sn = ExtractPhyID (quads ! fst sn)"

definition seq_record :: "u32 list \<Rightarrow> nat \<times> nat \<Rightarrow> SelfIDNodeRecord" where
  "seq_record quads sn =
     sequence_record (quads ! fst sn) (map (\<lambda>i. quads ! (fst sn + i)) [1..<snd sn])"

definition seq_in :: "u32 list \<Rightarrow> nat \<times> nat \<Rightarrow> bool" where
  "seq_in quads sn \<longleftrightarrow> 0 < snd sn \<and> fst sn + snd sn \<le> length quads"

lemma seq_record_physicalId [simp]: "sr_physicalId (seq_record quads sn) = seq_id quads sn"
  by (simp add: seq_record_def seq_id_def)

lemma parse_sequence_iff:
  "seq_in quads sn \<Longrightarrow> parse_sequence quads sn m = Inr m' \<longleftrightarrow>
     seq_id quads sn < 63 \<and> m (seq_id quads sn) = None
     \<and> m' = m(seq_id quads sn \<mapsto> seq_record quads sn)"
  by (auto simp: parse_sequence_def seq_in_def seq_id_def seq_record_def Let_def
      kMaxFireWireNodes_def split: prod.splits)

lemma parse_loop_iff:
  assumes "list_all (seq_in quads) seqs"
  shows "efold (parse_sequence quads) seqs m = Inr m' \<longleftrightarrow>
    distinct (map (seq_id quads) seqs) \<and> (\<forall>s \<in> set seqs. seq_id quads s < 63
       \<and> m (seq_id quads s) = None)
    \<and> m' = m ++ map_of (map (\<lambda>s. (seq_id quads s, seq_record quads s)) seqs)"
  using assms
proof (induction seqs arbitrary: m)
  case Nil
  then show ?case by auto
next
  case (Cons s seqs)
  let ?i = "seq_id quads s" and ?u = "map_of (map (\<lambda>s. (seq_id quads s, seq_record quads s)) seqs)"
  have in_s: "seq_in quads s" and rest: "list_all (seq_in quads) seqs" using Cons.prems by auto
  have upd: "m(?i \<mapsto> seq_record quads s) ++ ?u = m ++ ?u(?i \<mapsto> seq_record quads s)"
    if "?i \<notin> seq_id quads ` set seqs"
  proof -
    have "?i \<notin> dom ?u" using that by (auto simp: dom_map_of_conv_image_fst)
    then show ?thesis by (auto simp: map_add_def fun_eq_iff split: option.splits)
  qed
  have "efold (parse_sequence quads) (s # seqs) m = Inr m' \<longleftrightarrow>
      ?i < 63 \<and> m ?i = None \<and> distinct (map (seq_id quads) seqs)
      \<and> (\<forall>t \<in> set seqs. seq_id quads t < 63 \<and> seq_id quads t \<noteq> ?i \<and> m (seq_id quads t) = None)
      \<and> m' = m(?i \<mapsto> seq_record quads s) ++ ?u"
  proof -
    have "efold (parse_sequence quads) (s # seqs) m = Inr m' \<longleftrightarrow> ?i < 63 \<and> m ?i = None
        \<and> efold (parse_sequence quads) seqs (m(?i \<mapsto> seq_record quads s)) = Inr m'"
      by (auto simp: ebind_eq_Inr parse_sequence_iff [OF in_s])
    then show ?thesis unfolding Cons.IH [OF rest] by auto
  qed
  also have "\<dots> \<longleftrightarrow> distinct (map (seq_id quads) (s # seqs))
      \<and> (\<forall>t \<in> set (s # seqs). seq_id quads t < 63 \<and> m (seq_id quads t) = None)
      \<and> m' = m ++ map_of (map (\<lambda>s. (seq_id quads s, seq_record quads s)) (s # seqs))"
  proof (cases "?i \<in> seq_id quads ` set seqs")
    case False
    have "map_of (map (\<lambda>s. (seq_id quads s, seq_record quads s)) (s # seqs)) =
        ?u(?i \<mapsto> seq_record quads s)" by (simp add: fun_eq_iff)
    then have "m(?i \<mapsto> seq_record quads s) ++ ?u =
        m ++ map_of (map (\<lambda>s. (seq_id quads s, seq_record quads s)) (s # seqs))"
      by (simp only: upd [OF False])
    then show ?thesis using False by (metis (no_types, lifting) distinct.simps(2) image_eqI
      image_set list.simps(9) set_ConsD list.set_intros)
  qed auto
  finally show ?case .
qed

text \<open>The keys of the node map, when every value carries its key.\<close>

lemma map_keys_contiguous:
  assumes "\<And>i r. m i = Some r \<Longrightarrow> sr_physicalId r = i" and "dom m \<subseteq> {..<63}"
  shows "ValidateContiguousPhysicalIds (map (\<lambda>i. the (m i)) (map_keys m)) \<longleftrightarrow>
    map_keys m \<noteq> [] \<and> map_keys m = [0..<length (map_keys m)]"
proof -
  let ?ks = "map_keys m"
  have val: "sr_physicalId (the (m i)) = i" if "i \<in> set ?ks" for i
    using that assms(1) by (auto simp: map_keys_def)
  have len: "length ?ks \<le> 256"
    unfolding map_keys_def by (metis diff_zero length_filter_le length_upt)
  have "(\<forall>i < length ?ks. sr_physicalId (the (m (?ks ! i))) = i mod 256) \<longleftrightarrow>
      (\<forall>i < length ?ks. ?ks ! i = i)"
    using val len by (auto simp: nth_mem)
  also have "\<dots> \<longleftrightarrow> ?ks = [0..<length ?ks]"
    by (metis add.left_neutral diff_zero length_upt nth_equalityI nth_upt)
  finally show ?thesis
    by (auto simp: ValidateContiguousPhysicalIds_def list_all_iff)
qed

lemma map_keys_upt_iff:
  assumes "dom m \<subseteq> {..<63}"
  shows "map_keys m = [0..<n] \<longleftrightarrow> dom m = {..<n}"
proof -
  have set_keys: "set (map_keys m) = dom m" using assms by (auto simp: map_keys_def)
  have "sorted (map_keys m)" "distinct (map_keys m)"
    by (simp_all add: map_keys_def sorted_wrt_filter)
  then have "map_keys m = [0..<n] \<longleftrightarrow> set (map_keys m) = set [0..<n]"
    by (metis distinct_upt sorted_upt sorted_distinct_set_unique)
  then show ?thesis by (auto simp: set_keys atLeast0LessThan)
qed

lemma Parse_iff:
  assumes "res_valid r" and "list_all (seq_in (res_quads r)) (res_sequences r)"
  shows "Parse r = Inr recs \<longleftrightarrow>
    (let ids = map (seq_id (res_quads r)) (res_sequences r) in
     ids \<noteq> [] \<and> length ids \<le> 63 \<and> distinct ids \<and> set ids = {..<length ids}
     \<and> length recs = length ids
     \<and> (\<forall>s \<in> set (res_sequences r). recs ! seq_id (res_quads r) s = seq_record (res_quads r) s))"
proof -
  define qs seqs ids where "qs = res_quads r" and "seqs = res_sequences r"
    and "ids = map (seq_id qs) seqs"
  define m where "m = map_of (map (\<lambda>s. (seq_id qs s, seq_record qs s)) seqs)"
  have dom_m: "dom m = set ids"
    by (simp add: m_def ids_def dom_map_of_conv_image_fst image_image)
  have m_id: "sr_physicalId x = i" if "m i = Some x" for i x
    using that by (auto simp: m_def dest!: map_of_SomeD)
  have m_rec: "m (seq_id qs s) = Some (seq_record qs s)" if "distinct ids" "s \<in> set seqs" for s
    using that unfolding m_def by (intro map_of_is_SomeI) (auto simp: ids_def o_def)
  have ne: "seqs \<noteq> [] \<Longrightarrow> qs \<noteq> []"
    using assms(2) by (cases seqs) (auto simp: seqs_def qs_def seq_in_def)
  have loop: "efold (parse_sequence qs) seqs Map.empty = Inr m' \<longleftrightarrow>
      distinct ids \<and> set ids \<subseteq> {..<63} \<and> m' = m" for m'
    using parse_loop_iff [of qs seqs Map.empty m'] assms(2)
    by (auto simp: m_def ids_def qs_def seqs_def)
  have "Parse r = Inr recs \<longleftrightarrow> qs \<noteq> [] \<and> distinct ids \<and> set ids \<subseteq> {..<63} \<and> map_keys m \<noteq> []
      \<and> ValidateContiguousPhysicalIds (map (\<lambda>i. the (m i)) (map_keys m))
      \<and> recs = map (\<lambda>i. the (m i)) (map_keys m)"
    using assms(1) loop
    by (auto simp: Parse_def ebind_eq_Inr Let_def qs_def [symmetric] seqs_def [symmetric])
  also have "\<dots> \<longleftrightarrow> distinct ids \<and> set ids \<subseteq> {..<63} \<and> ids \<noteq> [] \<and> set ids = {..<length ids}
      \<and> recs = map (\<lambda>i. the (m i)) [0..<length ids]"
  proof (cases "distinct ids \<and> set ids \<subseteq> {..<63}")
    case True
    then have sub: "dom m \<subseteq> {..<63}" by (simp add: dom_m)
    have keys: "map_keys m \<noteq> [] \<and> map_keys m = [0..<length (map_keys m)] \<longleftrightarrow>
        ids \<noteq> [] \<and> map_keys m = [0..<length ids]"
    proof -
      have "length (map_keys m) = card (dom m)"
        using sub by (auto simp: map_keys_def simp flip: distinct_card intro!: arg_cong [of _ _ card])
      then have "length (map_keys m) = length ids"
        using True by (simp add: dom_m distinct_card)
      then show ?thesis by (metis length_0_conv)
    qed
    have "set ids = {..<length ids} \<longleftrightarrow> map_keys m = [0..<length ids]"
      using map_keys_upt_iff [OF sub] by (simp add: dom_m)
    moreover have "ValidateContiguousPhysicalIds (map (\<lambda>i. the (m i)) (map_keys m)) \<longleftrightarrow>
        ids \<noteq> [] \<and> map_keys m = [0..<length ids]"
      using map_keys_contiguous [OF m_id sub] keys by simp
    moreover have "ids \<noteq> [] \<Longrightarrow> qs \<noteq> []" using ne by (simp add: ids_def)
    ultimately show ?thesis using True by (auto simp: eq_commute [of "[]"])
  qed auto
  also have "\<dots> \<longleftrightarrow> ids \<noteq> [] \<and> length ids \<le> 63 \<and> distinct ids \<and> set ids = {..<length ids}
      \<and> length recs = length ids
      \<and> (\<forall>s \<in> set seqs. recs ! seq_id qs s = seq_record qs s)" (is "?A \<longleftrightarrow> ?B")
  proof
    assume A: ?A
    have "recs ! seq_id qs s = seq_record qs s" if s: "s \<in> set seqs" for s
    proof -
      from s have "seq_id qs s \<in> set ids" by (simp add: ids_def)
      with A have "seq_id qs s < length ids" by blast
      with A m_rec [OF _ s] show ?thesis by simp
    qed
    moreover have "length ids \<le> 63" using A by (metis lessThan_subset_iff)
    ultimately show ?B using A by simp
  next
    assume B: ?B
    have "recs ! i = the (m i)" if "i < length ids" for i
    proof -
      from that B have "i \<in> set ids" by simp
      then obtain s where "s \<in> set seqs" "i = seq_id qs s" by (auto simp: ids_def)
      with B m_rec show ?thesis by simp
    qed
    with B show ?A by (auto intro!: nth_equalityI)
  qed
  finally show ?thesis by (simp add: Let_def ids_def qs_def seqs_def)
qed

section \<open>Extended packets\<close>

text \<open>
  C40: on a capture whose sequences lie inside its quadlets (as \<open>Decode\<close> delivers them), \<open>Parse\<close>
  succeeds exactly when the physical IDs of the sequences are \<open>0, \<dots>, n - 1\<close>, each once, for some
  \<open>1 \<le> n \<le> 63\<close>; the records then are the records of the sequences, the one of node \<open>i\<close> at
  index \<open>i\<close>.
\<close>

theorem Parse_exact:
  assumes "res_valid r" and "list_all (seq_in (res_quads r)) (res_sequences r)"
  shows "Parse r = Inr recs \<longleftrightarrow>
    (let ids = map (seq_id (res_quads r)) (res_sequences r) in
     ids \<noteq> [] \<and> length ids \<le> 63 \<and> distinct ids \<and> set ids = {..<length ids}
     \<and> length recs = length ids
     \<and> (\<forall>s \<in> set (res_sequences r). recs ! seq_id (res_quads r) s = seq_record (res_quads r) s))"
  using assms by (rule Parse_iff)

text \<open>The capture of a bus of one node.\<close>

definition sample_result :: SelfIDResult where
  "sample_result = \<lparr>res_quads = [0x10000, 0x807F0800], res_sequences = [(1, 1)], res_generation = 1,
     res_valid = True, res_timedOut = False, res_crcError = False\<rparr>"

theorem Parse_exact_witness:
  "Parse sample_result = Inr [seq_record [0x10000, 0x807F0800] (1, 1)]"
proof -
  have "res_valid sample_result" "list_all (seq_in (res_quads sample_result)) (res_sequences sample_result)"
    "map (seq_id (res_quads sample_result)) (res_sequences sample_result) = [0]"
    "res_quads sample_result = [0x10000, 0x807F0800]" "res_sequences sample_result = [(1, 1)]" by code_simp+
  then show ?thesis by (simp add: Parse_exact Let_def lessThan_Suc)
qed

text \<open>
  The two bits the parser reads for the first port of an extended Self-ID packet, bits 23 and
  22, are the packet's own extended flag and the top bit of its sequence number. Every extended
  packet that the enumerator numbers 0 or 1 therefore records a \<open>Parent\<close> connection at port 3
  (respectively 11), whatever the packet says about its ports.
\<close>

lemma extended_port_phantom_parent:
  assumes "IsExtended q" and "ExtractSeq q \<le> 1" and "length ports = kMaxPhyPorts"
  shows "extended_ports q ports ! (if ExtractSeq q = 0 then 3 else 11) = Parent"
proof -
  have "DecodePort (drop_bit 22 q AND 3) = Parent"
    unfolding DecodePort_at using assms(1,2) by (simp add: IsExtended_bit ExtractSeq_le_1_bit)
  moreover have "ExtractSeq q = 0 \<or> ExtractSeq q = 1" using assms(2) by linarith
  ultimately show ?thesis
    using assms(3) by (auto simp: extended_ports_def kMaxPhyPorts_def upt_rec nth_list_update)
qed

end
