(* ===== verification/Topology_Graph.thy ===== *)
theory Topology_Graph
  imports SelfID_Parser
begin

text \<open>
  \<^verbatim>\<open>Bus/SelfIDTopologyNormalizer.cpp\<close>, function \<open>BuildPhysicalGraph\<close>: the stack algorithm of
  IEEE 1394 Annex P, which turns the per-node port states into the links of the bus, with the
  graph records of \<^verbatim>\<open>Bus/TopologyTypes.hpp\<close>. The IRM election, the beta-repeater scan and the bus
  diameter that complete the graph are here too. The vector \<open>unresolvedChildren\<close> is a list whose
  head is the vector's back.
\<close>

section \<open>Graph records\<close>

record TopologyPortLink =
  lk_connected :: bool
  lk_remoteNodeId :: nat
  lk_remotePort :: nat

definition no_link :: TopologyPortLink where
  "no_link = \<lparr>lk_connected = False, lk_remoteNodeId = kInvalidPhysicalId,
              lk_remotePort = kInvalidPhysicalId\<rparr>"

record TopologyNodeRecord =
  tn_physicalId :: nat
  tn_linkActive :: bool
  tn_contender :: bool
  tn_initiatedReset :: bool
  tn_isRoot :: bool
  tn_isLocal :: bool
  tn_isIRM :: bool
  tn_gapCount :: nat
  tn_powerClass :: nat
  tn_speedCode :: nat
  tn_maxSpeedMbps :: nat
  tn_baseRaw :: u32
  tn_reportedPorts :: "PortState list"
  tn_links :: "TopologyPortLink list"
  tn_portCount :: nat

record PhysicalTopologyGraph =
  pg_rootId :: nat
  pg_localId :: nat
  pg_irmId :: nat
  pg_nodeCount :: nat
  pg_busDiameterHops :: nat
  pg_betaRepeatersPresent :: bool
  pg_nodes :: "TopologyNodeRecord list"

section \<open>Links\<close>

definition topology_node :: "nat \<Rightarrow> nat \<Rightarrow> SelfIDNodeRecord \<Rightarrow> TopologyNodeRecord" where
  "topology_node rootId localPhysicalId record0 =
     \<lparr>tn_physicalId = sr_physicalId record0, tn_linkActive = sr_linkActive record0,
      tn_contender = sr_contender record0, tn_initiatedReset = sr_initiatedReset record0,
      tn_isRoot = (sr_physicalId record0 = rootId),
      tn_isLocal = (sr_physicalId record0 = localPhysicalId),
      tn_isIRM = False,
      tn_gapCount = sr_gapCount record0, tn_powerClass = sr_powerClass record0,
      tn_speedCode = sr_speedCode record0, tn_maxSpeedMbps = sr_maxSpeedMbps record0,
      tn_baseRaw = sr_baseRaw record0, tn_reportedPorts = sr_ports record0,
      tn_links = replicate kMaxPhyPorts no_link, tn_portCount = sr_portCount record0\<rparr>"

definition FirstUnresolvedParentPort :: "TopologyNodeRecord \<Rightarrow> nat option" where
  "FirstUnresolvedParentPort node =
     find (\<lambda>port. tn_reportedPorts node ! port = Parent \<and> \<not> lk_connected (tn_links node ! port))
       [0..<kMaxPhyPorts]"

definition set_link :: "nat \<Rightarrow> TopologyPortLink \<Rightarrow> TopologyNodeRecord \<Rightarrow> TopologyNodeRecord" where
  "set_link port link node = node\<lparr>tn_links := (tn_links node)[port := link]\<rparr>"

text \<open>
  \<open>parent\<close> and \<open>child\<close> are references into the node array: here the indices of the two nodes,
  updated one after the other.
\<close>

definition ConnectBidirectional ::
  "nat \<Rightarrow> nat \<Rightarrow> nat \<Rightarrow> nat \<Rightarrow> TopologyNodeRecord list \<Rightarrow> TopologyNodeRecord list" where
  "ConnectBidirectional parent parentPort child childPort nodes =
     (let nodes1 = nodes[parent := set_link parentPort
                           \<lparr>lk_connected = True, lk_remoteNodeId = tn_physicalId (nodes ! child),
                            lk_remotePort = childPort\<rparr> (nodes ! parent)]
      in nodes1[child := set_link childPort
                           \<lparr>lk_connected = True, lk_remoteNodeId = tn_physicalId (nodes1 ! parent),
                            lk_remotePort = parentPort\<rparr> (nodes1 ! child)])"

type_synonym build_state = "TopologyNodeRecord list \<times> nat list"

definition connect_port :: "nat \<Rightarrow> nat \<Rightarrow> build_state \<Rightarrow> TopologyBuildError + build_state" where
  "connect_port nodeId port st =
     (let (nodes, unresolvedChildren) = st in
      if tn_reportedPorts (nodes ! nodeId) ! port \<noteq> Child then Inr (nodes, unresolvedChildren)
      else case unresolvedChildren of
             [] \<Rightarrow> Inl (build_error ChildPortWithEmptyStack
                        ''Child port encountered but unresolved-child stack is empty'')
           | childId # rest \<Rightarrow>
               if childId \<ge> length nodes
               then Inl (build_error NonContiguousPhysicalIds
                          ''Unresolved child physical ID is outside graph node array'')
               else case FirstUnresolvedParentPort (nodes ! childId) of
                      None \<Rightarrow> Inl (build_error PoppedNodeHasNoUnresolvedParent
                                    ''Popped child node has no unresolved Parent port'')
                    | Some childParentPort \<Rightarrow>
                        Inr (ConnectBidirectional nodeId port childId childParentPort nodes, rest))"

definition process_node :: "nat \<Rightarrow> nat \<Rightarrow> build_state \<Rightarrow> TopologyBuildError + build_state" where
  "process_node rootId nodeId st =
     (if nodeId \<ge> length (fst st) \<or> tn_physicalId (fst st ! nodeId) \<noteq> nodeId
      then Inl (build_error NonContiguousPhysicalIds
                 ''Physical IDs are not contiguous from 0 to root'')
      else
        ebind (efold (connect_port nodeId) (rev [0..<kMaxPhyPorts]) st)
          (\<lambda>(nodes, unresolvedChildren).
             if nodeId < rootId
             then (case FirstUnresolvedParentPort (nodes ! nodeId) of
                     None \<Rightarrow> Inl (build_error NonRootWithoutParentPort
                       ''Non-root node has no Parent port after child links were resolved'')
                   | Some _ \<Rightarrow> Inr (nodes, nodeId # unresolvedChildren))
             else Inr (nodes, unresolvedChildren)))"

section \<open>IRM, beta repeaters\<close>

definition elect_irm :: "TopologyNodeRecord list \<Rightarrow> nat \<times> TopologyNodeRecord list" where
  "elect_irm nodes =
     (case find (\<lambda>i. tn_contender (nodes ! i) \<and> tn_linkActive (nodes ! i)) (rev [0..<length nodes]) of
        None \<Rightarrow> (kInvalidPhysicalId, nodes)
      | Some i \<Rightarrow> (tn_physicalId (nodes ! i), nodes[i := (nodes ! i)\<lparr>tn_isIRM := True\<rparr>]))"

definition beta_repeater :: "TopologyNodeRecord \<Rightarrow> bool" where
  "beta_repeater node \<longleftrightarrow>
     tn_speedCode node = 3
     \<and> length (filter (\<lambda>state. state = Parent \<or> state = Child) (tn_reportedPorts node)) > 1"

section \<open>Bus diameter\<close>

text \<open>
  The breadth-first pass \<open>farthestFrom\<close>. \<open>frontier\<close> is the part of the frontier vector from
  \<open>head\<close> on; \<open>distance\<close> holds \<open>kInvalidPhysicalId\<close> where a node has not been reached. The
  \<open>for\<close> loop over the frontier handles each node once, so \<open>fuel\<close> counts the nodes; that it is
  enough for a bus of at most 63 nodes is proved.
\<close>

type_synonym bfs_state = "nat list \<times> nat \<times> nat list"

definition bfs_link :: "nat \<Rightarrow> TopologyPortLink \<Rightarrow> bfs_state \<Rightarrow> bfs_state" where
  "bfs_link current link st =
     (let (distance, farthestNode, frontier) = st; neighbor = lk_remoteNodeId link in
      if \<not> lk_connected link then st
      else if neighbor \<ge> length distance \<or> distance ! neighbor \<noteq> kInvalidPhysicalId then st
      else
        let distance' = distance[neighbor := (distance ! current + 1) mod 256] in
        (distance',
         if distance' ! neighbor > distance' ! farthestNode then neighbor else farthestNode,
         frontier @ [neighbor]))"

fun bfs_loop :: "nat \<Rightarrow> TopologyNodeRecord list \<Rightarrow> bfs_state \<Rightarrow> bfs_state option" where
  "bfs_loop fuel nodes (distance, farthestNode, []) = Some (distance, farthestNode, [])"
| "bfs_loop 0 nodes (distance, farthestNode, current # frontier) = None"
| "bfs_loop (Suc fuel) nodes (distance, farthestNode, current # frontier) =
     bfs_loop fuel nodes
       (fold (bfs_link current) (tn_links (nodes ! current)) (distance, farthestNode, frontier))"

definition farthestFrom :: "TopologyNodeRecord list \<Rightarrow> nat \<Rightarrow> (nat \<times> nat) option" where
  "farthestFrom nodes start =
     (let n = length nodes;
          distance = (replicate n kInvalidPhysicalId)[start := 0]
      in map_option (\<lambda>(distance, farthestNode, _). (farthestNode, distance ! farthestNode))
           (bfs_loop n nodes (distance, start, [start])))"

definition ComputeBusDiameter :: "TopologyNodeRecord list \<Rightarrow> nat option" where
  "ComputeBusDiameter nodes =
     (if length nodes \<le> 1 then Some 0
      else case farthestFrom nodes 0 of
             None \<Rightarrow> None
           | Some (endpointA, _) \<Rightarrow> map_option snd (farthestFrom nodes endpointA))"

section \<open>The physical graph\<close>

text \<open>The links alone: the stack algorithm run over the records.\<close>

definition build_links :: "SelfIDNodeRecord list \<Rightarrow> nat \<Rightarrow> TopologyBuildError + TopologyNodeRecord list"
  where
  "build_links records localPhysicalId =
     (let rootId = sr_physicalId (last records);
          nodes = map (topology_node rootId localPhysicalId) records
      in ebind (efold (process_node rootId) [0..<Suc rootId] (nodes, []))
           (\<lambda>(nodes, unresolvedChildren).
              if unresolvedChildren \<noteq> []
              then Inl (build_error UnresolvedStackAfterRoot
                     ''Unresolved child stack is not empty after processing the root node'')
              else Inr nodes))"

text \<open>
  A diameter pass that does not come to its end (impossible on a bus of at most 63 nodes, see
  below) would be a graph that is never returned: the outer \<open>option\<close>.
\<close>

definition BuildPhysicalGraph ::
  "SelfIDNodeRecord list \<Rightarrow> nat \<Rightarrow> (TopologyBuildError + PhysicalTopologyGraph) option" where
  "BuildPhysicalGraph records localPhysicalId =
     (if records = []
      then Some (Inl (build_error EmptySequenceSet ''No Self-ID node records are available''))
      else case build_links records localPhysicalId of
             Inl e \<Rightarrow> Some (Inl e)
           | Inr nodes \<Rightarrow>
               let (irmId, nodes) = elect_irm nodes in
               map_option (\<lambda>diameter.
                 Inr \<lparr>pg_rootId = sr_physicalId (last records), pg_localId = localPhysicalId,
                      pg_irmId = irmId, pg_nodeCount = length records mod 256,
                      pg_busDiameterHops = diameter,
                      pg_betaRepeatersPresent = list_ex beta_repeater nodes,
                      pg_nodes = nodes\<rparr>)
                 (ComputeBusDiameter nodes))"

end
