(* ===== verification/Tree_Metric.thy ===== *)
theory Tree_Metric
  imports ASFW_Prelude
begin

text \<open>
  Distances in a tree given by parent pointers. On a FireWire bus every node but the root has one
  parent, and the parent has the larger physical ID; \<open>up_tree\<close> is that contract, over the root
  \<open>r\<close> and the parent function. The lemmas of the locale are the metric facts that the graph
  searches of the topology code rely on: the distance is the least number of hops, it satisfies
  the four-point condition, neighbours differ by exactly one, the neighbour nearer to a given node
  is unique, and a node farthest from any node is the end of a longest path.
\<close>

section \<open>Specification functions\<close>

function tree_dist :: "(nat \<Rightarrow> nat) \<Rightarrow> nat \<Rightarrow> nat \<Rightarrow> nat \<Rightarrow> nat" where
  "tree_dist par r u v =
     (if u = v then 0
      else if u < v then if u < r \<and> u < par u \<and> par u \<le> r then Suc (tree_dist par r (par u) v) else 0
      else if v < r \<and> v < par v \<and> par v \<le> r then Suc (tree_dist par r u (par v)) else 0)"
  by pat_completeness auto
termination
  by (relation "measure (\<lambda>(par, r, u, v). (r - u) + (r - v))") auto

declare tree_dist.simps [simp del]

lemma tree_dist_self [simp]: "tree_dist par r u u = 0"
  by (simp add: tree_dist.simps)

text \<open>Neighbours: a node and its parent.\<close>

definition tree_adj :: "(nat \<Rightarrow> nat) \<Rightarrow> nat \<Rightarrow> nat \<Rightarrow> nat \<Rightarrow> bool" where
  "tree_adj par r u v \<longleftrightarrow> u \<le> r \<and> v \<le> r \<and> (u < r \<and> v = par u \<or> v < r \<and> u = par v)"

section \<open>The metric of a tree\<close>

locale up_tree =
  fixes par :: "nat \<Rightarrow> nat" and r :: nat
  assumes par_up: "i < r \<Longrightarrow> i < par i" and par_le: "i < r \<Longrightarrow> par i \<le> r"
begin

lemma dist_up: "u < v \<Longrightarrow> v \<le> r \<Longrightarrow> tree_dist par r u v = Suc (tree_dist par r (par u) v)"
  by (subst tree_dist.simps) (simp add: par_up par_le)

lemma dist_up2: "v < u \<Longrightarrow> u \<le> r \<Longrightarrow> tree_dist par r u v = Suc (tree_dist par r u (par v))"
  by (subst tree_dist.simps) (simp add: par_up par_le)

lemma dist_sym: "u \<le> r \<Longrightarrow> v \<le> r \<Longrightarrow> tree_dist par r u v = tree_dist par r v u"
proof (induction "(r - u) + (r - v)" arbitrary: u v rule: less_induct)
  case less
  consider "u = v" | "u < v" | "v < u" by linarith
  then show ?case
  proof cases
    case 2
    then have "u < r" using less.prems by simp
    then have "tree_dist par r (par u) v = tree_dist par r v (par u)"
      using par_up [of u] par_le [of u] less.prems by (intro less.hyps) auto
    with 2 less.prems show ?thesis by (simp add: dist_up dist_up2)
  next
    case 3
    then have "v < r" using less.prems by simp
    then have "tree_dist par r u (par v) = tree_dist par r (par v) u"
      using par_up [of v] par_le [of v] less.prems by (intro less.hyps) auto
    with 3 less.prems show ?thesis by (simp add: dist_up dist_up2)
  qed simp
qed

lemma dist_eq_0: "u \<le> r \<Longrightarrow> v \<le> r \<Longrightarrow> tree_dist par r u v = 0 \<longleftrightarrow> u = v"
  by (cases u v rule: linorder_cases) (auto simp: dist_up dist_up2)

lemma dist_triangle:
  "u \<le> r \<Longrightarrow> v \<le> r \<Longrightarrow> w \<le> r \<Longrightarrow>
    tree_dist par r u w \<le> tree_dist par r u v + tree_dist par r v w"
proof (induction "(r - u) + (r - v) + (r - w)" arbitrary: u v w rule: less_induct)
  case less
  consider "u = w" | "u = v" | "v = w" | "u < w" "u < v" | "v < u" "v < w" | "w < u" "w < v"
    by linarith
  then show ?case
  proof cases
    case 4
    then have "u < r" using less.prems by simp
    then have "tree_dist par r (par u) w \<le> tree_dist par r (par u) v + tree_dist par r v w"
      using par_up [of u] par_le [of u] less.prems by (intro less.hyps) auto
    with 4 less.prems show ?thesis by (simp add: dist_up)
  next
    case 5
    then have "v < r" using less.prems by simp
    then have "tree_dist par r u w \<le> tree_dist par r u (par v) + tree_dist par r (par v) w"
      using par_up [of v] par_le [of v] less.prems by (intro less.hyps) auto
    with 5 less.prems show ?thesis by (simp add: dist_up dist_up2)
  next
    case 6
    then have "w < r" using less.prems by simp
    then have "tree_dist par r u (par w) \<le> tree_dist par r u v + tree_dist par r v (par w)"
      using par_up [of w] par_le [of w] less.prems by (intro less.hyps) auto
    with 6 less.prems show ?thesis by (simp add: dist_up2)
  qed (simp_all)
qed

text \<open>
  The four-point condition. Moving the least of the four points to its parent lowers each of the
  three sums by one, as each sum holds that point once.
\<close>

lemma four_point:
  "u \<le> r \<Longrightarrow> v \<le> r \<Longrightarrow> w \<le> r \<Longrightarrow> x \<le> r \<Longrightarrow>
    tree_dist par r u v + tree_dist par r w x \<le>
      max (tree_dist par r u w + tree_dist par r v x) (tree_dist par r u x + tree_dist par r v w)"
proof (induction "(r - u) + (r - v) + (r - w) + (r - x)" arbitrary: u v w x rule: less_induct)
  case less
  consider "u = v" | "w = x" | "u = w" | "u = x" | "v = w" | "v = x"
    | "u < v" "u < w" "u < x" | "v < u" "v < w" "v < x" | "w < u" "w < v" "w < x"
    | "x < u" "x < v" "x < w"
    by linarith
  then show ?case
  proof cases
    case 1
    with dist_triangle [of w u x] dist_sym [of w u] less.prems show ?thesis
      by (simp add: add.commute)
  next
    case 2
    with dist_triangle [of u w v] dist_sym [of w v] less.prems show ?thesis
      by simp
  next
    case 3
    with dist_sym [of v u] less.prems show ?thesis by (simp add: add.commute)
  next
    case 4
    with dist_sym [of w u] dist_sym [of u w] dist_sym [of u v] less.prems show ?thesis
      by (simp add: add.commute)
  next
    case 5
    then show ?thesis by simp
  next
    case 6
    with dist_sym [of w v] less.prems show ?thesis by simp
  next
    case 7
    then have "u < r" using less.prems by simp
    then have "tree_dist par r (par u) v + tree_dist par r w x \<le> max (tree_dist par r (par u) w
        + tree_dist par r v x) (tree_dist par r (par u) x + tree_dist par r v w)"
      using par_up [of u] par_le [of u] less.prems by (intro less.hyps) auto
    with 7 less.prems show ?thesis by (simp add: dist_up)
  next
    case 8
    then have "v < r" using less.prems by simp
    then have "tree_dist par r u (par v) + tree_dist par r w x \<le> max (tree_dist par r u w
        + tree_dist par r (par v) x) (tree_dist par r u x + tree_dist par r (par v) w)"
      using par_up [of v] par_le [of v] less.prems by (intro less.hyps) auto
    with 8 less.prems show ?thesis by (simp add: dist_up dist_up2)
  next
    case 9
    then have "w < r" using less.prems by simp
    then have "tree_dist par r u v + tree_dist par r (par w) x \<le> max (tree_dist par r u (par w)
        + tree_dist par r v x) (tree_dist par r u x + tree_dist par r v (par w))"
      using par_up [of w] par_le [of w] less.prems by (intro less.hyps) auto
    with 9 less.prems show ?thesis by (simp add: dist_up dist_up2)
  next
    case 10
    then have "x < r" using less.prems by simp
    then have "tree_dist par r u v + tree_dist par r w (par x) \<le> max (tree_dist par r u w
        + tree_dist par r v (par x)) (tree_dist par r u (par x) + tree_dist par r v w)"
      using par_up [of x] par_le [of x] less.prems by (intro less.hyps) auto
    with 10 less.prems show ?thesis by (simp add: dist_up2)
  qed
qed

lemma adj_sym: "tree_adj par r u v \<Longrightarrow> tree_adj par r v u"
  by (auto simp: tree_adj_def)

lemma dist_par: "u < r \<Longrightarrow> tree_dist par r u (par u) = 1"
  using par_up [of u] par_le [of u] by (simp add: dist_up)

lemma dist_adj: "tree_adj par r u v \<Longrightarrow> tree_dist par r u v = 1"
  using dist_par [of u] dist_par [of v] dist_sym [of u v] by (auto simp: tree_adj_def)

lemma dist_par_parity:
  "s \<le> r \<Longrightarrow> u < r \<Longrightarrow> even (tree_dist par r s u) \<longleftrightarrow> odd (tree_dist par r s (par u))"
proof (induction "(r - s) + (r - u)" arbitrary: s u rule: less_induct)
  case less
  consider "s = u" | "u < s" | "s < u" by linarith
  then show ?case
  proof cases
    case 1
    with less.prems show ?thesis using dist_par [of u] by simp
  next
    case 2
    with less.prems show ?thesis by (simp add: dist_up2)
  next
    case 3
    then have s: "s < r" "par s \<le> r" "s < par s" using less.prems par_le par_up by auto
    have "even (tree_dist par r (par s) u) \<longleftrightarrow> odd (tree_dist par r (par s) (par u))"
      using s less.prems by (intro less.hyps) auto
    moreover have "tree_dist par r s u = Suc (tree_dist par r (par s) u)"
      using 3 less.prems by (intro dist_up) auto
    moreover have "tree_dist par r s (par u) = Suc (tree_dist par r (par s) (par u))"
      using 3 less.prems par_up [of u] par_le [of u] by (intro dist_up) auto
    ultimately show ?thesis by simp
  qed
qed

text \<open>From any node, two neighbours are at distances that differ by exactly one.\<close>

lemma dist_adj_cases:
  assumes "s \<le> r" and "tree_adj par r u v"
  shows "tree_dist par r s v = Suc (tree_dist par r s u)
    \<or> tree_dist par r s u = Suc (tree_dist par r s v)"
proof -
  have uv: "u \<le> r" "v \<le> r" "tree_dist par r u v = 1" "tree_dist par r v u = 1"
    using assms(2) dist_adj adj_sym by (auto simp: tree_adj_def)
  have "tree_dist par r s u \<noteq> tree_dist par r s v"
  proof -
    consider "u < r" "v = par u" | "v < r" "u = par v" using assms(2) by (auto simp: tree_adj_def)
    then show ?thesis
    proof cases
      case 1
      with dist_par_parity [OF assms(1) 1(1)] show ?thesis by metis
    next
      case 2
      with dist_par_parity [OF assms(1) 2(1)] show ?thesis by metis
    qed
  qed
  with dist_triangle [of s u v] dist_triangle [of s v u] uv assms(1) show ?thesis by auto
qed

text \<open>The neighbour of \<open>u\<close> that is nearer to \<open>s\<close> is unique.\<close>

lemma nearer_unique:
  assumes "s \<le> r" and "tree_adj par r u v" and "tree_adj par r u v'"
    and "tree_dist par r s u = Suc (tree_dist par r s v)"
    and "tree_dist par r s u = Suc (tree_dist par r s v')"
  shows "v = v'"
proof -
  have le: "u \<le> r" "v \<le> r" "v' \<le> r" using assms(2,3) by (auto simp: tree_adj_def)
  have "tree_dist par r s u + tree_dist par r v v' \<le>
      max (tree_dist par r s v + tree_dist par r u v') (tree_dist par r s v' + tree_dist par r u v)"
    using assms(1) le by (intro four_point)
  with assms(4,5) dist_adj [OF assms(2)] dist_adj [OF assms(3)] have "tree_dist par r v v' = 0"
    by simp
  then show ?thesis using le by (simp add: dist_eq_0)
qed

text \<open>A node other than \<open>s\<close> has a neighbour nearer to \<open>s\<close>.\<close>

lemma nearer_exists:
  "s \<le> r \<Longrightarrow> u \<le> r \<Longrightarrow> u \<noteq> s \<Longrightarrow>
    \<exists>v. tree_adj par r u v \<and> tree_dist par r s u = Suc (tree_dist par r s v)"
proof (induction "(r - s) + (r - u)" arbitrary: s u rule: less_induct)
  case less
  consider "u < s" | "s < u" using less.prems by linarith
  then show ?case
  proof cases
    case 1
    then have "u < r" using less.prems by simp
    then have "tree_adj par r u (par u)" using par_le by (auto simp: tree_adj_def)
    with 1 less.prems show ?thesis using dist_up2 by blast
  next
    case 2
    then have s: "s < r" "par s \<le> r" "s < par s" using less.prems par_le par_up by auto
    show ?thesis
    proof (cases "u = par s")
      case True
      with s have "tree_adj par r u s" by (auto simp: tree_adj_def)
      then show ?thesis using dist_par [OF s(1)] True by auto
    next
      case False
      have "(r - par s) + (r - u) < (r - s) + (r - u)" using s by simp
      from less.hyps [OF this s(2) less.prems(2) False] obtain v where v: "tree_adj par r u v"
        "tree_dist par r (par s) u = Suc (tree_dist par r (par s) v)" by auto
      have "v \<le> r" using v by (simp add: tree_adj_def)
      show ?thesis
      proof (cases "s < v")
        case True
        with v 2 s \<open>v \<le> r\<close> less.prems show ?thesis
          by (intro exI [of _ v]) (simp add: dist_up)
      next
        case False
        have "u = par v" "v < r" using v(1) 2 False s par_up [of u] by (auto simp: tree_adj_def)
        moreover have "v \<noteq> s" using \<open>u = par v\<close> \<open>u \<noteq> par s\<close> by auto
        ultimately have "v < s" using False by simp
        then have "tree_dist par r (par s) v = Suc (tree_dist par r (par s) u)"
          using s \<open>u = par v\<close> by (simp add: dist_up2)
        with v(2) show ?thesis by simp
      qed
    qed
  qed
qed

text \<open>A node farthest from some node is an end of a longest path.\<close>

lemma farthest_is_end:
  assumes "s \<le> r" and "a \<le> r" and far: "\<And>v. v \<le> r \<Longrightarrow> tree_dist par r s v \<le> tree_dist par r s a"
    and ecc: "\<And>v. v \<le> r \<Longrightarrow> tree_dist par r a v \<le> e" and "u \<le> r" and "v \<le> r"
  shows "tree_dist par r u v \<le> e"
proof -
  have "tree_dist par r s a + tree_dist par r u v \<le>
      max (tree_dist par r s u + tree_dist par r a v) (tree_dist par r s v + tree_dist par r a u)"
    using assms by (intro four_point)
  with far [OF assms(5)] far [OF assms(6)] ecc [OF assms(5)] ecc [OF assms(6)]
  show ?thesis by auto
qed

text \<open>The distance is the least number of hops.\<close>

lemma hops_ge_dist:
  "(tree_adj par r ^^ k) u v \<Longrightarrow> u \<le> r \<Longrightarrow> v \<le> r \<and> tree_dist par r u v \<le> k"
proof (induction k arbitrary: v)
  case 0
  then show ?case by simp
next
  case (Suc k)
  then obtain w where w: "(tree_adj par r ^^ k) u w" "tree_adj par r w v" by auto
  with Suc have "tree_dist par r u w \<le> k" by simp
  moreover have "w \<le> r" "v \<le> r" using w by (auto simp: tree_adj_def)
  ultimately show ?case
    using dist_triangle [of u w v] dist_adj [OF w(2)] Suc.prems by simp
qed

lemma hops_dist: "u \<le> r \<Longrightarrow> v \<le> r \<Longrightarrow> (tree_adj par r ^^ tree_dist par r u v) u v"
proof (induction "tree_dist par r u v" arbitrary: v)
  case 0
  then have "u = v" by (simp add: dist_eq_0)
  then show ?case by simp
next
  case (Suc d)
  then have "v \<noteq> u" by auto
  then obtain w where w: "tree_adj par r v w" "tree_dist par r u v = Suc (tree_dist par r u w)"
    using nearer_exists [of u v] Suc.prems by auto
  then have "(tree_adj par r ^^ tree_dist par r u w) u w"
    using Suc.hyps Suc.prems by (auto simp: tree_adj_def)
  then show ?case unfolding w(2) using adj_sym [OF w(1)] by auto
qed

end

end
