(* ===== verification/Topology_Tree.thy ===== *)
theory Topology_Tree
  imports Topology_Graph Tree_Metric
begin

text \<open>
  Correctness of the stack algorithm of \<^verbatim>\<open>Bus/SelfIDTopologyNormalizer.cpp\<close>: which reports it
  accepts, and that the links it builds are those of a tree rooted at the last node.
\<close>

section \<open>The link invariant\<close>

text \<open>
  The view of the node array the proofs use: \<open>R i p\<close> is the reported state and \<open>L i p\<close> the link
  of port \<open>p\<close> of node \<open>i\<close>. \<open>up_ports R L i\<close> are the ports by which node \<open>i\<close> is linked towards
  the root. \<open>link_inv R n k D L st\<close> holds when the nodes below \<open>k\<close>, and the ports \<open>D\<close> of node
  \<open>k\<close>, have been processed.
\<close>

definition mk_link :: "nat \<Rightarrow> nat \<Rightarrow> TopologyPortLink" where
  "mk_link j q = \<lparr>lk_connected = True, lk_remoteNodeId = j, lk_remotePort = q\<rparr>"

definition up_ports ::
  "(nat \<Rightarrow> nat \<Rightarrow> PortState) \<Rightarrow> (nat \<Rightarrow> nat \<Rightarrow> TopologyPortLink) \<Rightarrow> nat \<Rightarrow> nat set" where
  "up_ports R L i = {p. p < 16 \<and> R i p = Parent \<and> lk_connected (L i p)}"

definition links_ok ::
  "(nat \<Rightarrow> nat \<Rightarrow> PortState) \<Rightarrow> nat \<Rightarrow> (nat \<Rightarrow> nat \<Rightarrow> TopologyPortLink) \<Rightarrow> bool" where
  "links_ok R n L \<longleftrightarrow> (\<forall>i < n. \<forall>p < 16. lk_connected (L i p) \<longrightarrow>
     (\<exists>j q. L i p = mk_link j q \<and> j < n \<and> q < 16 \<and> L j q = mk_link i p
        \<and> (R i p = Child \<and> R j q = Parent \<and> j < i \<or> R i p = Parent \<and> R j q = Child \<and> i < j)))"

definition link_inv ::
  "(nat \<Rightarrow> nat \<Rightarrow> PortState) \<Rightarrow> nat \<Rightarrow> nat \<Rightarrow> nat set \<Rightarrow> (nat \<Rightarrow> nat \<Rightarrow> TopologyPortLink)
    \<Rightarrow> nat list \<Rightarrow> bool" where
  "link_inv R n k D L st \<longleftrightarrow>
     links_ok R n L
     \<and> (\<forall>i < n. \<forall>p < 16. R i p = Child \<longrightarrow>
           lk_connected (L i p) = (i < k \<or> i = k \<and> p \<in> D))
     \<and> distinct st \<and> set st \<subseteq> {..<k}
     \<and> (\<forall>i < n. card (up_ports R L i) = (if i < k \<and> i \<notin> set st then 1 else 0))
     \<and> (\<forall>i < k. \<exists>p < 16. R i p = Parent)"

lemma finite_up_ports [simp]: "finite (up_ports R L i)"
  by (simp add: up_ports_def)

definition link2 ::
  "(nat \<Rightarrow> nat \<Rightarrow> TopologyPortLink) \<Rightarrow> nat \<Rightarrow> nat \<Rightarrow> nat \<Rightarrow> nat \<Rightarrow> nat \<Rightarrow> nat \<Rightarrow> TopologyPortLink" where
  "link2 L k p c q i r =
     (if i = c \<and> r = q then mk_link k p else if i = k \<and> r = p then mk_link c q else L i r)"

lemma up_ports_link2:
  assumes "R k p = Child" and "R c q = Parent" and "q < 16" and "c \<noteq> k"
  shows "up_ports R (link2 L k p c q) i =
    (if i = c then insert q (up_ports R L c) else up_ports R L i)"
  using assms by (auto simp: up_ports_def mk_link_def link2_def)

lemma links_ok_link2:
  assumes "links_ok R n L" and "R k p = Child" and "R c q = Parent" and "c < k" and "k < n"
    and "p < 16" and "q < 16" and "\<not> lk_connected (L k p)" and "\<not> lk_connected (L c q)"
  shows "links_ok R n (link2 L k p c q)"
  unfolding links_ok_def
proof (intro allI impI)
  fix i r assume i: "i < n" "r < 16" and con: "lk_connected (link2 L k p c q i r)"
  show "\<exists>j s. link2 L k p c q i r = mk_link j s \<and> j < n \<and> s < 16
      \<and> link2 L k p c q j s = mk_link i r
      \<and> (R i r = Child \<and> R j s = Parent \<and> j < i \<or> R i r = Parent \<and> R j s = Child \<and> i < j)"
  proof (cases "(i = k \<and> r = p) \<or> (i = c \<and> r = q)")
    case True
    then show ?thesis
    proof
      assume "i = k \<and> r = p"
      then show ?thesis using assms(2-7) by (intro exI [of _ c] exI [of _ q]) (auto simp: link2_def)
    next
      assume "i = c \<and> r = q"
      then show ?thesis using assms(2-7) by (intro exI [of _ k] exI [of _ p]) (auto simp: link2_def)
    qed
  next
    case False
    then have same: "link2 L k p c q i r = L i r" by (auto simp: link2_def)
    with con have "lk_connected (L i r)" by simp
    with i assms(1) obtain j s where js: "L i r = mk_link j s" "j < n" "s < 16"
      "L j s = mk_link i r"
      "R i r = Child \<and> R j s = Parent \<and> j < i \<or> R i r = Parent \<and> R j s = Child \<and> i < j"
      unfolding links_ok_def by blast
    then have "lk_connected (L j s)" by (simp add: mk_link_def)
    with assms(8,9) have "\<not> (j = k \<and> s = p)" "\<not> (j = c \<and> s = q)" by auto
    then have "link2 L k p c q j s = L j s" by (auto simp: link2_def)
    with js same show ?thesis by metis
  qed
qed

lemma link_inv_step:
  assumes inv: "link_inv R n k D L (c # st)" and "k < n" and "p < 16" and "p \<notin> D" and "R k p = Child"
    and "q < 16" and "R c q = Parent" and "\<not> lk_connected (L c q)"
  shows "link_inv R n k (insert p D) (link2 L k p c q) st"
proof -
  from inv have c: "c < k" "c \<notin> set st" by (auto simp: link_inv_def)
  have kp: "\<not> lk_connected (L k p)" using inv assms(2-5) by (auto simp: link_inv_def)
  have "card (up_ports R L c) = 0" using inv c assms(2) by (auto simp: link_inv_def)
  then have up_c: "up_ports R L c = {}" by simp
  have ok: "links_ok R n (link2 L k p c q)"
    using inv assms c kp by (intro links_ok_link2) (auto simp: link_inv_def)
  have chi: "lk_connected (link2 L k p c q i r) = (i < k \<or> i = k \<and> r \<in> insert p D)"
    if "i < n" "r < 16" "R i r = Child" for i r
    using inv that assms(3,5,7) c by (auto simp: link_inv_def mk_link_def link2_def)
  have cards: "card (up_ports R (link2 L k p c q) i) = (if i < k \<and> i \<notin> set st then 1 else 0)"
    if "i < n" for i
    unfolding up_ports_link2 [OF assms(5,7,6) c(1) [THEN less_imp_neq]]
    using inv that c up_c by (auto simp: link_inv_def)
  show ?thesis using ok chi cards inv by (auto simp: link_inv_def)
qed

lemma link_inv_skip:
  assumes "link_inv R n k D L st" and "R k p \<noteq> Child"
  shows "link_inv R n k (insert p D) L st"
  using assms by (auto simp: link_inv_def)

lemma link_inv_push:
  assumes inv: "link_inv R n k {..<16} L st" and "k < n" and "q < 16" and "R k q = Parent"
  shows "link_inv R n (Suc k) {} L (k # st)"
proof -
  have "card (up_ports R L k) = 0" using inv assms(2) by (auto simp: link_inv_def)
  then show ?thesis using inv assms
    by (auto simp: link_inv_def less_Suc_eq)
qed


section \<open>The algorithm keeps the invariant\<close>

definition rep :: "TopologyNodeRecord list \<Rightarrow> nat \<Rightarrow> nat \<Rightarrow> PortState" where
  "rep ns i p = tn_reportedPorts (ns ! i) ! p"

definition lks :: "TopologyNodeRecord list \<Rightarrow> nat \<Rightarrow> nat \<Rightarrow> TopologyPortLink" where
  "lks ns i p = tn_links (ns ! i) ! p"

text \<open>Only the links of the nodes change, and node \<open>i\<close> is at index \<open>i\<close>.\<close>

definition node_frame :: "TopologyNodeRecord list \<Rightarrow> TopologyNodeRecord list \<Rightarrow> bool" where
  "node_frame ns0 ns \<longleftrightarrow> length ns = length ns0
     \<and> (\<forall>i < length ns. (ns ! i)\<lparr>tn_links := []\<rparr> = (ns0 ! i)\<lparr>tn_links := []\<rparr>
          \<and> length (tn_links (ns ! i)) = 16 \<and> tn_physicalId (ns ! i) = i)"

lemma node_frame_rep: "node_frame ns0 ns \<Longrightarrow> i < length ns0 \<Longrightarrow> rep ns i = rep ns0 i"
  by (auto simp: node_frame_def rep_def fun_eq_iff
      dest: arg_cong [where f = tn_reportedPorts] elim!: allE [of _ i])

lemma link_inv_cong:
  assumes "\<And>i p. i < n \<Longrightarrow> p < 16 \<Longrightarrow> L i p = L' i p"
  shows "link_inv R n k D L st = link_inv R n k D L' st"
proof -
  have "up_ports R L i = up_ports R L' i" if "i < n" for i
    using assms that by (auto simp: up_ports_def)
  moreover have "links_ok R n L = links_ok R n L'"
    unfolding links_ok_def by (simp add: assms cong: conj_cong)
  ultimately show ?thesis using assms by (simp add: link_inv_def)
qed

lemma ConnectBidirectional_frame:
  assumes "node_frame ns0 ns" and "k < length ns0" and "c < length ns0" and "c \<noteq> k"
  shows "node_frame ns0 (ConnectBidirectional k p c q ns)"
  using assms
  by (auto simp: node_frame_def ConnectBidirectional_def Let_def set_link_def nth_list_update)

lemma ConnectBidirectional_lks:
  assumes "node_frame ns0 ns" and "k < length ns0" and "c < length ns0" and "c \<noteq> k"
    and "p < 16" and "q < 16" and "i < length ns0" and "r < 16"
  shows "lks (ConnectBidirectional k p c q ns) i r = link2 (lks ns) k p c q i r"
  using assms
  by (auto simp: node_frame_def ConnectBidirectional_def Let_def set_link_def nth_list_update
      lks_def link2_def mk_link_def)

lemma FirstUnresolvedParentPort_iff:
  "(\<exists>q. FirstUnresolvedParentPort (ns ! i) = Some q) \<longleftrightarrow>
     (\<exists>q < 16. rep ns i q = Parent \<and> \<not> lk_connected (lks ns i q))"
  by (force simp: FirstUnresolvedParentPort_def kMaxPhyPorts_def rep_def lks_def find_None_iff
      simp flip: not_None_eq)

lemma FirstUnresolvedParentPort_SomeD:
  "FirstUnresolvedParentPort (ns ! i) = Some q \<Longrightarrow>
     q < 16 \<and> rep ns i q = Parent \<and> \<not> lk_connected (lks ns i q)"
  by (auto simp: FirstUnresolvedParentPort_def kMaxPhyPorts_def rep_def lks_def find_Some_iff)

definition build_inv :: "TopologyNodeRecord list \<Rightarrow> nat \<Rightarrow> nat set \<Rightarrow> build_state \<Rightarrow> bool" where
  "build_inv ns0 k D s \<longleftrightarrow> node_frame ns0 (fst s)
     \<and> link_inv (rep ns0) (length ns0) k D (lks (fst s)) (snd s)"

lemma unresolved_of_no_up:
  assumes "build_inv ns0 k D (ns, st)" and "i < length ns0" and "up_ports (rep ns0) (lks ns) i = {}"
  shows "(\<exists>q. FirstUnresolvedParentPort (ns ! i) = Some q) \<longleftrightarrow> (\<exists>q < 16. rep ns0 i q = Parent)"
  using assms node_frame_rep [of ns0 ns i]
  by (auto simp: FirstUnresolvedParentPort_iff build_inv_def up_ports_def)

lemma connect_port_step:
  assumes inv: "build_inv ns0 k D (ns, st)" and "k < length ns0" and "p < 16" and "p \<notin> D"
  shows "if rep ns0 k p = Child \<and> st = [] then \<exists>e. connect_port k p (ns, st) = Inl e
    else \<exists>ns'. connect_port k p (ns, st) = Inr (ns', if rep ns0 k p = Child then tl st else st)
      \<and> build_inv ns0 k (insert p D) (ns', if rep ns0 k p = Child then tl st else st)"
proof (cases "rep ns0 k p = Child \<and> st \<noteq> []")
  case False
  have "tn_reportedPorts (ns ! k) ! p = rep ns0 k p"
    using inv assms(2) node_frame_rep by (auto simp: build_inv_def simp flip: rep_def)
  with False inv show ?thesis
    by (auto simp: connect_port_def build_inv_def intro: link_inv_skip)
next
  case True
  then obtain c rest where st: "st = c # rest" by (cases st) auto
  have link: "link_inv (rep ns0) (length ns0) k D (lks ns) (c # rest)" and fr: "node_frame ns0 ns"
    using inv st by (auto simp: build_inv_def)
  then have c: "c < k" by (auto simp: link_inv_def)
  with link assms(2) have "card (up_ports (rep ns0) (lks ns) c) = 0" by (auto simp: link_inv_def)
  then have "up_ports (rep ns0) (lks ns) c = {}" by simp
  moreover have "\<exists>q < 16. rep ns0 c q = Parent" using link c by (auto simp: link_inv_def)
  ultimately obtain q where q: "FirstUnresolvedParentPort (ns ! c) = Some q"
    using unresolved_of_no_up [OF inv, of c] c assms(2) by auto
  note qd = FirstUnresolvedParentPort_SomeD [OF q]
  have rk: "rep ns k = rep ns0 k" and rc: "rep ns c = rep ns0 c"
    using fr assms(2) c by (simp_all add: node_frame_rep)
  let ?ns = "ConnectBidirectional k p c q ns"
  have "link_inv (rep ns0) (length ns0) k (insert p D) (link2 (lks ns) k p c q) rest"
    using link assms True qd rc by (intro link_inv_step) auto
  moreover have "link_inv (rep ns0) (length ns0) k (insert p D) (lks ?ns) rest =
      link_inv (rep ns0) (length ns0) k (insert p D) (link2 (lks ns) k p c q) rest"
    using fr assms c qd by (intro link_inv_cong ConnectBidirectional_lks) auto
  moreover have "node_frame ns0 ?ns" using fr assms c by (intro ConnectBidirectional_frame) auto
  ultimately have "build_inv ns0 k (insert p D) (?ns, rest)" by (simp add: build_inv_def)
  moreover have "connect_port k p (ns, st) = Inr (?ns, rest)"
    using True st q c rk assms(2) fr
    by (simp add: connect_port_def node_frame_def rep_def fun_eq_iff)
  ultimately show ?thesis using True st by simp
qed

lemma connect_ports:
  assumes "build_inv ns0 k D (ns, st)" and "k < length ns0" and "set ps \<subseteq> {..<16}" and "distinct ps"
    and "set ps \<inter> D = {}" and "c = length (filter (\<lambda>p. rep ns0 k p = Child) ps)"
  shows "if c \<le> length st
    then \<exists>ns'. efold (connect_port k) ps (ns, st) = Inr (ns', drop c st)
      \<and> build_inv ns0 k (D \<union> set ps) (ns', drop c st)
    else \<exists>e. efold (connect_port k) ps (ns, st) = Inl e"
  using assms
proof (induction ps arbitrary: D ns st c)
  case Nil
  then show ?case by simp
next
  case (Cons p ps)
  let ?c = "length (filter (\<lambda>p. rep ns0 k p = Child) ps)"
  let ?st = "if rep ns0 k p = Child then tl st else st"
  have step: "if rep ns0 k p = Child \<and> st = [] then \<exists>e. connect_port k p (ns, st) = Inl e
    else \<exists>ns'. connect_port k p (ns, st) = Inr (ns', ?st) \<and> build_inv ns0 k (insert p D) (ns', ?st)"
    using Cons.prems by (intro connect_port_step) auto
  show ?case
  proof (cases "rep ns0 k p = Child \<and> st = []")
    case True
    with step obtain e where "connect_port k p (ns, st) = Inl e" by auto
    with True Cons.prems(6) show ?thesis by simp
  next
    case False
    with step obtain ns' where ns': "connect_port k p (ns, st) = Inr (ns', ?st)"
      "build_inv ns0 k (insert p D) (ns', ?st)" by auto
    have ih: "if ?c \<le> length ?st
      then \<exists>ns''. efold (connect_port k) ps (ns', ?st) = Inr (ns'', drop ?c ?st)
        \<and> build_inv ns0 k (insert p D \<union> set ps) (ns'', drop ?c ?st)
      else \<exists>e. efold (connect_port k) ps (ns', ?st) = Inl e"
      using Cons.prems(2-5) by (intro Cons.IH [OF ns'(2)]) auto
    have ins: "insert p D \<union> set ps = D \<union> set (p # ps)" by auto
    show ?thesis
    proof (cases "rep ns0 k p = Child")
      case True
      with False obtain x xs where "st = x # xs" by (cases st) auto
      with ih ins True ns'(1) Cons.prems(6) show ?thesis by (auto split: if_splits)
    next
      case False
      with ih ins ns'(1) Cons.prems(6) show ?thesis by (auto split: if_splits)
    qed
  qed
qed


text \<open>The number of children and the presence of a parent port, as reported by node \<open>k\<close>.\<close>

definition child_count :: "TopologyNodeRecord list \<Rightarrow> nat \<Rightarrow> nat" where
  "child_count ns k = length (filter (\<lambda>p. rep ns k p = Child) [0..<16])"

definition has_parent_port :: "TopologyNodeRecord list \<Rightarrow> nat \<Rightarrow> bool" where
  "has_parent_port ns k \<longleftrightarrow> list_ex (\<lambda>p. rep ns k p = Parent) [0..<16]"

lemma process_node_step:
  assumes inv: "build_inv ns0 k {} (ns, st)" and k: "k < length ns0"
  shows "if child_count ns0 k \<le> length st \<and> (k < root \<longrightarrow> has_parent_port ns0 k)
    then \<exists>ns'. process_node root k (ns, st) =
        Inr (ns', (if k < root then [k] else []) @ drop (child_count ns0 k) st)
      \<and> (if k < root then build_inv ns0 (Suc k) {} (ns', k # drop (child_count ns0 k) st)
          else build_inv ns0 k {..<16} (ns', drop (child_count ns0 k) st))
    else \<exists>e. process_node root k (ns, st) = Inl e"
proof -
  let ?ps = "rev [0..<16] :: nat list" and ?c = "child_count ns0 k"
  have fr: "node_frame ns0 ns" using inv by (simp add: build_inv_def)
  then have guard: "\<not> (k \<ge> length ns \<or> tn_physicalId (ns ! k) \<noteq> k)"
    using k by (simp add: node_frame_def)
  have c: "?c = length (filter (\<lambda>p. rep ns0 k p = Child) ?ps)"
    by (simp only: child_count_def rev_filter [symmetric] length_rev)
  have ports: "if ?c \<le> length st
    then \<exists>ns'. efold (connect_port k) ?ps (ns, st) = Inr (ns', drop ?c st)
      \<and> build_inv ns0 k ({} \<union> set ?ps) (ns', drop ?c st)
    else \<exists>e. efold (connect_port k) ?ps (ns, st) = Inl e"
    using inv k by (intro connect_ports c) auto
  show ?thesis
  proof (cases "?c \<le> length st")
    case False
    with ports guard show ?thesis by (auto simp: process_node_def kMaxPhyPorts_def)
  next
    case True
    have all: "{} \<union> set ?ps = {..<16}" by auto
    from ports True all obtain ns' where ns': "efold (connect_port k) ?ps (ns, st) = Inr (ns', drop ?c st)"
      and inv': "build_inv ns0 k {..<16} (ns', drop ?c st)" by auto
    have "card (up_ports (rep ns0) (lks ns') k) = 0"
      using inv' k by (auto simp: build_inv_def link_inv_def)
    then have "(\<exists>q. FirstUnresolvedParentPort (ns' ! k) = Some q) \<longleftrightarrow> has_parent_port ns0 k"
      unfolding unresolved_of_no_up [OF inv' k, simplified]
      by (subst unresolved_of_no_up [OF inv' k]) (auto simp: has_parent_port_def list_ex_iff)
    moreover have "build_inv ns0 (Suc k) {} (ns', k # drop ?c st)" if "has_parent_port ns0 k"
      using inv' that k
      by (auto simp: build_inv_def has_parent_port_def list_ex_iff intro: link_inv_push)
    ultimately show ?thesis
      using True ns' inv' guard
      by (auto simp: process_node_def kMaxPhyPorts_def split: option.splits)
  qed
qed


text \<open>The height of the stack when node \<open>k\<close> is reached.\<close>

fun pending :: "(nat \<Rightarrow> nat) \<Rightarrow> nat \<Rightarrow> nat" where
  "pending c 0 = 0"
| "pending c (Suc k) = Suc (pending c k - c k)"

lemma pending_sum:
  "(\<forall>i < k. c i \<le> pending c i) \<Longrightarrow> pending c k + (\<Sum>i < k. c i) = k"
  by (induction k) auto

lemma pending_iff_sum:
  "(\<forall>k < m. c k \<le> pending c k) \<longleftrightarrow> (\<forall>k < m. (\<Sum>i \<le> k. c i) \<le> k)"
proof (induction m)
  case (Suc m)
  have "c m \<le> pending c m \<longleftrightarrow> (\<Sum>i \<le> m. c i) \<le> m" if "\<forall>k < m. c k \<le> pending c k"
    using pending_sum [OF that] by (auto simp: lessThan_Suc_atMost [symmetric])
  with Suc show ?case by (auto simp: less_Suc_eq)
qed simp

definition fresh_nodes :: "TopologyNodeRecord list \<Rightarrow> bool" where
  "fresh_nodes ns \<longleftrightarrow> (\<forall>i < length ns. tn_physicalId (ns ! i) = i
     \<and> tn_links (ns ! i) = replicate kMaxPhyPorts no_link)"

lemma build_inv_init: "fresh_nodes ns0 \<Longrightarrow> build_inv ns0 0 {} (ns0, [])"
  by (auto simp: fresh_nodes_def build_inv_def node_frame_def link_inv_def links_ok_def lks_def
      up_ports_def kMaxPhyPorts_def no_link_def)

lemma process_nodes:
  assumes "fresh_nodes ns0" and "m < length ns0" and "m \<le> root"
  shows "if \<forall>k < m. child_count ns0 k \<le> pending (child_count ns0) k \<and> has_parent_port ns0 k
    then \<exists>ns st. efold (process_node root) [0..<m] (ns0, []) = Inr (ns, st)
      \<and> length st = pending (child_count ns0) m \<and> build_inv ns0 m {} (ns, st)
    else \<exists>e. efold (process_node root) [0..<m] (ns0, []) = Inl e"
  using assms(2,3)
proof (induction m)
  case 0
  then show ?case using build_inv_init [OF assms(1)] by simp
next
  case (Suc m)
  let ?P = "\<lambda>k. child_count ns0 k \<le> pending (child_count ns0) k \<and> has_parent_port ns0 k"
  show ?case
  proof (cases "\<forall>k < m. ?P k")
    case False
    with Suc obtain e where "efold (process_node root) [0..<m] (ns0, []) = Inl e" by auto
    with False show ?thesis by (auto simp: efold_append less_Suc_eq)
  next
    case True
    with Suc obtain ns st where e: "efold (process_node root) [0..<m] (ns0, []) = Inr (ns, st)"
      and st: "length st = pending (child_count ns0) m" and inv: "build_inv ns0 m {} (ns, st)"
      by auto
    have "m < length ns0" "m < root" using Suc.prems by auto
    with process_node_step [OF inv, of root] True e st show ?thesis
      by (auto simp: efold_append less_Suc_eq Suc_diff_le split: if_splits)
  qed
qed

text \<open>
  The reports describe a tree when no node, in physical-ID order, claims more children than are
  waiting, the root claims exactly those left, and every other node has a port to its parent.
\<close>

definition tree_reports :: "TopologyNodeRecord list \<Rightarrow> bool" where
  "tree_reports ns \<longleftrightarrow> (let root = length ns - 1 in
     (\<forall>k < root. (\<Sum>i \<le> k. child_count ns i) \<le> k \<and> has_parent_port ns k)
     \<and> (\<Sum>i \<le> root. child_count ns i) = root)"

lemma tree_reports_pending:
  assumes "ns \<noteq> []"
  shows "tree_reports ns \<longleftrightarrow> (\<forall>k < length ns - 1. child_count ns k \<le> pending (child_count ns) k
      \<and> has_parent_port ns k)
    \<and> child_count ns (length ns - 1) = pending (child_count ns) (length ns - 1)"
proof -
  let ?c = "child_count ns" and ?r = "length ns - 1"
  have "(\<Sum>i \<le> ?r. ?c i) = ?r \<longleftrightarrow> ?c ?r = pending ?c ?r" if "\<forall>k < ?r. ?c k \<le> pending ?c k"
    using pending_sum [OF that] by (auto simp: lessThan_Suc_atMost [symmetric])
  with pending_iff_sum [of ?r ?c] show ?thesis
    by (auto simp: tree_reports_def Let_def)
qed

text \<open>The stack algorithm accepts exactly the reports of trees, and builds the links of one.\<close>

definition built_nodes :: "TopologyNodeRecord list \<Rightarrow> TopologyNodeRecord list \<Rightarrow> bool" where
  "built_nodes ns0 ns \<longleftrightarrow> build_inv ns0 (length ns0 - 1) {..<16} (ns, [])"

lemma build_all:
  assumes fresh: "fresh_nodes ns0" and ne: "ns0 \<noteq> []"
  defines "root \<equiv> length ns0 - 1"
  shows "(\<exists>ns. efold (process_node root) [0..<Suc root] (ns0, []) = Inr (ns, [])) \<longleftrightarrow> tree_reports ns0"
    and "efold (process_node root) [0..<Suc root] (ns0, []) = Inr (ns, []) \<Longrightarrow> built_nodes ns0 ns"
proof -
  let ?run = "efold (process_node root) [0..<Suc root] (ns0, [])"
  have lt: "root < length ns0" using ne by (simp add: root_def)
  have "(\<exists>ns. ?run = Inr (ns, [])) = tree_reports ns0
      \<and> (\<forall>ns. ?run = Inr (ns, []) \<longrightarrow> built_nodes ns0 ns)"
  proof (cases "\<forall>k < root. child_count ns0 k \<le> pending (child_count ns0) k \<and> has_parent_port ns0 k")
    case False
    with process_nodes [OF fresh lt order.refl] have "\<exists>e. ?run = Inl e"
      by (auto simp: efold_append)
    with False show ?thesis by (auto simp: tree_reports_pending [OF ne] root_def)
  next
    case True
    with process_nodes [OF fresh lt order.refl] obtain ns st
      where e: "efold (process_node root) [0..<root] (ns0, []) = Inr (ns, st)"
      and st: "length st = pending (child_count ns0) root" and inv: "build_inv ns0 root {} (ns, st)"
      by auto
    have run: "?run = process_node root root (ns, st)"
      by (cases "process_node root root (ns, st)") (simp_all add: efold_append e)
    show ?thesis
      unfolding run tree_reports_pending [OF ne] root_def [symmetric] built_nodes_def
      using process_node_step [OF inv lt, of root] True st
      by (auto split: if_splits)
  qed
  then show "(\<exists>ns. ?run = Inr (ns, [])) \<longleftrightarrow> tree_reports ns0"
    and "?run = Inr (ns, []) \<Longrightarrow> built_nodes ns0 ns" by auto
qed

section \<open>The tree of a built graph\<close>

text \<open>What the links of a graph with \<open>n\<close> nodes satisfy when they form a tree towards node \<open>n - 1\<close>.\<close>

definition tree_links :: "TopologyNodeRecord list \<Rightarrow> bool" where
  "tree_links ns \<longleftrightarrow> ns \<noteq> []
     \<and> (\<forall>i < length ns. tn_physicalId (ns ! i) = i \<and> length (tn_links (ns ! i)) = 16)
     \<and> links_ok (rep ns) (length ns) (lks ns)
     \<and> (\<forall>i < length ns. card (up_ports (rep ns) (lks ns) i) = (if i < length ns - 1 then 1 else 0))
     \<and> (\<forall>i < length ns. \<forall>p < 16. rep ns i p = Child \<longrightarrow> lk_connected (lks ns i p))"

lemma built_nodes_tree:
  assumes "ns0 \<noteq> []" and "built_nodes ns0 ns"
  shows "tree_links ns" and "length ns = length ns0"
proof -
  have fr: "node_frame ns0 ns" and inv: "link_inv (rep ns0) (length ns0) (length ns0 - 1) {..<16} (lks ns) []"
    using assms by (auto simp: built_nodes_def build_inv_def)
  then show len: "length ns = length ns0" by (simp add: node_frame_def)
  have rep: "rep ns i = rep ns0 i" if "i < length ns0" for i using fr that by (rule node_frame_rep)
  then have up: "up_ports (rep ns) (lks ns) i = up_ports (rep ns0) (lks ns) i" if "i < length ns0" for i
    using that by (simp add: up_ports_def)
  have "links_ok (rep ns) (length ns) (lks ns)"
    using inv rep len unfolding link_inv_def links_ok_def by (simp cong: conj_cong)
  moreover have "lk_connected (lks ns i p)"
    if "i < length ns" "p < 16" "rep ns i p = Child" for i p
    using inv that rep len assms(1) by (auto simp: link_inv_def nat_less_le)
  ultimately show "tree_links ns"
    using fr inv assms(1) len up by (auto simp: tree_links_def node_frame_def link_inv_def)
qed

text \<open>The parent of node \<open>i\<close>: the far end of its first connected \<open>Parent\<close> port.\<close>

definition parent_of :: "TopologyNodeRecord list \<Rightarrow> nat \<Rightarrow> nat" where
  "parent_of ns i =
     (let root = length ns - 1;
          j = (case find (\<lambda>p. rep ns i p = Parent \<and> lk_connected (lks ns i p)) [0..<16] of
                 Some p \<Rightarrow> lk_remoteNodeId (lks ns i p) | None \<Rightarrow> root)
      in if i < j \<and> j \<le> root then j else root)"

interpretation bus: up_tree "parent_of ns" "length ns - 1" for ns
  by unfold_locales (auto simp: parent_of_def Let_def)

abbreviation hop_dist :: "TopologyNodeRecord list \<Rightarrow> nat \<Rightarrow> nat \<Rightarrow> nat" where
  "hop_dist ns \<equiv> tree_dist (parent_of ns) (length ns - 1)"

definition linked :: "TopologyNodeRecord list \<Rightarrow> nat \<Rightarrow> nat \<Rightarrow> bool" where
  "linked ns i j \<longleftrightarrow> i < length ns
     \<and> (\<exists>p < 16. lk_connected (lks ns i p) \<and> lk_remoteNodeId (lks ns i p) = j)"

lemma parent_of_up:
  assumes "tree_links ns" and "i < length ns" and "p \<in> up_ports (rep ns) (lks ns) i"
  shows "i < length ns - 1" and "parent_of ns i = lk_remoteNodeId (lks ns i p)"
proof -
  let ?U = "up_ports (rep ns) (lks ns) i"
  have "card ?U \<noteq> 0" using assms(3) by auto
  with assms(1,2) have lt: "i < length ns - 1" and "card ?U = 1"
    by (auto simp: tree_links_def split: if_splits)
  then have U: "?U = {p}" using assms(3) by (auto simp: card_1_singleton_iff)
  obtain p' where p': "find (\<lambda>p. rep ns i p = Parent \<and> lk_connected (lks ns i p)) [0..<16] = Some p'"
    using assms(3) by (cases "find (\<lambda>p. rep ns i p = Parent \<and> lk_connected (lks ns i p)) [0..<16]")
      (auto simp: find_None_iff up_ports_def)
  then have "p' \<in> ?U" by (auto simp: find_Some_iff up_ports_def)
  with U have "p' = p" by simp
  have pU: "p < 16" "rep ns i p = Parent" "lk_connected (lks ns i p)"
    using assms(3) by (auto simp: up_ports_def)
  then obtain j q where "lks ns i p = mk_link j q" "j < length ns" "i < j"
    using assms(1,2) unfolding tree_links_def links_ok_def by (metis PortState.distinct(11))
  with p' \<open>p' = p\<close> show "parent_of ns i = lk_remoteNodeId (lks ns i p)"
    by (simp add: parent_of_def Let_def mk_link_def)
  show "i < length ns - 1" by (rule lt)
qed

lemma tree_link:
  assumes "tree_links ns" and "i < length ns" and "p < 16" and "lk_connected (lks ns i p)"
    and "lk_remoteNodeId (lks ns i p) = j"
  shows "\<exists>q. lks ns i p = mk_link j q \<and> j < length ns \<and> q < 16 \<and> lks ns j q = mk_link i p
    \<and> (rep ns i p = Child \<and> rep ns j q = Parent \<and> j < i
        \<or> rep ns i p = Parent \<and> rep ns j q = Child \<and> i < j)"
proof -
  have "links_ok (rep ns) (length ns) (lks ns)" using assms(1) by (simp add: tree_links_def)
  with assms(2-4) obtain k q where "lks ns i p = mk_link k q \<and> k < length ns \<and> q < 16
    \<and> lks ns k q = mk_link i p \<and> (rep ns i p = Child \<and> rep ns k q = Parent \<and> k < i
        \<or> rep ns i p = Parent \<and> rep ns k q = Child \<and> i < k)"
    unfolding links_ok_def by blast
  moreover from this have "k = j" using assms(5) by (simp add: mk_link_def)
  ultimately show ?thesis by blast
qed

lemma linked_iff_adj:
  assumes "tree_links ns"
  shows "linked ns i j \<longleftrightarrow> tree_adj (parent_of ns) (length ns - 1) i j"
proof
  assume "linked ns i j"
  then obtain p where p: "i < length ns" "p < 16" "lk_connected (lks ns i p)"
    "lk_remoteNodeId (lks ns i p) = j" by (auto simp: linked_def)
  then obtain q where q: "lks ns i p = mk_link j q" "j < length ns" "q < 16" "lks ns j q = mk_link i p"
    "rep ns i p = Child \<and> rep ns j q = Parent \<and> j < i \<or> rep ns i p = Parent \<and> rep ns j q = Child \<and> i < j"
    using tree_link [OF assms] by blast
  from q(5) show "tree_adj (parent_of ns) (length ns - 1) i j"
  proof
    assume "rep ns i p = Parent \<and> rep ns j q = Child \<and> i < j"
    then have "p \<in> up_ports (rep ns) (lks ns) i" using p by (simp add: up_ports_def)
    with parent_of_up [OF assms p(1)] p q show ?thesis by (auto simp: tree_adj_def)
  next
    assume "rep ns i p = Child \<and> rep ns j q = Parent \<and> j < i"
    then have "q \<in> up_ports (rep ns) (lks ns) j" using q by (simp add: up_ports_def mk_link_def)
    with parent_of_up [OF assms q(2)] p q show ?thesis by (auto simp: tree_adj_def mk_link_def)
  qed
next
  assume adj: "tree_adj (parent_of ns) (length ns - 1) i j"
  have ne: "0 < length ns" using assms by (simp add: tree_links_def)
  have up: "\<exists>p q. p < 16 \<and> q < 16 \<and> lks ns k p = mk_link (parent_of ns k) q
      \<and> lks ns (parent_of ns k) q = mk_link k p" if k: "k < length ns - 1" for k
  proof -
    have "card (up_ports (rep ns) (lks ns) k) = 1" using assms k by (auto simp: tree_links_def)
    then obtain p where p: "p \<in> up_ports (rep ns) (lks ns) k" by (metis card_1_singletonE singletonI)
    have "k < length ns" using k by simp
    from parent_of_up [OF assms this p] have "parent_of ns k = lk_remoteNodeId (lks ns k p)" by simp
    moreover have "p < 16" "lk_connected (lks ns k p)" using p by (auto simp: up_ports_def)
    ultimately show ?thesis using tree_link [OF assms \<open>k < length ns\<close>] by metis
  qed
  from adj consider "i < length ns - 1" "j = parent_of ns i" | "j < length ns - 1" "i = parent_of ns j"
    by (auto simp: tree_adj_def)
  then show "linked ns i j"
  proof cases
    case 1
    with up [OF 1(1)] show ?thesis by (force simp: linked_def mk_link_def)
  next
    case 2
    then have "i < length ns" using adj ne by (auto simp: tree_adj_def)
    with up [OF 2(1)] 2 show ?thesis by (force simp: linked_def mk_link_def)
  qed
qed

end
