(* ===== verification/Topology_Diameter.thy ===== *)
theory Topology_Diameter
  imports Topology_Tree
begin

text \<open>
  \<^verbatim>\<open>Bus/SelfIDTopologyNormalizer.cpp\<close>, function \<open>ComputeBusDiameter\<close>: the two breadth-first passes end
  on every tree of at most 63 nodes and find the largest number of hops between two nodes.
\<close>

section \<open>The breadth-first pass\<close>

definition reached :: "nat list \<Rightarrow> nat set" where
  "reached dist = {v. v < length dist \<and> dist ! v \<noteq> 255}"

lemma finite_reached [simp]: "finite (reached dist)"
  by (simp add: reached_def)

lemma reached_subset: "reached dist \<subseteq> {..<length dist}"
  by (auto simp: reached_def)

text \<open>
  Every reached node carries its distance from \<open>s\<close>, its neighbour nearer to \<open>s\<close> is reached, and
  the farthest node recorded so far is one of largest distance.
\<close>

definition bfs_inv :: "TopologyNodeRecord list \<Rightarrow> nat \<Rightarrow> bfs_state \<Rightarrow> bool" where
  "bfs_inv ns s st \<longleftrightarrow> (case st of (dist, far, fr) \<Rightarrow>
     length dist = length ns \<and> s \<in> reached dist \<and> set fr \<subseteq> reached dist
     \<and> (\<forall>v \<in> reached dist. dist ! v = hop_dist ns s v)
     \<and> (\<forall>v \<in> reached dist. \<forall>w. linked ns v w \<and> hop_dist ns s v = Suc (hop_dist ns s w)
           \<longrightarrow> w \<in> reached dist)
     \<and> far \<in> reached dist \<and> (\<forall>v \<in> reached dist. dist ! v \<le> dist ! far))"

lemma hop_dist_bound: "tree_dist par r u v \<le> (r - u) + (r - v)"
  by (induction par r u v rule: tree_dist.induct) (subst tree_dist.simps, auto)

lemma running_max:
  fixes f :: "'a \<Rightarrow> 'b::linorder"
  assumes "\<forall>v \<in> S. f v \<le> f m"
  shows "\<forall>v \<in> insert x S. f v \<le> f (if f x > f m then x else m)"
  using assms by (auto dest: bspec intro: less_imp_le order.trans)

lemma bfs_link_step:
  assumes tree: "tree_links ns" and n: "length ns \<le> 63" and inv: "bfs_inv ns s (dist, far, fr)"
    and cur: "cur \<in> reached dist" and link: "link \<in> set (tn_links (ns ! cur))"
  obtains dist' far' fr' where "bfs_link cur link (dist, far, fr) = (dist', far', fr')"
    and "bfs_inv ns s (dist', far', fr')" and "reached dist \<subseteq> reached dist'"
    and "lk_connected link \<Longrightarrow> lk_remoteNodeId link \<in> reached dist'"
    and "\<exists>new. fr' = fr @ new \<and> card (reached dist') = card (reached dist) + length new
           \<and> reached dist' \<subseteq> reached dist \<union> set new"
proof -
  let ?v = "lk_remoteNodeId link"
  have len: "length dist = length ns" and sr: "s \<in> reached dist" using inv by (auto simp: bfs_inv_def)
  have cur_n: "cur < length ns" using cur len by (auto simp: reached_def)
  have s_n: "s < length ns" using sr len by (auto simp: reached_def)
  have conn: "linked ns cur ?v" if "lk_connected link"
  proof -
    obtain p where "p < 16" "link = lks ns cur p"
      using link tree cur_n by (auto simp: in_set_conv_nth tree_links_def lks_def)
    with that cur_n show ?thesis by (auto simp: linked_def)
  qed
  show ?thesis
  proof (cases "lk_connected link \<and> ?v \<notin> reached dist")
    case False
    moreover have "?v < length ns" if "lk_connected link"
      using conn [OF that] by (auto simp: linked_iff_adj [OF tree] tree_adj_def)
    ultimately have "bfs_link cur link (dist, far, fr) = (dist, far, fr)"
      using len by (auto simp: bfs_link_def Let_def reached_def kInvalidPhysicalId_def)
    with that [of dist far fr] inv False show ?thesis by auto
  next
    case True
    then have lnk: "linked ns cur ?v" using conn by simp
    then have adj: "tree_adj (parent_of ns) (length ns - 1) cur ?v"
      by (simp add: linked_iff_adj [OF tree])
    then have v_n: "?v < length ns" using cur_n by (auto simp: tree_adj_def)
    have dcur: "dist ! cur = hop_dist ns s cur" using inv cur by (auto simp: bfs_inv_def)
    have far_v: "hop_dist ns s ?v = Suc (hop_dist ns s cur)"
    proof -
      have "hop_dist ns s ?v = Suc (hop_dist ns s cur) \<or> hop_dist ns s cur = Suc (hop_dist ns s ?v)"
        using adj s_n by (intro bus.dist_adj_cases) auto
      moreover have "hop_dist ns s cur \<noteq> Suc (hop_dist ns s ?v)"
        using inv cur lnk True by (auto simp: bfs_inv_def)
      ultimately show ?thesis by blast
    qed
    have bound: "hop_dist ns s ?v < 255"
      using hop_dist_bound [of "parent_of ns" "length ns - 1" s ?v] n by linarith
    let ?d = "dist[?v := hop_dist ns s ?v]"
    have dv: "(dist ! cur + 1) mod 256 = hop_dist ns s ?v" using dcur far_v bound by simp
    have unr: "dist ! ?v = 255" using True v_n len by (auto simp: reached_def)
    have rd: "reached ?d = insert ?v (reached dist)"
      using v_n len bound by (auto simp: reached_def nth_list_update)
    have dd: "?d ! v = hop_dist ns s v" if "v \<in> reached ?d" for v
      using that inv rd v_n len by (auto simp: bfs_inv_def nth_list_update)
    have close: "w \<in> reached ?d"
      if v: "v \<in> reached ?d" and w: "linked ns v w" "hop_dist ns s v = Suc (hop_dist ns s w)" for v w
    proof (cases "v = ?v")
      case True
      have "tree_adj (parent_of ns) (length ns - 1) ?v w"
        using w True by (simp add: linked_iff_adj [OF tree])
      then have "w = cur"
        using bus.nearer_unique [of s ns ?v w cur] bus.adj_sym [OF adj] w True far_v s_n by simp
      then show ?thesis using cur rd by simp
    next
      case False
      then show ?thesis using v w inv rd by (auto simp: bfs_inv_def)
    qed
    let ?far = "if ?d ! ?v > ?d ! far then ?v else far"
    have farr: "far \<in> reached dist" using inv by (simp add: bfs_inv_def)
    have farmax: "\<forall>v \<in> reached dist. ?d ! v \<le> ?d ! far"
    proof
      fix v assume v: "v \<in> reached dist"
      with True farr have "?v \<noteq> v" "?v \<noteq> far" by auto
      moreover have "dist ! v \<le> dist ! far" using inv v unfolding bfs_inv_def by blast
      ultimately show "?d ! v \<le> ?d ! far" by simp
    qed
    have "bfs_link cur link (dist, far, fr) = (?d, ?far, fr @ [?v])"
      using True v_n len unr dv by (simp add: bfs_link_def Let_def kInvalidPhysicalId_def)
    moreover have "bfs_inv ns s (?d, ?far, fr @ [?v])"
      unfolding bfs_inv_def prod.case
    proof (intro conjI)
      show "\<forall>v \<in> reached ?d. ?d ! v \<le> ?d ! ?far"
        unfolding rd by (rule running_max [OF farmax])
      show "\<forall>v \<in> reached ?d. ?d ! v = hop_dist ns s v" using dd by blast
      show "\<forall>v \<in> reached ?d. \<forall>w. linked ns v w \<and> hop_dist ns s v = Suc (hop_dist ns s w)
          \<longrightarrow> w \<in> reached ?d" using close by blast
      show "set (fr @ [?v]) \<subseteq> reached ?d" "s \<in> reached ?d" "?far \<in> reached ?d" "length ?d = length ns"
        using inv farr len unfolding rd bfs_inv_def by auto
    qed
    ultimately show ?thesis
      using that [of ?d ?far "fr @ [?v]"] True unfolding rd by auto
  qed
qed

lemma bfs_links:
  assumes tree: "tree_links ns" and n: "length ns \<le> 63" and "bfs_inv ns s (dist, far, fr)"
    and "cur \<in> reached dist" and "set ls \<subseteq> set (tn_links (ns ! cur))"
  shows "\<exists>dist' far' new. fold (bfs_link cur) ls (dist, far, fr) = (dist', far', fr @ new)
    \<and> bfs_inv ns s (dist', far', fr @ new) \<and> reached dist \<subseteq> reached dist'
    \<and> (\<forall>l \<in> set ls. lk_connected l \<longrightarrow> lk_remoteNodeId l \<in> reached dist')
    \<and> card (reached dist') = card (reached dist) + length new
    \<and> reached dist' \<subseteq> reached dist \<union> set new"
  using assms(3-5)
proof (induction ls arbitrary: dist far fr)
  case Nil
  then show ?case by auto
next
  case (Cons l ls)
  from Cons.prems(3) have "l \<in> set (tn_links (ns ! cur))" by simp
  from bfs_link_step [OF tree n Cons.prems(1,2) this] obtain d1 f1 r1 new1
    where 1: "bfs_link cur l (dist, far, fr) = (d1, f1, r1)" "bfs_inv ns s (d1, f1, r1)"
      "reached dist \<subseteq> reached d1" "lk_connected l \<Longrightarrow> lk_remoteNodeId l \<in> reached d1"
      "r1 = fr @ new1" "card (reached d1) = card (reached dist) + length new1"
      "reached d1 \<subseteq> reached dist \<union> set new1" by metis
  have "cur \<in> reached d1" "set ls \<subseteq> set (tn_links (ns ! cur))" using Cons.prems 1(3) by auto
  from Cons.IH [OF 1(2) this] obtain d2 f2 new2
    where 2: "fold (bfs_link cur) ls (d1, f1, r1) = (d2, f2, r1 @ new2)"
      "bfs_inv ns s (d2, f2, r1 @ new2)" "reached d1 \<subseteq> reached d2"
      "\<forall>l \<in> set ls. lk_connected l \<longrightarrow> lk_remoteNodeId l \<in> reached d2"
      "card (reached d2) = card (reached d1) + length new2"
      "reached d2 \<subseteq> reached d1 \<union> set new2" by blast
  show ?case
    using 1 2 by (intro exI [of _ d2] exI [of _ f2] exI [of _ "new1 @ new2"]) auto
qed

text \<open>The loop ends within its fuel, with every node reached.\<close>

definition bfs_closed :: "TopologyNodeRecord list \<Rightarrow> bfs_state \<Rightarrow> bool" where
  "bfs_closed ns st \<longleftrightarrow> (case st of (dist, far, fr) \<Rightarrow>
     \<forall>v \<in> reached dist - set fr. \<forall>w. linked ns v w \<longrightarrow> w \<in> reached dist)"

lemma bfs_loop_total:
  assumes tree: "tree_links ns" and n: "length ns \<le> 63"
  shows "bfs_inv ns s (dist, far, fr) \<Longrightarrow> bfs_closed ns (dist, far, fr) \<Longrightarrow>
    length fr + (length ns - card (reached dist)) \<le> fuel \<Longrightarrow>
    \<exists>dist' far'. bfs_loop fuel ns (dist, far, fr) = Some (dist', far', [])
      \<and> bfs_inv ns s (dist', far', []) \<and> bfs_closed ns (dist', far', [])"
proof (induction fuel arbitrary: dist far fr)
  case 0
  then show ?case by simp
next
  case (Suc fuel)
  show ?case
  proof (cases fr)
    case Nil
    then show ?thesis using Suc.prems by auto
  next
    case (Cons cur rest)
    have cur: "cur \<in> reached dist" and inv: "bfs_inv ns s (dist, far, rest)"
      using Suc.prems(1) Cons by (auto simp: bfs_inv_def)
    have cur_n: "cur < length ns" using cur inv by (auto simp: bfs_inv_def reached_def)
    from bfs_links [OF tree n inv cur order.refl] obtain d1 f1 new
      where 1: "fold (bfs_link cur) (tn_links (ns ! cur)) (dist, far, rest) = (d1, f1, rest @ new)"
        "bfs_inv ns s (d1, f1, rest @ new)" "reached dist \<subseteq> reached d1"
        "\<forall>l \<in> set (tn_links (ns ! cur)). lk_connected l \<longrightarrow> lk_remoteNodeId l \<in> reached d1"
        "card (reached d1) = card (reached dist) + length new"
        "reached d1 \<subseteq> reached dist \<union> set new" by blast
    have nb: "w \<in> reached d1" if "linked ns cur w" for w
    proof -
      obtain p where "p < 16" "lk_connected (lks ns cur p)" "lk_remoteNodeId (lks ns cur p) = w"
        using \<open>linked ns cur w\<close> by (auto simp: linked_def)
      moreover from this have "lks ns cur p \<in> set (tn_links (ns ! cur))"
        using tree cur_n by (simp add: tree_links_def lks_def)
      ultimately show ?thesis using 1(4) by blast
    qed
    have closed: "bfs_closed ns (d1, f1, rest @ new)"
      using Suc.prems(2) Cons 1(3,6) nb by (auto simp: bfs_closed_def)
    have "length ns - card (reached d1) + length new = length ns - card (reached dist)"
    proof -
      have "card (reached d1) \<le> length ns"
        using card_mono [OF _ reached_subset [of d1]] 1(2) by (simp add: bfs_inv_def)
      with 1(5) show ?thesis by simp
    qed
    with Suc.prems(3) Cons have "length (rest @ new) + (length ns - card (reached d1)) \<le> fuel" by simp
    from Suc.IH [OF 1(2) closed this] show ?thesis using Cons 1(1) by simp
  qed
qed

text \<open>In a tree, a set of nodes closed under links that holds one node holds all.\<close>

lemma neighbour_closed_all:
  assumes tree: "tree_links ns" and s: "s \<in> V" and V: "V \<subseteq> {..<length ns}"
    and closed: "\<And>v w. v \<in> V \<Longrightarrow> linked ns v w \<Longrightarrow> w \<in> V"
  shows "V = {..<length ns}"
proof -
  have "v \<in> V" if "v < length ns" for v
    using that
  proof (induction "hop_dist ns s v" arbitrary: v rule: less_induct)
    case less
    show ?case
    proof (cases "v = s")
      case False
      have "s \<le> length ns - 1" "v \<le> length ns - 1" using s V less.prems by auto
      from bus.nearer_exists [OF this False] obtain w
        where w: "tree_adj (parent_of ns) (length ns - 1) v w"
          "hop_dist ns s v = Suc (hop_dist ns s w)" by blast
      then have "w < length ns" using less.prems by (auto simp: tree_adj_def)
      with w have "w \<in> V" by (intro less.hyps) auto
      moreover have "linked ns w v"
        using bus.adj_sym [OF w(1)] by (simp add: linked_iff_adj [OF tree])
      ultimately show ?thesis by (rule closed)
    qed (use s in simp)
  qed
  with V show ?thesis by auto
qed

lemma closed_reaches_all:
  assumes tree: "tree_links ns" and inv: "bfs_inv ns s (dist, far, [])"
    and closed: "bfs_closed ns (dist, far, [])"
  shows "reached dist = {..<length ns}"
proof (rule neighbour_closed_all [OF tree])
  show "s \<in> reached dist" "reached dist \<subseteq> {..<length ns}"
    using inv reached_subset [of dist] by (auto simp: bfs_inv_def)
  show "w \<in> reached dist" if "v \<in> reached dist" "linked ns v w" for v w
    using closed that by (auto simp: bfs_closed_def)
qed

lemma farthestFrom_correct:
  assumes tree: "tree_links ns" and n: "length ns \<le> 63" and s: "s < length ns"
  shows "\<exists>a. farthestFrom ns s = Some (a, hop_dist ns s a) \<and> a < length ns
    \<and> (\<forall>v < length ns. hop_dist ns s v \<le> hop_dist ns s a)"
proof -
  let ?d = "(replicate (length ns) kInvalidPhysicalId)[s := 0]"
  have r: "reached ?d = {s}"
    using s by (auto simp: reached_def kInvalidPhysicalId_def nth_list_update split: if_splits)
  have inv0: "bfs_inv ns s (?d, s, [s])"
    unfolding bfs_inv_def using r s by simp
  have closed0: "bfs_closed ns (?d, s, [s])" using r by (simp add: bfs_closed_def)
  have fuel: "length [s] + (length ns - card (reached ?d)) \<le> length ns" using r s by simp
  obtain d far where loop: "bfs_loop (length ns) ns (?d, s, [s]) = Some (d, far, [])"
    and inv: "bfs_inv ns s (d, far, [])" and closed: "bfs_closed ns (d, far, [])"
    using bfs_loop_total [OF tree n inv0 closed0 fuel] by blast
  have all: "reached d = {..<length ns}" by (rule closed_reaches_all [OF tree inv closed])
  with inv have "far < length ns" "d ! far = hop_dist ns s far"
    "\<forall>v < length ns. hop_dist ns s v \<le> hop_dist ns s far"
    by (auto simp: bfs_inv_def)
  with loop show ?thesis by (auto simp: farthestFrom_def Let_def)
qed

text \<open>The two passes compute the largest distance between any two nodes.\<close>

lemma ComputeBusDiameter_correct:
  assumes tree: "tree_links ns" and n: "length ns \<le> 63"
  shows "\<exists>e. ComputeBusDiameter ns = Some e
    \<and> (\<forall>u < length ns. \<forall>v < length ns. hop_dist ns u v \<le> e)
    \<and> (\<exists>u < length ns. \<exists>v < length ns. hop_dist ns u v = e)"
proof -
  have ne: "0 < length ns" using tree by (simp add: tree_links_def)
  show ?thesis
  proof (cases "length ns \<le> 1")
    case True
    with ne have "length ns = 1" by linarith
    then show ?thesis by (auto simp: ComputeBusDiameter_def)
  next
    case False
    obtain a where a: "farthestFrom ns 0 = Some (a, hop_dist ns 0 a)" "a < length ns"
      "\<forall>v < length ns. hop_dist ns 0 v \<le> hop_dist ns 0 a"
      using farthestFrom_correct [OF tree n ne] by blast
    obtain b where b: "farthestFrom ns a = Some (b, hop_dist ns a b)" "b < length ns"
      "\<forall>v < length ns. hop_dist ns a v \<le> hop_dist ns a b"
      using farthestFrom_correct [OF tree n a(2)] by blast
    have far: "hop_dist ns u v \<le> hop_dist ns a b" if "u < length ns" "v < length ns" for u v
    proof (rule bus.farthest_is_end [where s = 0 and a = a])
      show "u \<le> length ns - 1" "v \<le> length ns - 1" "a \<le> length ns - 1"
        using that a(2) by linarith+
      show "hop_dist ns 0 x \<le> hop_dist ns 0 a" "hop_dist ns a x \<le> hop_dist ns a b"
        if "x \<le> length ns - 1" for x
      proof -
        have "x < length ns" using that ne by linarith
        then show "hop_dist ns 0 x \<le> hop_dist ns 0 a" "hop_dist ns a x \<le> hop_dist ns a b"
          using a(3) b(3) by blast+
      qed
    qed simp
    have "ComputeBusDiameter ns = Some (hop_dist ns a b)"
      using False a(1) b(1) by (simp add: ComputeBusDiameter_def)
    with far a(2) b(2) show ?thesis by blast
  qed
qed

end
