(* ===== verification/Topology_Normalize.thy ===== *)
theory Topology_Normalize
  imports Topology_Diameter
begin

text \<open>
  \<^verbatim>\<open>Bus/SelfIDTopologyNormalizer.cpp\<close>, function \<open>NormalizeFromLocal\<close>: the depth-first pass that
  turns the physical tree, whose root the bus elected, into the tree as the local node sees it.
\<close>

section \<open>Records and the traversal\<close>

record NormalizedPortLink =
  np_connected :: bool
  np_remotePhysicalId :: nat
  np_remotePort :: nat
  np_normalizedState :: PortState

definition no_norm_link :: NormalizedPortLink where
  "no_norm_link = \<lparr>np_connected = False, np_remotePhysicalId = kInvalidPhysicalId,
                   np_remotePort = kInvalidPhysicalId, np_normalizedState = NotPresent\<rparr>"

record NormalizedNode =
  nn_eui64 :: u64
  nn_physicalId :: nat
  nn_isObserver :: bool
  nn_ports :: "NormalizedPortLink list"

definition norm_node0 :: NormalizedNode where
  "norm_node0 = \<lparr>nn_eui64 = 0, nn_physicalId = kInvalidPhysicalId, nn_isObserver = False,
                 nn_ports = replicate kMaxPhyPorts no_norm_link\<rparr>"

record NormalizedTopologyGraph =
  ng_observerPhysicalId :: nat
  ng_nodes :: "NormalizedNode list"

definition set_norm_port :: "nat \<Rightarrow> NormalizedPortLink \<Rightarrow> NormalizedNode \<Rightarrow> NormalizedNode" where
  "set_norm_port port link node = node\<lparr>nn_ports := (nn_ports node)[port := link]\<rparr>"

text \<open>
  The head of the list \<open>stack\<close> is the vector's back. The two \<open>NormalizedNode\<close> references are two
  indices into the node array, written one after the other.
\<close>

type_synonym norm_state = "bool list \<times> nat list \<times> NormalizedNode list"

definition norm_port ::
  "TopologyNodeRecord list \<Rightarrow> nat \<Rightarrow> nat \<Rightarrow> norm_state \<Rightarrow> TopologyBuildError + norm_state" where
  "norm_port nodes currentId port st =
     (let (visited, stack, norm) = st;
          link = tn_links (nodes ! currentId) ! port;
          remoteId = lk_remoteNodeId link;
          remotePort = lk_remotePort link
      in if \<not> lk_connected link then Inr st
         else if remoteId \<ge> length nodes
         then Inl (build_error ReciprocalLinkMissing
                    ''Physical link references a remote node outside the graph'')
         else if visited ! remoteId then Inr st
         else
           let norm1 = norm[currentId := set_norm_port port
                        \<lparr>np_connected = True, np_remotePhysicalId = remoteId,
                         np_remotePort = remotePort, np_normalizedState = Child\<rparr> (norm ! currentId)];
               norm2 = norm1[remoteId := set_norm_port remotePort
                        \<lparr>np_connected = True, np_remotePhysicalId = currentId,
                         np_remotePort = port, np_normalizedState = Parent\<rparr> (norm1 ! remoteId)]
           in Inr (visited[remoteId := True], remoteId # stack, norm2))"

text \<open>The \<open>while\<close> loop pops a node per turn; \<open>fuel\<close> bounds the turns (enough: see below).\<close>

fun norm_loop ::
  "nat \<Rightarrow> TopologyNodeRecord list \<Rightarrow> norm_state \<Rightarrow> (TopologyBuildError + norm_state) option" where
  "norm_loop fuel nodes (visited, [], norm) = Some (Inr (visited, [], norm))"
| "norm_loop 0 nodes (visited, currentId # stack, norm) = None"
| "norm_loop (Suc fuel) nodes (visited, currentId # stack, norm) =
     (case efold (norm_port nodes currentId) [0..<kMaxPhyPorts] (visited, stack, norm) of
        Inl e \<Rightarrow> Some (Inl e)
      | Inr st \<Rightarrow> norm_loop fuel nodes st)"

definition norm_init :: "TopologyNodeRecord list \<Rightarrow> nat \<Rightarrow> NormalizedNode list" where
  "norm_init nodes localPhysicalId =
     fold (\<lambda>physicalNode norm.
             let i = tn_physicalId physicalNode in
             norm[i := (norm ! i)\<lparr>nn_physicalId := i, nn_isObserver := (i = localPhysicalId)\<rparr>])
       nodes (replicate (length nodes) norm_node0)"

definition NormalizeFromLocal ::
  "PhysicalTopologyGraph \<Rightarrow> nat \<Rightarrow> (TopologyBuildError + NormalizedTopologyGraph) option" where
  "NormalizeFromLocal physical localPhysicalId =
     (let nodes = pg_nodes physical; n = length nodes in
      if localPhysicalId = kInvalidPhysicalId \<or> localPhysicalId \<ge> n
      then Some (Inl (build_error LocalNodeUnavailable
                       ''Local physical ID is unavailable or outside physical graph''))
      else
        map_option (\<lambda>r. ebind r (\<lambda>(visited, _, norm).
            if list_ex Not visited
            then Inl (build_error EdgeCountMismatch
                       ''Physical graph is disconnected from local observer'')
            else Inr \<lparr>ng_observerPhysicalId = localPhysicalId, ng_nodes = norm\<rparr>))
          (norm_loop n nodes ((replicate n False)[localPhysicalId := True], [localPhysicalId],
             norm_init nodes localPhysicalId)))"

section \<open>Correctness\<close>

lemma link_port_unique:
  assumes tree: "tree_links ns" and "i < length ns" and "p < 16" and "r < 16"
    and "lks ns i p = mk_link j q" and "lks ns i r = mk_link j q'"
  shows "p = r"
proof -
  have up1: "a = b" if "a \<in> up_ports (rep ns) (lks ns) k" "b \<in> up_ports (rep ns) (lks ns) k" "k < length ns"
    for a b k
  proof -
    have "card (up_ports (rep ns) (lks ns) k) \<le> 1" using tree \<open>k < _\<close> by (auto simp: tree_links_def)
    with that show ?thesis by (metis card_le_Suc0_iff_eq finite_up_ports One_nat_def)
  qed
  from tree_link [OF tree assms(2,3)] assms(5) have 1: "j < length ns" "q < 16" "lks ns j q = mk_link i p"
    "rep ns i p = Child \<and> rep ns j q = Parent \<and> j < i \<or> rep ns i p = Parent \<and> rep ns j q = Child \<and> i < j"
    by (auto simp: mk_link_def)
  from tree_link [OF tree assms(2,4)] assms(6) have 2: "q' < 16" "lks ns j q' = mk_link i r"
    "rep ns i r = Child \<and> rep ns j q' = Parent \<and> j < i \<or> rep ns i r = Parent \<and> rep ns j q' = Child \<and> i < j"
    by (auto simp: mk_link_def)
  show ?thesis
  proof (cases "i < j")
    case True
    then show ?thesis using 1 2 assms by (intro up1 [of p i r]) (auto simp: up_ports_def mk_link_def)
  next
    case False
    then have "q = q'" using 1 2 by (intro up1 [of q j q']) (auto simp: up_ports_def mk_link_def)
    then show ?thesis using 1 2 by (simp add: mk_link_def)
  qed
qed

text \<open>
  The port \<open>p\<close> of node \<open>i\<close> as the observer \<open>s\<close> sees it once the nodes of \<open>V\<close> are visited: \<open>Child\<close>
  when the link leads away from \<open>s\<close>, \<open>Parent\<close> when it leads towards \<open>s\<close>.
\<close>

definition observed_port ::
  "TopologyNodeRecord list \<Rightarrow> nat \<Rightarrow> nat set \<Rightarrow> nat \<Rightarrow> nat \<Rightarrow> NormalizedPortLink" where
  "observed_port ns s V i p =
     (let link = lks ns i p; j = lk_remoteNodeId link in
      if lk_connected link \<and> i \<in> V \<and> j \<in> V
      then \<lparr>np_connected = True, np_remotePhysicalId = j, np_remotePort = lk_remotePort link,
            np_normalizedState = (if hop_dist ns s i < hop_dist ns s j then Child else Parent)\<rparr>
      else no_norm_link)"

definition near_closed :: "TopologyNodeRecord list \<Rightarrow> nat \<Rightarrow> nat set \<Rightarrow> bool" where
  "near_closed ns s V \<longleftrightarrow> V \<subseteq> {..<length ns} \<and> s \<in> V
     \<and> (\<forall>v \<in> V. \<forall>w. linked ns v w \<and> hop_dist ns s v = Suc (hop_dist ns s w) \<longrightarrow> w \<in> V)"

lemma new_node_farther:
  assumes tree: "tree_links ns" and cl: "near_closed ns s V" and "linked ns u v" and "u \<in> V" and "v \<notin> V"
  shows "hop_dist ns s v = Suc (hop_dist ns s u)"
proof -
  have adj: "tree_adj (parent_of ns) (length ns - 1) u v"
    using assms(3) by (simp add: linked_iff_adj [OF tree])
  have "s \<le> length ns - 1" using cl by (auto simp: near_closed_def)
  from bus.dist_adj_cases [OF this adj]
  have "hop_dist ns s v = Suc (hop_dist ns s u) \<or> hop_dist ns s u = Suc (hop_dist ns s v)" by blast
  moreover have "hop_dist ns s u \<noteq> Suc (hop_dist ns s v)"
    using cl assms(3-5) unfolding near_closed_def by blast
  ultimately show ?thesis by blast
qed

lemma new_node_unique:
  assumes tree: "tree_links ns" and cl: "near_closed ns s V" and v: "v \<notin> V"
    and u: "linked ns u v" "u \<in> V" and w: "linked ns w v" "w \<in> V"
  shows "u = w"
proof -
  have "tree_adj (parent_of ns) (length ns - 1) v u" "tree_adj (parent_of ns) (length ns - 1) v w"
    using u w unfolding linked_iff_adj [OF tree] by (blast intro: bus.adj_sym)+
  moreover have "s \<le> length ns - 1" using cl by (auto simp: near_closed_def)
  ultimately show ?thesis
    using bus.nearer_unique [of s ns v u w] new_node_farther [OF tree cl u v] new_node_farther [OF tree cl w v]
    by simp
qed

lemma linked_sym: "tree_links ns \<Longrightarrow> linked ns u v \<Longrightarrow> linked ns v u"
  unfolding linked_iff_adj by (rule bus.adj_sym)

lemma observed_insert:
  assumes tree: "tree_links ns" and cl: "near_closed ns s V" and cur: "cur \<in> V" and p: "p < 16"
    and link: "lks ns cur p = mk_link v q" and v: "v \<notin> V"
  shows "near_closed ns s (insert v V)" and "v < length ns" and "q < 16"
    and "i < length ns \<Longrightarrow> r < 16 \<Longrightarrow> observed_port ns s (insert v V) i r =
      (if i = v \<and> r = q then \<lparr>np_connected = True, np_remotePhysicalId = cur, np_remotePort = p,
                            np_normalizedState = Parent\<rparr>
       else if i = cur \<and> r = p then \<lparr>np_connected = True, np_remotePhysicalId = v, np_remotePort = q,
                            np_normalizedState = Child\<rparr>
       else observed_port ns s V i r)"
proof -
  have cur_n: "cur < length ns" using cl cur by (auto simp: near_closed_def)
  have rec: "v < length ns" "q < 16" "lks ns v q = mk_link cur p"
    using tree_link [OF tree cur_n p, of v] link by (auto simp: mk_link_def)
  then show v_n: "v < length ns" and "q < 16" by auto
  have lnk: "linked ns cur v" using cur_n p link by (auto simp: linked_def mk_link_def)
  have far: "hop_dist ns s v = Suc (hop_dist ns s cur)" by (rule new_node_farther [OF tree cl lnk cur v])
  have uniq: "u = cur" if "linked ns v u" "u \<in> V" for u
    using new_node_unique [OF tree cl v linked_sym [OF tree that(1)] that(2) lnk cur] .
  have uniq': "u = cur" if "linked ns u v" "u \<in> V" for u
    using new_node_unique [OF tree cl v that lnk cur] .
  have self: "\<not> linked ns v v"
  proof
    assume "linked ns v v"
    then obtain a where "a < 16" "lk_connected (lks ns v a)" "lk_remoteNodeId (lks ns v a) = v"
      by (auto simp: linked_def)
    with tree_link [OF tree v_n] show False by blast
  qed
  have nearer: "w \<in> V" if "linked ns v w" "hop_dist ns s v = Suc (hop_dist ns s w)" for w
  proof -
    have "tree_adj (parent_of ns) (length ns - 1) v w" "tree_adj (parent_of ns) (length ns - 1) v cur"
      using that(1) linked_sym [OF tree lnk] unfolding linked_iff_adj [OF tree] by blast+
    moreover have "s \<le> length ns - 1" using cl by (auto simp: near_closed_def)
    ultimately have "w = cur" using bus.nearer_unique [of s ns v w cur] that(2) far by blast
    then show ?thesis using cur by simp
  qed
  show "near_closed ns s (insert v V)"
    using cl v_n nearer unfolding near_closed_def by blast
  assume i: "i < length ns" and r: "r < 16"
  let ?l = "lks ns i r" and ?j = "lk_remoteNodeId (lks ns i r)"
  have conn: "linked ns i ?j" if "lk_connected ?l" using that i r by (auto simp: linked_def)
  have recip: "\<exists>q'. ?l = mk_link ?j q'" if "lk_connected ?l"
    using tree_link [OF tree i r that refl] by blast
  show "observed_port ns s (insert v V) i r =
      (if i = v \<and> r = q then \<lparr>np_connected = True, np_remotePhysicalId = cur, np_remotePort = p,
                            np_normalizedState = Parent\<rparr>
       else if i = cur \<and> r = p then \<lparr>np_connected = True, np_remotePhysicalId = v, np_remotePort = q,
                            np_normalizedState = Child\<rparr>
       else observed_port ns s V i r)"
  proof (cases "i = v \<and> r = q \<or> i = cur \<and> r = p")
    case True
    then show ?thesis
    proof
      assume "i = v \<and> r = q"
      then show ?thesis using rec far cur by (simp add: observed_port_def mk_link_def)
    next
      assume "i = cur \<and> r = p"
      then show ?thesis using link far cur v by (auto simp: observed_port_def mk_link_def)
    qed
  next
    case False
    have "\<not> (i \<in> insert v V \<and> ?j \<in> insert v V)" if con: "lk_connected ?l" and nin: "\<not> (i \<in> V \<and> ?j \<in> V)"
    proof
      assume in_V: "i \<in> insert v V \<and> ?j \<in> insert v V"
      obtain q' where q': "?l = mk_link ?j q'" using recip [OF con] by blast
      show False
      proof (cases "i = v")
        case True
        then have "?j = cur" using uniq [of ?j] conn [OF con] in_V self by (metis insert_iff)
        then have "r = q" using link_port_unique [OF tree v_n r rec(2)] q' rec(3) True by metis
        with True False show ?thesis by simp
      next
        case not_v: False
        then have jv: "?j = v" and "i \<in> V" using in_V nin by auto
        then have "i = cur" using uniq' [of i] conn [OF con] by simp
        then have "r = p" using link_port_unique [OF tree cur_n r p] q' link jv by metis
        with \<open>i = cur\<close> False show ?thesis by simp
      qed
    qed
    then have "(lk_connected ?l \<and> i \<in> insert v V \<and> ?j \<in> insert v V)
        = (lk_connected ?l \<and> i \<in> V \<and> ?j \<in> V)" by blast
    with False show ?thesis unfolding observed_port_def Let_def by presburger
  qed
qed

text \<open>The invariant of the traversal.\<close>

definition visited_nodes :: "bool list \<Rightarrow> nat set" where
  "visited_nodes vis = {v. v < length vis \<and> vis ! v}"

definition norm_inv :: "TopologyNodeRecord list \<Rightarrow> nat \<Rightarrow> norm_state \<Rightarrow> bool" where
  "norm_inv ns s st \<longleftrightarrow> (case st of (vis, stk, nm) \<Rightarrow>
     length vis = length ns \<and> length nm = length ns
     \<and> near_closed ns s (visited_nodes vis) \<and> set stk \<subseteq> visited_nodes vis
     \<and> (\<forall>i < length ns. length (nn_ports (nm ! i)) = 16
          \<and> nn_physicalId (nm ! i) = i \<and> nn_isObserver (nm ! i) = (i = s)
          \<and> (\<forall>p < 16. nn_ports (nm ! i) ! p = observed_port ns s (visited_nodes vis) i p)))"

lemma finite_visited [simp]: "finite (visited_nodes vis)"
  by (simp add: visited_nodes_def)

lemma norm_port_step:
  assumes tree: "tree_links ns" and inv: "norm_inv ns s (vis, stk, nm)"
    and cur: "cur \<in> visited_nodes vis" and p: "p < 16"
  shows "\<exists>vis' new nm'. norm_port ns cur p (vis, stk, nm) = Inr (vis', new @ stk, nm')
    \<and> norm_inv ns s (vis', new @ stk, nm')
    \<and> visited_nodes vis' = visited_nodes vis \<union> set new
    \<and> card (visited_nodes vis') = card (visited_nodes vis) + length new
    \<and> (lk_connected (lks ns cur p) \<longrightarrow> lk_remoteNodeId (lks ns cur p) \<in> visited_nodes vis')"
proof -
  let ?V = "visited_nodes vis" and ?l = "lks ns cur p"
  have len: "length vis = length ns" "length nm = length ns" and cl: "near_closed ns s ?V"
    using inv by (auto simp: norm_inv_def)
  have cur_n: "cur < length ns" using cur len by (auto simp: visited_nodes_def)
  show ?thesis
  proof (cases "lk_connected ?l")
    case False
    then have "norm_port ns cur p (vis, stk, nm) = Inr (vis, stk, nm)"
      by (simp add: norm_port_def lks_def Let_def)
    with inv False show ?thesis by (intro exI [of _ vis] exI [of _ "[]"] exI [of _ nm]) simp
  next
    case con: True
    then obtain v q where l: "?l = mk_link v q" and v_n: "v < length ns"
      using tree_link [OF tree cur_n p] by blast
    show ?thesis
    proof (cases "v \<in> ?V")
      case True
      then have "norm_port ns cur p (vis, stk, nm) = Inr (vis, stk, nm)"
        using l v_n by (simp add: norm_port_def lks_def Let_def mk_link_def visited_nodes_def)
      with inv True l show ?thesis
        by (intro exI [of _ vis] exI [of _ "[]"] exI [of _ nm]) (simp add: mk_link_def)
    next
      case False
      note ins = observed_insert [OF tree cl cur p l False]
      let ?vis = "vis[v := True]"
      let ?nm1 = "nm[cur := set_norm_port p \<lparr>np_connected = True, np_remotePhysicalId = v,
                     np_remotePort = q, np_normalizedState = Child\<rparr> (nm ! cur)]"
      let ?nm = "?nm1[v := set_norm_port q \<lparr>np_connected = True, np_remotePhysicalId = cur,
                     np_remotePort = p, np_normalizedState = Parent\<rparr> (?nm1 ! v)]"
      have V: "visited_nodes ?vis = insert v ?V"
        using v_n len by (auto simp: visited_nodes_def nth_list_update)
      have step: "norm_port ns cur p (vis, stk, nm) = Inr (?vis, [v] @ stk, ?nm)"
        using l v_n False len
        by (simp add: norm_port_def lks_def Let_def mk_link_def visited_nodes_def)
      have neq: "cur \<noteq> v" using cur False by auto
      have node: "nn_physicalId (?nm ! i) = nn_physicalId (nm ! i)"
          "nn_isObserver (?nm ! i) = nn_isObserver (nm ! i)"
          "length (nn_ports (?nm ! i)) = length (nn_ports (nm ! i))" if "i < length ns" for i
        using that len neq v_n cur_n by (auto simp: nth_list_update set_norm_port_def)
      have ports: "nn_ports (?nm ! i) ! r = observed_port ns s (insert v ?V) i r"
        if i: "i < length ns" and r: "r < 16" for i r
      proof -
        have "length (nn_ports (nm ! i)) = 16" "nn_ports (nm ! i) ! r = observed_port ns s ?V i r"
          using inv i r by (auto simp: norm_inv_def)
        then show ?thesis
          unfolding ins(4) [OF i r] using i r len neq v_n cur_n by (simp add: nth_list_update set_norm_port_def)
      qed
      have inv': "norm_inv ns s (?vis, [v] @ stk, ?nm)"
        unfolding norm_inv_def prod.case V using inv ins(1) len node ports
        by (auto simp: norm_inv_def)
      show ?thesis
        using step inv' V False l
        by (intro exI [of _ ?vis] exI [of _ "[v]"] exI [of _ ?nm]) (simp add: mk_link_def)
    qed
  qed
qed

lemma norm_ports:
  assumes tree: "tree_links ns" and "norm_inv ns s (vis, stk, nm)" and "cur \<in> visited_nodes vis"
    and "set ps \<subseteq> {..<16}"
  shows "\<exists>vis' new nm'. efold (norm_port ns cur) ps (vis, stk, nm) = Inr (vis', new @ stk, nm')
    \<and> norm_inv ns s (vis', new @ stk, nm')
    \<and> visited_nodes vis' = visited_nodes vis \<union> set new
    \<and> card (visited_nodes vis') = card (visited_nodes vis) + length new
    \<and> (\<forall>p \<in> set ps. lk_connected (lks ns cur p) \<longrightarrow> lk_remoteNodeId (lks ns cur p) \<in> visited_nodes vis')"
  using assms(2-4)
proof (induction ps arbitrary: vis stk nm)
  case Nil
  then show ?case by (intro exI [of _ vis] exI [of _ "[]"] exI [of _ nm]) simp
next
  case (Cons p ps)
  then have "p < 16" by simp
  from norm_port_step [OF tree Cons.prems(1,2) this] obtain vis1 new1 nm1
    where 1: "norm_port ns cur p (vis, stk, nm) = Inr (vis1, new1 @ stk, nm1)"
      "norm_inv ns s (vis1, new1 @ stk, nm1)" "visited_nodes vis1 = visited_nodes vis \<union> set new1"
      "card (visited_nodes vis1) = card (visited_nodes vis) + length new1"
      "lk_connected (lks ns cur p) \<Longrightarrow> lk_remoteNodeId (lks ns cur p) \<in> visited_nodes vis1" by blast
  have "cur \<in> visited_nodes vis1" "set ps \<subseteq> {..<16}" using 1(3) Cons.prems by auto
  from Cons.IH [OF 1(2) this] obtain vis2 new2 nm2
    where 2: "efold (norm_port ns cur) ps (vis1, new1 @ stk, nm1) = Inr (vis2, new2 @ new1 @ stk, nm2)"
      "norm_inv ns s (vis2, new2 @ new1 @ stk, nm2)"
      "visited_nodes vis2 = visited_nodes vis1 \<union> set new2"
      "card (visited_nodes vis2) = card (visited_nodes vis1) + length new2"
      "\<forall>p \<in> set ps. lk_connected (lks ns cur p) \<longrightarrow> lk_remoteNodeId (lks ns cur p) \<in> visited_nodes vis2"
    by blast
  show ?case
    using 1 2 by (intro exI [of _ vis2] exI [of _ "new2 @ new1"] exI [of _ nm2]) auto
qed

text \<open>Nodes off the stack have all their neighbours visited; so at the end every node is.\<close>

definition norm_closed :: "TopologyNodeRecord list \<Rightarrow> norm_state \<Rightarrow> bool" where
  "norm_closed ns st \<longleftrightarrow> (case st of (vis, stk, nm) \<Rightarrow>
     \<forall>v \<in> visited_nodes vis - set stk. \<forall>w. linked ns v w \<longrightarrow> w \<in> visited_nodes vis)"

lemma norm_loop_total:
  assumes tree: "tree_links ns"
  shows "norm_inv ns s (vis, stk, nm) \<Longrightarrow> norm_closed ns (vis, stk, nm) \<Longrightarrow>
    length stk + (length ns - card (visited_nodes vis)) \<le> fuel \<Longrightarrow>
    \<exists>vis' nm'. norm_loop fuel ns (vis, stk, nm) = Some (Inr (vis', [], nm'))
      \<and> norm_inv ns s (vis', [], nm') \<and> norm_closed ns (vis', [], nm')"
proof (induction fuel arbitrary: vis stk nm)
  case 0
  then show ?case by simp
next
  case (Suc fuel)
  show ?case
  proof (cases stk)
    case Nil
    then show ?thesis using Suc.prems by auto
  next
    case (Cons cur rest)
    have cur: "cur \<in> visited_nodes vis" and inv: "norm_inv ns s (vis, rest, nm)"
      using Suc.prems(1) Cons by (auto simp: norm_inv_def)
    have "set [0..<16] \<subseteq> {..<16::nat}" by auto
    from norm_ports [OF tree inv cur this] obtain vis1 new nm1
      where 1: "efold (norm_port ns cur) [0..<16] (vis, rest, nm) = Inr (vis1, new @ rest, nm1)"
        "norm_inv ns s (vis1, new @ rest, nm1)" "visited_nodes vis1 = visited_nodes vis \<union> set new"
        "card (visited_nodes vis1) = card (visited_nodes vis) + length new"
        "\<forall>p \<in> set [0..<16]. lk_connected (lks ns cur p) \<longrightarrow>
           lk_remoteNodeId (lks ns cur p) \<in> visited_nodes vis1" by blast
    have nb: "w \<in> visited_nodes vis1" if "linked ns cur w" for w
      using that 1(5) by (auto simp: linked_def)
    have closed: "norm_closed ns (vis1, new @ rest, nm1)"
      unfolding norm_closed_def prod.case
    proof (intro ballI allI impI)
      fix v w assume v: "v \<in> visited_nodes vis1 - set (new @ rest)" and w: "linked ns v w"
      show "w \<in> visited_nodes vis1"
      proof (cases "v = cur")
        case True
        with w nb show ?thesis by simp
      next
        case False
        with v 1(3) Cons have "v \<in> visited_nodes vis - set stk" by auto
        with Suc.prems(2) w have "w \<in> visited_nodes vis" unfolding norm_closed_def by blast
        with 1(3) show ?thesis by simp
      qed
    qed
    have "card (visited_nodes vis1) \<le> card {..<length ns}"
      using 1(2) by (intro card_mono) (auto simp: norm_inv_def near_closed_def)
    then have "length (new @ rest) + (length ns - card (visited_nodes vis1)) \<le> fuel"
      using Suc.prems(3) Cons 1(4) by simp
    from Suc.IH [OF 1(2) closed this] show ?thesis
      using Cons 1(1) by (simp add: kMaxPhyPorts_def)
  qed
qed

lemma norm_closed_all:
  assumes tree: "tree_links ns" and inv: "norm_inv ns s (vis, [], nm)"
    and closed: "norm_closed ns (vis, [], nm)"
  shows "visited_nodes vis = {..<length ns}"
proof (rule neighbour_closed_all [OF tree])
  show "s \<in> visited_nodes vis" "visited_nodes vis \<subseteq> {..<length ns}"
    using inv by (auto simp: norm_inv_def near_closed_def)
  show "w \<in> visited_nodes vis" if "v \<in> visited_nodes vis" "linked ns v w" for v w
    using closed that by (auto simp: norm_closed_def)
qed

lemma norm_init_fold:
  assumes "\<forall>i < length ns. tn_physicalId (ns ! i) = i" and "k \<le> length ns"
  shows "fold (\<lambda>physicalNode norm. let i = tn_physicalId physicalNode in
             norm[i := (norm ! i)\<lparr>nn_physicalId := i, nn_isObserver := (i = s)\<rparr>]) (take k ns)
           (replicate (length ns) norm_node0)
         = map (\<lambda>i. norm_node0\<lparr>nn_physicalId := i, nn_isObserver := (i = s)\<rparr>) [0..<k]
           @ replicate (length ns - k) norm_node0"
  using assms(2)
proof (induction k)
  case (Suc k)
  then have "length ns - k = Suc (length ns - Suc k)" by simp
  with Suc assms(1) show ?case
    by (simp add: take_Suc_conv_app_nth Let_def list_update_append nth_append)
qed simp

lemma norm_init_nth:
  assumes "tree_links ns" and "i < length ns"
  shows "length (norm_init ns s) = length ns"
    and "norm_init ns s ! i = norm_node0\<lparr>nn_physicalId := i, nn_isObserver := (i = s)\<rparr>"
  using norm_init_fold [of ns "length ns" s] assms by (simp_all add: norm_init_def tree_links_def)

lemma NormalizeFromLocal_tree:
  assumes tree: "tree_links (pg_nodes g)" and n: "length (pg_nodes g) \<le> 63" and s: "s < length (pg_nodes g)"
  shows "\<exists>nm. NormalizeFromLocal g s = Some (Inr \<lparr>ng_observerPhysicalId = s, ng_nodes = nm\<rparr>)
    \<and> norm_inv (pg_nodes g) s (replicate (length (pg_nodes g)) True, [], nm)"
proof -
  let ?ns = "pg_nodes g"
  let ?vis = "(replicate (length ?ns) False)[s := True]"
  have V: "visited_nodes ?vis = {s}"
    using s by (auto simp: visited_nodes_def nth_list_update split: if_splits)
  have "\<not> (lk_connected (lks ?ns i p) \<and> i = s \<and> lk_remoteNodeId (lks ?ns i p) = s)"
    if "i < length ?ns" "p < 16" for i p
    using tree_link [OF tree that] by blast
  then have ob: "observed_port ?ns s {s} i p = no_norm_link" if "i < length ?ns" "p < 16" for i p
    unfolding observed_port_def Let_def using that by (auto simp del: One_nat_def)
  have inv: "norm_inv ?ns s (?vis, [s], norm_init ?ns s)"
    unfolding norm_inv_def prod.case V using s norm_init_nth [OF tree] ob
    by (auto simp: near_closed_def norm_node0_def kMaxPhyPorts_def)
  have closed: "norm_closed ?ns (?vis, [s], norm_init ?ns s)" by (simp add: norm_closed_def V)
  have fuel: "length [s] + (length ?ns - card (visited_nodes ?vis)) \<le> length ?ns" using V s by simp
  obtain vis nm where r: "norm_loop (length ?ns) ?ns (?vis, [s], norm_init ?ns s) = Some (Inr (vis, [], nm))"
      "norm_inv ?ns s (vis, [], nm)" "norm_closed ?ns (vis, [], nm)"
    using norm_loop_total [OF tree inv closed fuel] by blast
  have "visited_nodes vis = {..<length ?ns}" by (rule norm_closed_all [OF tree r(2,3)])
  moreover have len: "length vis = length ?ns" using r(2) by (simp add: norm_inv_def)
  ultimately have "\<forall>i < length vis. vis ! i" by (auto simp: visited_nodes_def)
  then have vis: "vis = replicate (length ?ns) True" by (simp add: list_eq_iff_nth_eq len)
  have "NormalizeFromLocal g s = Some (Inr \<lparr>ng_observerPhysicalId = s, ng_nodes = nm\<rparr>)"
    using s n r(1) by (simp add: NormalizeFromLocal_def Let_def kInvalidPhysicalId_def vis list_ex_iff)
  with r(2) vis show ?thesis by blast
qed

end
