(* ===== verification/Topology_Properties.thy ===== *)
theory Topology_Properties
  imports Topology_Normalize
begin

text \<open>
  What \<^verbatim>\<open>Bus/SelfIDTopologyNormalizer.cpp\<close> promises of the graphs it builds from the records that
  passed \<open>ValidateContiguousPhysicalIds\<close>.
\<close>

section \<open>From records to graphs\<close>

lemma contiguous_nth:
  assumes "ValidateContiguousPhysicalIds rs" and "length rs \<le> 63" and "i < length rs"
  shows "sr_physicalId (rs ! i) = i"
  using assms by (auto simp: ValidateContiguousPhysicalIds_def list_all_iff)

lemma contiguous_root:
  assumes "ValidateContiguousPhysicalIds rs" and "length rs \<le> 63"
  shows "sr_physicalId (last rs) = length rs - 1" and "rs \<noteq> []"
  using assms contiguous_nth [OF assms, of "length rs - 1"]
  by (auto simp: ValidateContiguousPhysicalIds_def last_conv_nth)

abbreviation reported_nodes :: "SelfIDNodeRecord list \<Rightarrow> nat \<Rightarrow> TopologyNodeRecord list" where
  "reported_nodes rs localId \<equiv> map (topology_node (length rs - 1) localId) rs"

lemma build_links_cases:
  assumes "ValidateContiguousPhysicalIds rs" and "length rs \<le> 63"
  shows "case build_links rs localId of
      Inl _ \<Rightarrow> \<not> tree_reports (reported_nodes rs localId)
    | Inr ns \<Rightarrow> tree_reports (reported_nodes rs localId) \<and> built_nodes (reported_nodes rs localId) ns"
proof -
  let ?ns = "reported_nodes rs localId" and ?r = "length rs - 1"
  let ?run = "efold (process_node ?r) [0..<Suc ?r] (?ns, [])"
  have fresh: "fresh_nodes ?ns"
    using contiguous_nth [OF assms] by (auto simp: fresh_nodes_def topology_node_def)
  have ne: "?ns \<noteq> []" using contiguous_root [OF assms] by simp
  have bl: "build_links rs localId = ebind ?run (\<lambda>(nodes, unresolvedChildren).
      if unresolvedChildren \<noteq> []
      then Inl (build_error UnresolvedStackAfterRoot
             ''Unresolved child stack is not empty after processing the root node'')
      else Inr nodes)"
    unfolding build_links_def Let_def contiguous_root(1) [OF assms] ..
  have acc: "(\<exists>ns. ?run = Inr (ns, [])) \<longleftrightarrow> tree_reports ?ns"
    and built: "?run = Inr (ns, []) \<Longrightarrow> built_nodes ?ns ns" for ns
    using build_all [OF fresh ne] by simp_all
  show ?thesis
  proof (cases "tree_reports ?ns")
    case True
    then obtain ns where "?run = Inr (ns, [])" using acc by blast
    with built [OF this] True bl show ?thesis by simp
  next
    case False
    have "build_links rs localId \<noteq> Inr ns" for ns
      using False acc bl by (auto simp: ebind_eq_Inr split: if_splits prod.splits)
    with False show ?thesis by (cases "build_links rs localId") auto
  qed
qed

lemma elect_irm_nth:
  assumes e: "elect_irm ns = (irm, ns')"
  shows "length ns' = length ns" and "i < length ns \<Longrightarrow> \<exists>b. ns' ! i = (ns ! i)\<lparr>tn_isIRM := b\<rparr>"
proof -
  from e have "ns' = ns \<or> (\<exists>k. ns' = ns[k := (ns ! k)\<lparr>tn_isIRM := True\<rparr>])"
    by (auto simp: elect_irm_def split: option.splits)
  then consider "ns' = ns" | k where "ns' = ns[k := (ns ! k)\<lparr>tn_isIRM := True\<rparr>]" by blast
  note cases = this
  show "length ns' = length ns" by (cases rule: cases) simp_all
  have same: "\<exists>b. ns ! i = (ns ! i)\<lparr>tn_isIRM := b\<rparr>" by (rule exI [of _ "tn_isIRM (ns ! i)"]) simp
  show "\<exists>b. ns' ! i = (ns ! i)\<lparr>tn_isIRM := b\<rparr>" if "i < length ns"
  proof (cases rule: cases)
    case 1
    with same show ?thesis by simp
  next
    case (2 k)
    with same that show ?thesis by (cases "k = i") auto
  qed
qed

lemma elect_irm_rep_lks:
  assumes "elect_irm ns = (irm, ns')" and "i < length ns"
  shows "rep ns' i = rep ns i" and "lks ns' i = lks ns i" and "tn_physicalId (ns' ! i) = tn_physicalId (ns ! i)"
    and "length (tn_links (ns' ! i)) = length (tn_links (ns ! i))"
    and "tn_contender (ns' ! i) = tn_contender (ns ! i)" and "tn_linkActive (ns' ! i) = tn_linkActive (ns ! i)"
  using elect_irm_nth(2) [OF assms] by (auto simp: rep_def lks_def fun_eq_iff)

lemma elect_irm_tree:
  assumes e: "elect_irm ns = (irm, ns')" and "tree_links ns"
  shows "tree_links ns'"
proof -
  note eq = elect_irm_rep_lks [OF e] elect_irm_nth(1) [OF e]
  have up: "up_ports (rep ns') (lks ns') i = up_ports (rep ns) (lks ns) i" if "i < length ns" for i
    using eq that by (simp add: up_ports_def)
  have "links_ok (rep ns') (length ns') (lks ns')"
    using assms(2) eq unfolding tree_links_def links_ok_def by (simp cong: conj_cong)
  moreover have "ns' \<noteq> []" using assms(2) eq by (auto simp: tree_links_def)
  ultimately show ?thesis using assms(2) eq up by (auto simp: tree_links_def)
qed

text \<open>The graph of contiguous records: always an answer, a tree when the reports describe one.\<close>

lemma BuildPhysicalGraph_cases:
  assumes v: "ValidateContiguousPhysicalIds rs" and n: "length rs \<le> 63"
  shows "(\<not> tree_reports (reported_nodes rs localId) \<and> (\<exists>e. BuildPhysicalGraph rs localId = Some (Inl e)))
    \<or> (tree_reports (reported_nodes rs localId) \<and> (\<exists>g ns irm. BuildPhysicalGraph rs localId = Some (Inr g)
        \<and> built_nodes (reported_nodes rs localId) ns \<and> tree_links ns \<and> length ns = length rs
        \<and> elect_irm ns = (irm, pg_nodes g) \<and> pg_irmId g = irm \<and> tree_links (pg_nodes g)
        \<and> length (pg_nodes g) = length rs \<and> pg_rootId g = length rs - 1
        \<and> pg_localId g = localId \<and> pg_nodeCount g = length rs
        \<and> ComputeBusDiameter (pg_nodes g) = Some (pg_busDiameterHops g)))"
proof (cases "build_links rs localId")
  case (Inl e)
  with build_links_cases [OF v n, of localId] contiguous_root [OF v n] show ?thesis
    by (simp add: BuildPhysicalGraph_def)
next
  case (Inr ns)
  have ne: "reported_nodes rs localId \<noteq> []" using contiguous_root [OF v n] by simp
  have tr: "tree_reports (reported_nodes rs localId)" and b: "built_nodes (reported_nodes rs localId) ns"
    using build_links_cases [OF v n, of localId] Inr by auto
  have tree: "tree_links ns" and len: "length ns = length rs"
    using built_nodes_tree [OF ne b] by auto
  obtain irm ns' where e: "elect_irm ns = (irm, ns')" by fastforce
  have tree': "tree_links ns'" by (rule elect_irm_tree [OF e tree])
  have len': "length ns' = length rs" using elect_irm_nth(1) [OF e] len by simp
  obtain d where "ComputeBusDiameter ns' = Some d"
    using ComputeBusDiameter_correct [OF tree'] len' n by auto
  moreover define g where "g = \<lparr>pg_rootId = length rs - 1, pg_localId = localId, pg_irmId = irm,
      pg_nodeCount = length rs, pg_busDiameterHops = d,
      pg_betaRepeatersPresent = list_ex beta_repeater ns', pg_nodes = ns'\<rparr>"
  ultimately have "BuildPhysicalGraph rs localId = Some (Inr g)"
    using Inr contiguous_root [OF v n] n e by (simp add: BuildPhysicalGraph_def)
  moreover have "pg_nodes g = ns'" "pg_irmId g = irm" "pg_rootId g = length rs - 1" "pg_localId g = localId"
    "pg_nodeCount g = length rs" "pg_busDiameterHops g = d" by (simp_all add: g_def)
  ultimately show ?thesis
    using tr b tree len e tree' len' \<open>ComputeBusDiameter ns' = Some d\<close>
    by (intro disjI2 conjI exI [of _ g] exI [of _ ns] exI [of _ irm]) simp_all
qed

lemma find_rev_upt_Some:
  "find P (rev [0..<n]) = Some m \<Longrightarrow> m < n \<and> P m \<and> (\<forall>i < n. P i \<longrightarrow> i \<le> m)"
  by (induction n) (auto simp: less_Suc_eq split: if_splits)

lemma card_1_ex1: "card A = 1 \<longleftrightarrow> (\<exists>!x. x \<in> A)"
proof
  assume "card A = 1"
  then obtain x where "A = {x}" by (rule card_1_singletonE)
  then show "\<exists>!x. x \<in> A" by simp
next
  assume "\<exists>!x. x \<in> A"
  then obtain x where "x \<in> A" "\<forall>y. y \<in> A \<longrightarrow> y = x" by blast
  then have "A = {x}" by blast
  then show "card A = 1" by simp
qed

lemma up_ports_ex1:
  "card (up_ports R L i) = 1 \<longleftrightarrow> (\<exists>!p. p < 16 \<and> R i p = Parent \<and> lk_connected (L i p))"
  unfolding card_1_ex1 by (simp add: up_ports_def)

text \<open>The ports of the finished normalization.\<close>

lemma observed_links:
  assumes tree: "tree_links ns" and s: "s < length ns" and i: "i < length ns" and p: "p < 16"
  shows "let port = observed_port ns s {..<length ns} i p; link = lks ns i p in
    np_connected port = lk_connected link
    \<and> (np_connected port \<longrightarrow> np_remotePhysicalId port = lk_remoteNodeId link
         \<and> np_remotePort port = lk_remotePort link
         \<and> (np_normalizedState port = Parent
              \<and> hop_dist ns s i = Suc (hop_dist ns s (np_remotePhysicalId port))
            \<or> np_normalizedState port = Child
              \<and> hop_dist ns s (np_remotePhysicalId port) = Suc (hop_dist ns s i)))"
proof (cases "lk_connected (lks ns i p)")
  case False
  then show ?thesis by (simp add: observed_port_def no_norm_link_def)
next
  case True
  let ?j = "lk_remoteNodeId (lks ns i p)"
  have "linked ns i ?j" using True i p by (auto simp: linked_def)
  then have adj: "tree_adj (parent_of ns) (length ns - 1) i ?j" by (simp add: linked_iff_adj [OF tree])
  have "s \<le> length ns - 1" using s by simp
  from bus.dist_adj_cases [OF this adj]
  have d: "hop_dist ns s ?j = Suc (hop_dist ns s i) \<or> hop_dist ns s i = Suc (hop_dist ns s ?j)" .
  have j: "?j < length ns" using tree_link [OF tree i p True refl] by blast
  from d show ?thesis
  proof
    assume "hop_dist ns s ?j = Suc (hop_dist ns s i)"
    then show ?thesis using True i j by (simp add: observed_port_def Let_def del: One_nat_def)
  next
    assume "hop_dist ns s i = Suc (hop_dist ns s ?j)"
    then show ?thesis using True i j by (simp add: observed_port_def Let_def del: One_nat_def)
  qed
qed

lemma observed_parent_iff:
  assumes tree: "tree_links ns" and s: "s < length ns" and i: "i < length ns" and p: "p < 16"
  shows "np_normalizedState (observed_port ns s {..<length ns} i p) = Parent \<longleftrightarrow>
    lk_connected (lks ns i p) \<and> hop_dist ns s i = Suc (hop_dist ns s (lk_remoteNodeId (lks ns i p)))"
proof (cases "lk_connected (lks ns i p)")
  case True
  with observed_links [OF assms] show ?thesis unfolding Let_def by auto
qed (simp add: observed_port_def no_norm_link_def)

lemma observed_parents:
  assumes tree: "tree_links ns" and s: "s < length ns" and i: "i < length ns"
  shows "if i = s then \<forall>p < 16. np_normalizedState (observed_port ns s {..<length ns} i p) \<noteq> Parent
    else \<exists>!p. p < 16 \<and> np_normalizedState (observed_port ns s {..<length ns} i p) = Parent"
proof (cases "i = s")
  case True
  then show ?thesis using observed_parent_iff [OF tree s i] by simp
next
  case False
  have le: "s \<le> length ns - 1" "i \<le> length ns - 1" using s i by simp_all
  from bus.nearer_exists [OF le False] obtain w
    where w: "linked ns i w" "hop_dist ns s i = Suc (hop_dist ns s w)"
    unfolding linked_iff_adj [OF tree] by blast
  then obtain p where p: "p < 16" "lk_connected (lks ns i p)" "lk_remoteNodeId (lks ns i p) = w"
    by (auto simp: linked_def)
  have "r = p" if r: "r < 16" "lk_connected (lks ns i r)"
      "hop_dist ns s i = Suc (hop_dist ns s (lk_remoteNodeId (lks ns i r)))" for r
  proof -
    let ?u = "lk_remoteNodeId (lks ns i r)"
    have "linked ns i ?u" using r i by (auto simp: linked_def)
    with w bus.nearer_unique [OF le(1)] r(3) have "?u = w" unfolding linked_iff_adj [OF tree] by blast
    then show ?thesis
      using link_port_unique [OF tree i r(1) p(1)] tree_link [OF tree i r(1,2)] tree_link [OF tree i p(1,2)] p(3)
      by metis
  qed
  then have "\<exists>!p. p < 16 \<and> np_normalizedState (observed_port ns s {..<length ns} i p) = Parent"
    using p w(2) observed_parent_iff [OF tree s i] by metis
  with False show ?thesis by simp
qed

section \<open>Properties\<close>

text \<open>
  C1: on records with contiguous physical IDs \<open>BuildPhysicalGraph\<close> always answers. It reports an
  error exactly when the port states do not describe a tree; otherwise the graph has one node per
  record, every link is reciprocal and joins a \<open>Child\<close> port of one node to a \<open>Parent\<close> port of a node
  with a smaller ID, every \<open>Child\<close> port is linked, every node but the root has exactly one linked
  \<open>Parent\<close> port and the root (the largest ID) has none.
\<close>

theorem BuildPhysicalGraph_tree:
  assumes "ValidateContiguousPhysicalIds rs" and "length rs \<le> 63"
  shows "case BuildPhysicalGraph rs localId of
      None \<Rightarrow> False
    | Some (Inl _) \<Rightarrow> \<not> tree_reports (reported_nodes rs localId)
    | Some (Inr g) \<Rightarrow> tree_reports (reported_nodes rs localId)
        \<and> length (pg_nodes g) = length rs \<and> pg_rootId g = length rs - 1
        \<and> (\<forall>i < length rs. \<forall>p < 16. lk_connected (lks (pg_nodes g) i p) \<longrightarrow>
             (\<exists>j q. lks (pg_nodes g) i p = mk_link j q \<and> j < length rs \<and> q < 16
                \<and> lks (pg_nodes g) j q = mk_link i p
                \<and> (rep (pg_nodes g) i p = Child \<and> rep (pg_nodes g) j q = Parent \<and> j < i
                   \<or> rep (pg_nodes g) i p = Parent \<and> rep (pg_nodes g) j q = Child \<and> i < j)))
        \<and> (\<forall>i < length rs. \<forall>p < 16. rep (pg_nodes g) i p = Child \<longrightarrow> lk_connected (lks (pg_nodes g) i p))
        \<and> (\<forall>i < length rs - 1. \<exists>!p. p < 16 \<and> rep (pg_nodes g) i p = Parent \<and> lk_connected (lks (pg_nodes g) i p))
        \<and> (\<forall>p < 16. rep (pg_nodes g) (length rs - 1) p = Parent \<longrightarrow>
             \<not> lk_connected (lks (pg_nodes g) (length rs - 1) p))"
  using BuildPhysicalGraph_cases [OF assms, of localId]
proof (elim disjE conjE exE)
  fix g assume g: "BuildPhysicalGraph rs localId = Some (Inr g)" and tr: "tree_reports (reported_nodes rs localId)"
    and t: "tree_links (pg_nodes g)" "length (pg_nodes g) = length rs" "pg_rootId g = length rs - 1"
  have ne: "length rs - 1 < length rs" using contiguous_root(2) [OF assms] by simp
  have "links_ok (rep (pg_nodes g)) (length rs) (lks (pg_nodes g))"
    "\<forall>i < length rs. \<forall>p < 16. rep (pg_nodes g) i p = Child \<longrightarrow> lk_connected (lks (pg_nodes g) i p)"
    using t by (simp_all add: tree_links_def)
  moreover have "\<exists>!p. p < 16 \<and> rep (pg_nodes g) i p = Parent \<and> lk_connected (lks (pg_nodes g) i p)"
    if "i < length rs - 1" for i
    unfolding up_ports_ex1 [symmetric] using t that by (auto simp: tree_links_def)
  moreover have "up_ports (rep (pg_nodes g)) (lks (pg_nodes g)) (length rs - 1) = {}"
    using t ne by (auto simp: tree_links_def)
  ultimately show ?thesis
    unfolding g links_ok_def using tr t by (auto simp: up_ports_def simp del: One_nat_def)
qed auto

text \<open>
  C9: the \<open>busDiameterHops\<close> of a built graph is the diameter of the bus: any two nodes are joined by
  a chain of at most that many links, and some two nodes by none shorter.
\<close>

theorem busDiameterHops_correct:
  assumes "ValidateContiguousPhysicalIds rs" and "length rs \<le> 63"
    and "tree_reports (reported_nodes rs localId)"
  shows "\<exists>g. BuildPhysicalGraph rs localId = Some (Inr g)
    \<and> (\<forall>u < length rs. \<forall>v < length rs. \<exists>k \<le> pg_busDiameterHops g. (linked (pg_nodes g) ^^ k) u v)
    \<and> (\<exists>u < length rs. \<exists>v < length rs. \<forall>k. (linked (pg_nodes g) ^^ k) u v \<longrightarrow> pg_busDiameterHops g \<le> k)"
proof -
  obtain g where g: "BuildPhysicalGraph rs localId = Some (Inr g)" "tree_links (pg_nodes g)"
      "length (pg_nodes g) = length rs" "ComputeBusDiameter (pg_nodes g) = Some (pg_busDiameterHops g)"
    using BuildPhysicalGraph_cases [OF assms(1,2), of localId] assms(3) by blast
  let ?ns = "pg_nodes g"
  have adj: "linked ?ns = tree_adj (parent_of ?ns) (length ?ns - 1)"
    using linked_iff_adj [OF g(2)] by blast
  have n: "length ?ns \<le> 63" using assms(2) g(3) by simp
  obtain u v where D: "\<forall>u < length ?ns. \<forall>v < length ?ns. hop_dist ?ns u v \<le> pg_busDiameterHops g"
      "u < length ?ns" "v < length ?ns" "hop_dist ?ns u v = pg_busDiameterHops g"
    using ComputeBusDiameter_correct [OF g(2) n] unfolding g(4) by blast
  have "(linked ?ns ^^ hop_dist ?ns x y) x y" if "x < length rs" "y < length rs" for x y
    unfolding adj using that g(3) by (intro bus.hops_dist) linarith+
  moreover have "pg_busDiameterHops g \<le> k" if "(linked ?ns ^^ k) u v" for k
    using bus.hops_ge_dist [OF that [unfolded adj]] D(2,4) by linarith
  ultimately show ?thesis using g D by metis
qed

text \<open>
  The isochronous resource manager of a built graph is the contender with an active link that
  has the largest physical ID, and \<open>kInvalidPhysicalId\<close> when no node qualifies.
\<close>

lemma irmId_correct:
  assumes "ValidateContiguousPhysicalIds rs" and "length rs \<le> 63"
    and "tree_reports (reported_nodes rs localId)"
  shows "\<exists>g. BuildPhysicalGraph rs localId = Some (Inr g)
    \<and> (let C = {i. i < length rs \<and> sr_contender (rs ! i) \<and> sr_linkActive (rs ! i)} in
        pg_irmId g = (if C = {} then kInvalidPhysicalId else Max C))"
proof -
  obtain g ns where g: "BuildPhysicalGraph rs localId = Some (Inr g)" "elect_irm ns = (pg_irmId g, pg_nodes g)"
      "built_nodes (reported_nodes rs localId) ns" "length ns = length rs"
    using BuildPhysicalGraph_cases [OF assms(1,2), of localId] assms(3) by blast
  let ?P = "\<lambda>i. tn_contender (ns ! i) \<and> tn_linkActive (ns ! i)"
  let ?C = "{i. i < length rs \<and> sr_contender (rs ! i) \<and> sr_linkActive (rs ! i)}"
  have fr: "node_frame (reported_nodes rs localId) ns" using g(3) by (simp add: built_nodes_def build_inv_def)
  have node: "tn_physicalId (ns ! i) = i"
      "?P i \<longleftrightarrow> sr_contender (rs ! i) \<and> sr_linkActive (rs ! i)" if "i < length rs" for i
  proof -
    have eq: "(ns ! i)\<lparr>tn_links := []\<rparr> = (reported_nodes rs localId ! i)\<lparr>tn_links := []\<rparr>"
      using fr that g(4) by (simp add: node_frame_def)
    show "tn_physicalId (ns ! i) = i" using fr that g(4) by (simp add: node_frame_def)
    show "?P i \<longleftrightarrow> sr_contender (rs ! i) \<and> sr_linkActive (rs ! i)"
      using arg_cong [OF eq, of tn_contender] arg_cong [OF eq, of tn_linkActive] that
      by (simp add: topology_node_def)
  qed
  then have C: "?C = {i. i < length ns \<and> ?P i}" using g(4) by auto
  have "pg_irmId g = (if ?C = {} then kInvalidPhysicalId else Max ?C)"
  proof (cases "find ?P (rev [0..<length ns])")
    case None
    then have "elect_irm ns = (kInvalidPhysicalId, ns)" by (simp add: elect_irm_def)
    moreover have "?C = {}" unfolding C using None by (auto simp: find_None_iff)
    ultimately show ?thesis using g(2) by simp
  next
    case (Some m)
    then have m: "m < length ns" "?P m" "\<forall>i < length ns. ?P i \<longrightarrow> i \<le> m"
      using find_rev_upt_Some [OF Some] by auto
    then have "Max ?C = m" unfolding C by (intro Max_eqI) auto
    moreover have "?C \<noteq> {}" unfolding C using m by blast
    moreover have "pg_irmId g = m" using g(2,4) Some node(1) m(1) by (simp add: elect_irm_def)
    ultimately show ?thesis by (simp only: if_False)
  qed
  with g(1) show ?thesis by (auto simp: Let_def)
qed

text \<open>
  C25: seen from any node \<open>s\<close> of a built graph, \<open>NormalizeFromLocal\<close> succeeds. It keeps exactly the
  links of the graph; the observer \<open>s\<close> has no \<open>Parent\<close> port and every other node has exactly one; a
  \<open>Parent\<close> port leads one hop nearer to \<open>s\<close> and a \<open>Child\<close> port one hop farther.
\<close>

theorem NormalizeFromLocal_correct:
  assumes "ValidateContiguousPhysicalIds rs" and "length rs \<le> 63"
    and "tree_reports (reported_nodes rs localId)" and s: "s < length rs"
  shows "\<exists>g N. BuildPhysicalGraph rs localId = Some (Inr g) \<and> NormalizeFromLocal g s = Some (Inr N)
    \<and> length (ng_nodes N) = length rs
    \<and> (\<exists>d. d s = 0 \<and> (\<forall>i < length rs. \<forall>p < 16.
         (let port = nn_ports (ng_nodes N ! i) ! p; link = lks (pg_nodes g) i p in
          np_connected port = lk_connected link
          \<and> (np_connected port \<longrightarrow> np_remotePhysicalId port = lk_remoteNodeId link
               \<and> np_remotePort port = lk_remotePort link
               \<and> (np_normalizedState port = Parent \<and> d i = Suc (d (np_remotePhysicalId port))
                  \<or> np_normalizedState port = Child \<and> d (np_remotePhysicalId port) = Suc (d i))))))
    \<and> (\<forall>i < length rs. if i = s
         then \<forall>p < 16. np_normalizedState (nn_ports (ng_nodes N ! i) ! p) \<noteq> Parent
         else \<exists>!p. p < 16 \<and> np_normalizedState (nn_ports (ng_nodes N ! i) ! p) = Parent)"
proof -
  obtain g where g: "BuildPhysicalGraph rs localId = Some (Inr g)" and tree: "tree_links (pg_nodes g)"
      and len: "length (pg_nodes g) = length rs"
    using BuildPhysicalGraph_cases [OF assms(1,2), of localId] assms(3) by blast
  let ?ns = "pg_nodes g"
  have "length ?ns \<le> 63" "s < length ?ns" using assms(2) s len by simp_all
  from NormalizeFromLocal_tree [OF tree this] obtain nm
    where N: "NormalizeFromLocal g s = Some (Inr \<lparr>ng_observerPhysicalId = s, ng_nodes = nm\<rparr>)"
      and inv: "norm_inv ?ns s (replicate (length ?ns) True, [], nm)" by blast
  have V: "visited_nodes (replicate (length rs) True) = {..<length rs}"
    by (auto simp: visited_nodes_def)
  have port: "nn_ports (nm ! i) ! p = observed_port ?ns s {..<length ?ns} i p"
    if "i < length rs" "p < 16" for i p
    using inv that unfolding norm_inv_def prod.case len V by simp
  have s': "s < length ?ns" using s len by simp
  have "length nm = length rs" using inv len by (simp add: norm_inv_def)
  moreover have "hop_dist ?ns s s = 0" by simp
  moreover have "let port = nn_ports (nm ! i) ! p; link = lks ?ns i p in
      np_connected port = lk_connected link
      \<and> (np_connected port \<longrightarrow> np_remotePhysicalId port = lk_remoteNodeId link
           \<and> np_remotePort port = lk_remotePort link
           \<and> (np_normalizedState port = Parent
                \<and> hop_dist ?ns s i = Suc (hop_dist ?ns s (np_remotePhysicalId port))
              \<or> np_normalizedState port = Child
                \<and> hop_dist ?ns s (np_remotePhysicalId port) = Suc (hop_dist ?ns s i)))"
    if i: "i < length rs" and p: "p < 16" for i p
    unfolding port [OF i p] using observed_links [OF tree s'] i p len by metis
  moreover have "if i = s then \<forall>p < 16. np_normalizedState (nn_ports (nm ! i) ! p) \<noteq> Parent
      else \<exists>!p. p < 16 \<and> np_normalizedState (nn_ports (nm ! i) ! p) = Parent"
    if i: "i < length rs" for i
  proof -
    have "i < length ?ns" using i len by simp
    from observed_parents [OF tree s' this] show ?thesis
      using port [OF i] by (cases "i = s") (auto cong: conj_cong)
  qed
  ultimately show ?thesis
    using g N by (intro exI [of _ g] exI [of _ "\<lparr>ng_observerPhysicalId = s, ng_nodes = nm\<rparr>"] conjI
        exI [of _ "hop_dist ?ns s"]) (simp_all del: One_nat_def)
qed

section \<open>Witnesses\<close>

text \<open>
  Three nodes: two leaves, the first a contender, below the root, node 2.
\<close>

definition sample_record :: "nat \<Rightarrow> PortState list \<Rightarrow> SelfIDNodeRecord" where
  "sample_record i ports =
     \<lparr>sr_physicalId = i, sr_linkActive = True, sr_contender = (i = 0), sr_initiatedReset = False,
      sr_gapCount = 63, sr_powerClass = 0, sr_speedCode = 2, sr_maxSpeedMbps = 400, sr_baseRaw = 0,
      sr_ports = ports @ replicate (16 - length ports) NotPresent, sr_portCount = length ports,
      sr_hasBasePacket = True\<rparr>"

definition sample_bus :: "SelfIDNodeRecord list" where
  "sample_bus = [sample_record 0 [NotActive, Parent], sample_record 1 [Parent], sample_record 2 [Child, Child]]"

lemma sample_bus_ok: "ValidateContiguousPhysicalIds sample_bus" "length sample_bus \<le> 63"
    "tree_reports (reported_nodes sample_bus 1)"
  by code_simp+

theorem BuildPhysicalGraph_tree_witness:
  "\<exists>g. BuildPhysicalGraph sample_bus 1 = Some (Inr g) \<and> pg_rootId g = 2"
  using BuildPhysicalGraph_tree [OF sample_bus_ok(1,2), of 1] sample_bus_ok(3)
  by (auto simp: sample_bus_def split: option.splits sum.splits)

theorem busDiameterHops_correct_witness:
  "\<exists>g. BuildPhysicalGraph sample_bus 1 = Some (Inr g)
    \<and> (\<forall>u < 3. \<forall>v < 3. \<exists>k \<le> pg_busDiameterHops g. (linked (pg_nodes g) ^^ k) u v)"
proof -
  have "length sample_bus = 3" by code_simp
  then show ?thesis using busDiameterHops_correct [OF sample_bus_ok] by metis
qed

theorem NormalizeFromLocal_correct_witness:
  "\<exists>g N. BuildPhysicalGraph sample_bus 1 = Some (Inr g) \<and> NormalizeFromLocal g 1 = Some (Inr N)
    \<and> length (ng_nodes N) = 3"
proof -
  have len: "length sample_bus = 3" by code_simp
  then have "1 < length sample_bus" by simp
  from NormalizeFromLocal_correct [OF sample_bus_ok this] len show ?thesis by metis
qed

end
