(* ===== verification/Topology_Manager.thy ===== *)
theory Topology_Manager
  imports Topology_Properties
begin

text \<open>
  \<^verbatim>\<open>Bus/TopologyManager.cpp\<close>: the snapshot of the bus built from one Self-ID capture, the latest of
  which the manager keeps, and \<^verbatim>\<open>Bus/TopologySpeed.hpp\<close>: the speed of the path between two nodes.
  The log lines are left out.
\<close>

section \<open>State\<close>

datatype SelfIDStreamStatus = StreamUnknown | StreamValid | StreamInvalid | StreamTimeout | StreamCrcError

datatype TopologyGraphStatus = GraphUnknown | GraphValid | GraphInvalid

record TopologySnapshot =
  ts_generation :: u32
  ts_capturedAt :: u64
  ts_selfIdStatus :: SelfIDStreamStatus
  ts_graphStatus :: TopologyGraphStatus
  ts_errorCode :: TopologyBuildErrorCode
  ts_errorDetail :: string
  ts_busBase16 :: u16
  ts_busNumber :: "u16 option"
  ts_localNodeId :: nat
  ts_rootNodeId :: nat
  ts_irmNodeId :: nat
  ts_nodeCount :: nat
  ts_gapCount :: nat
  ts_gapCountConsistent :: bool
  ts_betaRepeatersPresent :: bool
  ts_rawSelfIdQuadlets :: "u32 list"
  ts_selfIdSequenceCount :: u32
  ts_physical :: PhysicalTopologyGraph
  ts_normalizedFromLocal :: NormalizedTopologyGraph

record TopologyManager =
  tm_latest :: "TopologySnapshot option"
  tm_badIRMFlags :: "bool list"

definition TopologyManager0 :: TopologyManager where
  "TopologyManager0 = \<lparr>tm_latest = None, tm_badIRMFlags = replicate 63 False\<rparr>"

section \<open>Helpers\<close>

record NodeIDRegisterInfo =
  ni_localNodeId :: "nat option"
  ni_busNumber :: "u16 option"
  ni_busBase16 :: u16

definition DecodeNodeIDRegister :: "u32 \<Rightarrow> NodeIDRegisterInfo" where
  "DecodeNodeIDRegister nodeIDReg =
     (if nodeIDReg AND 0x80000000 = 0
      then \<lparr>ni_localNodeId = None, ni_busNumber = None, ni_busBase16 = 0\<rparr>
      else
        let nodeID = ucast (nodeIDReg AND 0xFFFF) :: u16;
            nodeNum = unat (ucast (nodeID AND 0x3F) :: u8)
        in \<lparr>ni_localNodeId = (if nodeNum \<noteq> 63 then Some nodeNum else None),
            ni_busNumber = Some (drop_bit 6 nodeID AND 0x3FF),
            ni_busBase16 = nodeID AND 0xFFC0\<rparr>)"

definition ObservedGapCount :: "SelfIDNodeRecord list \<Rightarrow> nat" where
  "ObservedGapCount records =
     min (fold (\<lambda>record0 maxGap. if sr_gapCount record0 > maxGap then sr_gapCount record0 else maxGap)
            records 0) 63"

definition ExtractGapCounts :: "u32 list \<Rightarrow> nat list" where
  "ExtractGapCounts selfIDs =
     map ExtractGapCount (filter (\<lambda>packet. \<not> (\<not> IsSelfIDTag packet \<or> IsExtended packet)) selfIDs)"

definition CalculateGapConsistency :: "u32 list \<Rightarrow> bool" where
  "CalculateGapConsistency quads =
     (case ExtractGapCounts quads of
        [] \<Rightarrow> True
      | first # rest \<Rightarrow> list_all (\<lambda>g. g = first) (first # rest))"

section \<open>The manager\<close>

definition TM_Reset :: "TopologyManager \<Rightarrow> TopologyManager" where
  "TM_Reset m = m\<lparr>tm_latest := None\<rparr>"

definition ClearBadIRMFlags :: "TopologyManager \<Rightarrow> TopologyManager" where
  "ClearBadIRMFlags m = m\<lparr>tm_badIRMFlags := replicate 63 False\<rparr>"

definition InvalidateForBusReset :: "TopologyManager \<Rightarrow> TopologyManager" where
  "InvalidateForBusReset m = ClearBadIRMFlags (m\<lparr>tm_latest := None\<rparr>)"

definition LatestSnapshot :: "TopologyManager \<Rightarrow> TopologySnapshot option" where
  "LatestSnapshot m = tm_latest m"

definition CompareAndSwap :: "TopologySnapshot option \<Rightarrow> TopologyManager \<Rightarrow> TopologySnapshot option" where
  "CompareAndSwap previous m =
     (case tm_latest m of
        None \<Rightarrow> None
      | Some latest \<Rightarrow>
          (case previous of
             Some p \<Rightarrow> if ts_capturedAt p = ts_capturedAt latest then None else Some latest
           | None \<Rightarrow> Some latest))"

definition MarkNodeAsBadIRM :: "nat \<Rightarrow> TopologyManager \<Rightarrow> TopologyManager" where
  "MarkNodeAsBadIRM nodeID m =
     (if nodeID \<ge> 63 then m
      else
        let flags = (if length (tm_badIRMFlags m) < 63
                     then tm_badIRMFlags m @ replicate (63 - length (tm_badIRMFlags m)) False
                     else tm_badIRMFlags m)
        in m\<lparr>tm_badIRMFlags := (if \<not> flags ! nodeID then flags[nodeID := True] else flags)\<rparr>)"

definition IsNodeBadIRM :: "nat \<Rightarrow> TopologyManager \<Rightarrow> bool" where
  "IsNodeBadIRM nodeID m =
     (if nodeID \<ge> length (tm_badIRMFlags m) then False else tm_badIRMFlags m ! nodeID)"

text \<open>
  The outer \<open>option\<close> is that of the two graph passes, whose loops are bounded by fuel; that it never
  is \<open>None\<close> on a decoded capture is part of what is proved.
\<close>

definition valid_snapshot ::
  "SelfIDResult \<Rightarrow> u64 \<Rightarrow> NodeIDRegisterInfo \<Rightarrow> SelfIDNodeRecord list \<Rightarrow> PhysicalTopologyGraph
    \<Rightarrow> NormalizedTopologyGraph \<Rightarrow> TopologySnapshot" where
  "valid_snapshot result timestamp nodeInfo records physical normalized =
     \<lparr>ts_generation = res_generation result, ts_capturedAt = timestamp,
      ts_selfIdStatus = StreamValid, ts_graphStatus = GraphValid,
      ts_errorCode = NoError, ts_errorDetail = [],
      ts_busBase16 = ni_busBase16 nodeInfo, ts_busNumber = ni_busNumber nodeInfo,
      ts_localNodeId = (case ni_localNodeId nodeInfo of Some i \<Rightarrow> i | None \<Rightarrow> kInvalidPhysicalId),
      ts_rootNodeId = pg_rootId physical, ts_irmNodeId = pg_irmId physical,
      ts_nodeCount = pg_nodeCount physical, ts_gapCount = ObservedGapCount records,
      ts_gapCountConsistent = CalculateGapConsistency (res_quads result),
      ts_betaRepeatersPresent = pg_betaRepeatersPresent physical,
      ts_rawSelfIdQuadlets = res_quads result,
      ts_selfIdSequenceCount = of_nat (length (res_sequences result)),
      ts_physical = physical, ts_normalizedFromLocal = normalized\<rparr>"

definition UpdateFromSelfID ::
  "SelfIDResult \<Rightarrow> u64 \<Rightarrow> u32 \<Rightarrow> TopologyManager
    \<Rightarrow> ((TopologyBuildError + TopologySnapshot) \<times> TopologyManager) option" where
  "UpdateFromSelfID result timestamp nodeIDReg m =
     (if \<not> res_valid result \<or> res_quads result = []
      then Some (Inl (build_error InvalidSelfID ''Self-ID stream is invalid or empty''), m)
      else
        let nodeInfo = DecodeNodeIDRegister nodeIDReg;
            localNodeId = (case ni_localNodeId nodeInfo of Some i \<Rightarrow> i | None \<Rightarrow> kInvalidPhysicalId)
        in (case Parse result of
              Inl e \<Rightarrow> Some (Inl e, m)
            | Inr records \<Rightarrow>
                (case BuildPhysicalGraph records localNodeId of
                   None \<Rightarrow> None
                 | Some (Inl e) \<Rightarrow> Some (Inl e, m)
                 | Some (Inr physical) \<Rightarrow>
                     (case NormalizeFromLocal physical localNodeId of
                        None \<Rightarrow> None
                      | Some (Inl e) \<Rightarrow> Some (Inl e, m)
                      | Some (Inr normalized) \<Rightarrow>
                          let snapshot = valid_snapshot result timestamp nodeInfo records physical normalized
                          in Some (Inr snapshot, m\<lparr>tm_latest := Some snapshot\<rparr>)))))"

section \<open>Path speed\<close>

text \<open>
  The breadth-first loop of \<open>PathSpeedCodeBetween\<close>: \<open>best\<close> and \<open>seen\<close> are the arrays of the function,
  \<open>queue\<close> the part of its queue from \<open>head\<close> to \<open>tail\<close>. \<open>Inl\<close> is the early return at \<open>nodeB\<close>.
\<close>

type_synonym speed_state = "nat list \<times> bool list \<times> nat list"

definition findNode :: "TopologyNodeRecord list \<Rightarrow> nat \<Rightarrow> TopologyNodeRecord option" where
  "findNode nodes i = find (\<lambda>node. tn_physicalId node = i) nodes"

definition speed_port ::
  "TopologyNodeRecord list \<Rightarrow> nat \<Rightarrow> nat \<Rightarrow> TopologyNodeRecord \<Rightarrow> nat \<Rightarrow> speed_state \<Rightarrow> nat + speed_state" where
  "speed_port nodes nodeB current record0 port st =
     (let (best, seen, queue) = st;
          link = tn_links record0 ! port;
          neighbour = lk_remoteNodeId link
      in if \<not> lk_connected link then Inr st
         else if neighbour \<ge> kMaxPhysicalIds \<or> seen ! neighbour then Inr st
         else (case findNode nodes neighbour of
                 None \<Rightarrow> Inr st
               | Some neighbourRecord \<Rightarrow>
                   let seen = seen[neighbour := True];
                       best = best[neighbour := min (best ! current) (tn_speedCode neighbourRecord)]
                   in if neighbour = nodeB then Inl (best ! neighbour)
                      else Inr (best, seen, queue @ [neighbour])))"

fun speed_loop :: "nat \<Rightarrow> TopologyNodeRecord list \<Rightarrow> nat \<Rightarrow> speed_state \<Rightarrow> (nat + speed_state) option" where
  "speed_loop fuel nodes nodeB (best, seen, []) = Some (Inr (best, seen, []))"
| "speed_loop 0 nodes nodeB (best, seen, current # queue) = None"
| "speed_loop (Suc fuel) nodes nodeB (best, seen, current # queue) =
     (case findNode nodes current of
        None \<Rightarrow> speed_loop fuel nodes nodeB (best, seen, queue)
      | Some record0 \<Rightarrow>
          (case efold (speed_port nodes nodeB current record0) [0..<tn_portCount record0] (best, seen, queue) of
             Inl speed \<Rightarrow> Some (Inl speed)
           | Inr st \<Rightarrow> speed_loop fuel nodes nodeB st))"

text \<open>The result's outer \<open>option\<close> is that of the loop, the inner one the function's own.\<close>

definition PathSpeedCodeBetween :: "TopologySnapshot \<Rightarrow> nat \<Rightarrow> nat \<Rightarrow> nat option option" where
  "PathSpeedCodeBetween topology nodeA nodeB =
     (if ts_graphStatus topology \<noteq> GraphValid then Some None
      else if nodeA \<ge> kMaxPhysicalIds \<or> nodeB \<ge> kMaxPhysicalIds then Some None
      else
        let nodes = pg_nodes (ts_physical topology) in
        (case (findNode nodes nodeA, findNode nodes nodeB) of
           (Some recordA, Some recordB) \<Rightarrow>
             if \<not> tn_linkActive recordA \<or> \<not> tn_linkActive recordB then Some None
             else if nodeA = nodeB then Some (Some (tn_speedCode recordA))
             else
               let seen = (replicate kMaxPhysicalIds False)[nodeA := True];
                   best = (replicate kMaxPhysicalIds 0)[nodeA := tn_speedCode recordA]
               in map_option (\<lambda>r. case r of Inl speed \<Rightarrow> Some speed | Inr _ \<Rightarrow> None)
                    (speed_loop kMaxPhysicalIds nodes nodeB (best, seen, [nodeA]))
         | _ \<Rightarrow> Some None))"

definition ResolveIsochSpeed :: "TopologySnapshot option \<Rightarrow> nat \<Rightarrow> nat \<Rightarrow> nat option" where
  "ResolveIsochSpeed topology nodeId operationalLimit =
     (case topology of
        None \<Rightarrow> Some operationalLimit
      | Some t \<Rightarrow>
          if ts_localNodeId t = kInvalidPhysicalId then Some operationalLimit
          else map_option (\<lambda>pathSpeed. case pathSpeed of
                   None \<Rightarrow> operationalLimit
                 | Some phySpeed \<Rightarrow> min phySpeed operationalLimit)
                 (PathSpeedCodeBetween t (ts_localNodeId t) nodeId))"

section \<open>Snapshots\<close>

lemma Parse_Inr:
  assumes "res_valid r" and "list_all (seq_in (res_quads r)) (res_sequences r)" and "Parse r = Inr recs"
  shows "ValidateContiguousPhysicalIds recs" and "length recs = length (res_sequences r)" and "length recs \<le> 63"
proof -
  show "ValidateContiguousPhysicalIds recs"
    using assms(3) by (auto simp: Parse_def ebind_eq_Inr Let_def split: if_splits)
  show "length recs = length (res_sequences r)" "length recs \<le> 63"
    using assms(3) unfolding Parse_iff [OF assms(1,2)] by (auto simp: Let_def)
qed

lemma NormalizeFromLocal_out:
  "length (pg_nodes g) \<le> s \<Longrightarrow> \<exists>e. NormalizeFromLocal g s = Some (Inl e)"
  by (simp add: NormalizeFromLocal_def Let_def)

lemma UpdateFromSelfID_answers:
  assumes "res_valid r" and "list_all (seq_in (res_quads r)) (res_sequences r)"
  shows "case UpdateFromSelfID r t reg m of
      None \<Rightarrow> False
    | Some (Inl e, m') \<Rightarrow> m' = m
    | Some (Inr s, m') \<Rightarrow> m' = m\<lparr>tm_latest := Some s\<rparr>
        \<and> ts_generation s = res_generation r \<and> ts_capturedAt s = t \<and> ts_graphStatus s = GraphValid
        \<and> ts_nodeCount s = length (res_sequences r) \<and> ts_nodeCount s \<le> 63
        \<and> ts_rootNodeId s = ts_nodeCount s - 1
        \<and> tree_links (pg_nodes (ts_physical s)) \<and> length (pg_nodes (ts_physical s)) = ts_nodeCount s
        \<and> ts_localNodeId s < ts_nodeCount s
        \<and> ng_observerPhysicalId (ts_normalizedFromLocal s) = ts_localNodeId s"
proof (cases "res_quads r = []")
  case True
  then show ?thesis by (simp add: UpdateFromSelfID_def)
next
  case False
  let ?info = "DecodeNodeIDRegister reg"
  let ?l = "case ni_localNodeId ?info of Some i \<Rightarrow> i | None \<Rightarrow> kInvalidPhysicalId"
  show ?thesis
  proof (cases "Parse r")
    case (Inl e)
    then show ?thesis using assms(1) False by (simp add: UpdateFromSelfID_def Let_def)
  next
    case parsed: (Inr recs)
    note rec = Parse_Inr [OF assms parsed]
    from BuildPhysicalGraph_cases [OF rec(1,3), of ?l] show ?thesis
    proof (elim disjE conjE exE)
      fix e assume "BuildPhysicalGraph recs ?l = Some (Inl e)"
      then show ?thesis using assms(1) False parsed by (simp add: UpdateFromSelfID_def Let_def)
    next
      fix g assume g: "BuildPhysicalGraph recs ?l = Some (Inr g)" and tree: "tree_links (pg_nodes g)"
        and len: "length (pg_nodes g) = length recs" and root: "pg_rootId g = length recs - 1"
        and cnt: "pg_nodeCount g = length recs"
      show ?thesis
      proof (cases "?l < length (pg_nodes g)")
        case True
        obtain nm where nm: "NormalizeFromLocal g ?l = Some (Inr \<lparr>ng_observerPhysicalId = ?l, ng_nodes = nm\<rparr>)"
          using NormalizeFromLocal_tree [OF tree _ True] len rec(3) by auto
        show ?thesis
          using assms(1) False parsed g nm tree len root cnt True rec
          by (simp add: UpdateFromSelfID_def Let_def valid_snapshot_def)
      next
        case False
        then obtain e where "NormalizeFromLocal g ?l = Some (Inl e)"
          using NormalizeFromLocal_out [of g ?l] by auto
        then show ?thesis using assms(1) \<open>res_quads r \<noteq> []\<close> parsed g
          by (simp add: UpdateFromSelfID_def Let_def)
      qed
    qed
  qed
qed

text \<open>
  On a capture as \<open>Decode\<close> delivers it, \<open>UpdateFromSelfID\<close> always answers. A failure leaves the
  manager as it was. A success stores and returns a valid snapshot of that capture: its node count
  is the number of Self-ID sequences, its links form a tree rooted at the largest physical ID, the
  local node is one of its nodes and the observer of its normalized graph.
\<close>

lemma UpdateFromSelfID_correct:
  assumes "res_valid r" and "list_all (seq_in (res_quads r)) (res_sequences r)"
  shows "case UpdateFromSelfID r t reg m of
      None \<Rightarrow> False
    | Some (Inl e, m') \<Rightarrow> m' = m
    | Some (Inr s, m') \<Rightarrow> m' = m\<lparr>tm_latest := Some s\<rparr>
        \<and> ts_generation s = res_generation r \<and> ts_capturedAt s = t \<and> ts_graphStatus s = GraphValid
        \<and> ts_nodeCount s = length (res_sequences r) \<and> ts_nodeCount s \<le> 63
        \<and> ts_rootNodeId s = ts_nodeCount s - 1
        \<and> tree_links (pg_nodes (ts_physical s)) \<and> length (pg_nodes (ts_physical s)) = ts_nodeCount s
        \<and> ts_localNodeId s < ts_nodeCount s
        \<and> ng_observerPhysicalId (ts_normalizedFromLocal s) = ts_localNodeId s"
  using assms by (rule UpdateFromSelfID_answers)

section \<open>Path speed\<close>

text \<open>The nodes on the path from \<open>s\<close> to \<open>v\<close>, and the slowest of them.\<close>

definition path_nodes :: "TopologyNodeRecord list \<Rightarrow> nat \<Rightarrow> nat \<Rightarrow> nat set" where
  "path_nodes ns s v = {w. w < length ns \<and> hop_dist ns s w + hop_dist ns w v = hop_dist ns s v}"

definition path_speed :: "TopologyNodeRecord list \<Rightarrow> nat \<Rightarrow> nat \<Rightarrow> nat" where
  "path_speed ns s v = Min ((\<lambda>w. tn_speedCode (ns ! w)) ` path_nodes ns s v)"

lemma path_nodes_step:
  assumes tree: "tree_links ns" and s: "s < length ns" and cur: "cur < length ns" and lnk: "linked ns cur v"
    and far: "hop_dist ns s v = Suc (hop_dist ns s cur)"
  shows "path_nodes ns s v = insert v (path_nodes ns s cur)"
proof -
  let ?r = "length ns - 1"
  have adj: "tree_adj (parent_of ns) ?r cur v" using lnk unfolding linked_iff_adj [OF tree] .
  have v: "v < length ns" using adj cur by (auto simp: tree_adj_def)
  have le: "s \<le> ?r" "cur \<le> ?r" "v \<le> ?r" using s cur v by linarith+
  have one: "hop_dist ns cur v = 1" "hop_dist ns v cur = 1"
    using bus.dist_adj_cases [OF le(2) adj] bus.dist_sym [of cur ns v] le by auto
  have "w \<in> path_nodes ns s v \<longleftrightarrow> w = v \<or> w \<in> path_nodes ns s cur" for w
  proof (cases "w = v")
    case True
    then show ?thesis using v by (simp add: path_nodes_def)
  next
    case neq: False
    show ?thesis
    proof (cases "w < length ns")
      case True
      then have w: "w \<le> ?r" by linarith
      have tri1: "hop_dist ns w v \<le> hop_dist ns w cur + 1"
        using bus.dist_triangle [OF w le(2) le(3)] one by simp
      have tri2: "hop_dist ns s v \<le> hop_dist ns s w + hop_dist ns w v"
        by (rule bus.dist_triangle [OF le(1) w le(3)])
      have toward: "hop_dist ns s w + hop_dist ns w cur = hop_dist ns s cur"
        if onp: "hop_dist ns s w + hop_dist ns w v = hop_dist ns s v"
      proof -
        have "v \<noteq> w" using neq by simp
        from bus.nearer_exists [OF w le(3) this] obtain u
          where u: "tree_adj (parent_of ns) ?r v u" "hop_dist ns w v = Suc (hop_dist ns w u)" by blast
        have u_le: "u \<le> ?r" using u(1) v by (auto simp: tree_adj_def)
        have "hop_dist ns s u \<le> hop_dist ns s w + hop_dist ns w u"
          by (rule bus.dist_triangle [OF le(1) w u_le])
        then have "hop_dist ns s v = Suc (hop_dist ns s u)"
          using bus.dist_adj_cases [OF le(1) u(1)] u(2) onp by linarith
        then have "u = cur" using bus.nearer_unique [OF le(1) u(1) bus.adj_sym [OF adj]] far by simp
        with u(2) onp far show ?thesis by simp
      qed
      show ?thesis
        using True neq toward tri1 tri2 far unfolding path_nodes_def by fastforce
    qed (use neq v in \<open>auto simp: path_nodes_def\<close>)
  qed
  then show ?thesis by auto
qed

lemma path_nodes_self: "s < length ns \<Longrightarrow> s \<in> path_nodes ns s s" "finite (path_nodes ns s v)"
    "v < length ns \<Longrightarrow> v \<in> path_nodes ns s v"
  by (auto simp: path_nodes_def)

lemma path_nodes_refl:
  assumes "s < length ns"
  shows "path_nodes ns s s = {s}"
proof -
  have "w = s" if "w < length ns" "hop_dist ns s w = 0" for w
  proof -
    have "s \<le> length ns - 1" "w \<le> length ns - 1" using that assms by linarith+
    with bus.dist_eq_0 [of s ns w] that(2) show ?thesis by simp
  qed
  with assms show ?thesis by (auto simp: path_nodes_def)
qed

lemma path_speed_step:
  assumes "tree_links ns" and "s < length ns" and "cur < length ns" and "linked ns cur v"
    and "hop_dist ns s v = Suc (hop_dist ns s cur)"
  shows "path_speed ns s v = min (path_speed ns s cur) (tn_speedCode (ns ! v))"
proof -
  have "path_nodes ns s cur \<noteq> {}" using path_nodes_self(3) [OF assms(3)] by blast
  then show ?thesis
    unfolding path_speed_def path_nodes_step [OF assms] image_insert
    by (subst Min_insert) (auto simp: path_nodes_self(2) min.commute)
qed

lemma findNode_tree:
  assumes tree: "tree_links ns"
  shows "findNode ns i = (if i < length ns then Some (ns ! i) else None)"
proof (cases "i < length ns")
  case True
  have "find (\<lambda>n. tn_physicalId n = i) ns = Some (ns ! i)"
    unfolding find_Some_iff using True tree by (intro exI [of _ i]) (simp add: tree_links_def)
  then show ?thesis using True by (simp add: findNode_def)
next
  case False
  have "\<not> (\<exists>n \<in> set ns. tn_physicalId n = i)"
    using False tree by (auto simp: tree_links_def in_set_conv_nth)
  then show ?thesis using False by (simp add: findNode_def find_None_iff)
qed

text \<open>The links of a node lie within its port count.\<close>

definition ports_counted :: "TopologyNodeRecord list \<Rightarrow> bool" where
  "ports_counted ns \<longleftrightarrow> (\<forall>i < length ns. tn_portCount (ns ! i) \<le> 16
     \<and> (\<forall>p < 16. lk_connected (lks ns i p) \<longrightarrow> p < tn_portCount (ns ! i)))"

definition speed_inv :: "TopologyNodeRecord list \<Rightarrow> nat \<Rightarrow> nat \<Rightarrow> speed_state \<Rightarrow> bool" where
  "speed_inv ns s b st \<longleftrightarrow> (case st of (best, seen, queue) \<Rightarrow>
     length best = 63 \<and> length seen = 63 \<and> near_closed ns s (visited_nodes seen)
     \<and> set queue \<subseteq> visited_nodes seen \<and> b \<notin> visited_nodes seen
     \<and> (\<forall>v \<in> visited_nodes seen. best ! v = path_speed ns s v))"

lemma speed_port_step:
  assumes tree: "tree_links ns" and n: "length ns \<le> 63" and inv: "speed_inv ns s b (best, seen, queue)"
    and cur: "cur \<in> visited_nodes seen" and p: "p < 16"
  shows "speed_port ns b cur (ns ! cur) p (best, seen, queue) = Inl (path_speed ns s b)
    \<or> (\<exists>best' seen' new. speed_port ns b cur (ns ! cur) p (best, seen, queue) = Inr (best', seen', queue @ new)
      \<and> speed_inv ns s b (best', seen', queue @ new)
      \<and> visited_nodes seen' = visited_nodes seen \<union> set new
      \<and> card (visited_nodes seen') = card (visited_nodes seen) + length new
      \<and> (lk_connected (lks ns cur p) \<longrightarrow> lk_remoteNodeId (lks ns cur p) \<in> visited_nodes seen'))"
proof -
  let ?V = "visited_nodes seen" and ?l = "lks ns cur p" and ?v = "lk_remoteNodeId (lks ns cur p)"
  have len: "length best = 63" "length seen = 63" and cl: "near_closed ns s ?V"
    using inv by (auto simp: speed_inv_def)
  have cur_n: "cur < length ns" and s_n: "s < length ns" using cur cl by (auto simp: near_closed_def)
  show ?thesis
  proof (cases "lk_connected ?l \<and> ?v \<notin> ?V")
    case False
    have "?v < length ns" if "lk_connected ?l" using tree_link [OF tree cur_n p that refl] by blast
    then have "speed_port ns b cur (ns ! cur) p (best, seen, queue) = Inr (best, seen, queue)"
      using False n by (auto simp: speed_port_def lks_def Let_def visited_nodes_def len kMaxPhysicalIds_def)
    with inv False show ?thesis
      by (intro disjI2 exI [of _ best] exI [of _ seen] exI [of _ "[]"]) auto
  next
    case True
    then have con: "lk_connected ?l" and new: "?v \<notin> ?V" by auto
    from tree_link [OF tree cur_n p con refl] obtain q
      where l: "?l = mk_link ?v q" and v_n: "?v < length ns" by blast
    have lnk: "linked ns cur ?v" using con cur_n p by (auto simp: linked_def)
    have far: "hop_dist ns s ?v = Suc (hop_dist ns s cur)"
      by (rule new_node_farther [OF tree cl lnk cur new])
    have speed: "min (best ! cur) (tn_speedCode (ns ! ?v)) = path_speed ns s ?v"
      using path_speed_step [OF tree s_n cur_n lnk far] inv cur by (simp add: speed_inv_def)
    let ?seen = "seen[?v := True]" and ?best = "best[?v := path_speed ns s ?v]"
    have step: "speed_port ns b cur (ns ! cur) p (best, seen, queue) =
        (if ?v = b then Inl (path_speed ns s ?v) else Inr (?best, ?seen, queue @ [?v]))"
      using con new v_n n len speed
      by (simp add: speed_port_def Let_def lks_def [symmetric] visited_nodes_def kMaxPhysicalIds_def
          findNode_tree [OF tree])
    show ?thesis
    proof (cases "?v = b")
      case True
      with step show ?thesis by simp
    next
      case False
      have V: "visited_nodes ?seen = insert ?v ?V"
        using v_n n len by (auto simp: visited_nodes_def nth_list_update)
      have "near_closed ns s (insert ?v ?V)" by (rule observed_insert(1) [OF tree cl cur p l new])
      moreover have "?best ! w = path_speed ns s w" if "w \<in> insert ?v ?V" for w
        using that inv len v_n n by (auto simp: speed_inv_def nth_list_update)
      ultimately have "speed_inv ns s b (?best, ?seen, queue @ [?v])"
        unfolding speed_inv_def prod.case V using inv len False by (auto simp: speed_inv_def)
      moreover have "speed_port ns b cur (ns ! cur) p (best, seen, queue) = Inr (?best, ?seen, queue @ [?v])"
        using step False by simp
      moreover have "card (insert ?v ?V) = card ?V + length [?v]" using new by simp
      ultimately show ?thesis
        by (intro disjI2 exI [of _ ?best] exI [of _ ?seen] exI [of _ "[?v]"] conjI) (simp_all add: V)
    qed
  qed
qed

lemma speed_ports:
  assumes tree: "tree_links ns" and n: "length ns \<le> 63" and "speed_inv ns s b (best, seen, queue)"
    and "cur \<in> visited_nodes seen" and "set ps \<subseteq> {..<16}"
  shows "efold (speed_port ns b cur (ns ! cur)) ps (best, seen, queue) = Inl (path_speed ns s b)
    \<or> (\<exists>best' seen' new. efold (speed_port ns b cur (ns ! cur)) ps (best, seen, queue)
          = Inr (best', seen', queue @ new)
      \<and> speed_inv ns s b (best', seen', queue @ new)
      \<and> visited_nodes seen' = visited_nodes seen \<union> set new
      \<and> card (visited_nodes seen') = card (visited_nodes seen) + length new
      \<and> (\<forall>p \<in> set ps. lk_connected (lks ns cur p) \<longrightarrow> lk_remoteNodeId (lks ns cur p) \<in> visited_nodes seen'))"
  using assms(3-5)
proof (induction ps arbitrary: best seen queue)
  case Nil
  then show ?case by (intro disjI2 exI [of _ best] exI [of _ seen] exI [of _ "[]"]) simp
next
  case (Cons p ps)
  then have "p < 16" by simp
  from speed_port_step [OF tree n Cons.prems(1,2) this] show ?case
  proof (elim disjE exE conjE)
    assume "speed_port ns b cur (ns ! cur) p (best, seen, queue) = Inl (path_speed ns s b)"
    then show ?thesis by simp
  next
    fix best1 seen1 new1
    assume 1: "speed_port ns b cur (ns ! cur) p (best, seen, queue) = Inr (best1, seen1, queue @ new1)"
      "speed_inv ns s b (best1, seen1, queue @ new1)" "visited_nodes seen1 = visited_nodes seen \<union> set new1"
      "card (visited_nodes seen1) = card (visited_nodes seen) + length new1"
      "lk_connected (lks ns cur p) \<longrightarrow> lk_remoteNodeId (lks ns cur p) \<in> visited_nodes seen1"
    have "cur \<in> visited_nodes seen1" "set ps \<subseteq> {..<16}" using 1(3) Cons.prems by auto
    from Cons.IH [OF 1(2) this] show ?thesis
    proof (elim disjE exE conjE)
      assume "efold (speed_port ns b cur (ns ! cur)) ps (best1, seen1, queue @ new1) = Inl (path_speed ns s b)"
      with 1(1) show ?thesis by simp
    next
      fix best2 seen2 new2
      assume 2: "efold (speed_port ns b cur (ns ! cur)) ps (best1, seen1, queue @ new1) =
          Inr (best2, seen2, (queue @ new1) @ new2)"
        "speed_inv ns s b (best2, seen2, (queue @ new1) @ new2)"
        "visited_nodes seen2 = visited_nodes seen1 \<union> set new2"
        "card (visited_nodes seen2) = card (visited_nodes seen1) + length new2"
        "\<forall>p \<in> set ps. lk_connected (lks ns cur p) \<longrightarrow> lk_remoteNodeId (lks ns cur p) \<in> visited_nodes seen2"
      then show ?thesis
        using 1 by (intro disjI2 exI [of _ best2] exI [of _ seen2] exI [of _ "new1 @ new2"]) auto
    qed
  qed
qed

lemma speed_not_done:
  assumes tree: "tree_links ns" and b: "b < length ns" and inv: "speed_inv ns s b (best, seen, [])"
    and closed: "\<And>v w. v \<in> visited_nodes seen \<Longrightarrow> linked ns v w \<Longrightarrow> w \<in> visited_nodes seen"
  shows False
proof -
  have "visited_nodes seen = {..<length ns}"
  proof (rule neighbour_closed_all [OF tree _ _ closed])
    show "s \<in> visited_nodes seen" "visited_nodes seen \<subseteq> {..<length ns}"
      using inv by (auto simp: speed_inv_def near_closed_def)
  qed
  with inv b show False by (simp add: speed_inv_def)
qed

lemma speed_loop_total:
  assumes tree: "tree_links ns" and n: "length ns \<le> 63" and cnt: "ports_counted ns" and b: "b < length ns"
  shows "speed_inv ns s b (best, seen, queue) \<Longrightarrow>
    (\<And>v w. v \<in> visited_nodes seen \<Longrightarrow> v \<notin> set queue \<Longrightarrow> linked ns v w \<Longrightarrow> w \<in> visited_nodes seen) \<Longrightarrow>
    length queue + (length ns - card (visited_nodes seen)) \<le> fuel \<Longrightarrow>
    speed_loop fuel ns b (best, seen, queue) = Some (Inl (path_speed ns s b))"
proof (induction fuel arbitrary: best seen queue)
  case (0 best seen queue)
  then have q: "queue = []" by simp
  have False
    by (rule speed_not_done [OF tree b "0.prems"(1) [unfolded q] "0.prems"(2)]) (simp_all add: q)
  then show ?case ..
next
  case (Suc fuel best seen queue0)
  show ?case
  proof (cases queue0)
    case Nil
    have False
      by (rule speed_not_done [OF tree b Suc.prems(1) [unfolded Nil] Suc.prems(2)]) (simp_all add: Nil)
    then show ?thesis ..
  next
    case (Cons cur queue)
    have cur: "cur \<in> visited_nodes seen" and inv: "speed_inv ns s b (best, seen, queue)"
      using Suc.prems(1) Cons by (auto simp: speed_inv_def)
    have cur_n: "cur < length ns" using cur inv by (auto simp: speed_inv_def near_closed_def)
    have sub: "set [0..<tn_portCount (ns ! cur)] \<subseteq> {..<16}"
      using cnt cur_n by (auto simp: ports_counted_def)
    have find: "findNode ns cur = Some (ns ! cur)" using cur_n by (simp add: findNode_tree [OF tree])
    from speed_ports [OF tree n inv cur sub] show ?thesis
    proof (elim disjE exE conjE)
      assume "efold (speed_port ns b cur (ns ! cur)) [0..<tn_portCount (ns ! cur)] (best, seen, queue)
          = Inl (path_speed ns s b)"
      then show ?thesis using find Cons by simp
    next
      fix best1 seen1 new
      assume 1: "efold (speed_port ns b cur (ns ! cur)) [0..<tn_portCount (ns ! cur)] (best, seen, queue)
          = Inr (best1, seen1, queue @ new)"
        "speed_inv ns s b (best1, seen1, queue @ new)" "visited_nodes seen1 = visited_nodes seen \<union> set new"
        "card (visited_nodes seen1) = card (visited_nodes seen) + length new"
        "\<forall>p \<in> set [0..<tn_portCount (ns ! cur)]. lk_connected (lks ns cur p) \<longrightarrow>
           lk_remoteNodeId (lks ns cur p) \<in> visited_nodes seen1"
      have nb: "w \<in> visited_nodes seen1" if "linked ns cur w" for w
        using that 1(5) cnt cur_n by (auto simp: linked_def ports_counted_def)
      have closed: "w \<in> visited_nodes seen1"
        if v: "v \<in> visited_nodes seen1" "v \<notin> set (queue @ new)" "linked ns v w" for v w
      proof (cases "v = cur")
        case False
        with v 1(3) Cons have "v \<in> visited_nodes seen" "v \<notin> set queue0" by auto
        with Suc.prems(2) v(3) 1(3) show ?thesis by blast
      qed (use nb v in simp)
      have "card (visited_nodes seen1) \<le> card {..<length ns}"
        using 1(2) by (intro card_mono) (auto simp: speed_inv_def near_closed_def)
      then have "length (queue @ new) + (length ns - card (visited_nodes seen1)) \<le> fuel"
        using Suc.prems(3) 1(4) Cons by simp
      from Suc.IH [OF 1(2) closed this] show ?thesis using find 1(1) Cons by simp
    qed
  qed
qed

text \<open>The ports of a node record of the parser lie within its port count, and so do its links.\<close>

lemma seq_record_ports:
  "p < 16 \<Longrightarrow> sr_ports (seq_record qs sn) ! p \<noteq> NotPresent \<Longrightarrow> p < sr_portCount (seq_record qs sn)"
  "sr_portCount (seq_record qs sn) \<le> 16"
  using actual_port_count_spec by (simp_all add: seq_record_def sequence_record_def Let_def)

lemma Parse_records:
  assumes "res_valid r" and "list_all (seq_in (res_quads r)) (res_sequences r)" and "Parse r = Inr recs"
    and "i < length recs"
  shows "\<exists>sn. recs ! i = seq_record (res_quads r) sn"
proof -
  let ?ids = "map (seq_id (res_quads r)) (res_sequences r)"
  have "set ?ids = {..<length ?ids}" "length recs = length ?ids"
    "\<forall>s \<in> set (res_sequences r). recs ! seq_id (res_quads r) s = seq_record (res_quads r) s"
    using assms(3) unfolding Parse_iff [OF assms(1,2)] by (auto simp: Let_def)
  moreover from this(1,2) have "i \<in> set ?ids" using assms(4) by simp
  moreover from this obtain sn where "sn \<in> set (res_sequences r)" "i = seq_id (res_quads r) sn" by auto
  ultimately show ?thesis by blast
qed

lemma built_ports_counted:
  assumes "built_nodes (reported_nodes rs l) ns" and "rs \<noteq> []" and "elect_irm ns = (irm, ns')"
    and counted: "\<And>i. i < length rs \<Longrightarrow> sr_portCount (rs ! i) \<le> 16
      \<and> (\<forall>p < 16. sr_ports (rs ! i) ! p \<noteq> NotPresent \<longrightarrow> p < sr_portCount (rs ! i))"
  shows "ports_counted ns'"
proof -
  have ne: "reported_nodes rs l \<noteq> []" using assms(2) by simp
  have tree: "tree_links ns" and len: "length ns = length rs" using built_nodes_tree [OF ne assms(1)] by auto
  have fr: "node_frame (reported_nodes rs l) ns" using assms(1) by (simp add: built_nodes_def build_inv_def)
  have tree': "tree_links ns'" and len': "length ns' = length rs"
    using elect_irm_tree [OF assms(3) tree] elect_irm_nth(1) [OF assms(3)] len by simp_all
  have node: "tn_portCount (ns' ! i) = sr_portCount (rs ! i)" "tn_reportedPorts (ns' ! i) = sr_ports (rs ! i)"
    if "i < length rs" for i
  proof -
    have "(ns ! i)\<lparr>tn_links := []\<rparr> = (reported_nodes rs l ! i)\<lparr>tn_links := []\<rparr>"
      using fr that len by (simp add: node_frame_def)
    then have "tn_portCount (ns ! i) = sr_portCount (rs ! i)" "tn_reportedPorts (ns ! i) = sr_ports (rs ! i)"
      using that by (auto simp: topology_node_def dest: arg_cong [where f = tn_portCount]
          arg_cong [where f = tn_reportedPorts])
    moreover obtain b where "ns' ! i = (ns ! i)\<lparr>tn_isIRM := b\<rparr>"
      using elect_irm_nth(2) [OF assms(3), of i] \<open>i < length rs\<close> len by auto
    ultimately show "tn_portCount (ns' ! i) = sr_portCount (rs ! i)"
      "tn_reportedPorts (ns' ! i) = sr_ports (rs ! i)" by simp_all
  qed
  have "p < tn_portCount (ns' ! i)" if i: "i < length rs" and p: "p < 16" and c: "lk_connected (lks ns' i p)" for i p
  proof -
    have "i < length ns'" using i len' by simp
    from tree_link [OF tree' this p c refl] have "rep ns' i p \<noteq> NotPresent" by auto
    then have "sr_ports (rs ! i) ! p \<noteq> NotPresent" using node(2) [OF i] by (simp add: rep_def)
    with counted [OF i] p node(1) [OF i] show ?thesis by simp
  qed
  with counted node len' show ?thesis by (simp add: ports_counted_def)
qed

lemma UpdateFromSelfID_ports_counted:
  assumes r: "res_valid r" "list_all (seq_in (res_quads r)) (res_sequences r)"
    and u: "UpdateFromSelfID r t reg m = Some (Inr s, m')"
  shows "ports_counted (pg_nodes (ts_physical s))" and "tree_links (pg_nodes (ts_physical s))"
    and "length (pg_nodes (ts_physical s)) \<le> 63" and "ts_graphStatus s = GraphValid"
    and "length (pg_nodes (ts_physical s)) = ts_nodeCount s"
proof -
  let ?info = "DecodeNodeIDRegister reg"
  let ?l = "case ni_localNodeId ?info of Some i \<Rightarrow> i | None \<Rightarrow> kInvalidPhysicalId"
  from u obtain recs g nm where parsed: "Parse r = Inr recs" and g: "BuildPhysicalGraph recs ?l = Some (Inr g)"
    and s: "s = valid_snapshot r t ?info recs g nm"
    by (auto simp: UpdateFromSelfID_def Let_def split: if_splits sum.splits option.splits)
  note rec = Parse_Inr [OF r parsed]
  from BuildPhysicalGraph_cases [OF rec(1,3), of ?l] g obtain ns irm
    where b: "built_nodes (reported_nodes recs ?l) ns" "elect_irm ns = (irm, pg_nodes g)"
      and t: "tree_links (pg_nodes g)" "length (pg_nodes g) = length recs" "pg_nodeCount g = length recs" by auto
  have "recs \<noteq> []" by (rule contiguous_root(2) [OF rec(1,3)])
  then have "ports_counted (pg_nodes g)"
  proof (rule built_ports_counted [OF b(1) _ b(2)])
    fix i assume "i < length recs"
    then obtain sn where "recs ! i = seq_record (res_quads r) sn" using Parse_records [OF r parsed] by blast
    with seq_record_ports show "sr_portCount (recs ! i) \<le> 16
        \<and> (\<forall>p < 16. sr_ports (recs ! i) ! p \<noteq> NotPresent \<longrightarrow> p < sr_portCount (recs ! i))" by simp
  qed
  then show "ports_counted (pg_nodes (ts_physical s))" "tree_links (pg_nodes (ts_physical s))"
    "length (pg_nodes (ts_physical s)) \<le> 63" "ts_graphStatus s = GraphValid"
    "length (pg_nodes (ts_physical s)) = ts_nodeCount s"
    using t rec by (simp_all add: s valid_snapshot_def)
qed

text \<open>
  C27: between two nodes of a snapshot with active links \<open>PathSpeedCodeBetween\<close> returns the speed of
  the slowest node on the path between them; it returns nothing when one of the two has no active
  link or is not on the bus. Its search always ends.
\<close>

theorem PathSpeedCodeBetween_correct:
  assumes "res_valid r" and "list_all (seq_in (res_quads r)) (res_sequences r)"
    and "UpdateFromSelfID r t reg m = Some (Inr s, m')"
  shows "PathSpeedCodeBetween s a b =
    (let ns = pg_nodes (ts_physical s) in
     Some (if a < ts_nodeCount s \<and> b < ts_nodeCount s \<and> tn_linkActive (ns ! a) \<and> tn_linkActive (ns ! b)
           then Some (path_speed ns a b) else None))"
proof -
  let ?ns = "pg_nodes (ts_physical s)"
  note u = UpdateFromSelfID_ports_counted [OF assms]
  have find: "findNode ?ns i = (if i < length ?ns then Some (?ns ! i) else None)" for i
    by (rule findNode_tree [OF u(2)])
  have self: "path_speed ?ns a a = tn_speedCode (?ns ! a)" if "a < length ?ns"
    using that by (simp add: path_speed_def path_nodes_refl)
  show ?thesis
  proof (cases "a < length ?ns \<and> b < length ?ns \<and> a \<noteq> b")
    case True
    let ?seen = "(replicate 63 False)[a := True]" and ?best = "(replicate 63 0)[a := tn_speedCode (?ns ! a)]"
    have lt: "a < 63" "a < length ?ns" "b < 63" using True u(3) by linarith+
    have V: "visited_nodes ?seen = {a}"
      using lt by (auto simp: visited_nodes_def nth_list_update split: if_splits)
    have inv: "speed_inv ?ns a b (?best, ?seen, [a])"
      unfolding speed_inv_def prod.case V
      using lt True self by (auto simp: near_closed_def)
    have "speed_loop 63 ?ns b (?best, ?seen, [a]) = Some (Inl (path_speed ?ns a b))"
      using True u(3) by (intro speed_loop_total [OF u(2,3,1) _ inv]) (simp_all add: V)
    with True lt find u(4,5) show ?thesis
      by (simp add: PathSpeedCodeBetween_def kMaxPhysicalIds_def Let_def)
  next
    case False
    with find u(3,4,5) self show ?thesis
      by (auto simp: PathSpeedCodeBetween_def kMaxPhysicalIds_def Let_def)
  qed
qed

section \<open>Witnesses\<close>

text \<open>
  A bus of two nodes, as \<open>Decode\<close> delivers it: node 0 at S200 with one port to its parent, node 1,
  the root, at S400 with one port to its child.
\<close>

definition sample_bus2 :: SelfIDResult where
  "sample_bus2 = \<lparr>res_quads = [0x10000, 0x807F4880, 0x817F88C0], res_sequences = [(1, 1), (2, 1)],
     res_generation = 1, res_valid = True, res_timedOut = False, res_crcError = False\<rparr>"

lemma sample_bus2_ok:
  "res_valid sample_bus2" "list_all (seq_in (res_quads sample_bus2)) (res_sequences sample_bus2)"
  by code_simp+

lemma sample_bus2_update:
  "\<exists>s m'. UpdateFromSelfID sample_bus2 7 0x8000FFC0 TopologyManager0 = Some (Inr s, m') \<and> ts_nodeCount s = 2
     \<and> tn_linkActive (pg_nodes (ts_physical s) ! 0) \<and> tn_linkActive (pg_nodes (ts_physical s) ! 1)"
proof -
  have "case UpdateFromSelfID sample_bus2 7 0x8000FFC0 TopologyManager0 of
      Some (Inr s, m') \<Rightarrow> ts_nodeCount s = 2 \<and> tn_linkActive (pg_nodes (ts_physical s) ! 0)
        \<and> tn_linkActive (pg_nodes (ts_physical s) ! 1)
    | _ \<Rightarrow> False" by code_simp
  then show ?thesis by (auto split: option.splits sum.splits)
qed

theorem PathSpeedCodeBetween_correct_witness:
  "\<exists>s m'. UpdateFromSelfID sample_bus2 7 0x8000FFC0 TopologyManager0 = Some (Inr s, m')
     \<and> PathSpeedCodeBetween s 0 1 = Some (Some (path_speed (pg_nodes (ts_physical s)) 0 1))"
proof -
  obtain s m' where u: "UpdateFromSelfID sample_bus2 7 0x8000FFC0 TopologyManager0 = Some (Inr s, m')"
    and s: "ts_nodeCount s = 2" "tn_linkActive (pg_nodes (ts_physical s) ! 0)"
      "tn_linkActive (pg_nodes (ts_physical s) ! 1)"
    using sample_bus2_update by blast
  from PathSpeedCodeBetween_correct [OF sample_bus2_ok u, of 0 1] s
  have "PathSpeedCodeBetween s 0 1 = Some (Some (path_speed (pg_nodes (ts_physical s)) 0 1))"
    by (simp add: Let_def)
  with u show ?thesis by blast
qed

end
