(* ===== verification/Bus_Options.thy ===== *)
theory Bus_Options
  imports ASFW_Prelude
begin

text \<open>
  \<^verbatim>\<open>Common/CSRSpace.hpp\<close>: the bus-options quadlet of the configuration ROM (decoding, encoding, the
  generation field), the role modes of the driver, and the normalization of the capabilities that
  the driver advertises in each mode.
\<close>

section \<open>The bus-options quadlet\<close>

definition kIRMCMask :: u32 where "kIRMCMask = 0x80000000"
definition kCMCMask :: u32 where "kCMCMask = 0x40000000"
definition kISCMask :: u32 where "kISCMask = 0x20000000"
definition kBMCMask :: u32 where "kBMCMask = 0x10000000"
definition kPMCMask :: u32 where "kPMCMask = 0x08000000"
definition kCycClkAccMask :: u32 where "kCycClkAccMask = 0x00FF0000"
definition kMaxRecMask :: u32 where "kMaxRecMask = 0x0000F000"
definition kMaxROMMask :: u32 where "kMaxROMMask = 0x00000300"
definition kBusOptGenerationMask :: u32 where "kBusOptGenerationMask = 0x000000F0"
definition kLinkSpdMask :: u32 where "kLinkSpdMask = 0x00000007"

lemmas bus_options_masks = kIRMCMask_def kCMCMask_def kISCMask_def kBMCMask_def kPMCMask_def
  kCycClkAccMask_def kMaxRecMask_def kMaxROMMask_def kBusOptGenerationMask_def kLinkSpdMask_def

record BusOptionsDecoded =
  bo_irmc :: bool
  bo_cmc :: bool
  bo_isc :: bool
  bo_bmc :: bool
  bo_pmc :: bool
  bo_cycClkAcc :: u8
  bo_maxRec :: u8
  bo_maxRom :: u8
  bo_generation :: u8
  bo_linkSpd :: u8

definition DecodeBusOptions :: "u32 \<Rightarrow> BusOptionsDecoded" where
  "DecodeBusOptions busOptionsHost =
     \<lparr>bo_irmc = (busOptionsHost AND kIRMCMask \<noteq> 0),
      bo_cmc = (busOptionsHost AND kCMCMask \<noteq> 0),
      bo_isc = (busOptionsHost AND kISCMask \<noteq> 0),
      bo_bmc = (busOptionsHost AND kBMCMask \<noteq> 0),
      bo_pmc = (busOptionsHost AND kPMCMask \<noteq> 0),
      bo_cycClkAcc = ucast (drop_bit 16 (busOptionsHost AND kCycClkAccMask)),
      bo_maxRec = ucast (drop_bit 12 (busOptionsHost AND kMaxRecMask)),
      bo_maxRom = ucast (drop_bit 8 (busOptionsHost AND kMaxROMMask)),
      bo_generation = ucast (drop_bit 4 (busOptionsHost AND kBusOptGenerationMask)),
      bo_linkSpd = ucast (drop_bit 0 (busOptionsHost AND kLinkSpdMask))\<rparr>"

definition EncodeBusOptions :: "BusOptionsDecoded \<Rightarrow> u32" where
  "EncodeBusOptions d =
     (if bo_irmc d then kIRMCMask else 0)
     OR (if bo_cmc d then kCMCMask else 0)
     OR (if bo_isc d then kISCMask else 0)
     OR (if bo_bmc d then kBMCMask else 0)
     OR (if bo_pmc d then kPMCMask else 0)
     OR (push_bit 16 (ucast (bo_cycClkAcc d)) AND kCycClkAccMask)
     OR (push_bit 12 (ucast (bo_maxRec d)) AND kMaxRecMask)
     OR (push_bit 8 (ucast (bo_maxRom d)) AND kMaxROMMask)
     OR (push_bit 4 (ucast (bo_generation d)) AND kBusOptGenerationMask)
     OR (push_bit 0 (ucast (bo_linkSpd d)) AND kLinkSpdMask)"

definition SetGeneration :: "u32 \<Rightarrow> u8 \<Rightarrow> u32" where
  "SetGeneration busOptionsHost gen4 =
     (busOptionsHost AND NOT kBusOptGenerationMask) OR push_bit 4 (ucast (gen4 AND 0x0F))"

section \<open>Role modes\<close>

datatype RoleMode = LegacyBmcCleared | ClientOnly | IRMResourceHost | FullBusManager

datatype FullBMActivityLevel = ObserveOnly | ElectionOnly | CyclePolicyAllowed | GapPolicyAllowed
  | ForceRootAllowed | RemoteCmstrAllowed

text \<open>The source compares activity levels by their numeric value.\<close>

primrec activity_rank :: "FullBMActivityLevel \<Rightarrow> nat" where
  "activity_rank ObserveOnly = 0"
| "activity_rank ElectionOnly = 1"
| "activity_rank CyclePolicyAllowed = 2"
| "activity_rank GapPolicyAllowed = 3"
| "activity_rank ForceRootAllowed = 4"
| "activity_rank RemoteCmstrAllowed = 5"

lemma activity_rank_inject [simp]: "activity_rank a = activity_rank b \<longleftrightarrow> a = b"
  by (cases a; cases b) simp_all

instantiation FullBMActivityLevel :: linorder
begin

definition less_eq_FullBMActivityLevel :: "FullBMActivityLevel \<Rightarrow> FullBMActivityLevel \<Rightarrow> bool" where
  "a \<le> b \<longleftrightarrow> activity_rank a \<le> activity_rank b"

definition less_FullBMActivityLevel :: "FullBMActivityLevel \<Rightarrow> FullBMActivityLevel \<Rightarrow> bool" where
  "a < b \<longleftrightarrow> activity_rank a < activity_rank b"

instance
  by standard (auto simp: less_eq_FullBMActivityLevel_def less_FullBMActivityLevel_def)

end

lemmas activity_order = less_eq_FullBMActivityLevel_def less_FullBMActivityLevel_def

definition IsLegalCapabilityCombo :: "u32 \<Rightarrow> bool" where
  "IsLegalCapabilityCombo busOptionsHost =
     (let bmc = (busOptionsHost AND kBMCMask \<noteq> 0); irmc = (busOptionsHost AND kIRMCMask \<noteq> 0)
      in \<not> (bmc \<and> \<not> irmc))"

definition NormalizeLocalBusOptions :: "u32 \<Rightarrow> RoleMode \<Rightarrow> FullBMActivityLevel \<Rightarrow> u32" where
  "NormalizeLocalBusOptions hwBusOptions mode activityLevel =
     (case mode of
        LegacyBmcCleared \<Rightarrow> hwBusOptions AND NOT kBMCMask
      | ClientOnly \<Rightarrow> hwBusOptions AND NOT (kBMCMask OR kIRMCMask)
      | IRMResourceHost \<Rightarrow> (hwBusOptions AND NOT kBMCMask) OR kIRMCMask
      | FullBusManager \<Rightarrow>
          if activityLevel \<ge> ElectionOnly
          then hwBusOptions OR (kBMCMask OR kIRMCMask OR kCMCMask OR kISCMask)
          else hwBusOptions AND NOT (kBMCMask OR kIRMCMask))"

section \<open>Bits\<close>

lemma cap_bits:
  "w AND kIRMCMask = 0 \<longleftrightarrow> \<not> bit w 31" "w AND kCMCMask = 0 \<longleftrightarrow> \<not> bit w 30" "w AND kISCMask = 0 \<longleftrightarrow> \<not> bit w 29"
  "w AND kBMCMask = 0 \<longleftrightarrow> \<not> bit w 28" "w AND kPMCMask = 0 \<longleftrightarrow> \<not> bit w 27"
  using and_exp_eq_0 [of w 31] and_exp_eq_0 [of w 30] and_exp_eq_0 [of w 29] and_exp_eq_0 [of w 28]
    and_exp_eq_0 [of w 27] by (simp_all add: bus_options_masks)

lemma EncodeBusOptions_bit:
  "bit (EncodeBusOptions d) n \<longleftrightarrow>
     bo_irmc d \<and> bit kIRMCMask n \<or> bo_cmc d \<and> bit kCMCMask n \<or> bo_isc d \<and> bit kISCMask n
     \<or> bo_bmc d \<and> bit kBMCMask n \<or> bo_pmc d \<and> bit kPMCMask n
     \<or> bit (push_bit 16 (ucast (bo_cycClkAcc d)) AND kCycClkAccMask) n
     \<or> bit (push_bit 12 (ucast (bo_maxRec d)) AND kMaxRecMask) n
     \<or> bit (push_bit 8 (ucast (bo_maxRom d)) AND kMaxROMMask) n
     \<or> bit (push_bit 4 (ucast (bo_generation d)) AND kBusOptGenerationMask) n
     \<or> bit (push_bit 0 (ucast (bo_linkSpd d)) AND kLinkSpdMask) n"
  unfolding EncodeBusOptions_def bit_or_iff bit_if_0 disj_assoc ..

text \<open>
  Decoding the bus-options quadlet and encoding it again gives the quadlet with its reserved
  bits (26 to 24, 11, 10 and 3) cleared; encoding options whose fields fit their widths and decoding
  them gives the options back.
\<close>

lemma BusOptions_roundtrip:
  "EncodeBusOptions (DecodeBusOptions w) = w AND NOT 0x07000C08
   \<and> (bo_maxRec d < 16 \<and> bo_maxRom d < 4 \<and> bo_generation d < 16 \<and> bo_linkSpd d < 8 \<longrightarrow>
       DecodeBusOptions (EncodeBusOptions d) = d)"
proof (intro conjI impI)
  show "EncodeBusOptions (DecodeBusOptions w) = w AND NOT 0x07000C08"
    unfolding DecodeBusOptions_def cap_bits
    by (rule u32_eqI) (simp add: EncodeBusOptions_bit bus_options_masks upt_32 bit_simps)
  assume small: "bo_maxRec d < 16 \<and> bo_maxRom d < 4 \<and> bo_generation d < 16 \<and> bo_linkSpd d < 8"
  have hi: "\<not> bit (bo_maxRec d) n" "\<not> bit (bo_generation d) n" if "4 \<le> n" for n
    using not_bit_if_less [of "bo_maxRec d" 4 n] not_bit_if_less [of "bo_generation d" 4 n] that small by (simp_all add: word_less_nat_alt)
  have hi2: "\<not> bit (bo_maxRom d) n" if "2 \<le> n" for n
    using not_bit_if_less [of "bo_maxRom d" 2 n] that small by (simp add: word_less_nat_alt)
  have hi3: "\<not> bit (bo_linkSpd d) n" if "3 \<le> n" for n
    using not_bit_if_less [of "bo_linkSpd d" 3 n] that small by (simp add: word_less_nat_alt)
  let ?w = "EncodeBusOptions d"
  have "bit ?w 31 = bo_irmc d" "bit ?w 30 = bo_cmc d" "bit ?w 29 = bo_isc d" "bit ?w 28 = bo_bmc d"
    "bit ?w 27 = bo_pmc d"
    by (simp_all add: EncodeBusOptions_bit bus_options_masks bit_simps)
  moreover have "ucast (drop_bit 16 (?w AND kCycClkAccMask)) = bo_cycClkAcc d"
    "ucast (drop_bit 12 (?w AND kMaxRecMask)) = bo_maxRec d"
    "ucast (drop_bit 8 (?w AND kMaxROMMask)) = bo_maxRom d"
    "ucast (drop_bit 4 (?w AND kBusOptGenerationMask)) = bo_generation d"
    "ucast (drop_bit 0 (?w AND kLinkSpdMask)) = bo_linkSpd d"
    by (rule u8_eqI, simp add: EncodeBusOptions_bit bus_options_masks upt_8 bit_simps hi hi2 hi3)+
  ultimately show "DecodeBusOptions ?w = d"
    unfolding DecodeBusOptions_def cap_bits by simp
qed

text \<open>
  Whatever the hardware register says, the advertised capabilities are a legal combination
  (a bus-manager capable node is IRM capable), the driver advertises \<open>bmc\<close> only as a full bus
  manager at level \<open>ElectionOnly\<close> or above, and every bit below the capability nibble is the
  hardware's own.
\<close>

lemma NormalizeLocalBusOptions_legal:
  "IsLegalCapabilityCombo (NormalizeLocalBusOptions hw mode level)
   \<and> (NormalizeLocalBusOptions hw mode level AND kBMCMask \<noteq> 0 \<longleftrightarrow> mode = FullBusManager \<and> ElectionOnly \<le> level)
   \<and> NormalizeLocalBusOptions hw mode level AND 0x0FFFFFFF = hw AND 0x0FFFFFFF"
proof (intro conjI)
  show "IsLegalCapabilityCombo (NormalizeLocalBusOptions hw mode level)"
    unfolding IsLegalCapabilityCombo_def cap_bits Let_def
    by (cases mode) (simp_all add: NormalizeLocalBusOptions_def bus_options_masks bit_simps)
  show "NormalizeLocalBusOptions hw mode level AND kBMCMask \<noteq> 0 \<longleftrightarrow> mode = FullBusManager \<and> ElectionOnly \<le> level"
    unfolding cap_bits
    by (cases mode) (simp_all add: NormalizeLocalBusOptions_def bus_options_masks bit_simps)
  show "NormalizeLocalBusOptions hw mode level AND 0x0FFFFFFF = hw AND 0x0FFFFFFF"
    by (rule u32_eqI, cases mode)
       (simp_all add: NormalizeLocalBusOptions_def bus_options_masks upt_32 bit_simps)
qed

text \<open>
  Updating the generation of a bus-options quadlet sets the four generation bits and nothing
  else.
\<close>

lemma SetGeneration_correct:
  "SetGeneration w g AND NOT kBusOptGenerationMask = w AND NOT kBusOptGenerationMask
   \<and> bo_generation (DecodeBusOptions (SetGeneration w g)) = g AND 0x0F"
proof
  show "SetGeneration w g AND NOT kBusOptGenerationMask = w AND NOT kBusOptGenerationMask"
    by (rule u32_eqI) (simp add: SetGeneration_def bus_options_masks upt_32 bit_simps)
  show "bo_generation (DecodeBusOptions (SetGeneration w g)) = g AND 0x0F"
    by (rule u8_eqI) (simp add: DecodeBusOptions_def SetGeneration_def bus_options_masks upt_8 bit_simps)
qed

end
