(* ===== verification/Gap_Policy.thy ===== *)
theory Gap_Policy
  imports Topology_Manager Bus_Options
begin

text \<open>
  The gap count of the bus: \<^verbatim>\<open>Bus/GapCountOptimizer.cpp\<close>, which computes and compares gap counts, and
  \<^verbatim>\<open>Bus/BusManager/GapPolicyCoordinator.cpp\<close>, which decides after each bus reset whether the local
  node repairs or optimizes the gap count, and how often it may try on one topology. The executor
  that sends the PHY packet and resets the bus is outside these sources: its answer is an argument.
\<close>

section \<open>Gap counts\<close>

definition GAP_TABLE :: "nat list" where
  "GAP_TABLE = [63, 5, 7, 8, 10, 13, 16, 18, 21, 24, 26, 29, 32, 35, 37, 40,
     43, 46, 48, 51, 54, 57, 59, 62, 63, 63]"

definition CalculateFromHops :: "nat \<Rightarrow> nat" where
  "CalculateFromHops maxHops = GAP_TABLE ! (if maxHops > 25 then 25 else maxHops)"

definition CalculateFromPing :: "nat \<Rightarrow> nat" where
  "CalculateFromPing maxPingNs0 =
     (let maxPingNs = (if maxPingNs0 > 245 then 245 else maxPingNs0) in
      if maxPingNs \<ge> 29
      then let index = (maxPingNs - 20) div 9 in GAP_TABLE ! (if index > 25 then 25 else index)
      else 5)"

definition CalculateGap :: "nat \<Rightarrow> nat option \<Rightarrow> nat" where
  "CalculateGap maxHops maxPingNs =
     (let hopGap = CalculateFromHops maxHops in
      case maxPingNs of
        Some ping \<Rightarrow> max hopGap (CalculateFromPing ping)
      | None \<Rightarrow> hopGap)"

definition AreGapsConsistent :: "nat list \<Rightarrow> bool" where
  "AreGapsConsistent gaps =
     (if gaps = [] then True else list_all (\<lambda>i. gaps ! i = gaps ! 0) [1..<length gaps])"

definition HasInvalidGap :: "nat list \<Rightarrow> bool" where
  "HasInvalidGap gaps = (if list_ex (\<lambda>gap. gap = 0) gaps then True else \<not> AreGapsConsistent gaps)"

definition ShouldUpdate :: "nat list \<Rightarrow> nat \<Rightarrow> nat \<Rightarrow> bool" where
  "ShouldUpdate currentGaps newGap prevGap =
     (if currentGaps = [] then False
      else if \<not> AreGapsConsistent currentGaps then True
      else if list_ex (\<lambda>gap. gap = 0) currentGaps then True
      else
        let currentGap = currentGaps ! 0 in
        if prevGap = 0xFF then currentGap \<noteq> newGap
        else
          let matchesNew = (currentGap = newGap); matchesPrev = (currentGap = prevGap)
          in if matchesNew \<or> matchesPrev then False else True)"

section \<open>The coordinator\<close>

datatype GapPolicyDecision = GapNone
  | GapSuppressedByRoleMode | GapSuppressedByActivityLevel | GapSuppressedByTopology
  | GapSuppressedNotBMOrFallbackIRM | GapSuppressedSingleNodeBus
  | DeferMaxHopsUnavailable | DeferBetaRepeaterUnknown
  | GapAlreadyOptimal | GapMismatchRequiresLongReset | GapOptimizationRequired
  | GapFailedRetryLimit | GapFailedExecutorUnavailable | GapFailedGenerationStale

datatype GapPolicyAction = GapActionNone | GapReportOnly | ForceRootWithGapAndShortReset
  | ForceRootWithGapAndLongReset | GapOnlyShortReset | GapOnlyLongReset

datatype GapComputationSource = SourceNone | Table1394a | DefaultSafe63 | ExistingGapPreserved

record GapPolicyConfig =
  gc_enable1394aTable :: bool
  gc_optimizeWhenBetaRepeatersUnknown :: bool
  gc_useLongResetForGapMismatch :: bool
  gc_useShortResetForPureOptimization :: bool
  gc_maxOptimizationAttemptsPerStableTopology :: u32
  gc_maxMismatchRepairsPerStableTopology :: u32

text \<open>A null \<open>topology\<close> pointer is \<open>None\<close>.\<close>

record GapPolicyInputs =
  gi_generation :: u32
  gi_roleMode :: RoleMode
  gi_activityLevel :: FullBMActivityLevel
  gi_topologyValid :: bool
  gi_localNodeId :: nat
  gi_rootNodeId :: nat
  gi_irmNodeId :: nat
  gi_bmNodeId :: nat
  gi_localIsBM :: bool
  gi_localIsIRM :: bool
  gi_irmFallbackGateOpen :: bool
  gi_irmFallbackNoBMDetected :: bool
  gi_currentGapCount :: nat
  gi_gapCountConsistent :: bool
  gi_maxHopsKnown :: bool
  gi_maxHopsFromRoot :: nat
  gi_betaRepeatersKnown :: bool
  gi_betaRepeatersPresent :: bool
  gi_rootSelectionRequired :: bool
  gi_selectedRootForRootPolicy :: nat
  gi_topology :: "TopologySnapshot option"

record GapPolicySnapshot =
  gs_generation :: u32
  gs_lastDecision :: GapPolicyDecision
  gs_lastAction :: GapPolicyAction
  gs_computationSource :: GapComputationSource
  gs_currentGapCount :: nat
  gs_expectedGapCount :: nat
  gs_requestedGapCount :: nat
  gs_maxHopsFromRoot :: nat
  gs_maxHopsKnown :: bool
  gs_gapCountConsistent :: bool
  gs_betaRepeatersKnown :: bool
  gs_betaRepeatersPresent :: bool
  gs_resetRequested :: bool
  gs_combinedWithRootSelection :: bool
  gs_targetRoot :: nat
  gs_attemptsThisTopology :: u32
  gs_totalAttempts :: u32
  gs_mismatchRepairsThisTopology :: u32
  gs_retryLimitHit :: u32
  gs_suppressedCount :: u32

definition gap_snapshot0 :: GapPolicySnapshot where
  "gap_snapshot0 =
     \<lparr>gs_generation = 0, gs_lastDecision = GapNone, gs_lastAction = GapActionNone,
      gs_computationSource = SourceNone, gs_currentGapCount = 63, gs_expectedGapCount = 63,
      gs_requestedGapCount = 0, gs_maxHopsFromRoot = 0, gs_maxHopsKnown = False,
      gs_gapCountConsistent = True, gs_betaRepeatersKnown = False, gs_betaRepeatersPresent = False,
      gs_resetRequested = False, gs_combinedWithRootSelection = False, gs_targetRoot = 0x3F,
      gs_attemptsThisTopology = 0, gs_totalAttempts = 0, gs_mismatchRepairsThisTopology = 0,
      gs_retryLimitHit = 0, gs_suppressedCount = 0\<rparr>"

record GapPolicyCoordinator =
  gp_config :: GapPolicyConfig
  gp_snapshot :: GapPolicySnapshot
  gp_stableTopologyKey :: u32
  gp_attemptsThisStableTopology :: u32
  gp_mismatchRepairsThisStableTopology :: u32

definition GapPolicyCoordinator0 :: "GapPolicyConfig \<Rightarrow> GapPolicyCoordinator" where
  "GapPolicyCoordinator0 config =
     \<lparr>gp_config = config, gp_snapshot = gap_snapshot0, gp_stableTopologyKey = 0,
      gp_attemptsThisStableTopology = 0, gp_mismatchRepairsThisStableTopology = 0\<rparr>"

definition gap_OnBusResetStarted :: "u32 \<Rightarrow> GapPolicyCoordinator \<Rightarrow> GapPolicyCoordinator" where
  "gap_OnBusResetStarted generation c =
     c\<lparr>gp_snapshot := gap_snapshot0\<lparr>gs_generation := generation,
         gs_totalAttempts := gs_totalAttempts (gp_snapshot c),
         gs_suppressedCount := gs_suppressedCount (gp_snapshot c)\<rparr>\<rparr>"

definition kGapCount1394aByMaxHops :: "nat list" where
  "kGapCount1394aByMaxHops = [63, 5, 7, 8, 10, 13, 16, 18, 21, 24, 26, 29, 32, 35, 37, 40]"

definition ComputeExpectedGapCount ::
  "GapPolicyConfig \<Rightarrow> GapPolicyInputs \<Rightarrow> nat \<times> GapComputationSource" where
  "ComputeExpectedGapCount config inputs =
     (if \<not> gi_maxHopsKnown inputs then (gi_currentGapCount inputs, ExistingGapPreserved)
      else if \<not> gi_betaRepeatersKnown inputs \<and> \<not> gc_optimizeWhenBetaRepeatersUnknown config
      then (63, DefaultSafe63)
      else if gi_betaRepeatersKnown inputs \<and> gi_betaRepeatersPresent inputs then (63, DefaultSafe63)
      else if gc_enable1394aTable config
              \<and> gi_maxHopsFromRoot inputs < length kGapCount1394aByMaxHops
      then (kGapCount1394aByMaxHops ! gi_maxHopsFromRoot inputs, Table1394a)
      else (63, DefaultSafe63))"

definition gap_IsAllowedActor :: "GapPolicyInputs \<Rightarrow> bool" where
  "gap_IsAllowedActor inputs =
     (let activeBM = (gi_roleMode inputs = FullBusManager \<and> gi_localIsBM inputs);
          fallbackIRM = ((gi_roleMode inputs = IRMResourceHost \<or> gi_roleMode inputs = FullBusManager)
            \<and> gi_localIsIRM inputs \<and> gi_irmFallbackGateOpen inputs \<and> gi_irmFallbackNoBMDetected inputs)
      in activeBM \<or> fallbackIRM)"

definition fnv_mix :: "u32 \<Rightarrow> u32 \<Rightarrow> u32" where
  "fnv_mix v h = (h XOR v) * 16777619"

definition mix_node :: "TopologyNodeRecord \<Rightarrow> u32 \<Rightarrow> u32" where
  "mix_node node h0 =
     (let h = fnv_mix (if tn_linkActive node then 1 else 0)
                (fnv_mix (of_nat (tn_portCount node)) (fnv_mix (of_nat (tn_physicalId node)) h0))
      in fold (\<lambda>p h. let link = tn_links node ! p in
                 if lk_connected link
                 then fnv_mix (push_bit 16 (of_nat (tn_physicalId node)) OR push_bit 8 (of_nat p)
                               OR of_nat (lk_remoteNodeId link)) h
                 else h)
           [0..<tn_portCount node] h)"

definition gap_StableTopologyKey :: "GapPolicyInputs \<Rightarrow> u32" where
  "gap_StableTopologyKey inputs =
     (case gi_topology inputs of
        None \<Rightarrow> 0
      | Some topo \<Rightarrow>
          fold mix_node (pg_nodes (ts_physical topo))
            (fnv_mix (of_nat (ts_irmNodeId topo))
              (fnv_mix (of_nat (ts_localNodeId topo))
                (fnv_mix (of_nat (ts_nodeCount topo)) 2166136261))))"

definition gap_Plan :: "GapPolicyCoordinator \<Rightarrow> GapPolicyInputs \<Rightarrow> GapPolicyDecision" where
  "gap_Plan c inputs =
     (case (gi_topologyValid inputs, gi_topology inputs) of
        (True, Some topology) \<Rightarrow>
          if gi_roleMode inputs = ClientOnly then GapSuppressedByRoleMode
          else if gi_activityLevel inputs < GapPolicyAllowed then GapSuppressedByActivityLevel
          else if \<not> gap_IsAllowedActor inputs then GapSuppressedNotBMOrFallbackIRM
          else if ts_nodeCount topology \<le> 1 then GapSuppressedSingleNodeBus
          else if \<not> gi_maxHopsKnown inputs then DeferMaxHopsUnavailable
          else if \<not> gi_betaRepeatersKnown inputs
                  \<and> \<not> gc_optimizeWhenBetaRepeatersUnknown (gp_config c) then DeferBetaRepeaterUnknown
          else
            let expectedGap = fst (ComputeExpectedGapCount (gp_config c) inputs) in
            if \<not> gi_gapCountConsistent inputs
            then (if gp_mismatchRepairsThisStableTopology c
                     \<ge> gc_maxMismatchRepairsPerStableTopology (gp_config c)
                  then GapFailedRetryLimit else GapMismatchRequiresLongReset)
            else if gi_currentGapCount inputs = expectedGap then GapAlreadyOptimal
            else if gp_attemptsThisStableTopology c
                    \<ge> gc_maxOptimizationAttemptsPerStableTopology (gp_config c)
            then GapFailedRetryLimit
            else GapOptimizationRequired
      | _ \<Rightarrow> GapSuppressedByTopology)"

text \<open>
  The request made to the executor: generation, root to force, whether the reset is a long one, and
  the gap count. \<open>decision < AlreadyOptimal\<close> compares the enumerators by their order.
\<close>

record GapRequest =
  gr_generation :: u32
  gr_targetRoot :: nat
  gr_longReset :: bool
  gr_gapCount :: nat

definition gap_suppressed :: "GapPolicyDecision \<Rightarrow> bool" where
  "gap_suppressed d \<longleftrightarrow> d \<in> {GapSuppressedByRoleMode, GapSuppressedByActivityLevel,
     GapSuppressedByTopology, GapSuppressedNotBMOrFallbackIRM, GapSuppressedSingleNodeBus,
     DeferMaxHopsUnavailable, DeferBetaRepeaterUnknown}"

definition gap_begin :: "GapPolicyInputs \<Rightarrow> GapPolicyCoordinator \<Rightarrow> GapPolicyCoordinator" where
  "gap_begin inputs c =
     (let key = gap_StableTopologyKey inputs in
      if key \<noteq> gp_stableTopologyKey c
      then c\<lparr>gp_stableTopologyKey := key, gp_attemptsThisStableTopology := 0,
             gp_mismatchRepairsThisStableTopology := 0\<rparr>
      else c)"

definition gap_Evaluate ::
  "(GapRequest \<Rightarrow> bool) \<Rightarrow> GapPolicyInputs \<Rightarrow> GapPolicyCoordinator \<Rightarrow> GapRequest option \<times> GapPolicyCoordinator"
  where
  "gap_Evaluate executor inputs c0 =
     (let c = gap_begin inputs c0;
          (expectedGap, source) = ComputeExpectedGapCount (gp_config c) inputs;
          decision = gap_Plan c inputs;
          s = (gp_snapshot c)\<lparr>gs_generation := gi_generation inputs,
                gs_currentGapCount := gi_currentGapCount inputs,
                gs_gapCountConsistent := gi_gapCountConsistent inputs,
                gs_maxHopsKnown := gi_maxHopsKnown inputs,
                gs_maxHopsFromRoot := gi_maxHopsFromRoot inputs,
                gs_betaRepeatersKnown := gi_betaRepeatersKnown inputs,
                gs_betaRepeatersPresent := gi_betaRepeatersPresent inputs,
                gs_expectedGapCount := expectedGap, gs_requestedGapCount := expectedGap,
                gs_computationSource := source, gs_lastDecision := decision,
                gs_lastAction := GapActionNone, gs_resetRequested := False,
                gs_combinedWithRootSelection := False, gs_targetRoot := gi_rootNodeId inputs\<rparr>
      in if decision = GapMismatchRequiresLongReset \<or> decision = GapOptimizationRequired
         then
           let longReset = (decision = GapMismatchRequiresLongReset
                            \<or> \<not> gc_useShortResetForPureOptimization (gp_config c));
               targetRoot = (if gi_rootSelectionRequired inputs \<and> gi_selectedRootForRootPolicy inputs \<noteq> 0x3F
                             then gi_selectedRootForRootPolicy inputs else gi_rootNodeId inputs);
               action = (if gi_rootSelectionRequired inputs
                         then (if longReset then ForceRootWithGapAndLongReset
                               else ForceRootWithGapAndShortReset)
                         else (if longReset then GapOnlyLongReset else GapOnlyShortReset));
               s = s\<lparr>gs_targetRoot := targetRoot,
                     gs_combinedWithRootSelection := gi_rootSelectionRequired inputs,
                     gs_lastAction := action\<rparr>;
               request = \<lparr>gr_generation = gi_generation inputs, gr_targetRoot = targetRoot,
                          gr_longReset = longReset, gr_gapCount = expectedGap\<rparr>
           in if \<not> executor request
              then (Some request, c\<lparr>gp_snapshot := s\<lparr>gs_lastDecision := GapFailedExecutorUnavailable\<rparr>\<rparr>)
              else
                let s = s\<lparr>gs_resetRequested := True, gs_totalAttempts := gs_totalAttempts s + 1\<rparr> in
                if decision = GapMismatchRequiresLongReset
                then
                  let n = gp_mismatchRepairsThisStableTopology c + 1 in
                  (Some request, c\<lparr>gp_mismatchRepairsThisStableTopology := n,
                                   gp_snapshot := s\<lparr>gs_mismatchRepairsThisTopology := n\<rparr>\<rparr>)
                else
                  let n = gp_attemptsThisStableTopology c + 1 in
                  (Some request, c\<lparr>gp_attemptsThisStableTopology := n,
                                   gp_snapshot := s\<lparr>gs_attemptsThisTopology := n\<rparr>\<rparr>)
         else if decision = GapFailedRetryLimit
         then (None, c\<lparr>gp_snapshot := s\<lparr>gs_retryLimitHit := 1\<rparr>\<rparr>)
         else (None, c\<lparr>gp_snapshot :=
                 (if gap_suppressed decision then s\<lparr>gs_suppressedCount := gs_suppressedCount s + 1\<rparr> else s)\<rparr>))"

section \<open>Gap counts: properties\<close>

lemma AreGapsConsistent_iff: "AreGapsConsistent gaps \<longleftrightarrow> (\<exists>g. set gaps \<subseteq> {g})"
proof (cases gaps)
  case (Cons g gs)
  have eq: "[1..<length gaps] = map Suc [0..<length gs]" by (simp add: Cons map_Suc_upt del: upt_Suc)
  have "list_all (\<lambda>i. gaps ! i = gaps ! 0) [1..<length gaps] \<longleftrightarrow> (\<forall>x \<in> set gs. x = g)"
    unfolding eq list.pred_map by (auto simp: list_all_iff Cons in_set_conv_nth all_set_conv_all_nth)
  then show ?thesis by (auto simp: AreGapsConsistent_def Cons)
qed (simp add: AreGapsConsistent_def)

lemma GAP_TABLE_mono: "1 \<le> i \<Longrightarrow> i \<le> j \<Longrightarrow> j \<le> 25 \<Longrightarrow> GAP_TABLE ! i \<le> GAP_TABLE ! j"
proof -
  assume "1 \<le> i" "i \<le> j" "j \<le> 25"
  moreover have "sorted (tl GAP_TABLE)" "length (tl GAP_TABLE) = 25" by (simp_all add: GAP_TABLE_def)
  ultimately have "tl GAP_TABLE ! (i - 1) \<le> tl GAP_TABLE ! (j - 1)" by (intro sorted_nth_mono) auto
  moreover have "GAP_TABLE = 63 # tl GAP_TABLE" by (simp add: GAP_TABLE_def)
  ultimately show ?thesis using \<open>1 \<le> i\<close> \<open>i \<le> j\<close> by (metis One_nat_def le_trans not_one_le_zero nth_Cons' )
qed

lemma GAP_TABLE_range: "i \<le> 25 \<Longrightarrow> 5 \<le> GAP_TABLE ! i \<and> GAP_TABLE ! i \<le> 63"
proof -
  assume "i \<le> 25"
  then have "GAP_TABLE ! i \<in> set GAP_TABLE" by (intro nth_mem) (simp add: GAP_TABLE_def)
  then show ?thesis by (auto simp: GAP_TABLE_def)
qed

text \<open>
  The gap count computed from hop counts and ping times is always between 5 and 63, never
  decreases when the bus gets wider or slower, and the table the policy uses is the start of the
  optimizer's table, so the two agree up to 15 hops.
\<close>

lemma CalculateGap_bounds:
  "5 \<le> CalculateGap h ping \<and> CalculateGap h ping \<le> 63
   \<and> CalculateGap (Suc h) ping \<le> CalculateGap (Suc (h + d)) (map_option (\<lambda>t. t + e) ping)
   \<and> kGapCount1394aByMaxHops = take 16 GAP_TABLE"
proof -
  have hops: "5 \<le> CalculateFromHops n \<and> CalculateFromHops n \<le> 63" for n
    using GAP_TABLE_range [of 25] GAP_TABLE_range [of n] by (simp add: CalculateFromHops_def)
  have pings: "5 \<le> CalculateFromPing n \<and> CalculateFromPing n \<le> 63" for n
    using GAP_TABLE_range [of 25] GAP_TABLE_range [of "(n - 20) div 9"]
    by (simp add: CalculateFromPing_def Let_def not_less)
  have mono_hops: "CalculateFromHops (Suc h) \<le> CalculateFromHops (Suc (h + d))"
    using GAP_TABLE_mono [of "Suc h" 25] GAP_TABLE_mono [of "Suc h" "Suc (h + d)"]
    by (simp add: CalculateFromHops_def)
  have mono_pings: "CalculateFromPing t \<le> CalculateFromPing (t + e)" for t
  proof (cases "t < 29")
    case True
    then have "CalculateFromPing t = 5" by (simp add: CalculateFromPing_def Let_def)
    with pings [of "t + e"] show ?thesis by simp
  next
    case False
    let ?i = "(min t 245 - 20) div 9" and ?j = "(min (t + e) 245 - 20) div 9"
    have "9 * 1 \<le> min t 245 - 20" using False by simp
    then have i: "1 \<le> ?i" by (metis div_le_mono nonzero_mult_div_cancel_left zero_neq_numeral)
    have ij: "?i \<le> ?j" "?j \<le> 25" by (auto intro!: div_le_mono)
    have "CalculateFromPing u = GAP_TABLE ! ((min u 245 - 20) div 9)" if "\<not> u < 29" for u
    proof -
      have "(u - 20) div 9 \<le> 225 div 9" if "u \<le> 245" using that by (intro div_le_mono) simp
      then show ?thesis using that by (auto simp: CalculateFromPing_def Let_def min_def)
    qed
    with GAP_TABLE_mono [OF i ij] False show ?thesis by simp
  qed
  have "kGapCount1394aByMaxHops = take 16 GAP_TABLE"
    by (simp add: kGapCount1394aByMaxHops_def GAP_TABLE_def)
  moreover have "max (CalculateFromHops (Suc h)) (CalculateFromPing t)
      \<le> max (CalculateFromHops (Suc (h + d))) (CalculateFromPing (t + e))" for t
    using mono_hops mono_pings [of t] by (rule max.mono)
  moreover have "5 \<le> max (CalculateFromHops h) (CalculateFromPing t) \<and>
      max (CalculateFromHops h) (CalculateFromPing t) \<le> 63" for t
    using hops [of h] pings [of t] by (simp add: le_max_iff_disj)
  ultimately show ?thesis
    using hops [of h] mono_hops by (cases ping) (simp_all add: CalculateGap_def Let_def)
qed

text \<open>
  \<open>ShouldUpdate\<close> asks for a new gap count exactly when some node reported one and either the
  reports are unusable (unequal, or zero) or their common value is neither the new value nor,
  when a previous value is known, the previous one.
\<close>

lemma ShouldUpdate_exact:
  "ShouldUpdate gaps newGap prevGap \<longleftrightarrow> gaps \<noteq> [] \<and>
     (HasInvalidGap gaps
      \<or> (\<exists>g. set gaps = {g} \<and> g \<noteq> newGap \<and> (prevGap = 0xFF \<or> g \<noteq> prevGap)))"
proof (cases "gaps = [] \<or> HasInvalidGap gaps")
  case True
  then show ?thesis
    by (auto simp: ShouldUpdate_def HasInvalidGap_def Let_def split: if_splits)
next
  case False
  then obtain g where g: "set gaps = {g}"
    by (auto simp: HasInvalidGap_def AreGapsConsistent_iff split: if_splits) (metis set_empty subset_singleton_iff)
  moreover have "gaps ! 0 = g" using g by (metis False length_greater_0_conv nth_mem singletonD)
  ultimately show ?thesis using False
    by (auto simp: ShouldUpdate_def HasInvalidGap_def Let_def split: if_splits)
qed

section \<open>The coordinator: properties\<close>

lemma gap_begin_simps [simp]:
  "gp_config (gap_begin inputs c) = gp_config c" "gp_snapshot (gap_begin inputs c) = gp_snapshot c"
  "gp_stableTopologyKey (gap_begin inputs c) = gap_StableTopologyKey inputs"
  by (simp_all add: gap_begin_def Let_def)

text \<open>
  The coordinator requests a bus reset from its executor only on a valid topology of more than
  one node, at level \<open>GapPolicyAllowed\<close> or above, as the active bus manager or as the isochronous
  resource manager on a bus without one. The request carries the current generation and the
  expected gap count, the bus does not have that gap count consistently, and a reset for an
  inconsistent gap count is a long one.
\<close>

lemma gap_request_sound:
  assumes "gap_Evaluate executor inputs c = (Some req, c')"
  shows "gi_topologyValid inputs \<and> (\<exists>topo. gi_topology inputs = Some topo \<and> 1 < ts_nodeCount topo)
    \<and> gi_roleMode inputs \<noteq> ClientOnly \<and> GapPolicyAllowed \<le> gi_activityLevel inputs
    \<and> (gi_roleMode inputs = FullBusManager \<and> gi_localIsBM inputs
        \<or> gi_localIsIRM inputs \<and> gi_irmFallbackGateOpen inputs \<and> gi_irmFallbackNoBMDetected inputs)
    \<and> gr_generation req = gi_generation inputs
    \<and> gr_gapCount req = fst (ComputeExpectedGapCount (gp_config c) inputs)
    \<and> \<not> (gi_gapCountConsistent inputs \<and> gi_currentGapCount inputs = gr_gapCount req)
    \<and> (\<not> gi_gapCountConsistent inputs \<longrightarrow> gr_longReset req)"
proof -
  let ?c = "gap_begin inputs c"
  have dec: "gap_Plan ?c inputs = GapMismatchRequiresLongReset \<or> gap_Plan ?c inputs = GapOptimizationRequired"
    and req: "gr_generation req = gi_generation inputs"
      "gr_gapCount req = fst (ComputeExpectedGapCount (gp_config c) inputs)"
      "gr_longReset req = (gap_Plan ?c inputs = GapMismatchRequiresLongReset
         \<or> \<not> gc_useShortResetForPureOptimization (gp_config c))"
    using assms by (auto simp: gap_Evaluate_def Let_def split: if_splits prod.splits)
  from dec obtain topo where topo: "gi_topologyValid inputs" "gi_topology inputs = Some topo"
    by (auto simp: gap_Plan_def split: option.splits bool.splits)
  have plan: "\<not> gi_roleMode inputs = ClientOnly" "\<not> gi_activityLevel inputs < GapPolicyAllowed"
    "gap_IsAllowedActor inputs" "\<not> ts_nodeCount topo \<le> 1"
    "\<not> (gi_gapCountConsistent inputs \<and> gi_currentGapCount inputs = fst (ComputeExpectedGapCount (gp_config c) inputs))"
    "\<not> gi_gapCountConsistent inputs \<Longrightarrow> gap_Plan ?c inputs = GapMismatchRequiresLongReset"
    using dec by (auto simp: gap_Plan_def topo Let_def split: if_splits)
  then show ?thesis
    using topo req by (auto simp: gap_IsAllowedActor_def Let_def)
qed

text \<open>The states of the coordinator: reset notifications and evaluations in any order.\<close>

inductive gap_reachable :: "GapPolicyConfig \<Rightarrow> GapPolicyCoordinator \<Rightarrow> bool" for config where
  init: "gap_reachable config (GapPolicyCoordinator0 config)"
| reset: "gap_reachable config c \<Longrightarrow> gap_reachable config (gap_OnBusResetStarted g c)"
| evaluate: "gap_reachable config c \<Longrightarrow> gap_reachable config (snd (gap_Evaluate executor inputs c))"

definition gap_counters_ok :: "GapPolicyCoordinator \<Rightarrow> bool" where
  "gap_counters_ok c \<longleftrightarrow>
     gp_attemptsThisStableTopology c \<le> gc_maxOptimizationAttemptsPerStableTopology (gp_config c)
     \<and> gp_mismatchRepairsThisStableTopology c \<le> gc_maxMismatchRepairsPerStableTopology (gp_config c)"

definition gap_total :: "GapPolicyCoordinator \<Rightarrow> nat" where
  "gap_total c = unat (gp_attemptsThisStableTopology c) + unat (gp_mismatchRepairsThisStableTopology c)"

lemma gap_Evaluate_counters:
  assumes ok: "gap_counters_ok c" and e: "gap_Evaluate executor inputs c = (req, c')"
  shows "gap_counters_ok c'" and "gp_config c' = gp_config c"
    and "gap_total c' = gap_total (gap_begin inputs c) + (if gs_resetRequested (gp_snapshot c') then 1 else 0)"
    and "gp_stableTopologyKey c' = gap_StableTopologyKey inputs"
proof -
  let ?c = "gap_begin inputs c"
  have ok': "gap_counters_ok ?c" using ok by (simp add: gap_counters_ok_def gap_begin_def Let_def)
  have mis: "gp_mismatchRepairsThisStableTopology ?c < gc_maxMismatchRepairsPerStableTopology (gp_config c)"
    if "gap_Plan ?c inputs = GapMismatchRequiresLongReset"
    using that by (auto simp: gap_Plan_def Let_def split: if_splits option.splits bool.splits)
  have opt: "gp_attemptsThisStableTopology ?c < gc_maxOptimizationAttemptsPerStableTopology (gp_config c)"
    if "gap_Plan ?c inputs = GapOptimizationRequired"
    using that by (auto simp: gap_Plan_def Let_def split: if_splits option.splits bool.splits)
  show "gp_config c' = gp_config c" "gp_stableTopologyKey c' = gap_StableTopologyKey inputs"
    using e by (auto simp: gap_Evaluate_def Let_def split: if_splits prod.splits)
  show "gap_counters_ok c'"
    "gap_total c' = gap_total ?c + (if gs_resetRequested (gp_snapshot c') then 1 else 0)"
    using e ok' unat_Suc_less [OF mis] unat_Suc_less [OF opt]
    by (auto simp: gap_Evaluate_def gap_total_def gap_counters_ok_def Let_def split: if_splits prod.splits)
qed

lemma gap_reachable_counters: "gap_reachable config c \<Longrightarrow> gap_counters_ok c \<and> gp_config c = config"
proof (induction rule: gap_reachable.induct)
  case init
  then show ?case by (simp add: gap_counters_ok_def GapPolicyCoordinator0_def)
next
  case (reset c g)
  then show ?case by (auto simp: gap_counters_ok_def gap_OnBusResetStarted_def)
next
  case (evaluate c executor inputs)
  then show ?case using gap_Evaluate_counters(1,2) [of c executor inputs] by (metis prod.collapse)
qed

text \<open>A history of the coordinator, and the resets the executor performed in it.\<close>

datatype gap_event = GapBusReset u32 | GapEvaluation "GapRequest \<Rightarrow> bool" GapPolicyInputs

fun gap_resets :: "gap_event list \<Rightarrow> GapPolicyCoordinator \<Rightarrow> nat" where
  "gap_resets [] c = 0"
| "gap_resets (GapBusReset g # es) c = gap_resets es (gap_OnBusResetStarted g c)"
| "gap_resets (GapEvaluation executor inputs # es) c =
     (let c' = snd (gap_Evaluate executor inputs c) in
      (if gs_resetRequested (gp_snapshot c') then 1 else 0) + gap_resets es c')"

fun same_topology :: "u32 \<Rightarrow> gap_event \<Rightarrow> bool" where
  "same_topology k (GapBusReset g) \<longleftrightarrow> True"
| "same_topology k (GapEvaluation executor inputs) \<longleftrightarrow> gap_StableTopologyKey inputs = k"

lemma gap_resets_same_key:
  "list_all (same_topology k) es \<Longrightarrow> gap_counters_ok c \<Longrightarrow> gp_stableTopologyKey c = k \<Longrightarrow>
    gap_resets es c + gap_total c \<le> unat (gc_maxOptimizationAttemptsPerStableTopology (gp_config c))
      + unat (gc_maxMismatchRepairsPerStableTopology (gp_config c))"
proof (induction es c rule: gap_resets.induct)
  case (1 c)
  then show ?case by (simp add: gap_total_def gap_counters_ok_def word_le_nat_alt)
next
  case (2 g es c)
  then show ?case by (simp add: gap_OnBusResetStarted_def gap_total_def gap_counters_ok_def)
next
  case (3 executor inputs es c)
  let ?c = "snd (gap_Evaluate executor inputs c)"
  have e: "gap_Evaluate executor inputs c = (fst (gap_Evaluate executor inputs c), ?c)" by simp
  note step = gap_Evaluate_counters [OF "3.prems"(2) e]
  have "gap_begin inputs c = c" using "3.prems" by (simp add: gap_begin_def Let_def)
  then show ?case using "3.IH" [OF refl] "3.prems"(1) step by (simp add: Let_def)
qed

text \<open>
  C36: no reset storm. However evaluations and bus resets are interleaved, on one stable topology
  the coordinator has the bus reset at most \<open>maxOptimizationAttemptsPerStableTopology\<close> plus
  \<open>maxMismatchRepairsPerStableTopology\<close> times.
\<close>

theorem gap_no_reset_storm:
  assumes "gap_reachable config c" and "list_all (same_topology k) es"
  shows "gap_resets es c \<le> unat (gc_maxOptimizationAttemptsPerStableTopology config)
    + unat (gc_maxMismatchRepairsPerStableTopology config)"
  using assms
proof (induction es arbitrary: c)
  case Nil
  then show ?case by simp
next
  case (Cons ev es)
  show ?case
  proof (cases ev)
    case (GapBusReset g)
    then show ?thesis using Cons gap_reachable.reset by simp
  next
    case (GapEvaluation executor inputs)
    let ?c = "snd (gap_Evaluate executor inputs c)"
    have e: "gap_Evaluate executor inputs c = (fst (gap_Evaluate executor inputs c), ?c)" by simp
    have c: "gap_counters_ok c" "gp_config c = config" using gap_reachable_counters Cons.prems by auto
    note step = gap_Evaluate_counters [OF c(1) e]
    have "gap_resets es ?c + gap_total ?c \<le> unat (gc_maxOptimizationAttemptsPerStableTopology config)
        + unat (gc_maxMismatchRepairsPerStableTopology config)"
      using gap_resets_same_key [of k es ?c] step c Cons.prems(2) GapEvaluation by simp
    then show ?thesis using GapEvaluation step(3) by (simp add: Let_def)
  qed
qed

section \<open>Witnesses\<close>

definition sample_gap_config :: GapPolicyConfig where
  "sample_gap_config = \<lparr>gc_enable1394aTable = True, gc_optimizeWhenBetaRepeatersUnknown = False,
     gc_useLongResetForGapMismatch = True, gc_useShortResetForPureOptimization = True,
     gc_maxOptimizationAttemptsPerStableTopology = 5, gc_maxMismatchRepairsPerStableTopology = 2\<rparr>"

text \<open>The inputs of the active bus manager on a topology \<open>topo\<close> of diameter 2 with gap count 63.\<close>

definition sample_gap_inputs :: "TopologySnapshot \<Rightarrow> GapPolicyInputs" where
  "sample_gap_inputs topo = \<lparr>gi_generation = 4, gi_roleMode = FullBusManager,
     gi_activityLevel = GapPolicyAllowed, gi_topologyValid = True, gi_localNodeId = 0,
     gi_rootNodeId = 1, gi_irmNodeId = 1, gi_bmNodeId = 0, gi_localIsBM = True,
     gi_localIsIRM = False, gi_irmFallbackGateOpen = False, gi_irmFallbackNoBMDetected = False,
     gi_currentGapCount = 63, gi_gapCountConsistent = True, gi_maxHopsKnown = True,
     gi_maxHopsFromRoot = 2, gi_betaRepeatersKnown = True, gi_betaRepeatersPresent = False,
     gi_rootSelectionRequired = False, gi_selectedRootForRootPolicy = 0x3F, gi_topology = Some topo\<rparr>"

lemma sample_gap_request:
  assumes "ts_nodeCount topo = 2"
  shows "\<exists>c'. gap_Evaluate (\<lambda>_. True) (sample_gap_inputs topo) (GapPolicyCoordinator0 sample_gap_config) =
    (Some \<lparr>gr_generation = 4, gr_targetRoot = 1, gr_longReset = False, gr_gapCount = 7\<rparr>, c')"
  using assms
  by (simp add: gap_Evaluate_def gap_begin_def Let_def ComputeExpectedGapCount_def gap_Plan_def
      gap_IsAllowedActor_def sample_gap_inputs_def sample_gap_config_def GapPolicyCoordinator0_def
      kGapCount1394aByMaxHops_def activity_order split: if_splits)

theorem gap_no_reset_storm_witness:
  "\<exists>topo. ts_nodeCount topo = 2 \<and>
     gap_resets (replicate 100 (GapEvaluation (\<lambda>_. True) (sample_gap_inputs topo)))
       (GapPolicyCoordinator0 sample_gap_config) \<le> 7"
proof -
  obtain topo :: TopologySnapshot where topo: "ts_nodeCount topo = 2"
    using sample_bus2_update by blast
  let ?es = "replicate 100 (GapEvaluation (\<lambda>_. True) (sample_gap_inputs topo))"
  have "list_all (same_topology (gap_StableTopologyKey (sample_gap_inputs topo))) ?es"
    by (simp add: list_all_iff)
  from gap_no_reset_storm [OF gap_reachable.init this, of sample_gap_config]
  have "gap_resets ?es (GapPolicyCoordinator0 sample_gap_config) \<le> 7"
    by (simp add: sample_gap_config_def)
  with topo show ?thesis by blast
qed

end
