(* ===== verification/Bus_Manager.thy ===== *)
theory Bus_Manager
  imports Gap_Policy
begin

text \<open>
  \<^verbatim>\<open>Bus/BusManager.cpp\<close>: the choice of the cycle master (which node to force as root, and whether the
  local node contends) and the gap count policy the bus reset coordinator consults before it clears
  a reset. The log lines are left out.
\<close>

section \<open>State\<close>

record PhyConfigCommand =
  cmd_gapCount :: "nat option"
  cmd_forceRootNodeID :: "nat option"
  cmd_setContender :: "bool option"

definition PhyConfigCommand0 :: PhyConfigCommand where
  "PhyConfigCommand0 = \<lparr>cmd_gapCount = None, cmd_forceRootNodeID = None, cmd_setContender = None\<rparr>"

datatype GapDecisionReason = MismatchForce63 | ForcedGap | TargetGap | ZeroObservedGap

record GapDecision =
  gd_gapCount :: nat
  gd_reason :: GapDecisionReason

record GapState =
  gst_lastConfirmedGap :: nat
  gst_inFlight :: "GapDecision option"

datatype RootPolicy = RootAuto | ForceLocal | ForceNode | Delegate

record BusManagerConfig =
  bc_rootPolicy :: RootPolicy
  bc_forcedRootNodeID :: nat
  bc_delegateCycleMaster :: bool
  bc_enableGapOptimization :: bool
  bc_forcedGapCount :: nat
  bc_forcedGapFlag :: bool

record BusManager =
  bm_config :: BusManagerConfig
  bm_gapState :: GapState

definition BusManager0 :: BusManager where
  "BusManager0 =
     \<lparr>bm_config = \<lparr>bc_rootPolicy = Delegate, bc_forcedRootNodeID = 0xFF, bc_delegateCycleMaster = True,
        bc_enableGapOptimization = True, bc_forcedGapCount = 0, bc_forcedGapFlag = False\<rparr>,
      bm_gapState = \<lparr>gst_lastConfirmedGap = 0xFF, gst_inFlight = None\<rparr>\<rparr>"

section \<open>Configuration\<close>

definition SetRootPolicy :: "RootPolicy \<Rightarrow> BusManager \<Rightarrow> BusManager" where
  "SetRootPolicy policy b = b\<lparr>bm_config := (bm_config b)\<lparr>bc_rootPolicy := policy\<rparr>\<rparr>"

definition SetForcedRootNode :: "nat \<Rightarrow> BusManager \<Rightarrow> BusManager" where
  "SetForcedRootNode nodeID b = b\<lparr>bm_config := (bm_config b)\<lparr>bc_forcedRootNodeID := nodeID\<rparr>\<rparr>"

definition SetDelegateMode :: "bool \<Rightarrow> BusManager \<Rightarrow> BusManager" where
  "SetDelegateMode enable b = b\<lparr>bm_config := (bm_config b)\<lparr>bc_delegateCycleMaster := enable\<rparr>\<rparr>"

definition SetGapOptimizationEnabled :: "bool \<Rightarrow> BusManager \<Rightarrow> BusManager" where
  "SetGapOptimizationEnabled enable b =
     b\<lparr>bm_config := (bm_config b)\<lparr>bc_enableGapOptimization := enable\<rparr>\<rparr>"

definition SetForcedGapCount :: "nat \<Rightarrow> BusManager \<Rightarrow> BusManager" where
  "SetForcedGapCount gapCount b =
     b\<lparr>bm_config := (bm_config b)\<lparr>bc_forcedGapCount := gapCount, bc_forcedGapFlag := gapCount > 0\<rparr>\<rparr>"

definition GapDecisionReasonString :: "GapDecisionReason \<Rightarrow> string" where
  "GapDecisionReasonString reason =
     (case reason of MismatchForce63 \<Rightarrow> ''MismatchForce63'' | ForcedGap \<Rightarrow> ''ForcedGap''
      | TargetGap \<Rightarrow> ''TargetGap'' | ZeroObservedGap \<Rightarrow> ''ZeroObservedGap'')"

section \<open>The cycle master\<close>

record CycleMasterInputs =
  cm_localNodeID :: nat
  cm_rootNodeID :: nat
  cm_irmNodeID :: nat
  cm_localContender :: bool
  cm_otherContenderID :: "nat option"
  cm_badIRM :: bool

definition MakePhyConfigCommand :: "nat option \<Rightarrow> bool option \<Rightarrow> PhyConfigCommand" where
  "MakePhyConfigCommand forceRootNodeID setContender =
     PhyConfigCommand0\<lparr>cmd_forceRootNodeID := forceRootNodeID, cmd_setContender := setContender\<rparr>"

definition collect_node ::
  "bool list \<Rightarrow> nat \<Rightarrow> TopologyNodeRecord \<Rightarrow> CycleMasterInputs \<Rightarrow> CycleMasterInputs" where
  "collect_node badIRMFlags localNodeID node inputs =
     (if \<not> tn_contender node \<or> \<not> tn_linkActive node then inputs
      else if tn_physicalId node = localNodeID then inputs\<lparr>cm_localContender := True\<rparr>
      else
        let isBad = (tn_physicalId node < length badIRMFlags \<and> badIRMFlags ! tn_physicalId node) in
        if \<not> isBad then inputs\<lparr>cm_otherContenderID := Some (tn_physicalId node)\<rparr> else inputs)"

definition CollectCycleMasterInputs ::
  "TopologySnapshot \<Rightarrow> bool list \<Rightarrow> nat \<Rightarrow> nat \<Rightarrow> CycleMasterInputs" where
  "CollectCycleMasterInputs topology badIRMFlags localNodeID rootNodeID =
     (let inputs = \<lparr>cm_localNodeID = localNodeID, cm_rootNodeID = rootNodeID,
            cm_irmNodeID = ts_irmNodeId topology, cm_localContender = False,
            cm_otherContenderID = None, cm_badIRM = False\<rparr>;
          inputs = fold (collect_node badIRMFlags localNodeID) (pg_nodes (ts_physical topology)) inputs
      in if badIRMFlags = [] then inputs
         else if cm_irmNodeID inputs = kInvalidPhysicalId then inputs\<lparr>cm_badIRM := True\<rparr>
         else if cm_irmNodeID inputs < length badIRMFlags \<and> badIRMFlags ! cm_irmNodeID inputs
         then inputs\<lparr>cm_badIRM := True\<rparr>
         else inputs)"

definition ShouldEvaluateCycleMasterPolicy :: "BusManagerConfig \<Rightarrow> bool list \<Rightarrow> bool" where
  "ShouldEvaluateCycleMasterPolicy config badIRMFlags \<longleftrightarrow>
     bc_delegateCycleMaster config \<or> badIRMFlags \<noteq> [] \<or> bc_rootPolicy config = Delegate"

definition MaybeForceConfiguredRoot ::
  "BusManagerConfig \<Rightarrow> CycleMasterInputs \<Rightarrow> PhyConfigCommand option" where
  "MaybeForceConfiguredRoot config inputs =
     (if bc_rootPolicy config \<noteq> ForceNode \<or> bc_forcedRootNodeID config = 0xFF then None
      else if cm_rootNodeID inputs \<noteq> cm_localNodeID inputs
              \<or> bc_forcedRootNodeID config = cm_localNodeID inputs then None
      else Some (MakePhyConfigCommand (Some (bc_forcedRootNodeID config)) (Some False)))"

definition MaybeDelegateOrClaimRoot ::
  "BusManagerConfig \<Rightarrow> CycleMasterInputs \<Rightarrow> PhyConfigCommand option" where
  "MaybeDelegateOrClaimRoot config inputs =
     (case cm_otherContenderID inputs of
        Some other \<Rightarrow>
          if cm_rootNodeID inputs \<noteq> cm_localNodeID inputs \<or> \<not> bc_delegateCycleMaster config then None
          else Some (MakePhyConfigCommand (Some other) (Some False))
      | None \<Rightarrow>
          if cm_rootNodeID inputs = cm_localNodeID inputs \<or> \<not> cm_localContender inputs
             \<or> bc_delegateCycleMaster config then None
          else Some (MakePhyConfigCommand (Some (cm_localNodeID inputs)) (Some True)))"

definition MaybeRecoverBadIRM :: "BusManagerConfig \<Rightarrow> CycleMasterInputs \<Rightarrow> PhyConfigCommand option" where
  "MaybeRecoverBadIRM config inputs =
     (if \<not> cm_badIRM inputs \<and> cm_irmNodeID inputs \<noteq> 0xFF then None
      else if \<not> bc_delegateCycleMaster config
      then Some (MakePhyConfigCommand (Some (cm_localNodeID inputs)) (Some True))
      else (case cm_otherContenderID inputs of
              Some other \<Rightarrow> Some (MakePhyConfigCommand (Some other) (Some False))
            | None \<Rightarrow> Some (MakePhyConfigCommand (Some (cm_localNodeID inputs)) (Some True))))"

definition MaybeClaimRootForLocalIRM :: "CycleMasterInputs \<Rightarrow> PhyConfigCommand option" where
  "MaybeClaimRootForLocalIRM inputs =
     (if cm_irmNodeID inputs \<noteq> cm_localNodeID inputs \<or> cm_rootNodeID inputs = cm_localNodeID inputs
      then None
      else if cm_otherContenderID inputs \<noteq> None then None
      else if \<not> cm_localContender inputs then None
      else Some (MakePhyConfigCommand (Some (cm_localNodeID inputs)) (Some True)))"

definition AssignCycleMaster ::
  "TopologySnapshot \<Rightarrow> bool list \<Rightarrow> BusManager \<Rightarrow> PhyConfigCommand option" where
  "AssignCycleMaster topology badIRMFlags b =
     (if ts_localNodeId topology = kInvalidPhysicalId \<or> ts_rootNodeId topology = kInvalidPhysicalId
      then None
      else
        let inputs = CollectCycleMasterInputs topology badIRMFlags (ts_localNodeId topology)
              (ts_rootNodeId topology)
        in case MaybeForceConfiguredRoot (bm_config b) inputs of
             Some forcedRoot \<Rightarrow> Some forcedRoot
           | None \<Rightarrow>
               if \<not> ShouldEvaluateCycleMasterPolicy (bm_config b) badIRMFlags then None
               else (case MaybeDelegateOrClaimRoot (bm_config b) inputs of
                       Some rootDecision \<Rightarrow> Some rootDecision
                     | None \<Rightarrow>
                         (case MaybeClaimRootForLocalIRM inputs of
                            Some localIRMRootDecision \<Rightarrow> Some localIRMRootDecision
                          | None \<Rightarrow> MaybeRecoverBadIRM (bm_config b) inputs)))"

section \<open>The gap count\<close>

definition ExtractObservedBaseGaps :: "u32 list \<Rightarrow> nat list" where
  "ExtractObservedBaseGaps selfIDs =
     map ExtractGapCount (filter (\<lambda>packet. \<not> (\<not> IsSelfIDTag packet \<or> IsExtended packet)) selfIDs)"

definition AreObservedGapsConsistent :: "nat list \<Rightarrow> bool" where
  "AreObservedGapsConsistent gaps =
     (case gaps of [] \<Rightarrow> True | referenceGap # _ \<Rightarrow> list_all (\<lambda>gap. gap = referenceGap) gaps)"

definition AnyObservedGapIsZero :: "nat list \<Rightarrow> bool" where
  "AnyObservedGapIsZero gaps = list_ex (\<lambda>gap. gap = 0) gaps"

definition AnyObservedGapNeedsRetool :: "nat list \<Rightarrow> nat \<Rightarrow> nat \<Rightarrow> bool" where
  "AnyObservedGapNeedsRetool gaps previousGap targetGap =
     list_ex (\<lambda>gap. gap \<noteq> previousGap \<and> gap \<noteq> targetGap) gaps"

text \<open>The counter of remote nodes is a \<open>uint8_t\<close> that wraps.\<close>

definition IsTwoNodeLocalRootTopology :: "TopologySnapshot \<Rightarrow> bool" where
  "IsTwoNodeLocalRootTopology topology =
     (if ts_localNodeId topology = kInvalidPhysicalId \<or> ts_rootNodeId topology = kInvalidPhysicalId
      then False
      else if ts_localNodeId topology \<noteq> ts_rootNodeId topology then False
      else length (filter (\<lambda>node. tn_linkActive node \<and> tn_physicalId node \<noteq> ts_localNodeId topology)
                     (pg_nodes (ts_physical topology))) mod 256 = 1)"

definition EvaluateGapPolicy :: "TopologySnapshot \<Rightarrow> u32 list \<Rightarrow> BusManager \<Rightarrow> GapDecision option" where
  "EvaluateGapPolicy topology selfIDs b =
     (let config = bm_config b; confirmed = gst_lastConfirmedGap (bm_gapState b) in
      if \<not> bc_enableGapOptimization config then None
      else if ts_localNodeId topology = kInvalidPhysicalId \<or> ts_irmNodeId topology = kInvalidPhysicalId
      then None
      else if ts_irmNodeId topology \<noteq> ts_localNodeId topology then None
      else
        let observedGaps = ExtractObservedBaseGaps selfIDs in
        if observedGaps = [] then None
        else if \<not> AreObservedGapsConsistent observedGaps
        then Some \<lparr>gd_gapCount = 0x3F, gd_reason = MismatchForce63\<rparr>
        else
          let targetGap = (if bc_forcedGapFlag config then bc_forcedGapCount config
                           else CalculateFromHops (pg_busDiameterHops (ts_physical topology)))
          in if bc_forcedGapFlag config
             then (if targetGap = confirmed then None
                   else Some \<lparr>gd_gapCount = targetGap, gd_reason = ForcedGap\<rparr>)
             else if AnyObservedGapIsZero observedGaps
             then Some \<lparr>gd_gapCount = targetGap, gd_reason = ZeroObservedGap\<rparr>
             else if AnyObservedGapNeedsRetool observedGaps confirmed targetGap
             then (if IsTwoNodeLocalRootTopology topology then None
                   else Some \<lparr>gd_gapCount = targetGap, gd_reason = TargetGap\<rparr>)
             else None)"

definition NoteGapResetIssued :: "nat \<Rightarrow> GapDecisionReason \<Rightarrow> BusManager \<Rightarrow> BusManager" where
  "NoteGapResetIssued gapCount reason b =
     b\<lparr>bm_gapState := (bm_gapState b)\<lparr>gst_inFlight :=
         Some \<lparr>gd_gapCount = gapCount, gd_reason = reason\<rparr>\<rparr>\<rparr>"

definition NoteStableGapObserved :: "nat \<Rightarrow> BusManager \<Rightarrow> BusManager" where
  "NoteStableGapObserved observedGap b =
     b\<lparr>bm_gapState := \<lparr>gst_lastConfirmedGap = observedGap, gst_inFlight = None\<rparr>\<rparr>"

definition ClearInFlightGapReset :: "BusManager \<Rightarrow> BusManager" where
  "ClearInFlightGapReset b = b\<lparr>bm_gapState := (bm_gapState b)\<lparr>gst_inFlight := None\<rparr>\<rparr>"

section \<open>Who is made root\<close>

text \<open>A node the policy may name: link-active contender other than the local node, not known as a bad
  isochronous resource manager.\<close>

definition good_contender :: "TopologySnapshot \<Rightarrow> bool list \<Rightarrow> nat \<Rightarrow> bool" where
  "good_contender topology bad n \<longleftrightarrow>
     list_ex (\<lambda>node. tn_physicalId node = n \<and> tn_contender node \<and> tn_linkActive node)
       (pg_nodes (ts_physical topology))
     \<and> n \<noteq> ts_localNodeId topology \<and> \<not> (n < length bad \<and> bad ! n)"

lemma collect_fold_ids [simp]:
  "cm_localNodeID (fold (collect_node bad l) ns i) = cm_localNodeID i"
  "cm_rootNodeID (fold (collect_node bad l) ns i) = cm_rootNodeID i"
  "cm_irmNodeID (fold (collect_node bad l) ns i) = cm_irmNodeID i"
  "cm_badIRM (fold (collect_node bad l) ns i) = cm_badIRM i"
  by (induction ns arbitrary: i) (simp_all add: collect_node_def Let_def)

lemma collect_fold_other:
  assumes "cm_otherContenderID (fold (collect_node bad l) ns i) = Some n"
  shows "cm_otherContenderID i = Some n \<or>
    (list_ex (\<lambda>node. tn_physicalId node = n \<and> tn_contender node \<and> tn_linkActive node) ns
     \<and> n \<noteq> l \<and> \<not> (n < length bad \<and> bad ! n))"
  using assms
proof (induction ns arbitrary: i)
  case (Cons node ns)
  from Cons.IH [of "collect_node bad l node i"] Cons.prems
  show ?case by (auto simp: collect_node_def Let_def split: if_splits)
qed simp

lemma collect_fold_none:
  "cm_otherContenderID (fold (collect_node bad l) ns i) = None \<longleftrightarrow>
     cm_otherContenderID i = None \<and>
     list_all (\<lambda>node. \<not> (tn_contender node \<and> tn_linkActive node \<and> tn_physicalId node \<noteq> l
        \<and> \<not> (tn_physicalId node < length bad \<and> bad ! tn_physicalId node))) ns"
  by (induction ns arbitrary: i) (auto simp: collect_node_def Let_def)

lemma collect_other_good:
  assumes "cm_otherContenderID (CollectCycleMasterInputs topology bad (ts_localNodeId topology) r) = Some n"
  shows "good_contender topology bad n"
  using assms collect_fold_other
  by (fastforce simp: CollectCycleMasterInputs_def Let_def good_contender_def split: if_splits)

lemma collect_local [simp]:
  "cm_localNodeID (CollectCycleMasterInputs topology bad l r) = l"
  "cm_rootNodeID (CollectCycleMasterInputs topology bad l r) = r"
  "cm_irmNodeID (CollectCycleMasterInputs topology bad l r) = ts_irmNodeId topology"
  by (simp_all add: CollectCycleMasterInputs_def Let_def)

text \<open>
  A command of the cycle master policy never touches the gap count and always names a root: the
  local node, then with the contender bit set, or another node with the contender bit cleared, which
  is the node the configuration forces or a link-active contender that is not a known bad resource
  manager.
\<close>

lemma AssignCycleMaster_sound:
  assumes "AssignCycleMaster topology bad b = Some cmd"
  shows "\<exists>target. cmd_forceRootNodeID cmd = Some target \<and> cmd_gapCount cmd = None \<and>
    ((target = ts_localNodeId topology \<and> cmd_setContender cmd = Some True) \<or>
     (cmd_setContender cmd = Some False
      \<and> (good_contender topology bad target
         \<or> (bc_rootPolicy (bm_config b) = ForceNode \<and> target = bc_forcedRootNodeID (bm_config b)
            \<and> target \<noteq> ts_localNodeId topology))))"
  using assms collect_other_good
  by (auto simp: AssignCycleMaster_def Let_def MaybeForceConfiguredRoot_def MaybeDelegateOrClaimRoot_def
      MaybeClaimRootForLocalIRM_def MaybeRecoverBadIRM_def MakePhyConfigCommand_def PhyConfigCommand0_def
      split: if_splits option.splits)

section \<open>Gap decisions\<close>

lemma observed_gaps_consistent:
  "AreObservedGapsConsistent (ExtractObservedBaseGaps quads) = CalculateGapConsistency quads"
  by (simp add: AreObservedGapsConsistent_def ExtractObservedBaseGaps_def CalculateGapConsistency_def
      ExtractGapCounts_def split: list.split)

text \<open>
  The early correction: gap 63 is forced exactly when the optimization is enabled, the local node is
  the resource manager and the base packets disagree.
\<close>

lemma EvaluateGapPolicy_mismatch:
  "(\<exists>d. EvaluateGapPolicy topology quads b = Some d \<and> gd_reason d = MismatchForce63) \<longleftrightarrow>
     bc_enableGapOptimization (bm_config b) \<and> ts_localNodeId topology \<noteq> kInvalidPhysicalId
     \<and> ts_irmNodeId topology = ts_localNodeId topology \<and> \<not> CalculateGapConsistency quads"
proof -
  have "CalculateGapConsistency quads" if "ExtractObservedBaseGaps quads = []"
    using that by (simp add: observed_gaps_consistent [symmetric] AreObservedGapsConsistent_def)
  then show ?thesis
    by (auto simp: EvaluateGapPolicy_def Let_def observed_gaps_consistent split: if_splits)
qed

lemma EvaluateGapPolicy_mismatch_gap:
  "EvaluateGapPolicy topology quads b = Some d \<Longrightarrow> gd_reason d = MismatchForce63 \<Longrightarrow> gd_gapCount d = 63"
  by (auto simp: EvaluateGapPolicy_def Let_def split: if_splits)

end
