(* ===== verification/Phy_Packets.thy ===== *)
theory Phy_Packets
  imports ASFW_Prelude
begin

text \<open>
  \<^verbatim>\<open>Phy/PhyPackets.hpp\<close>: the PHY packets the driver sends (configuration, global resume, link-on),
  each a quadlet followed by its complement, in host and in bus byte order. The host is little-endian.
\<close>

section \<open>Byte order\<close>

definition ToBusOrder :: "u32 \<Rightarrow> u32" where
  "ToBusOrder value0 =
     push_bit 24 (value0 AND 0xFF) OR push_bit 8 (value0 AND 0xFF00)
     OR (drop_bit 8 value0 AND 0xFF00) OR drop_bit 24 value0"

definition FromBusOrder :: "u32 \<Rightarrow> u32" where
  "FromBusOrder value0 =
     push_bit 24 (value0 AND 0xFF) OR push_bit 8 (value0 AND 0xFF00)
     OR (drop_bit 8 value0 AND 0xFF00) OR drop_bit 24 value0"

section \<open>Configuration packets\<close>

record AlphaPhyConfig =
  pc_rootId :: u8
  pc_forceRoot :: bool
  pc_gapCountOptimization :: bool
  pc_gapCount :: u8

definition kPacketIdentifierMask :: u32 where "kPacketIdentifierMask = 0xC0000000"
definition kRootIdMask :: u32 where "kRootIdMask = 0x3F000000"
definition kForceRootMask :: u32 where "kForceRootMask = 0x00800000"
definition kGapOptMask :: u32 where "kGapOptMask = 0x00400000"
definition kGapCountMask :: u32 where "kGapCountMask = 0x003F0000"

lemmas phy_masks = kPacketIdentifierMask_def kRootIdMask_def kForceRootMask_def kGapOptMask_def
  kGapCountMask_def

definition IsConfigQuadletHostOrder :: "u32 \<Rightarrow> bool" where
  "IsConfigQuadletHostOrder quad \<longleftrightarrow> drop_bit 30 (quad AND kPacketIdentifierMask) = 0"

definition cfg_EncodeHostOrder :: "AlphaPhyConfig \<Rightarrow> u32" where
  "cfg_EncodeHostOrder c =
     push_bit 24 (ucast (pc_rootId c AND 0x3F))
     OR (if pc_forceRoot c then push_bit 23 1 else 0)
     OR (if pc_gapCountOptimization c
         then push_bit 22 1 OR push_bit 16 (ucast (pc_gapCount c AND 0x3F))
         else push_bit 16 0x3F)"

definition cfg_DecodeHostOrder :: "u32 \<Rightarrow> AlphaPhyConfig" where
  "cfg_DecodeHostOrder quad =
     \<lparr>pc_rootId = ucast (drop_bit 24 (quad AND kRootIdMask)),
      pc_forceRoot = (quad AND kForceRootMask \<noteq> 0),
      pc_gapCountOptimization = (quad AND kGapOptMask \<noteq> 0),
      pc_gapCount = ucast (drop_bit 16 (quad AND kGapCountMask))\<rparr>"

definition IsExtendedConfig :: "AlphaPhyConfig \<Rightarrow> bool" where
  "IsExtendedConfig c \<longleftrightarrow> \<not> pc_forceRoot c \<and> \<not> pc_gapCountOptimization c"

definition cfgpkt_EncodeHostOrder :: "AlphaPhyConfig \<Rightarrow> u32 \<times> u32" where
  "cfgpkt_EncodeHostOrder header = (let first = cfg_EncodeHostOrder header in (first, NOT first))"

definition cfgpkt_DecodeHostOrder :: "u32 \<times> u32 \<Rightarrow> AlphaPhyConfig" where
  "cfgpkt_DecodeHostOrder quadlets = cfg_DecodeHostOrder (fst quadlets)"

text \<open>Each packet's \<open>EncodeBusOrder\<close> swaps the two quadlets of its host-order form.\<close>

definition EncodeBusOrder :: "u32 \<times> u32 \<Rightarrow> u32 \<times> u32" where
  "EncodeBusOrder host = (ToBusOrder (fst host), ToBusOrder (snd host))"

section \<open>Global resume and link-on\<close>

definition resume_EncodeHostOrder :: "u8 \<Rightarrow> u32 \<times> u32" where
  "resume_EncodeHostOrder phyId =
     (let first = push_bit 24 (ucast (phyId AND 0x3F)) OR 0x003C0000 in (first, NOT first))"

definition linkon_EncodeHostOrder :: "u8 \<Rightarrow> u32 \<times> u32" where
  "linkon_EncodeHostOrder phyId =
     (let first = push_bit 30 1 OR push_bit 24 (ucast (phyId AND 0x3F)) in (first, NOT first))"

section \<open>Properties\<close>

lemma phy_flag_bits:
  "w AND kForceRootMask = 0 \<longleftrightarrow> \<not> bit w 23" "w AND kGapOptMask = 0 \<longleftrightarrow> \<not> bit w 22"
  using and_exp_eq_0 [of w 23] and_exp_eq_0 [of w 22] by (simp_all add: phy_masks)

lemma cfg_encode_bit:
  "bit (cfg_EncodeHostOrder c) n \<longleftrightarrow>
     bit (push_bit 24 (ucast (pc_rootId c AND 0x3F) :: u32)) n
     \<or> pc_forceRoot c \<and> bit (push_bit 23 1 :: u32) n
     \<or> pc_gapCountOptimization c \<and> bit (push_bit 22 1 :: u32) n
     \<or> bit (push_bit 16 (if pc_gapCountOptimization c then ucast (pc_gapCount c AND 0x3F) else 0x3F) :: u32) n"
  by (auto simp: cfg_EncodeHostOrder_def bit_or_iff)

text \<open>
  An encoded configuration packet decodes to the configuration it was built from: root, force
  and gap flags, and, when the gap is to be updated, the gap count; when it is not, the packet
  carries the gap count 63, never another one. It is a configuration packet.
\<close>

lemma PhyConfig_roundtrip:
  assumes "pc_rootId c < 64" and "pc_gapCount c < 64"
  shows "cfgpkt_DecodeHostOrder (cfgpkt_EncodeHostOrder c) =
      c\<lparr>pc_gapCount := (if pc_gapCountOptimization c then pc_gapCount c else 63)\<rparr>
    \<and> IsConfigQuadletHostOrder (fst (cfgpkt_EncodeHostOrder c))"
proof
  let ?w = "cfg_EncodeHostOrder c"
  have hi: "\<not> bit (pc_rootId c) n" "\<not> bit (pc_gapCount c) n" if "6 \<le> n" for n
    using not_bit_if_less [of "pc_rootId c" 6 n] not_bit_if_less [of "pc_gapCount c" 6 n] that assms
    by (simp_all add: word_less_nat_alt)
  have "bit ?w 23 = pc_forceRoot c" "bit ?w 22 = pc_gapCountOptimization c"
    by (simp_all add: cfg_encode_bit bit_simps)
  moreover have "ucast (drop_bit 24 (?w AND kRootIdMask)) = pc_rootId c"
    by (rule u8_eqI) (simp add: cfg_encode_bit phy_masks upt_8 bit_simps hi)
  moreover have "ucast (drop_bit 16 (?w AND kGapCountMask)) =
      (if pc_gapCountOptimization c then pc_gapCount c else 63)"
    by (rule u8_eqI) (simp add: cfg_encode_bit phy_masks upt_8 bit_simps hi)
  ultimately show "cfgpkt_DecodeHostOrder (cfgpkt_EncodeHostOrder c) =
      c\<lparr>pc_gapCount := (if pc_gapCountOptimization c then pc_gapCount c else 63)\<rparr>"
    unfolding cfgpkt_DecodeHostOrder_def cfgpkt_EncodeHostOrder_def cfg_DecodeHostOrder_def phy_flag_bits
    by (simp add: Let_def)
  have "drop_bit 30 (?w AND kPacketIdentifierMask) = 0"
    by (rule u32_eqI) (simp add: cfg_encode_bit phy_masks upt_32 bit_simps hi)
  then show "IsConfigQuadletHostOrder (fst (cfgpkt_EncodeHostOrder c))"
    by (simp add: IsConfigQuadletHostOrder_def cfgpkt_EncodeHostOrder_def Let_def)
qed

lemma FromBusOrder_ToBusOrder [simp]: "FromBusOrder (ToBusOrder w) = w"
  by (rule u32_eqI) (simp add: ToBusOrder_def FromBusOrder_def upt_32 bit_simps mask_simps)

text \<open>
  On the wire every packet the driver builds is a quadlet followed by its complement, the byte
  swap to bus order is undone by the one from bus order, and the three kinds of packet are told apart
  by their first two bits and, among those with the configuration identifier, by the force-root and
  gap bits that are both clear in a global resume only.
\<close>

lemma Phy_packets_wire:
  "FromBusOrder (ToBusOrder w) = w
   \<and> list_all (\<lambda>pkt. snd (EncodeBusOrder pkt) = NOT (fst (EncodeBusOrder pkt)))
        [cfgpkt_EncodeHostOrder c, resume_EncodeHostOrder phyId, linkon_EncodeHostOrder phyId]
   \<and> IsConfigQuadletHostOrder (fst (resume_EncodeHostOrder phyId))
   \<and> IsExtendedConfig (cfgpkt_DecodeHostOrder (resume_EncodeHostOrder phyId))
   \<and> \<not> IsConfigQuadletHostOrder (fst (linkon_EncodeHostOrder phyId))"
proof (intro conjI)
  show "FromBusOrder (ToBusOrder w) = w" by simp
  have swap: "ToBusOrder (NOT v) = NOT (ToBusOrder v)" for v
    by (rule u32_eqI) (simp add: ToBusOrder_def upt_32 bit_simps mask_simps)
  have pair: "snd pkt = NOT (fst pkt) \<Longrightarrow> snd (EncodeBusOrder pkt) = NOT (fst (EncodeBusOrder pkt))" for pkt
    by (simp add: EncodeBusOrder_def swap)
  show "list_all (\<lambda>pkt. snd (EncodeBusOrder pkt) = NOT (fst (EncodeBusOrder pkt)))
      [cfgpkt_EncodeHostOrder c, resume_EncodeHostOrder phyId, linkon_EncodeHostOrder phyId]"
    using pair [of "cfgpkt_EncodeHostOrder c"] pair [of "resume_EncodeHostOrder phyId"]
      pair [of "linkon_EncodeHostOrder phyId"]
    unfolding cfgpkt_EncodeHostOrder_def resume_EncodeHostOrder_def linkon_EncodeHostOrder_def Let_def
    by (simp only: fst_conv snd_conv list.pred_inject simp_thms)
  show "IsConfigQuadletHostOrder (fst (resume_EncodeHostOrder phyId))"
    unfolding IsConfigQuadletHostOrder_def
    by (rule u32_eqI) (simp add: resume_EncodeHostOrder_def Let_def phy_masks upt_32 bit_simps)
  show "IsExtendedConfig (cfgpkt_DecodeHostOrder (resume_EncodeHostOrder phyId))"
    unfolding IsExtendedConfig_def cfgpkt_DecodeHostOrder_def cfg_DecodeHostOrder_def AlphaPhyConfig.select_convs
      phy_flag_bits
    by (simp add: resume_EncodeHostOrder_def Let_def bit_simps)
  have "bit (drop_bit 30 (fst (linkon_EncodeHostOrder phyId) AND kPacketIdentifierMask)) 0"
    by (simp add: linkon_EncodeHostOrder_def Let_def phy_masks bit_simps)
  then show "\<not> IsConfigQuadletHostOrder (fst (linkon_EncodeHostOrder phyId))"
    by (auto simp: IsConfigQuadletHostOrder_def)
qed

end
