(* ===== verification/Post_Reset_Timing.thy ===== *)
theory Post_Reset_Timing
  imports ASFW_Prelude
begin

text \<open>
  \<^verbatim>\<open>Bus/Timing/\<close>: the timing gates of bus management after a reset (\<^verbatim>\<open>PostResetTimingCoordinator.cpp\<close>),
  anchored to the completion of the Self-ID process, and the guard of new isochronous allocations
  (\<^verbatim>\<open>IsoAllocationGate.hpp\<close>). Times are 64-bit nanosecond counts.
\<close>

section \<open>State\<close>

definition kNanosecondsPerMillisecond :: u64 where "kNanosecondsPerMillisecond = 1000000"
definition kBMNonIncumbentDelayNs :: u64 where
  "kBMNonIncumbentDelayNs = 125 * kNanosecondsPerMillisecond"
definition kIRMFallbackDelayNs :: u64 where
  "kIRMFallbackDelayNs = 625 * kNanosecondsPerMillisecond"
definition kNewIsoAllocationDelayNs :: u64 where
  "kNewIsoAllocationDelayNs = 1000 * kNanosecondsPerMillisecond"

datatype TimingGate = BMIncumbentContention | BMNonIncumbentContention | IRMFallbackCheck
  | NewIsoAllocation

datatype TimingGateState = GateUnknown | GateClosed | GateOpen | ExpiredGeneration
  | SuppressedByRolePolicy | SuppressedByTopology

datatype BMCandidateClass = NotCandidate | Incumbent | NonIncumbent

record TimingGateResult =
  tg_state :: TimingGateState
  tg_gate :: TimingGate
  tg_generation :: u32
  tg_nowNs :: u64
  tg_selfIdCompleteNs :: u64
  tg_allowedAtNs :: u64
  tg_remainingNs :: u64
  tg_ageSinceSelfIdNs :: u64
  tg_allowed :: bool

definition TimingGateResult0 :: TimingGateResult where
  "TimingGateResult0 = \<lparr>tg_state = GateUnknown, tg_gate = NewIsoAllocation, tg_generation = 0,
     tg_nowNs = 0, tg_selfIdCompleteNs = 0, tg_allowedAtNs = 0, tg_remainingNs = 0,
     tg_ageSinceSelfIdNs = 0, tg_allowed = False\<rparr>"

record PostResetTimingState =
  pt_generation :: u32
  pt_valid :: bool
  pt_selfIdComplete :: bool
  pt_selfIdCompleteNs :: u64
  pt_bmIncumbentAllowedNs :: u64
  pt_bmNonIncumbentAllowedNs :: u64
  pt_irmFallbackAllowedNs :: u64
  pt_newIsoAllocationAllowedNs :: u64
  pt_createdAtNs :: u64
  pt_invalidatedAtNs :: u64

definition PostResetTimingState0 :: PostResetTimingState where
  "PostResetTimingState0 = \<lparr>pt_generation = 0, pt_valid = False, pt_selfIdComplete = False,
     pt_selfIdCompleteNs = 0, pt_bmIncumbentAllowedNs = 0, pt_bmNonIncumbentAllowedNs = 0,
     pt_irmFallbackAllowedNs = 0, pt_newIsoAllocationAllowedNs = 0, pt_createdAtNs = 0,
     pt_invalidatedAtNs = 0\<rparr>"

record PostResetTimingDiagnostics =
  pd_valid :: bool
  pd_selfIdComplete :: bool
  pd_generation :: u32
  pd_selfIdCompleteNs :: u64
  pd_nowNs :: u64
  pd_ageSinceSelfIdNs :: u64
  pd_incumbentBMGate :: TimingGateState
  pd_nonIncumbentBMGate :: TimingGateState
  pd_irmFallbackGate :: TimingGateState
  pd_newIsoAllocationGate :: TimingGateState
  pd_nonIncumbentBMRemainingNs :: u64
  pd_irmFallbackRemainingNs :: u64
  pd_newIsoAllocationRemainingNs :: u64

section \<open>Operations\<close>

definition prt_OnBusResetStarted :: "u32 \<Rightarrow> u64 \<Rightarrow> PostResetTimingState" where
  "prt_OnBusResetStarted generation nowNs =
     PostResetTimingState0\<lparr>pt_generation := generation, pt_valid := False, pt_selfIdComplete := False,
       pt_createdAtNs := nowNs, pt_invalidatedAtNs := nowNs\<rparr>"

definition prt_OnSelfIDComplete :: "u32 \<Rightarrow> u64 \<Rightarrow> PostResetTimingState" where
  "prt_OnSelfIDComplete generation selfIdCompleteNs =
     PostResetTimingState0\<lparr>pt_generation := generation, pt_valid := True, pt_selfIdComplete := True,
       pt_selfIdCompleteNs := selfIdCompleteNs, pt_createdAtNs := selfIdCompleteNs,
       pt_bmIncumbentAllowedNs := selfIdCompleteNs,
       pt_bmNonIncumbentAllowedNs := selfIdCompleteNs + kBMNonIncumbentDelayNs,
       pt_irmFallbackAllowedNs := selfIdCompleteNs + kIRMFallbackDelayNs,
       pt_newIsoAllocationAllowedNs := selfIdCompleteNs + kNewIsoAllocationDelayNs\<rparr>"

definition MakeMissingStateResult :: "u32 \<Rightarrow> TimingGate \<Rightarrow> u64 \<Rightarrow> TimingGateResult" where
  "MakeMissingStateResult generation gate nowNs =
     TimingGateResult0\<lparr>tg_generation := generation, tg_gate := gate, tg_nowNs := nowNs,
       tg_state := GateClosed, tg_allowed := False\<rparr>"

definition MakeGateResult :: "u32 \<Rightarrow> TimingGate \<Rightarrow> u64 \<Rightarrow> u64 \<Rightarrow> u64 \<Rightarrow> TimingGateResult" where
  "MakeGateResult generation gate nowNs selfIdCompleteNs allowedAtNs =
     (let result = TimingGateResult0\<lparr>tg_generation := generation, tg_gate := gate, tg_nowNs := nowNs,
            tg_selfIdCompleteNs := selfIdCompleteNs, tg_allowedAtNs := allowedAtNs,
            tg_ageSinceSelfIdNs := (if nowNs \<ge> selfIdCompleteNs then nowNs - selfIdCompleteNs else 0)\<rparr>
      in if nowNs \<ge> allowedAtNs
         then result\<lparr>tg_state := GateOpen, tg_allowed := True, tg_remainingNs := 0\<rparr>
         else result\<lparr>tg_state := GateClosed, tg_allowed := False, tg_remainingNs := allowedAtNs - nowNs\<rparr>)"

definition CheckGate :: "u32 \<Rightarrow> TimingGate \<Rightarrow> u64 \<Rightarrow> PostResetTimingState \<Rightarrow> TimingGateResult" where
  "CheckGate generation gate nowNs s =
     (if \<not> pt_valid s \<or> \<not> pt_selfIdComplete s then MakeMissingStateResult generation gate nowNs
      else if generation \<noteq> pt_generation s
      then TimingGateResult0\<lparr>tg_generation := generation, tg_gate := gate, tg_nowNs := nowNs,
             tg_selfIdCompleteNs := pt_selfIdCompleteNs s, tg_state := ExpiredGeneration,
             tg_allowed := False\<rparr>
      else
        let allowedAtNs = (case gate of
              BMIncumbentContention \<Rightarrow> pt_bmIncumbentAllowedNs s
            | BMNonIncumbentContention \<Rightarrow> pt_bmNonIncumbentAllowedNs s
            | IRMFallbackCheck \<Rightarrow> pt_irmFallbackAllowedNs s
            | NewIsoAllocation \<Rightarrow> pt_newIsoAllocationAllowedNs s)
        in MakeGateResult generation gate nowNs (pt_selfIdCompleteNs s) allowedAtNs)"

definition CheckBMGate ::
  "u32 \<Rightarrow> BMCandidateClass \<Rightarrow> u64 \<Rightarrow> PostResetTimingState \<Rightarrow> TimingGateResult" where
  "CheckBMGate generation candidateClass nowNs s =
     (case candidateClass of
        Incumbent \<Rightarrow> CheckGate generation BMIncumbentContention nowNs s
      | NonIncumbent \<Rightarrow> CheckGate generation BMNonIncumbentContention nowNs s
      | NotCandidate \<Rightarrow> (CheckGate generation BMNonIncumbentContention nowNs s)
          \<lparr>tg_state := SuppressedByRolePolicy, tg_allowed := False\<rparr>)"

definition CheckNewIsoAllocationGate :: "u32 \<Rightarrow> u64 \<Rightarrow> PostResetTimingState \<Rightarrow> TimingGateResult" where
  "CheckNewIsoAllocationGate generation nowNs s = CheckGate generation NewIsoAllocation nowNs s"

text \<open>The three counters of the diagnostics, which nothing increments, are left out.\<close>

definition prt_Snapshot :: "u64 \<Rightarrow> PostResetTimingState \<Rightarrow> PostResetTimingDiagnostics" where
  "prt_Snapshot nowNs s =
     (let gen = pt_generation s;
          inc = CheckGate gen BMIncumbentContention nowNs s;
          nonInc = CheckGate gen BMNonIncumbentContention nowNs s;
          irm = CheckGate gen IRMFallbackCheck nowNs s;
          iso = CheckGate gen NewIsoAllocation nowNs s
      in \<lparr>pd_valid = pt_valid s, pd_selfIdComplete = pt_selfIdComplete s, pd_generation = gen,
          pd_selfIdCompleteNs = pt_selfIdCompleteNs s, pd_nowNs = nowNs,
          pd_ageSinceSelfIdNs = tg_ageSinceSelfIdNs inc,
          pd_incumbentBMGate = tg_state inc, pd_nonIncumbentBMGate = tg_state nonInc,
          pd_irmFallbackGate = tg_state irm, pd_newIsoAllocationGate = tg_state iso,
          pd_nonIncumbentBMRemainingNs = tg_remainingNs nonInc,
          pd_irmFallbackRemainingNs = tg_remainingNs irm,
          pd_newIsoAllocationRemainingNs = tg_remainingNs iso\<rparr>)"

datatype IsoAllocationGateStatus = IsoAllowed | WaitingForOneSecondGate | NoSelfIDCompletion
  | IsoGenerationMismatch | IsoTopologyInvalid

record IsoAllocationGateResult =
  ig_status :: IsoAllocationGateStatus
  ig_generation :: u32
  ig_remainingNs :: u64

definition CheckIsoAllocationAllowed ::
  "PostResetTimingState \<Rightarrow> u32 \<Rightarrow> bool \<Rightarrow> u64 \<Rightarrow> IsoAllocationGateResult" where
  "CheckIsoAllocationAllowed timing generation topologyValid nowNs =
     (let result = \<lparr>ig_status = NoSelfIDCompletion, ig_generation = generation, ig_remainingNs = 0\<rparr> in
      if \<not> topologyValid then result\<lparr>ig_status := IsoTopologyInvalid\<rparr>
      else if \<not> pt_valid timing \<or> \<not> pt_selfIdComplete timing
      then result\<lparr>ig_status := NoSelfIDCompletion\<rparr>
      else
        let gate = CheckGate generation NewIsoAllocation nowNs timing;
            result = result\<lparr>ig_remainingNs := tg_remainingNs gate\<rparr>
        in if tg_state gate = ExpiredGeneration then result\<lparr>ig_status := IsoGenerationMismatch\<rparr>
           else if \<not> tg_allowed gate then result\<lparr>ig_status := WaitingForOneSecondGate\<rparr>
           else result\<lparr>ig_status := IsoAllowed\<rparr>)"

section \<open>When the gates open\<close>

text \<open>The delay of a gate after Self-ID completion, in nanoseconds.\<close>

definition gate_delay :: "TimingGate \<Rightarrow> nat" where
  "gate_delay gate = (case gate of BMIncumbentContention \<Rightarrow> 0 | BMNonIncumbentContention \<Rightarrow> 125000000
     | IRMFallbackCheck \<Rightarrow> 625000000 | NewIsoAllocation \<Rightarrow> 1000000000)"

lemma unat_add_delay:
  fixes t :: u64
  assumes "unat t + d < 2 ^ 64"
  shows "unat (t + of_nat d) = unat t + d"
  using assms by (simp add: unat_word_ariths unat_of_nat take_bit_nat_eq_self)

lemmas gate_delays = kBMNonIncumbentDelayNs_def kIRMFallbackDelayNs_def kNewIsoAllocationDelayNs_def
  kNanosecondsPerMillisecond_def

lemma CheckGate_anchored:
  "CheckGate g gate now (prt_OnSelfIDComplete g t) =
     MakeGateResult g gate now t (t + of_nat (gate_delay gate))"
  by (cases gate)
     (simp_all add: CheckGate_def prt_OnSelfIDComplete_def PostResetTimingState0_def gate_delay_def
       gate_delays)

lemma CheckGate_other_generation:
  "h \<noteq> g \<Longrightarrow> tg_state (CheckGate h gate now (prt_OnSelfIDComplete g t)) = ExpiredGeneration
     \<and> \<not> tg_allowed (CheckGate h gate now (prt_OnSelfIDComplete g t))"
  by (simp add: CheckGate_def prt_OnSelfIDComplete_def PostResetTimingState0_def)

lemma CheckGate_not_expired:
  "tg_state (CheckGate g gate now (prt_OnSelfIDComplete g t)) \<noteq> ExpiredGeneration"
  by (simp add: CheckGate_anchored MakeGateResult_def Let_def)

lemma anchored_valid [simp]:
  "pt_valid (prt_OnSelfIDComplete g t)" "pt_selfIdComplete (prt_OnSelfIDComplete g t)"
  "pt_generation (prt_OnSelfIDComplete g t) = g"
  by (simp_all add: prt_OnSelfIDComplete_def)

lemma CheckGate_before_self_id:
  "CheckGate h gate now (prt_OnBusResetStarted g t) = MakeMissingStateResult h gate now"
  by (simp add: CheckGate_def prt_OnBusResetStarted_def PostResetTimingState0_def)

text \<open>
  The timing gates after a bus reset. From the reset edge to the completion of the Self-ID
  process every gate is closed for every generation. After completion at time \<open>t\<close> of generation
  \<open>g\<close>, a gate is open for \<open>g\<close> exactly from \<open>t\<close> plus its delay (0, 125, 625 or 1000 ms) on, reports
  the time that is left before that, and is closed as expired for any other generation; a node that
  is no candidate never passes the bus manager gate, and a new isochronous allocation is allowed
  exactly when the topology is valid and one second of the current generation has passed.
\<close>

lemma timing_gates_exact:
  assumes "unat t + 1000000000 < 2 ^ 64"
  shows "\<not> tg_allowed (CheckGate h gate now (prt_OnBusResetStarted g0 t0))
    \<and> (tg_allowed (CheckGate h gate now (prt_OnSelfIDComplete g t))
           \<longleftrightarrow> h = g \<and> unat t + gate_delay gate \<le> unat now)
    \<and> (h = g \<longrightarrow> unat (tg_remainingNs (CheckGate h gate now (prt_OnSelfIDComplete g t)))
           = unat t + gate_delay gate - unat now)
    \<and> (tg_allowed (CheckBMGate h cls now (prt_OnSelfIDComplete g t))
           \<longleftrightarrow> cls \<noteq> NotCandidate \<and> h = g
             \<and> unat t + (if cls = Incumbent then 0 else 125000000) \<le> unat now)
    \<and> (ig_status (CheckIsoAllocationAllowed (prt_OnSelfIDComplete g t) h topologyValid now) = IsoAllowed
           \<longleftrightarrow> topologyValid \<and> h = g \<and> unat t + 1000000000 \<le> unat now)"
proof -
  have at: "unat (t + of_nat (gate_delay gate)) = unat t + gate_delay gate" for gate
    using assms by (intro unat_add_delay) (cases gate; simp add: gate_delay_def)
  have edge: "\<not> tg_allowed (CheckGate h gate now (prt_OnBusResetStarted g0 t0))"
    by (simp add: CheckGate_before_self_id MakeMissingStateResult_def)
  have allowed: "tg_allowed (CheckGate h gate now (prt_OnSelfIDComplete g t))
      \<longleftrightarrow> h = g \<and> unat t + gate_delay gate \<le> unat now" for gate
    by (cases "h = g") (auto simp: CheckGate_anchored CheckGate_other_generation MakeGateResult_def
        Let_def TimingGateResult0_def word_le_nat_alt at)
  have left: "unat (tg_remainingNs (CheckGate h gate now (prt_OnSelfIDComplete g t)))
      = unat t + gate_delay gate - unat now" if "h = g"
    using that by (auto simp: CheckGate_anchored MakeGateResult_def Let_def TimingGateResult0_def word_le_nat_alt
        unat_sub at not_le)
  have bm: "tg_allowed (CheckBMGate h cls now (prt_OnSelfIDComplete g t))
      \<longleftrightarrow> cls \<noteq> NotCandidate \<and> h = g
        \<and> unat t + (if cls = Incumbent then 0 else 125000000) \<le> unat now"
    by (cases cls) (simp_all add: CheckBMGate_def allowed gate_delay_def)
  have iso: "ig_status (CheckIsoAllocationAllowed (prt_OnSelfIDComplete g t) h topologyValid now) = IsoAllowed
      \<longleftrightarrow> topologyValid \<and> h = g \<and> unat t + 1000000000 \<le> unat now"
    using allowed [of NewIsoAllocation] CheckGate_other_generation [of h g NewIsoAllocation now t]
      CheckGate_not_expired [of g NewIsoAllocation now t]
    by (auto simp: CheckIsoAllocationAllowed_def Let_def gate_delay_def)
  from edge allowed left bm iso show ?thesis by blast
qed

end
