(* ===== verification/Bus_Reset.thy ===== *)
theory Bus_Reset
  imports Bus_Manager Phy_Packets Post_Reset_Timing
begin

text \<open>
  The bus reset coordinator, \<^verbatim>\<open>Bus/BusResetCoordinator.cpp\<close>, \<^verbatim>\<open>BusResetCoordinatorFSM.cpp\<close>,
  \<^verbatim>\<open>BusResetCoordinatorActions.cpp\<close> and \<^verbatim>\<open>BusResetCoordinatorDiscoveryDelay.cpp\<close>: the staged state machine that
  takes the controller from a bus reset interrupt to a published topology, and the queue of software
  resets it dispatches.

  The Self-ID capture, the topology manager and the bus manager the coordinator calls are the
  components modelled in the other theories and part of its state here. What lies outside the
  sources (clock, register reads, DMA memory, success of PHY accesses) is given by an environment
  with one answer per place that asks, so two reads of the same register or of the clock may differ.
  Calls that leave the component are appended to a trace; blocks given to the dispatch queue are
  appended to a queue of jobs. Log lines are left out.
\<close>

section \<open>State\<close>

datatype FsmState = Idle | Detecting | WaitingSelfID | QuiescingAT | RestoringConfigROM
  | ClearingBusReset | Rearming | ResetComplete

datatype RecoveryReasonCode = ReasonNone | SelfIDDecodeFailed | SelfIDTimeout | TopologyBuildFailed
  | SoftwareResetDispatchFailed | ReadyForDiscoveryFailed | ManualResetWatchdog

datatype StepResult = StepContinue | StepYield | StepFinish

datatype ResetRequestKind = Recovery | GapCorrection | Delegation | ManualBusManager | RolePolicyRestage

datatype ResetFlavor = ShortReset | LongReset

record SelfIDLatchState =
  sl_complete :: bool
  sl_stickyComplete :: bool
  sl_completeTimeNs :: u64
  sl_stickyCompleteTimeNs :: u64

definition latch_Reset :: SelfIDLatchState where
  "latch_Reset = \<lparr>sl_complete = False, sl_stickyComplete = False, sl_completeTimeNs = 0,
     sl_stickyCompleteTimeNs = 0\<rparr>"

record ResetTimingState =
  rt_lastBusResetEdgeNs :: u64
  rt_lastSelfIdCompletionNs :: u64
  rt_softwareResetBlockedUntilNs :: u64

record ResetRequest =
  rq_kind :: ResetRequestKind
  rq_flavor :: ResetFlavor
  rq_phyConfig :: "PhyConfigCommand option"
  rq_reason :: string
  rq_gapDecisionReason :: "GapDecisionReason option"

record ResetCycleState =
  cy_timing :: ResetTimingState
  cy_acceptedSelfId :: "SelfIDResult option"
  cy_acceptedTopology :: "TopologySnapshot option"
  cy_pendingReset :: "ResetRequest option"
  cy_recoveryReason :: "string option"

definition ResetCycleState0 :: ResetCycleState where
  "ResetCycleState0 = \<lparr>cy_timing = \<lparr>rt_lastBusResetEdgeNs = 0, rt_lastSelfIdCompletionNs = 0,
     rt_softwareResetBlockedUntilNs = 0\<rparr>, cy_acceptedSelfId = None, cy_acceptedTopology = None,
     cy_pendingReset = None, cy_recoveryReason = None\<rparr>"

definition ResetForNewEdge :: "ResetCycleState \<Rightarrow> ResetCycleState" where
  "ResetForNewEdge cycle0 = cycle0\<lparr>cy_acceptedSelfId := None, cy_acceptedTopology := None,
     cy_pendingReset := None, cy_recoveryReason := None\<rparr>"

record BusResetMetrics =
  mt_lastResetStart :: u64
  mt_lastResetCompletion :: u64
  mt_resetCount :: u32
  mt_abortCount :: u32
  mt_lastFailureReason :: "string option"

record ResetDiagnostics =
  rd_resetEpoch :: u32
  rd_manualResetEpoch :: u32
  rd_softwareResetIssuedCount :: u32
  rd_busResetIrqCount :: u32
  rd_lastAcceptedGeneration :: u32
  rd_lastTopologyNodeCount :: nat
  rd_readyForDiscoveryFailureBits :: u8
  rd_lastRecoveryReasonCode :: RecoveryReasonCode
  rd_lastResetKind :: ResetRequestKind
  rd_recoveryResetAttempts :: u8
  rd_discoveryCallbackCount :: u8

text \<open>The members \<open>delegateAttemptActive_\<close>, \<open>delegateTarget_\<close>, \<open>delegateRetryCount_\<close>, \<open>delegateSuppressed_\<close>.\<close>

record DelegationState =
  dl_attemptActive :: bool
  dl_target :: nat
  dl_retryCount :: u32
  dl_suppressed :: bool

text \<open>Which of the pointers given to \<open>Initialize\<close> and \<open>BindCallbacks\<close> are not null.\<close>

record Dependencies =
  dp_hardware :: bool
  dp_workQueue :: bool
  dp_asyncSubsystem :: bool
  dp_configRomStager :: bool
  dp_interruptManager :: bool
  dp_romScanner :: bool
  dp_topologyMapService :: bool
  dp_topologyCallback :: bool

text \<open>What leaves the component.\<close>

datatype BusEvent = MaskInterrupts u32 | UnmaskInterrupts u32 | WriteIntEventClear u32
  | WriteSelfIDBuffer u32 | OnBusResetBegin u8 | StopATContextsOnly | FlushATContexts
  | ConfirmBusGeneration u8 | ReadATControl u32 u32 | RestoreHeaderAfterBusReset
  | WriteBusOptions u32 | WriteConfigROMHeader u32 | WriteAsReqFilterHiSet u32 | RearmATContexts
  | OnBusResetComplete u8 | AbortScan u32 | InvalidateTopologyMap | HoldoffArmed u64
  | SetContender bool | PhyRequest "u32 \<times> u32" | InitiateBusReset ResetFlavor u64 bool
  | TopologyCallback TopologySnapshot

text \<open>A block on the work queue; the deferred ones sleep first.\<close>

datatype Job = RunJob | DeferredRunJob u32 | DiscoveryJob u32 TopologySnapshot | WatchdogJob u32 u32

record BusResetCoordinator =
  br_state :: FsmState
  br_stateEntryTime :: u64
  br_workInProgress :: bool
  br_pendingBusResetEdge :: bool
  br_stopFlushIssued :: bool
  br_wasRoot :: bool
  br_metrics :: BusResetMetrics
  br_firstIrqTime :: u64
  br_busResetClearTime :: u64
  br_deferredRunScheduled :: bool
  br_deps :: Dependencies
  br_selfIdCapture :: "SelfIDCapture option"
  br_topologyManager :: "TopologyManager option"
  br_busManager :: "BusManager option"
  br_selfIdLatch :: SelfIDLatchState
  br_cycle :: ResetCycleState
  br_postResetTiming :: PostResetTimingState
  br_busResetMasked :: bool
  br_lastGeneration :: u32
  br_filtersEnabled :: bool
  br_atArmed :: bool
  br_delegation :: DelegationState
  br_currentDiscoveryDelayMs :: u32
  br_previousScanHadBusyNodes :: bool
  br_diag :: ResetDiagnostics
  br_queue :: "Job list"
  br_trace :: "BusEvent list"

section \<open>The environment\<close>

datatype ClockSite = ClkResetStarted | ClkDetecting | ClkTransition | ClkWaited | ClkTopology
  | ClkCleared | ClkMetrics | ClkDispatch

datatype AccessSite = AcStale | AcArm | AcNodeID | AcDecode | AcDecodeAgain | AcConsumed | AcATControl
  | AcRestore | AcTopology | AcClear | AcIsRoot | AcFilters

datatype RegisterSite = RdNodeID | RdSelfIDCount | RdSelfIDCountAgain | RdATRequest | RdATResponse
  | RdTopologyNodeID | RdRootNodeID

text \<open>
  \<open>en_irq\<close> is an interrupt that arrives before a step of the state machine; \<open>en_available\<close>,
  \<open>en_portBound\<close> and \<open>en_phyHandle\<close> say whether \<open>SendPhyConfig\<close> finds the hardware, its port and an
  accepting transmitter.
\<close>

record StepEnv =
  en_now :: "ClockSite \<Rightarrow> u64"
  en_access :: "AccessSite \<Rightarrow> bool"
  en_read :: "RegisterSite \<Rightarrow> u32"
  en_dma :: "u32 list"
  en_busOptions :: u32
  en_header :: u32
  en_available :: bool
  en_portBound :: bool
  en_phyHandle :: bool
  en_initiateOk :: bool
  en_irq :: "(u32 \<times> u64) option"

definition kBusReset :: u32 where "kBusReset = push_bit 17 1"
definition kSelfIDComplete :: u32 where "kSelfIDComplete = push_bit 16 1"
definition kSelfIDComplete2 :: u32 where "kSelfIDComplete2 = push_bit 15 1"
definition kContextControlActiveBit :: u32 where "kContextControlActiveBit = 0x400"
definition kAsReqAcceptAllMask :: u32 where "kAsReqAcceptAllMask = 0x80000000"
definition kRepeatedResetHoldoffNs :: u64 where "kRepeatedResetHoldoffNs = 2000000000"
definition kConservativeMismatchGapCount :: nat where "kConservativeMismatchGapCount = 0x3F"
definition kMaxDelegateRetries :: u32 where "kMaxDelegateRetries = 5"
definition kMaxManualRecoveryResetAttempts :: u8 where "kMaxManualRecoveryResetAttempts = 1"
definition kDeferredPollMs :: u32 where "kDeferredPollMs = 1"
definition kSelfIDTimeoutNs :: u64 where "kSelfIDTimeoutNs = 1000 * 1000000"
definition kAppleScanBusDelayMs :: u32 where "kAppleScanBusDelayMs = 100"
definition kDiscoveryDelayStepMs :: u32 where "kDiscoveryDelayStepMs = 2000"
definition kMaxDiscoveryDelayMs :: u32 where "kMaxDiscoveryDelayMs = 10000"

section \<open>Shared steps\<close>

definition emit :: "BusEvent list \<Rightarrow> BusResetCoordinator \<Rightarrow> BusResetCoordinator" where
  "emit evs c = c\<lparr>br_trace := br_trace c @ evs\<rparr>"

definition dispatch :: "Job \<Rightarrow> BusResetCoordinator \<Rightarrow> BusResetCoordinator" where
  "dispatch job c = c\<lparr>br_queue := br_queue c @ [job]\<rparr>"

definition map_cycle :: "(ResetCycleState \<Rightarrow> ResetCycleState) \<Rightarrow> BusResetCoordinator \<Rightarrow> BusResetCoordinator"
  where "map_cycle f c = c\<lparr>br_cycle := f (br_cycle c)\<rparr>"

definition map_diag :: "(ResetDiagnostics \<Rightarrow> ResetDiagnostics) \<Rightarrow> BusResetCoordinator \<Rightarrow> BusResetCoordinator"
  where "map_diag f c = c\<lparr>br_diag := f (br_diag c)\<rparr>"

definition map_metrics :: "(BusResetMetrics \<Rightarrow> BusResetMetrics) \<Rightarrow> BusResetCoordinator \<Rightarrow> BusResetCoordinator"
  where "map_metrics f c = c\<lparr>br_metrics := f (br_metrics c)\<rparr>"

definition HasSelfIDCompletion :: "BusResetCoordinator \<Rightarrow> bool" where
  "HasSelfIDCompletion c = (sl_complete (br_selfIdLatch c) \<or> sl_stickyComplete (br_selfIdLatch c))"

definition G_NodeIDValid :: "StepEnv \<Rightarrow> BusResetCoordinator \<Rightarrow> bool" where
  "G_NodeIDValid e c =
     (if \<not> dp_hardware (br_deps c) then False
      else if \<not> en_access e AcNodeID then False
      else en_read e RdNodeID AND 0x80000000 \<noteq> 0 \<and> en_read e RdNodeID AND 0x3F \<noteq> 63)"

definition G_IsRoot :: "StepEnv \<Rightarrow> BusResetCoordinator \<Rightarrow> bool" where
  "G_IsRoot e c =
     (if \<not> dp_hardware (br_deps c) then False
      else en_access e AcIsRoot \<and> en_read e RdRootNodeID AND 0x40000000 \<noteq> 0)"

definition CanAttemptSelfIDDecode :: "StepEnv \<Rightarrow> BusResetCoordinator \<Rightarrow> bool" where
  "CanAttemptSelfIDDecode e c = (G_NodeIDValid e c \<and> HasSelfIDCompletion c)"

text \<open>The reads of the two AT context control registers are recorded in the trace.\<close>

definition G_ATInactive :: "StepEnv \<Rightarrow> BusResetCoordinator \<Rightarrow> bool \<times> BusResetCoordinator" where
  "G_ATInactive e c =
     (if \<not> dp_hardware (br_deps c) then (False, c)
      else if \<not> en_access e AcATControl then (False, c)
      else
        let atReqControl = en_read e RdATRequest; atRspControl = en_read e RdATResponse
        in (atReqControl AND kContextControlActiveBit = 0 \<and> atRspControl AND kContextControlActiveBit = 0,
            emit [ReadATControl atReqControl atRspControl] c))"

definition rc_TransitionTo :: "u64 \<Rightarrow> FsmState \<Rightarrow> BusResetCoordinator \<Rightarrow> BusResetCoordinator" where
  "rc_TransitionTo now newState c =
     (if br_state c = newState then c
      else
        let c = (if newState = Detecting
                 then (map_metrics (\<lambda>m. m\<lparr>mt_resetCount := mt_resetCount m + 1\<rparr>) c)\<lparr>br_firstIrqTime := now\<rparr>
                 else if newState = RestoringConfigROM then c\<lparr>br_busResetClearTime := now\<rparr>
                 else c)
        in c\<lparr>br_state := newState, br_stateEntryTime := now\<rparr>)"

definition CompleteCurrentRun :: "BusResetCoordinator \<Rightarrow> BusResetCoordinator" where
  "CompleteCurrentRun c = c\<lparr>br_workInProgress := False\<rparr>"

definition YieldAndReschedule :: "u32 \<Rightarrow> BusResetCoordinator \<Rightarrow> BusResetCoordinator" where
  "YieldAndReschedule delayMs c =
     (if \<not> dp_workQueue (br_deps c) then c
      else if br_deferredRunScheduled c then c
      else dispatch (DeferredRunJob delayMs) (c\<lparr>br_deferredRunScheduled := True\<rparr>))"

definition RecordRecoveryReason :: "string \<Rightarrow> BusResetCoordinator \<Rightarrow> BusResetCoordinator" where
  "RecordRecoveryReason reason c =
     map_metrics (\<lambda>m. m\<lparr>mt_lastFailureReason := Some reason\<rparr>)
       (map_cycle (\<lambda>y. y\<lparr>cy_recoveryReason := Some reason\<rparr>) c)"

definition RecordRecoveryReasonCode :: "RecoveryReasonCode \<Rightarrow> BusResetCoordinator \<Rightarrow> BusResetCoordinator"
  where "RecordRecoveryReasonCode code = map_diag (\<lambda>d. d\<lparr>rd_lastRecoveryReasonCode := code\<rparr>)"

definition DecodeErrorCodeString :: "DecodeErrorCode \<Rightarrow> string" where
  "DecodeErrorCodeString code = (case code of
       BufferUnavailable \<Rightarrow> ''BufferUnavailable'' | ControllerErrorBit \<Rightarrow> ''ControllerErrorBit''
     | EmptyCapture \<Rightarrow> ''EmptyCapture'' | CountOverflow \<Rightarrow> ''CountOverflow''
     | NullMapAddress \<Rightarrow> ''NullMapAddress'' | GenerationMismatch \<Rightarrow> ''GenerationMismatch''
     | InvalidInversePair \<Rightarrow> ''InvalidInversePair'' | MalformedSequence \<Rightarrow> ''MalformedSequence'')"

definition TopologyBuildErrorCodeString :: "TopologyBuildErrorCode \<Rightarrow> string" where
  "TopologyBuildErrorCodeString code = (case code of
       NoError \<Rightarrow> ''None'' | InvalidSelfID \<Rightarrow> ''InvalidSelfID'' | EmptySequenceSet \<Rightarrow> ''EmptySequenceSet''
     | NonContiguousPhysicalIds \<Rightarrow> ''NonContiguousPhysicalIds''
     | DuplicatePhysicalId \<Rightarrow> ''DuplicatePhysicalId'' | MissingBasePacket \<Rightarrow> ''MissingBasePacket''
     | InvalidExtendedPacketOrder \<Rightarrow> ''InvalidExtendedPacketOrder''
     | NonRootWithoutParentPort \<Rightarrow> ''NonRootWithoutParentPort''
     | RootHasParentPort \<Rightarrow> ''RootHasParentPort'' | ChildPortWithEmptyStack \<Rightarrow> ''ChildPortWithEmptyStack''
     | PoppedNodeHasNoUnresolvedParent \<Rightarrow> ''PoppedNodeHasNoUnresolvedParent''
     | UnresolvedStackAfterRoot \<Rightarrow> ''UnresolvedStackAfterRoot''
     | ReciprocalLinkMissing \<Rightarrow> ''ReciprocalLinkMissing'' | EdgeCountMismatch \<Rightarrow> ''EdgeCountMismatch''
     | LocalNodeUnavailable \<Rightarrow> ''LocalNodeUnavailable'')"

end
