(* ===== verification/Bus_Reset_Actions.thy ===== *)
theory Bus_Reset_Actions
  imports Bus_Reset
begin

text \<open>
  \<^verbatim>\<open>Bus/BusResetCoordinatorActions.cpp\<close> and \<^verbatim>\<open>Bus/BusResetCoordinatorDiscoveryDelay.cpp\<close>: what the states of
  the reset coordinator do to the controller, the merging and dispatch of software resets, and the
  conditions under which discovery may start.
\<close>

section \<open>Interrupts\<close>

definition MaskBusReset :: "BusResetCoordinator \<Rightarrow> BusResetCoordinator" where
  "MaskBusReset c =
     (if \<not> dp_interruptManager (br_deps c) \<or> \<not> dp_hardware (br_deps c) then c
      else emit [MaskInterrupts kBusReset] (c\<lparr>br_busResetMasked := True\<rparr>))"

definition UnmaskBusReset :: "BusResetCoordinator \<Rightarrow> BusResetCoordinator" where
  "UnmaskBusReset c =
     (if \<not> dp_interruptManager (br_deps c) \<or> \<not> dp_hardware (br_deps c) then c
      else emit [UnmaskInterrupts kBusReset] (c\<lparr>br_busResetMasked := False\<rparr>))"

definition ForceUnmaskBusResetIfNeeded :: "BusResetCoordinator \<Rightarrow> BusResetCoordinator" where
  "ForceUnmaskBusResetIfNeeded c =
     (if \<not> br_busResetMasked c then c
      else if \<not> dp_interruptManager (br_deps c) \<or> \<not> dp_hardware (br_deps c) then c
      else emit [UnmaskInterrupts kBusReset] (c\<lparr>br_busResetMasked := False\<rparr>))"

definition ClearStaleSelfIDComplete2 :: "StepEnv \<Rightarrow> BusResetCoordinator \<Rightarrow> BusResetCoordinator" where
  "ClearStaleSelfIDComplete2 e c =
     (if \<not> dp_hardware (br_deps c) then c
      else
        let c = (if en_access e AcStale then emit [WriteIntEventClear kSelfIDComplete2] c else c)
        in c\<lparr>br_selfIdLatch := (br_selfIdLatch c)\<lparr>sl_stickyComplete := False,
              sl_stickyCompleteTimeNs := 0\<rparr>\<rparr>)"

definition ClearConsumedSelfIDInterrupts :: "StepEnv \<Rightarrow> BusResetCoordinator \<Rightarrow> BusResetCoordinator" where
  "ClearConsumedSelfIDInterrupts e c =
     (if \<not> dp_hardware (br_deps c) then c\<lparr>br_selfIdLatch := latch_Reset\<rparr>
      else
        let clearMask = (if sl_complete (br_selfIdLatch c) then kSelfIDComplete else 0)
              OR (if sl_stickyComplete (br_selfIdLatch c) then kSelfIDComplete2 else 0);
            c = (if clearMask \<noteq> 0 \<and> en_access e AcConsumed then emit [WriteIntEventClear clearMask] c else c)
        in c\<lparr>br_selfIdLatch := latch_Reset\<rparr>)"

section \<open>Self-ID, asynchronous transmit, topology\<close>

definition ArmSelfIDBuffer :: "StepEnv \<Rightarrow> BusResetCoordinator \<Rightarrow> BusResetCoordinator" where
  "ArmSelfIDBuffer e c =
     (case br_selfIdCapture c of
        None \<Rightarrow> c
      | Some capture \<Rightarrow>
          if \<not> dp_hardware (br_deps c) then c
          else
            let (kr, written, capture) = Arm (en_access e AcArm) capture
            in emit (case written of Some address \<Rightarrow> [WriteSelfIDBuffer address] | None \<Rightarrow> [])
                 (c\<lparr>br_selfIdCapture := Some capture\<rparr>))"

definition StopFlushAT :: "BusResetCoordinator \<Rightarrow> BusResetCoordinator" where
  "StopFlushAT c =
     (let c = (if dp_topologyMapService (br_deps c) then emit [InvalidateTopologyMap] c else c) in
      if \<not> dp_asyncSubsystem (br_deps c) then c
      else
        let nextGeneration = ucast ((br_lastGeneration c + 1) AND 0xFF) :: u8
        in emit [OnBusResetBegin nextGeneration, StopATContextsOnly, FlushATContexts] c)"

text \<open>The DMA engine writes the capture buffer: what it shows when it is decoded is the environment's.\<close>

definition dma_view :: "u32 list \<Rightarrow> SelfIDCapture \<Rightarrow> SelfIDCapture" where
  "dma_view dma capture = capture\<lparr>cap_map := map_option (\<lambda>(address, _). (address, dma)) (cap_map capture)\<rparr>"

definition DecodeSelfID :: "StepEnv \<Rightarrow> BusResetCoordinator \<Rightarrow> bool \<times> BusResetCoordinator" where
  "DecodeSelfID e c =
     (case br_selfIdCapture c of
        None \<Rightarrow> (False, c)
      | Some capture \<Rightarrow>
          if \<not> dp_hardware (br_deps c) then (False, c)
          else if \<not> en_access e AcDecode then (False, c)
          else
            (case Decode (en_read e RdSelfIDCount)
                    (if en_access e AcDecodeAgain then Some (en_read e RdSelfIDCountAgain) else None)
                    (dma_view (en_dma e) capture) of
               Inl err \<Rightarrow>
                 (False, map_cycle (\<lambda>y. y\<lparr>cy_acceptedSelfId := None\<rparr>)
                    (RecordRecoveryReason (''Self-ID decode failed: '' @ DecodeErrorCodeString (de_code err)) c))
             | Inr decoded \<Rightarrow>
                 let c = (map_cycle (\<lambda>y. y\<lparr>cy_acceptedSelfId := Some decoded\<rparr>) c)
                           \<lparr>br_lastGeneration := res_generation decoded\<rparr>;
                     c = (if dp_asyncSubsystem (br_deps c)
                          then emit [ConfirmBusGeneration (ucast (res_generation decoded AND 0xFF))] c else c)
                 in (True, c)))"

text \<open>
  \<open>UpdateFromSelfID\<close> answers \<open>None\<close> only if a graph pass runs out of fuel, which it does not on a
  decoded capture (\<open>BuildTopology_answers\<close>).
\<close>

definition topology_failed :: "TopologyBuildError \<Rightarrow> BusResetCoordinator \<Rightarrow> BusResetCoordinator" where
  "topology_failed err c =
     (let c = RecordRecoveryReason (''Topology build failed: '' @ TopologyBuildErrorCodeString (be_code err)) c;
          c = RecordRecoveryReasonCode TopologyBuildFailed c;
          c = map_cycle (\<lambda>y. y\<lparr>cy_acceptedTopology := None\<rparr>) c
      in if dp_topologyMapService (br_deps c) then emit [InvalidateTopologyMap] c else c)"

definition topology_accepted :: "TopologySnapshot \<Rightarrow> BusResetCoordinator \<Rightarrow> BusResetCoordinator" where
  "topology_accepted snapshot c =
     (let c = map_cycle (\<lambda>y. y\<lparr>cy_acceptedTopology := Some snapshot\<rparr>) c;
          c = map_diag (\<lambda>d. d\<lparr>rd_lastAcceptedGeneration := ts_generation snapshot,
                rd_lastTopologyNodeCount := min (length (pg_nodes (ts_physical snapshot))) 0xFF\<rparr>) c
      in case br_busManager c of
           Some busManager \<Rightarrow>
             if ts_gapCountConsistent snapshot
             then c\<lparr>br_busManager := Some (NoteStableGapObserved (ts_gapCount snapshot) busManager)\<rparr>
             else c
         | None \<Rightarrow> c)"

definition BuildTopology :: "StepEnv \<Rightarrow> BusResetCoordinator \<Rightarrow> bool \<times> BusResetCoordinator" where
  "BuildTopology e c =
     (case (br_topologyManager c, cy_acceptedSelfId (br_cycle c)) of
        (Some manager, Some selfId) \<Rightarrow>
          if \<not> dp_hardware (br_deps c) then (False, c)
          else if \<not> en_access e AcTopology then (False, c)
          else
            (case UpdateFromSelfID selfId (en_now e ClkTopology) (en_read e RdTopologyNodeID) manager of
               None \<Rightarrow> (False, c)
             | Some (Inl err, manager') \<Rightarrow>
                 (False, topology_failed err (c\<lparr>br_topologyManager := Some manager'\<rparr>))
             | Some (Inr snapshot, manager') \<Rightarrow>
                 (True, topology_accepted snapshot (c\<lparr>br_topologyManager := Some manager'\<rparr>)))
      | _ \<Rightarrow> (False, c))"

definition RestoreConfigROM :: "StepEnv \<Rightarrow> BusResetCoordinator \<Rightarrow> BusResetCoordinator" where
  "RestoreConfigROM e c =
     (if \<not> dp_configRomStager (br_deps c) \<or> \<not> dp_hardware (br_deps c) then c
      else
        let c = emit [RestoreHeaderAfterBusReset] c
        in if en_access e AcRestore
           then emit [WriteBusOptions (en_busOptions e), WriteConfigROMHeader (en_header e)] c
           else c)"

definition ClearBusReset :: "StepEnv \<Rightarrow> BusResetCoordinator \<Rightarrow> BusResetCoordinator" where
  "ClearBusReset e c =
     (if \<not> dp_hardware (br_deps c) then c
      else
        let c = (if en_access e AcClear then emit [WriteIntEventClear kBusReset] c else c)
        in c\<lparr>br_busResetClearTime := en_now e ClkCleared\<rparr>)"

definition EnableFilters :: "StepEnv \<Rightarrow> BusResetCoordinator \<Rightarrow> BusResetCoordinator" where
  "EnableFilters e c =
     (if \<not> dp_hardware (br_deps c) then c
      else
        let c = (if en_access e AcFilters then emit [WriteAsReqFilterHiSet kAsReqAcceptAllMask] c else c)
        in c\<lparr>br_filtersEnabled := True\<rparr>)"

definition RearmAT :: "BusResetCoordinator \<Rightarrow> BusResetCoordinator" where
  "RearmAT c =
     (if \<not> dp_asyncSubsystem (br_deps c) then c
      else emit [RearmATContexts] (c\<lparr>br_atArmed := True\<rparr>))"

definition LogMetrics :: "StepEnv \<Rightarrow> BusResetCoordinator \<Rightarrow> BusResetCoordinator" where
  "LogMetrics e c =
     map_metrics (\<lambda>m. m\<lparr>mt_lastResetStart := br_firstIrqTime c,
         mt_lastResetCompletion := en_now e ClkMetrics,
         mt_lastFailureReason := (case cy_recoveryReason (br_cycle c) of
            Some reason \<Rightarrow> Some reason | None \<Rightarrow> mt_lastFailureReason m)\<rparr>) c"

definition ArmSoftwareResetHoldoffAfterSelfIDCompletion ::
  "u64 \<Rightarrow> BusResetCoordinator \<Rightarrow> BusResetCoordinator" where
  "ArmSoftwareResetHoldoffAfterSelfIDCompletion timestampNs c =
     emit [HoldoffArmed timestampNs]
       (map_cycle (\<lambda>y. y\<lparr>cy_timing := (cy_timing y)\<lparr>rt_lastSelfIdCompletionNs := timestampNs,
          rt_softwareResetBlockedUntilNs := timestampNs + kRepeatedResetHoldoffNs\<rparr>\<rparr>) c)"

section \<open>Root delegation\<close>

definition EvaluateRootDelegation :: "TopologySnapshot \<Rightarrow> DelegationState \<Rightarrow> DelegationState" where
  "EvaluateRootDelegation topology d =
     (if \<not> dl_attemptActive d
      then (if dl_suppressed d \<and> ts_rootNodeId topology \<noteq> kInvalidPhysicalId
               \<and> ts_localNodeId topology \<noteq> kInvalidPhysicalId
               \<and> ts_rootNodeId topology \<noteq> ts_localNodeId topology
            then d\<lparr>dl_suppressed := False\<rparr> else d)
      else if ts_rootNodeId topology = kInvalidPhysicalId then d
      else if (dl_target d \<noteq> 0xFF \<and> ts_rootNodeId topology = dl_target d)
              \<or> (ts_localNodeId topology \<noteq> 0xFF \<and> ts_rootNodeId topology \<noteq> ts_localNodeId topology)
      then \<lparr>dl_attemptActive = False, dl_target = 0xFF, dl_retryCount = 0, dl_suppressed = False\<rparr>
      else d\<lparr>dl_attemptActive := False\<rparr>)"

definition ClearDelegationAttempt :: "BusResetCoordinator \<Rightarrow> BusResetCoordinator" where
  "ClearDelegationAttempt c =
     c\<lparr>br_delegation := \<lparr>dl_attemptActive = False, dl_target = 0xFF, dl_retryCount = 0,
        dl_suppressed = False\<rparr>\<rparr>"

definition ResetDelegationRetryCounter :: "BusResetCoordinator \<Rightarrow> BusResetCoordinator" where
  "ResetDelegationRetryCounter c =
     c\<lparr>br_delegation := (br_delegation c)\<lparr>dl_retryCount := 0, dl_suppressed := False\<rparr>\<rparr>"

section \<open>Merging reset requests\<close>

definition MergePhyConfig :: "PhyConfigCommand \<Rightarrow> PhyConfigCommand \<Rightarrow> PhyConfigCommand" where
  "MergePhyConfig base addition =
     \<lparr>cmd_gapCount = (case cmd_gapCount addition of Some g \<Rightarrow> Some g | None \<Rightarrow> cmd_gapCount base),
      cmd_forceRootNodeID = (case cmd_forceRootNodeID addition of
         Some n \<Rightarrow> Some n | None \<Rightarrow> cmd_forceRootNodeID base),
      cmd_setContender = (case cmd_setContender addition of
         Some b \<Rightarrow> Some b | None \<Rightarrow> cmd_setContender base)\<rparr>"

definition strongerFlavor :: "ResetFlavor \<Rightarrow> ResetFlavor \<Rightarrow> ResetFlavor" where
  "strongerFlavor lhs rhs = (if lhs = LongReset \<or> rhs = LongReset then LongReset else ShortReset)"

definition mergedKind :: "ResetRequestKind \<Rightarrow> ResetRequestKind \<Rightarrow> ResetRequestKind" where
  "mergedKind lhs rhs =
     (if lhs = GapCorrection \<or> rhs = GapCorrection then GapCorrection
      else if lhs = Delegation \<or> rhs = Delegation then Delegation
      else if lhs = ManualBusManager \<or> rhs = ManualBusManager then ManualBusManager
      else if lhs = RolePolicyRestage \<or> rhs = RolePolicyRestage then RolePolicyRestage
      else Recovery)"

definition MergeResetRequests :: "ResetRequest \<Rightarrow> ResetRequest \<Rightarrow> ResetRequest" where
  "MergeResetRequests current incoming =
     (let merged = current\<lparr>rq_flavor := strongerFlavor (rq_flavor current) (rq_flavor incoming),
            rq_kind := mergedKind (rq_kind current) (rq_kind incoming)\<rparr>;
          merged = (case (rq_phyConfig merged, rq_phyConfig incoming) of
              (Some base, Some addition) \<Rightarrow> merged\<lparr>rq_phyConfig := Some (MergePhyConfig base addition)\<rparr>
            | (None, Some addition) \<Rightarrow> merged\<lparr>rq_phyConfig := Some addition\<rparr>
            | _ \<Rightarrow> merged);
          forceConservativeGap = (rq_gapDecisionReason current = Some MismatchForce63
            \<or> rq_gapDecisionReason incoming = Some MismatchForce63);
          merged = (if forceConservativeGap
            then merged\<lparr>rq_gapDecisionReason := Some MismatchForce63,
                   rq_phyConfig := Some ((case rq_phyConfig merged of
                       None \<Rightarrow> PhyConfigCommand0 | Some command \<Rightarrow> command)
                     \<lparr>cmd_gapCount := Some kConservativeMismatchGapCount\<rparr>)\<rparr>
            else if rq_gapDecisionReason merged = None \<and> rq_gapDecisionReason incoming \<noteq> None
            then merged\<lparr>rq_gapDecisionReason := rq_gapDecisionReason incoming\<rparr>
            else merged)
      in if rq_reason incoming \<noteq> [] then merged\<lparr>rq_reason := rq_reason incoming\<rparr> else merged)"

definition add_pending :: "ResetRequest \<Rightarrow> BusResetCoordinator \<Rightarrow> BusResetCoordinator" where
  "add_pending request c =
     (let c = map_cycle (\<lambda>y. y\<lparr>cy_pendingReset := Some (case cy_pendingReset y of
            Some current \<Rightarrow> MergeResetRequests current request | None \<Rightarrow> request)\<rparr>) c
      in if br_state c = Idle \<and> dp_workQueue (br_deps c) then dispatch RunJob c else c)"

definition RequestSoftwareReset :: "ResetRequest \<Rightarrow> BusResetCoordinator \<Rightarrow> BusResetCoordinator" where
  "RequestSoftwareReset request c =
     (if rq_kind request = Delegation \<and> dl_suppressed (br_delegation c) then c
      else
        (case (rq_kind request, Option.bind (rq_phyConfig request) cmd_forceRootNodeID) of
           (Delegation, Some newTarget) \<Rightarrow>
             let d = br_delegation c;
                 d = (if newTarget \<noteq> dl_target d then d\<lparr>dl_retryCount := 0, dl_target := newTarget\<rparr> else d);
                 d = d\<lparr>dl_retryCount := dl_retryCount d + 1\<rparr>
             in if dl_retryCount d > kMaxDelegateRetries
                then c\<lparr>br_delegation := d\<lparr>dl_suppressed := True\<rparr>\<rparr>
                else add_pending request (c\<lparr>br_delegation := d\<lparr>dl_attemptActive := True\<rparr>\<rparr>)
         | _ \<Rightarrow> add_pending request c))"

section \<open>Dispatching a software reset\<close>

text \<open>
  \<^verbatim>\<open>HardwareInterface::SendPhyConfig\<close>: the packet it submits, or \<open>None\<close> when it returns false.
\<close>

definition SendPhyConfig :: "StepEnv \<Rightarrow> nat option \<Rightarrow> nat option \<Rightarrow> (u32 \<times> u32) option" where
  "SendPhyConfig e gapCount forceRootPhyId =
     (if \<not> en_available e then None
      else if \<not> en_portBound e then None
      else
        let config = \<lparr>pc_rootId = 0, pc_forceRoot = False, pc_gapCountOptimization = False, pc_gapCount = 0x3F\<rparr>;
            config = (case forceRootPhyId of
               Some n \<Rightarrow> config\<lparr>pc_rootId := of_nat n AND 0x3F, pc_forceRoot := True\<rparr> | None \<Rightarrow> config);
            gap = (case gapCount of Some g \<Rightarrow> Some (of_nat g AND 0x3F :: u8) | None \<Rightarrow> None)
        in if gap = Some 0 then None
           else
             let config = (case gap of
                   Some g \<Rightarrow> config\<lparr>pc_gapCountOptimization := True, pc_gapCount := g\<rparr> | None \<Rightarrow> config)
             in if \<not> pc_forceRoot config \<and> \<not> pc_gapCountOptimization config then None
                else if \<not> en_phyHandle e then None
                else Some (EncodeBusOrder (cfgpkt_EncodeHostOrder config)))"

definition ClearSoftwareResetTracking ::
  "ResetRequest \<Rightarrow> bool \<Rightarrow> BusResetCoordinator \<Rightarrow> BusResetCoordinator" where
  "ClearSoftwareResetTracking request carriesDelegation c =
     (let c = (if rq_gapDecisionReason request \<noteq> None
               then c\<lparr>br_busManager := map_option ClearInFlightGapReset (br_busManager c)\<rparr> else c)
      in if carriesDelegation then ClearDelegationAttempt c else c)"

definition CurrentGapCountForBareReset :: "BusResetCoordinator \<Rightarrow> nat option" where
  "CurrentGapCountForBareReset c =
     (case cy_acceptedTopology (br_cycle c) of
        None \<Rightarrow> None
      | Some topology \<Rightarrow>
          if \<not> ts_gapCountConsistent topology then None
          else if ts_gapCount topology = kConservativeMismatchGapCount then None
          else Some (ts_gapCount topology))"

definition ApplySoftwareResetPhyConfig ::
  "StepEnv \<Rightarrow> ResetRequest \<Rightarrow> bool \<Rightarrow> BusResetCoordinator \<Rightarrow> bool \<times> BusResetCoordinator" where
  "ApplySoftwareResetPhyConfig e request carriesDelegation c =
     (case rq_phyConfig request of
        None \<Rightarrow>
          (case CurrentGapCountForBareReset c of
             None \<Rightarrow> (True, c)
           | Some preservedGap \<Rightarrow>
               (case SendPhyConfig e (Some preservedGap) None of
                  Some packet \<Rightarrow> (True, emit [PhyRequest packet] c)
                | None \<Rightarrow>
                    (False, ClearSoftwareResetTracking request carriesDelegation
                       (RecordRecoveryReason
                          (''Gap-preserving PHY config dispatch failed: '' @ rq_reason request) c))))
      | Some command \<Rightarrow>
          let c = (case cmd_setContender command of
                Some enable \<Rightarrow> emit [SetContender enable] c | None \<Rightarrow> c)
          in (case SendPhyConfig e (cmd_gapCount command) (cmd_forceRootNodeID command) of
                Some packet \<Rightarrow> (True, emit [PhyRequest packet] c)
              | None \<Rightarrow>
                  (False, ClearSoftwareResetTracking request carriesDelegation
                     (RecordRecoveryReason (''PHY config dispatch failed: '' @ rq_reason request) c))))"

definition NoteIssuedGapReset :: "ResetRequest \<Rightarrow> BusResetCoordinator \<Rightarrow> BusResetCoordinator" where
  "NoteIssuedGapReset request c =
     (case (rq_gapDecisionReason request, Option.bind (rq_phyConfig request) cmd_gapCount) of
        (Some reason, Some gap) \<Rightarrow>
          c\<lparr>br_busManager := map_option (NoteGapResetIssued gap reason) (br_busManager c)\<rparr>
      | _ \<Rightarrow> c)"

definition ScheduleManualResetWatchdog :: "u32 \<Rightarrow> u32 \<Rightarrow> BusResetCoordinator \<Rightarrow> BusResetCoordinator" where
  "ScheduleManualResetWatchdog manualEpoch resetEpoch c =
     (if \<not> dp_workQueue (br_deps c) then c else dispatch (WatchdogJob manualEpoch resetEpoch) c)"

definition DispatchSoftwareReset ::
  "StepEnv \<Rightarrow> ResetRequest \<Rightarrow> BusResetCoordinator \<Rightarrow> bool \<times> BusResetCoordinator" where
  "DispatchSoftwareReset e request c =
     (if \<not> dp_hardware (br_deps c) then (False, c)
      else
        let carriesDelegation = (case rq_phyConfig request of None \<Rightarrow> False
              | Some command \<Rightarrow> cmd_forceRootNodeID command \<noteq> None \<or> cmd_setContender command \<noteq> None);
            c = map_diag (\<lambda>d. d\<lparr>rd_lastResetKind := rq_kind request\<rparr>) c;
            (applied, c) = ApplySoftwareResetPhyConfig e request carriesDelegation c
        in if \<not> applied then (False, c)
           else
             let c = emit [InitiateBusReset (rq_flavor request) (en_now e ClkDispatch) (en_initiateOk e)] c
             in if \<not> en_initiateOk e
                then (False, ClearSoftwareResetTracking request carriesDelegation
                       (RecordRecoveryReasonCode SoftwareResetDispatchFailed
                         (RecordRecoveryReason (''Software reset dispatch failed: '' @ rq_reason request) c)))
                else
                  let c = NoteIssuedGapReset request c;
                      c = map_diag (\<lambda>d. d\<lparr>rd_softwareResetIssuedCount := rd_softwareResetIssuedCount d + 1\<rparr>) c
                  in (True, if rq_kind request = ManualBusManager
                            then ScheduleManualResetWatchdog (rd_manualResetEpoch (br_diag c))
                                   (rd_resetEpoch (br_diag c)) c
                            else c))"

definition MaybeDispatchPendingSoftwareReset ::
  "StepEnv \<Rightarrow> BusResetCoordinator \<Rightarrow> bool \<times> BusResetCoordinator" where
  "MaybeDispatchPendingSoftwareReset e c =
     (case cy_pendingReset (br_cycle c) of
        None \<Rightarrow> (False, c)
      | Some request \<Rightarrow>
          if \<not> dp_hardware (br_deps c) then (False, c)
          else
            let now = en_now e ClkDispatch;
                blockedUntil = rt_softwareResetBlockedUntilNs (cy_timing (br_cycle c))
            in if blockedUntil \<noteq> 0 \<and> now < blockedUntil
               then
                 let remainingNs = blockedUntil - now;
                     remainingMs = ucast ((remainingNs + 999999) div 1000000) :: u32
                 in (True, YieldAndReschedule remainingMs c)
               else DispatchSoftwareReset e request (map_cycle (\<lambda>y. y\<lparr>cy_pendingReset := None\<rparr>) c))"

section \<open>Requests\<close>

definition MaybeRecoverMissingManualResetIrq :: "u32 \<Rightarrow> u32 \<Rightarrow> BusResetCoordinator \<Rightarrow> BusResetCoordinator"
  where
  "MaybeRecoverMissingManualResetIrq manualEpoch resetEpoch c =
     (if manualEpoch \<noteq> rd_manualResetEpoch (br_diag c) \<or> resetEpoch \<noteq> rd_resetEpoch (br_diag c) then c
      else if rd_recoveryResetAttempts (br_diag c) \<ge> kMaxManualRecoveryResetAttempts
      then RecordRecoveryReasonCode ManualResetWatchdog
             (RecordRecoveryReason ''Manual reset watchdog reached bounded recovery limit'' c)
      else
        let c = map_diag (\<lambda>d. d\<lparr>rd_recoveryResetAttempts := rd_recoveryResetAttempts d + 1\<rparr>) c;
            c = RecordRecoveryReasonCode ManualResetWatchdog
                  (RecordRecoveryReason ''Manual reset watchdog did not observe busReset IRQ/topology'' c)
        in RequestSoftwareReset \<lparr>rq_kind = Recovery, rq_flavor = ShortReset, rq_phyConfig = None,
             rq_reason = ''Manual reset watchdog recovery'', rq_gapDecisionReason = None\<rparr> c)"

definition RequestUserReset :: "bool \<Rightarrow> string \<Rightarrow> BusResetCoordinator \<Rightarrow> BusResetCoordinator" where
  "RequestUserReset shortReset reason c =
     RequestSoftwareReset \<lparr>rq_kind = ManualBusManager,
         rq_flavor = (if shortReset then ShortReset else LongReset), rq_phyConfig = None,
         rq_reason = reason, rq_gapDecisionReason = None\<rparr>
       (map_diag (\<lambda>d. d\<lparr>rd_manualResetEpoch := rd_manualResetEpoch d + 1, rd_recoveryResetAttempts := 0\<rparr>) c)"

definition RequestConfigRomRestageReset :: "string option \<Rightarrow> BusResetCoordinator \<Rightarrow> BusResetCoordinator" where
  "RequestConfigRomRestageReset reason =
     RequestSoftwareReset \<lparr>rq_kind = RolePolicyRestage, rq_flavor = LongReset, rq_phyConfig = None,
       rq_reason = (case reason of Some r \<Rightarrow> r | None \<Rightarrow> ''Config ROM re-stage''),
       rq_gapDecisionReason = None\<rparr>"

definition RequestRolePolicyReset ::
  "nat \<Rightarrow> bool \<Rightarrow> nat option \<Rightarrow> bool option \<Rightarrow> string \<Rightarrow> BusResetCoordinator \<Rightarrow> BusResetCoordinator" where
  "RequestRolePolicyReset targetRoot longReset gapCount setContender reason =
     RequestSoftwareReset \<lparr>rq_kind = Delegation,
       rq_flavor = (if longReset then LongReset else ShortReset),
       rq_phyConfig = Some \<lparr>cmd_gapCount = gapCount, cmd_forceRootNodeID = Some targetRoot,
          cmd_setContender = setContender\<rparr>,
       rq_reason = (if reason = [] then ''RoleCoordinator'' else reason), rq_gapDecisionReason = None\<rparr>"

section \<open>Late Self-ID completions\<close>

definition HandleStraySelfID :: "StepEnv \<Rightarrow> BusResetCoordinator \<Rightarrow> BusResetCoordinator" where
  "HandleStraySelfID e c =
     (if \<not> HasSelfIDCompletion c then c
      else if \<not> CanAttemptSelfIDDecode e c then ClearConsumedSelfIDInterrupts e c
      else
        let (decoded, c) = DecodeSelfID e c;
            c = ClearConsumedSelfIDInterrupts e c
        in if decoded then rc_TransitionTo (en_now e ClkTransition) QuiescingAT c else c)"

section \<open>Discovery\<close>

definition ReadyForDiscovery :: "StepEnv \<Rightarrow> u32 \<Rightarrow> BusResetCoordinator \<Rightarrow> bool \<times> BusResetCoordinator" where
  "ReadyForDiscovery e gen c =
     (let nodeValid = G_NodeIDValid e c;
          genMatch = (gen = br_lastGeneration c);
          hasTopo = (cy_acceptedTopology (br_cycle c) \<noteq> None);
          ready = (nodeValid \<and> br_filtersEnabled c \<and> br_atArmed c \<and> hasTopo \<and> genMatch);
          failureBits = (if \<not> nodeValid then 1 else 0) OR (if \<not> br_filtersEnabled c then 2 else 0)
            OR (if \<not> br_atArmed c then 4 else 0) OR (if \<not> hasTopo then 8 else 0)
            OR (if \<not> genMatch then 16 else 0);
          c = map_diag (\<lambda>d. d\<lparr>rd_readyForDiscoveryFailureBits := failureBits\<rparr>) c
      in (ready, if \<not> ready then RecordRecoveryReasonCode ReadyForDiscoveryFailed c else c))"

definition SetPreviousScanHadBusyNodes :: "bool \<Rightarrow> BusResetCoordinator \<Rightarrow> BusResetCoordinator" where
  "SetPreviousScanHadBusyNodes busy c =
     (let delay = br_currentDiscoveryDelayMs c;
          delay = (if busy
                   then (if delay < kMaxDiscoveryDelayMs
                         then min (delay + kDiscoveryDelayStepMs) kMaxDiscoveryDelayMs else delay)
                   else 0)
      in c\<lparr>br_currentDiscoveryDelayMs := delay, br_previousScanHadBusyNodes := busy\<rparr>)"

definition EscalateDiscoveryDelay :: "BusResetCoordinator \<Rightarrow> BusResetCoordinator" where
  "EscalateDiscoveryDelay c =
     (if br_previousScanHadBusyNodes c \<and> br_currentDiscoveryDelayMs c < kMaxDiscoveryDelayMs
      then c\<lparr>br_currentDiscoveryDelayMs :=
             min (br_currentDiscoveryDelayMs c + kDiscoveryDelayStepMs) kMaxDiscoveryDelayMs\<rparr>
      else c)"

section \<open>Decoded captures\<close>

lemma seq_chain_within: "seq_chain a b seqs \<Longrightarrow> (s, n) \<in> set seqs \<Longrightarrow> 0 < n \<and> s + n \<le> b"
proof (induction seqs arbitrary: a)
  case (Cons x seqs)
  then show ?case by (cases x) (auto dest: seq_chain_le)
qed simp

lemma Decode_sequences:
  assumes "Decode reg reg2 c = Inr r"
  shows "res_valid r \<and> list_all (seq_in (res_quads r)) (res_sequences r)
    \<and> res_generation r = drop_bit 16 (reg AND kGenerationMask)"
proof -
  let ?g = "drop_bit 16 (reg AND kGenerationMask)"
  from assms obtain raw quads where n: "NormalizeSelfIDQuadlets raw reg ?g = Inr quads"
    and d: "decode_quads reg ?g quads = Inr r"
    by (auto simp: Decode_def Let_def ebind_eq_Inr split: option.splits if_splits)
  from n obtain h qs where quads: "quads = h # qs" "qs \<noteq> []"
    unfolding NormalizeSelfIDQuadlets_iff by blast
  with d obtain seqs where s: "decode_loop quads \<lparr>cursor = Some 1, quadlet_count = length qs\<rparr> [] = Some seqs"
    and r: "r = \<lparr>res_quads = quads, res_sequences = seqs, res_generation = ?g, res_valid = True,
      res_timedOut = False, res_crcError = False\<rparr>"
    by (auto simp: decode_quads_def Let_def split: option.splits)
  from s have "seq_chain 1 (1 + length qs) seqs"
    using decode_loop_iff [where e = "\<lparr>cursor = Some 1, quadlet_count = length qs\<rparr>" and c = 1] by auto
  with r quads show ?thesis by (auto simp: list_all_iff seq_in_def dest!: seq_chain_within)
qed

text \<open>On a decoded capture the topology manager always answers.\<close>

lemma BuildTopology_answers:
  assumes "Decode reg reg2 capture = Inr r"
  shows "UpdateFromSelfID r t nodeIDReg m \<noteq> None"
  using Decode_sequences [OF assms] UpdateFromSelfID_answers [where r = r and t = t and reg = nodeIDReg and m = m] by (auto split: option.splits)

end
