(* ===== verification/Bus_Reset_FSM.thy ===== *)
theory Bus_Reset_FSM
  imports Bus_Reset_Actions
begin

text \<open>
  \<^verbatim>\<open>Bus/BusResetCoordinatorFSM.cpp\<close>: one definition per state of the machine, the loop that runs it,
  and the blocks of the work queue. An interrupt can arrive before every step of a run. Blocks run
  one at a time, in the order in which they were dispatched.
\<close>

section \<open>Setting up and interrupts\<close>

definition rc_Initialize ::
  "Dependencies \<Rightarrow> SelfIDCapture option \<Rightarrow> TopologyManager option \<Rightarrow> BusManager option
    \<Rightarrow> BusResetCoordinator \<Rightarrow> BusResetCoordinator" where
  "rc_Initialize deps capture topology busManager c =
     (let c = c\<lparr>br_deps := deps\<lparr>dp_topologyCallback := dp_topologyCallback (br_deps c)\<rparr>,
            br_selfIdCapture := capture, br_topologyManager := topology, br_busManager := busManager,
            br_state := Idle, br_selfIdLatch := latch_Reset, br_pendingBusResetEdge := False,
            br_cycle := ResetCycleState0,
            br_delegation := \<lparr>dl_attemptActive = False, dl_target = 0xFF, dl_retryCount = 0,
              dl_suppressed = False\<rparr>,
            br_stopFlushIssued := False\<rparr>
      in if dp_topologyMapService deps then emit [InvalidateTopologyMap] c else c)"

definition rc_OnIrq :: "u32 \<Rightarrow> u64 \<Rightarrow> BusResetCoordinator \<Rightarrow> BusResetCoordinator" where
  "rc_OnIrq intEvent timestamp c =
     (let reset = (intEvent AND kBusReset \<noteq> 0);
          complete = (intEvent AND kSelfIDComplete \<noteq> 0);
          sticky = (intEvent AND kSelfIDComplete2 \<noteq> 0);
          c = (if reset
               then map_diag (\<lambda>d. d\<lparr>rd_busResetIrqCount := rd_busResetIrqCount d + 1\<rparr>)
                      ((map_cycle (\<lambda>y. y\<lparr>cy_timing := (cy_timing y)\<lparr>rt_lastBusResetEdgeNs := timestamp\<rparr>\<rparr>) c)
                        \<lparr>br_pendingBusResetEdge := True\<rparr>)
               else c);
          c = (if complete
               then c\<lparr>br_selfIdLatch := (br_selfIdLatch c)\<lparr>sl_complete := True,
                      sl_completeTimeNs := timestamp\<rparr>\<rparr> else c);
          c = (if sticky
               then c\<lparr>br_selfIdLatch := (br_selfIdLatch c)\<lparr>sl_stickyComplete := True,
                      sl_stickyCompleteTimeNs := timestamp\<rparr>\<rparr> else c)
      in if \<not> (reset \<or> complete \<or> sticky) \<or> \<not> dp_workQueue (br_deps c) then c
         else dispatch RunJob c)"

section \<open>The states\<close>

definition BeginNewResetCycle :: "StepEnv \<Rightarrow> BusResetCoordinator \<Rightarrow> BusResetCoordinator" where
  "BeginNewResetCycle e c =
     (let c = c\<lparr>br_pendingBusResetEdge := False, br_selfIdLatch := latch_Reset,
            br_stopFlushIssued := False, br_filtersEnabled := False, br_atArmed := False\<rparr>;
          c = map_cycle ResetForNewEdge c;
          c = c\<lparr>br_postResetTiming := prt_OnBusResetStarted (br_lastGeneration c) (en_now e ClkResetStarted)\<rparr>;
          c = map_diag (\<lambda>d. d\<lparr>rd_resetEpoch := rd_resetEpoch d + 1, rd_readyForDiscoveryFailureBits := 0\<rparr>) c;
          c = (if dp_romScanner (br_deps c) \<and> br_lastGeneration c > 0
               then emit [AbortScan (br_lastGeneration c)]
                      (map_metrics (\<lambda>m. m\<lparr>mt_abortCount := mt_abortCount m + 1\<rparr>) c)
               else c);
          c = c\<lparr>br_topologyManager := map_option InvalidateForBusReset (br_topologyManager c)\<rparr>;
          c = (if dp_topologyMapService (br_deps c) then emit [InvalidateTopologyMap] c else c);
          c = rc_TransitionTo (en_now e ClkDetecting) Detecting c;
          c = MaskBusReset c
      in ClearStaleSelfIDComplete2 e c)"

definition StepIdle :: "StepEnv \<Rightarrow> BusResetCoordinator \<Rightarrow> StepResult \<times> BusResetCoordinator" where
  "StepIdle e c =
     (let c = (if HasSelfIDCompletion c then HandleStraySelfID e c else c) in
      if br_state c \<noteq> Idle then (StepContinue, c)
      else
        let c = ForceUnmaskBusResetIfNeeded c in
        if cy_pendingReset (br_cycle c) \<noteq> None
        then (StepFinish, snd (MaybeDispatchPendingSoftwareReset e c))
        else (StepFinish, c))"

definition StepDetecting :: "StepEnv \<Rightarrow> BusResetCoordinator \<Rightarrow> StepResult \<times> BusResetCoordinator" where
  "StepDetecting e c =
     (StepContinue, rc_TransitionTo (en_now e ClkTransition) WaitingSelfID (ArmSelfIDBuffer e c))"

definition recovery_request :: "string \<Rightarrow> ResetRequest" where
  "recovery_request reason = \<lparr>rq_kind = Recovery, rq_flavor = ShortReset, rq_phyConfig = None,
     rq_reason = reason, rq_gapDecisionReason = None\<rparr>"

definition StepWaitingSelfID :: "StepEnv \<Rightarrow> BusResetCoordinator \<Rightarrow> StepResult \<times> BusResetCoordinator" where
  "StepWaitingSelfID e c =
     (if CanAttemptSelfIDDecode e c
      then
        let completionTime = (if sl_complete (br_selfIdLatch c) then sl_completeTimeNs (br_selfIdLatch c)
              else sl_stickyCompleteTimeNs (br_selfIdLatch c));
            c = ArmSoftwareResetHoldoffAfterSelfIDCompletion completionTime c;
            (decoded, c) = DecodeSelfID e c;
            c = ClearConsumedSelfIDInterrupts e c;
            c = (if decoded
                 then c\<lparr>br_postResetTiming := prt_OnSelfIDComplete (br_lastGeneration c) completionTime\<rparr>
                 else RequestSoftwareReset (recovery_request ''Self-ID decode failed'')
                        (RecordRecoveryReasonCode SelfIDDecodeFailed c))
        in (StepContinue, rc_TransitionTo (en_now e ClkTransition) QuiescingAT c)
      else if en_now e ClkWaited - br_stateEntryTime c \<ge> kSelfIDTimeoutNs
      then
        let c = RecordRecoveryReasonCode SelfIDTimeout (RecordRecoveryReason ''Self-ID timeout'' c);
            c = ClearConsumedSelfIDInterrupts e c;
            c = RequestSoftwareReset (recovery_request ''Self-ID timeout'') c
        in (StepContinue, rc_TransitionTo (en_now e ClkTransition) QuiescingAT c)
      else (StepYield, YieldAndReschedule kDeferredPollMs c))"

definition StepQuiescingAT :: "StepEnv \<Rightarrow> BusResetCoordinator \<Rightarrow> StepResult \<times> BusResetCoordinator" where
  "StepQuiescingAT e c =
     (let c = (if \<not> br_stopFlushIssued c then (StopFlushAT c)\<lparr>br_stopFlushIssued := True\<rparr> else c);
          (inactive, c) = G_ATInactive e c
      in if inactive then (StepContinue, rc_TransitionTo (en_now e ClkTransition) RestoringConfigROM c)
         else (StepYield, YieldAndReschedule kDeferredPollMs c))"

definition MaybeRequestTopologyDrivenReset :: "BusResetCoordinator \<Rightarrow> BusResetCoordinator" where
  "MaybeRequestTopologyDrivenReset c =
     (case (cy_acceptedTopology (br_cycle c), br_busManager c, cy_acceptedSelfId (br_cycle c)) of
        (Some topology, Some busManager, Some selfId) \<Rightarrow>
          (case EvaluateGapPolicy topology (res_quads selfId) busManager of
             None \<Rightarrow> c
           | Some gapDecision \<Rightarrow>
               if gd_reason gapDecision \<noteq> MismatchForce63 then c
               else RequestSoftwareReset \<lparr>rq_kind = GapCorrection, rq_flavor = LongReset,
                      rq_phyConfig = Some (PhyConfigCommand0\<lparr>cmd_gapCount := Some (gd_gapCount gapDecision)\<rparr>),
                      rq_reason = GapDecisionReasonString (gd_reason gapDecision),
                      rq_gapDecisionReason = Some (gd_reason gapDecision)\<rparr> c)
      | _ \<Rightarrow> c)"

definition StepRestoringConfigROM :: "StepEnv \<Rightarrow> BusResetCoordinator \<Rightarrow> StepResult \<times> BusResetCoordinator"
  where
  "StepRestoringConfigROM e c =
     (let c = RestoreConfigROM e c;
          c = snd (BuildTopology e c);
          c = (if cy_acceptedTopology (br_cycle c) \<noteq> None then MaybeRequestTopologyDrivenReset c else c)
      in (StepContinue, rc_TransitionTo (en_now e ClkTransition) ClearingBusReset c))"

definition StepClearingBusReset :: "StepEnv \<Rightarrow> BusResetCoordinator \<Rightarrow> StepResult \<times> BusResetCoordinator"
  where
  "StepClearingBusReset e c =
     (let (inactive, c) = G_ATInactive e c in
      if inactive
      then (StepContinue, rc_TransitionTo (en_now e ClkTransition) Rearming (UnmaskBusReset (ClearBusReset e c)))
      else (StepYield, YieldAndReschedule kDeferredPollMs c))"

definition StepRearming :: "StepEnv \<Rightarrow> BusResetCoordinator \<Rightarrow> StepResult \<times> BusResetCoordinator" where
  "StepRearming e c =
     (if \<not> G_NodeIDValid e c then (StepYield, YieldAndReschedule kDeferredPollMs c)
      else
        let c = (if dp_hardware (br_deps c) then c\<lparr>br_wasRoot := G_IsRoot e c\<rparr> else c);
            c = EnableFilters e c;
            c = RearmAT c;
            c = (if dp_asyncSubsystem (br_deps c) \<and> br_lastGeneration c \<le> 0xFF
                 then emit [OnBusResetComplete (ucast (br_lastGeneration c))] c else c)
        in (StepContinue, rc_TransitionTo (en_now e ClkTransition) ResetComplete c))"

definition StepComplete :: "StepEnv \<Rightarrow> BusResetCoordinator \<Rightarrow> StepResult \<times> BusResetCoordinator" where
  "StepComplete e c =
     (let c = LogMetrics e c in
      if cy_pendingReset (br_cycle c) \<noteq> None
      then (StepFinish,
            snd (MaybeDispatchPendingSoftwareReset e (rc_TransitionTo (en_now e ClkTransition) Idle c)))
      else
        let c = rc_TransitionTo (en_now e ClkTransition) Idle c
        in (StepFinish,
            case cy_acceptedTopology (br_cycle c) of
              None \<Rightarrow> c
            | Some topo \<Rightarrow>
                if dp_topologyCallback (br_deps c) \<and> dp_workQueue (br_deps c)
                then
                  let delayMs = (if br_previousScanHadBusyNodes c \<and> br_currentDiscoveryDelayMs c > 0
                        then max kAppleScanBusDelayMs (br_currentDiscoveryDelayMs c) else kAppleScanBusDelayMs)
                  in dispatch (DiscoveryJob delayMs topo) c
                else c))"

section \<open>The loop\<close>

definition fsm_step :: "StepEnv \<Rightarrow> BusResetCoordinator \<Rightarrow> StepResult \<times> BusResetCoordinator" where
  "fsm_step e c =
     (case br_state c of
        Idle \<Rightarrow> StepIdle e c
      | Detecting \<Rightarrow> StepDetecting e c
      | WaitingSelfID \<Rightarrow> StepWaitingSelfID e c
      | QuiescingAT \<Rightarrow> StepQuiescingAT e c
      | RestoringConfigROM \<Rightarrow> StepRestoringConfigROM e c
      | ClearingBusReset \<Rightarrow> StepClearingBusReset e c
      | Rearming \<Rightarrow> StepRearming e c
      | ResetComplete \<Rightarrow> StepComplete e c)"

text \<open>One turn of the loop: an interrupt that has arrived meanwhile, the check for a new edge, one step.\<close>

definition interrupted :: "StepEnv \<Rightarrow> BusResetCoordinator \<Rightarrow> BusResetCoordinator" where
  "interrupted e c = (case en_irq e of Some (intEvent, timestamp) \<Rightarrow> rc_OnIrq intEvent timestamp c | None \<Rightarrow> c)"

definition iteration :: "StepEnv \<Rightarrow> BusResetCoordinator \<Rightarrow> StepResult \<times> BusResetCoordinator" where
  "iteration e c =
     (let c = interrupted e c;
          c = (if br_pendingBusResetEdge c then BeginNewResetCycle e c else c)
      in fsm_step e c)"

text \<open>\<open>fsm_loop n env i c\<close>: at most \<open>n\<close> more turns, the next one being turn \<open>i\<close> of the run.\<close>

fun fsm_loop :: "nat \<Rightarrow> (nat \<Rightarrow> StepEnv) \<Rightarrow> nat \<Rightarrow> BusResetCoordinator \<Rightarrow> BusResetCoordinator" where
  "fsm_loop 0 env i c = CompleteCurrentRun (YieldAndReschedule kDeferredPollMs c)"
| "fsm_loop (Suc n) env i c =
     (case iteration (env i) c of
        (StepContinue, c) \<Rightarrow> fsm_loop n env (Suc i) c
      | (_, c) \<Rightarrow> CompleteCurrentRun c)"

definition kMaxIterations :: nat where "kMaxIterations = 12"

definition RunStateMachine :: "(nat \<Rightarrow> StepEnv) \<Rightarrow> BusResetCoordinator \<Rightarrow> BusResetCoordinator" where
  "RunStateMachine env c =
     (if br_workInProgress c then c
      else
        let c = c\<lparr>br_workInProgress := True\<rparr> in
        if \<not> dp_hardware (br_deps c) then CompleteCurrentRun (ForceUnmaskBusResetIfNeeded c)
        else fsm_loop kMaxIterations env 0 c)"

section \<open>The work queue\<close>

text \<open>The block that \<open>StepComplete\<close> dispatches, after its sleep.\<close>

definition discovery_block :: "StepEnv \<Rightarrow> TopologySnapshot \<Rightarrow> BusResetCoordinator \<Rightarrow> BusResetCoordinator" where
  "discovery_block e topo c =
     (let (ready, c) = ReadyForDiscovery e (ts_generation topo) c in
      if ready
      then emit [TopologyCallback topo]
             (map_diag (\<lambda>d. d\<lparr>rd_discoveryCallbackCount :=
                of_nat (min (unat (rd_discoveryCallbackCount d) + 1) 0xFF)\<rparr>) c)
      else c)"

definition run_job :: "(nat \<Rightarrow> StepEnv) \<Rightarrow> Job \<Rightarrow> BusResetCoordinator \<Rightarrow> BusResetCoordinator" where
  "run_job env job c =
     (case job of
        RunJob \<Rightarrow> RunStateMachine env c
      | DeferredRunJob _ \<Rightarrow> RunStateMachine env (c\<lparr>br_deferredRunScheduled := False\<rparr>)
      | DiscoveryJob _ topo \<Rightarrow> discovery_block (env 0) topo c
      | WatchdogJob manualEpoch resetEpoch \<Rightarrow> MaybeRecoverMissingManualResetIrq manualEpoch resetEpoch c)"

text \<open>
  The actions on an initialized coordinator: interrupts, the calls of its clients, and the queue
  running its next block.
\<close>

datatype Action = Irq u32 u64 | UserReset bool string | RestageReset "string option"
  | RolePolicyReset nat bool "nat option" "bool option" string | DelegationRetryReset
  | ScanHadBusyNodes bool | EscalateDelay | NextJob "nat \<Rightarrow> StepEnv"

definition perform :: "Action \<Rightarrow> BusResetCoordinator \<Rightarrow> BusResetCoordinator" where
  "perform a c =
     (case a of
        Irq intEvent timestamp \<Rightarrow> rc_OnIrq intEvent timestamp c
      | UserReset short reason \<Rightarrow> RequestUserReset short reason c
      | RestageReset reason \<Rightarrow> RequestConfigRomRestageReset reason c
      | RolePolicyReset root long gap contender reason \<Rightarrow>
          RequestRolePolicyReset root long gap contender reason c
      | DelegationRetryReset \<Rightarrow> ResetDelegationRetryCounter c
      | ScanHadBusyNodes busy \<Rightarrow> SetPreviousScanHadBusyNodes busy c
      | EscalateDelay \<Rightarrow> EscalateDiscoveryDelay c
      | NextJob env \<Rightarrow>
          (case br_queue c of [] \<Rightarrow> c | job # rest \<Rightarrow> run_job env job (c\<lparr>br_queue := rest\<rparr>)))"

definition BusResetCoordinator0 :: "bool \<Rightarrow> BusResetCoordinator" where
  "BusResetCoordinator0 callback =
     \<lparr>br_state = Idle, br_stateEntryTime = 0, br_workInProgress = False, br_pendingBusResetEdge = False,
      br_stopFlushIssued = False, br_wasRoot = False,
      br_metrics = \<lparr>mt_lastResetStart = 0, mt_lastResetCompletion = 0, mt_resetCount = 0,
        mt_abortCount = 0, mt_lastFailureReason = None\<rparr>,
      br_firstIrqTime = 0, br_busResetClearTime = 0, br_deferredRunScheduled = False,
      br_deps = \<lparr>dp_hardware = False, dp_workQueue = False, dp_asyncSubsystem = False,
        dp_configRomStager = False, dp_interruptManager = False, dp_romScanner = False,
        dp_topologyMapService = False, dp_topologyCallback = callback\<rparr>,
      br_selfIdCapture = None, br_topologyManager = None, br_busManager = None,
      br_selfIdLatch = latch_Reset, br_cycle = ResetCycleState0,
      br_postResetTiming = PostResetTimingState0, br_busResetMasked = False, br_lastGeneration = 0,
      br_filtersEnabled = False, br_atArmed = False,
      br_delegation = \<lparr>dl_attemptActive = False, dl_target = 0xFF, dl_retryCount = 0, dl_suppressed = False\<rparr>,
      br_currentDiscoveryDelayMs = 0, br_previousScanHadBusyNodes = False,
      br_diag = \<lparr>rd_resetEpoch = 0, rd_manualResetEpoch = 0, rd_softwareResetIssuedCount = 0,
        rd_busResetIrqCount = 0, rd_lastAcceptedGeneration = 0, rd_lastTopologyNodeCount = 0,
        rd_readyForDiscoveryFailureBits = 0, rd_lastRecoveryReasonCode = ReasonNone,
        rd_lastResetKind = Recovery, rd_recoveryResetAttempts = 0, rd_discoveryCallbackCount = 0\<rparr>,
      br_queue = [], br_trace = []\<rparr>"

text \<open>Every state after \<open>Initialize\<close> with the hardware and a work queue.\<close>

inductive reachable_reset :: "BusResetCoordinator \<Rightarrow> bool" where
  initialized: "dp_hardware deps \<Longrightarrow> dp_workQueue deps \<Longrightarrow>
    reachable_reset (rc_Initialize deps capture topology busManager (BusResetCoordinator0 callback))"
| performed: "reachable_reset c \<Longrightarrow> reachable_reset (perform a c)"

end
