(* ===== verification/Bus_Reset_Frames.thy ===== *)
theory Bus_Reset_Frames
  imports Bus_Reset_FSM
begin

text \<open>
  Which members of the coordinator each operation leaves alone. These simplification rules carry the
  invariant proofs of the bus reset coordinator.
\<close>

abbreviation pending :: "BusResetCoordinator \<Rightarrow> ResetRequest option" where
  "pending c \<equiv> cy_pendingReset (br_cycle c)"

abbreviation blocked :: "BusResetCoordinator \<Rightarrow> u64" where
  "blocked c \<equiv> rt_softwareResetBlockedUntilNs (cy_timing (br_cycle c))"

lemma emit_frame [simp]:
  "br_cycle (emit evs c) = br_cycle c" "br_deps (emit evs c) = br_deps c"
  "br_state (emit evs c) = br_state c" "br_busResetMasked (emit evs c) = br_busResetMasked c"
  "br_pendingBusResetEdge (emit evs c) = br_pendingBusResetEdge c"
  "br_deferredRunScheduled (emit evs c) = br_deferredRunScheduled c"
  "br_workInProgress (emit evs c) = br_workInProgress c" "br_queue (emit evs c) = br_queue c"
  "br_selfIdLatch (emit evs c) = br_selfIdLatch c" "br_delegation (emit evs c) = br_delegation c"
  "br_lastGeneration (emit evs c) = br_lastGeneration c"
  "br_selfIdCapture (emit evs c) = br_selfIdCapture c"
  "br_topologyManager (emit evs c) = br_topologyManager c"
  "br_busManager (emit evs c) = br_busManager c"
  "br_stopFlushIssued (emit evs c) = br_stopFlushIssued c"
  "br_currentDiscoveryDelayMs (emit evs c) = br_currentDiscoveryDelayMs c"
  "br_previousScanHadBusyNodes (emit evs c) = br_previousScanHadBusyNodes c"
  "br_postResetTiming (emit evs c) = br_postResetTiming c"
  "br_filtersEnabled (emit evs c) = br_filtersEnabled c" "br_atArmed (emit evs c) = br_atArmed c"
  by (simp_all add: emit_def Let_def)

lemma dispatch_frame [simp]:
  "br_cycle (dispatch job c) = br_cycle c" "br_deps (dispatch job c) = br_deps c"
  "br_state (dispatch job c) = br_state c"
  "br_busResetMasked (dispatch job c) = br_busResetMasked c"
  "br_pendingBusResetEdge (dispatch job c) = br_pendingBusResetEdge c"
  "br_deferredRunScheduled (dispatch job c) = br_deferredRunScheduled c"
  "br_workInProgress (dispatch job c) = br_workInProgress c"
  "br_trace (dispatch job c) = br_trace c" "br_selfIdLatch (dispatch job c) = br_selfIdLatch c"
  "br_delegation (dispatch job c) = br_delegation c"
  "br_lastGeneration (dispatch job c) = br_lastGeneration c"
  "br_selfIdCapture (dispatch job c) = br_selfIdCapture c"
  "br_topologyManager (dispatch job c) = br_topologyManager c"
  "br_busManager (dispatch job c) = br_busManager c"
  "br_stopFlushIssued (dispatch job c) = br_stopFlushIssued c"
  "br_currentDiscoveryDelayMs (dispatch job c) = br_currentDiscoveryDelayMs c"
  "br_previousScanHadBusyNodes (dispatch job c) = br_previousScanHadBusyNodes c"
  "br_postResetTiming (dispatch job c) = br_postResetTiming c"
  "br_filtersEnabled (dispatch job c) = br_filtersEnabled c"
  "br_atArmed (dispatch job c) = br_atArmed c"
  by (simp_all add: dispatch_def Let_def)

lemma map_diag_frame [simp]:
  "br_cycle (map_diag f c) = br_cycle c" "br_deps (map_diag f c) = br_deps c"
  "br_state (map_diag f c) = br_state c" "br_busResetMasked (map_diag f c) = br_busResetMasked c"
  "br_pendingBusResetEdge (map_diag f c) = br_pendingBusResetEdge c"
  "br_deferredRunScheduled (map_diag f c) = br_deferredRunScheduled c"
  "br_workInProgress (map_diag f c) = br_workInProgress c" "br_queue (map_diag f c) = br_queue c"
  "br_trace (map_diag f c) = br_trace c" "br_selfIdLatch (map_diag f c) = br_selfIdLatch c"
  "br_delegation (map_diag f c) = br_delegation c"
  "br_lastGeneration (map_diag f c) = br_lastGeneration c"
  "br_selfIdCapture (map_diag f c) = br_selfIdCapture c"
  "br_topologyManager (map_diag f c) = br_topologyManager c"
  "br_busManager (map_diag f c) = br_busManager c"
  "br_stopFlushIssued (map_diag f c) = br_stopFlushIssued c"
  "br_currentDiscoveryDelayMs (map_diag f c) = br_currentDiscoveryDelayMs c"
  "br_previousScanHadBusyNodes (map_diag f c) = br_previousScanHadBusyNodes c"
  "br_postResetTiming (map_diag f c) = br_postResetTiming c"
  "br_filtersEnabled (map_diag f c) = br_filtersEnabled c"
  "br_atArmed (map_diag f c) = br_atArmed c"
  by (simp_all add: map_diag_def Let_def)

lemma map_metrics_frame [simp]:
  "br_cycle (map_metrics f c) = br_cycle c" "br_deps (map_metrics f c) = br_deps c"
  "br_state (map_metrics f c) = br_state c"
  "br_busResetMasked (map_metrics f c) = br_busResetMasked c"
  "br_pendingBusResetEdge (map_metrics f c) = br_pendingBusResetEdge c"
  "br_deferredRunScheduled (map_metrics f c) = br_deferredRunScheduled c"
  "br_workInProgress (map_metrics f c) = br_workInProgress c"
  "br_queue (map_metrics f c) = br_queue c" "br_trace (map_metrics f c) = br_trace c"
  "br_selfIdLatch (map_metrics f c) = br_selfIdLatch c"
  "br_delegation (map_metrics f c) = br_delegation c"
  "br_lastGeneration (map_metrics f c) = br_lastGeneration c"
  "br_selfIdCapture (map_metrics f c) = br_selfIdCapture c"
  "br_topologyManager (map_metrics f c) = br_topologyManager c"
  "br_busManager (map_metrics f c) = br_busManager c"
  "br_stopFlushIssued (map_metrics f c) = br_stopFlushIssued c"
  "br_currentDiscoveryDelayMs (map_metrics f c) = br_currentDiscoveryDelayMs c"
  "br_previousScanHadBusyNodes (map_metrics f c) = br_previousScanHadBusyNodes c"
  "br_postResetTiming (map_metrics f c) = br_postResetTiming c"
  "br_filtersEnabled (map_metrics f c) = br_filtersEnabled c"
  "br_atArmed (map_metrics f c) = br_atArmed c"
  by (simp_all add: map_metrics_def Let_def)

lemma map_cycle_frame [simp]:
  "br_deps (map_cycle f c) = br_deps c" "br_state (map_cycle f c) = br_state c"
  "br_busResetMasked (map_cycle f c) = br_busResetMasked c"
  "br_pendingBusResetEdge (map_cycle f c) = br_pendingBusResetEdge c"
  "br_deferredRunScheduled (map_cycle f c) = br_deferredRunScheduled c"
  "br_workInProgress (map_cycle f c) = br_workInProgress c" "br_queue (map_cycle f c) = br_queue c"
  "br_trace (map_cycle f c) = br_trace c" "br_selfIdLatch (map_cycle f c) = br_selfIdLatch c"
  "br_delegation (map_cycle f c) = br_delegation c"
  "br_lastGeneration (map_cycle f c) = br_lastGeneration c"
  "br_selfIdCapture (map_cycle f c) = br_selfIdCapture c"
  "br_topologyManager (map_cycle f c) = br_topologyManager c"
  "br_busManager (map_cycle f c) = br_busManager c"
  "br_stopFlushIssued (map_cycle f c) = br_stopFlushIssued c"
  "br_currentDiscoveryDelayMs (map_cycle f c) = br_currentDiscoveryDelayMs c"
  "br_previousScanHadBusyNodes (map_cycle f c) = br_previousScanHadBusyNodes c"
  "br_postResetTiming (map_cycle f c) = br_postResetTiming c"
  "br_filtersEnabled (map_cycle f c) = br_filtersEnabled c"
  "br_atArmed (map_cycle f c) = br_atArmed c"
  "br_cycle (map_cycle f c) = f (br_cycle c)"
  by (simp_all add: map_cycle_def Let_def)

lemma rc_TransitionTo_frame [simp]:
  "br_cycle (rc_TransitionTo now s c) = br_cycle c" "br_deps (rc_TransitionTo now s c) = br_deps c"
  "br_busResetMasked (rc_TransitionTo now s c) = br_busResetMasked c"
  "br_pendingBusResetEdge (rc_TransitionTo now s c) = br_pendingBusResetEdge c"
  "br_deferredRunScheduled (rc_TransitionTo now s c) = br_deferredRunScheduled c"
  "br_workInProgress (rc_TransitionTo now s c) = br_workInProgress c"
  "br_queue (rc_TransitionTo now s c) = br_queue c"
  "br_trace (rc_TransitionTo now s c) = br_trace c"
  "br_selfIdLatch (rc_TransitionTo now s c) = br_selfIdLatch c"
  "br_delegation (rc_TransitionTo now s c) = br_delegation c"
  "br_lastGeneration (rc_TransitionTo now s c) = br_lastGeneration c"
  "br_selfIdCapture (rc_TransitionTo now s c) = br_selfIdCapture c"
  "br_topologyManager (rc_TransitionTo now s c) = br_topologyManager c"
  "br_busManager (rc_TransitionTo now s c) = br_busManager c"
  "br_stopFlushIssued (rc_TransitionTo now s c) = br_stopFlushIssued c"
  "br_currentDiscoveryDelayMs (rc_TransitionTo now s c) = br_currentDiscoveryDelayMs c"
  "br_previousScanHadBusyNodes (rc_TransitionTo now s c) = br_previousScanHadBusyNodes c"
  "br_postResetTiming (rc_TransitionTo now s c) = br_postResetTiming c"
  "br_filtersEnabled (rc_TransitionTo now s c) = br_filtersEnabled c"
  "br_atArmed (rc_TransitionTo now s c) = br_atArmed c"
  by (simp_all add: rc_TransitionTo_def Let_def)

lemma YieldAndReschedule_frame [simp]:
  "br_cycle (YieldAndReschedule d c) = br_cycle c" "br_deps (YieldAndReschedule d c) = br_deps c"
  "br_state (YieldAndReschedule d c) = br_state c"
  "br_busResetMasked (YieldAndReschedule d c) = br_busResetMasked c"
  "br_pendingBusResetEdge (YieldAndReschedule d c) = br_pendingBusResetEdge c"
  "br_workInProgress (YieldAndReschedule d c) = br_workInProgress c"
  "br_trace (YieldAndReschedule d c) = br_trace c"
  "br_selfIdLatch (YieldAndReschedule d c) = br_selfIdLatch c"
  "br_delegation (YieldAndReschedule d c) = br_delegation c"
  "br_lastGeneration (YieldAndReschedule d c) = br_lastGeneration c"
  "br_selfIdCapture (YieldAndReschedule d c) = br_selfIdCapture c"
  "br_topologyManager (YieldAndReschedule d c) = br_topologyManager c"
  "br_busManager (YieldAndReschedule d c) = br_busManager c"
  "br_stopFlushIssued (YieldAndReschedule d c) = br_stopFlushIssued c"
  "br_currentDiscoveryDelayMs (YieldAndReschedule d c) = br_currentDiscoveryDelayMs c"
  "br_previousScanHadBusyNodes (YieldAndReschedule d c) = br_previousScanHadBusyNodes c"
  "br_postResetTiming (YieldAndReschedule d c) = br_postResetTiming c"
  "br_filtersEnabled (YieldAndReschedule d c) = br_filtersEnabled c"
  "br_atArmed (YieldAndReschedule d c) = br_atArmed c"
  by (simp_all add: YieldAndReschedule_def Let_def)

lemma CompleteCurrentRun_frame [simp]:
  "br_cycle (CompleteCurrentRun c) = br_cycle c" "br_deps (CompleteCurrentRun c) = br_deps c"
  "br_state (CompleteCurrentRun c) = br_state c"
  "br_busResetMasked (CompleteCurrentRun c) = br_busResetMasked c"
  "br_pendingBusResetEdge (CompleteCurrentRun c) = br_pendingBusResetEdge c"
  "br_deferredRunScheduled (CompleteCurrentRun c) = br_deferredRunScheduled c"
  "br_queue (CompleteCurrentRun c) = br_queue c" "br_trace (CompleteCurrentRun c) = br_trace c"
  "br_selfIdLatch (CompleteCurrentRun c) = br_selfIdLatch c"
  "br_delegation (CompleteCurrentRun c) = br_delegation c"
  "br_lastGeneration (CompleteCurrentRun c) = br_lastGeneration c"
  "br_selfIdCapture (CompleteCurrentRun c) = br_selfIdCapture c"
  "br_topologyManager (CompleteCurrentRun c) = br_topologyManager c"
  "br_busManager (CompleteCurrentRun c) = br_busManager c"
  "br_stopFlushIssued (CompleteCurrentRun c) = br_stopFlushIssued c"
  "br_currentDiscoveryDelayMs (CompleteCurrentRun c) = br_currentDiscoveryDelayMs c"
  "br_previousScanHadBusyNodes (CompleteCurrentRun c) = br_previousScanHadBusyNodes c"
  "br_postResetTiming (CompleteCurrentRun c) = br_postResetTiming c"
  "br_filtersEnabled (CompleteCurrentRun c) = br_filtersEnabled c"
  "br_atArmed (CompleteCurrentRun c) = br_atArmed c"
  by (simp_all add: CompleteCurrentRun_def Let_def)

lemma RecordRecoveryReason_frame [simp]:
  "br_deps (RecordRecoveryReason r c) = br_deps c"
  "br_state (RecordRecoveryReason r c) = br_state c"
  "br_busResetMasked (RecordRecoveryReason r c) = br_busResetMasked c"
  "br_pendingBusResetEdge (RecordRecoveryReason r c) = br_pendingBusResetEdge c"
  "br_deferredRunScheduled (RecordRecoveryReason r c) = br_deferredRunScheduled c"
  "br_workInProgress (RecordRecoveryReason r c) = br_workInProgress c"
  "br_queue (RecordRecoveryReason r c) = br_queue c"
  "br_trace (RecordRecoveryReason r c) = br_trace c"
  "pending (RecordRecoveryReason r c) = pending c" "blocked (RecordRecoveryReason r c) = blocked c"
  "br_selfIdLatch (RecordRecoveryReason r c) = br_selfIdLatch c"
  "br_delegation (RecordRecoveryReason r c) = br_delegation c"
  "br_lastGeneration (RecordRecoveryReason r c) = br_lastGeneration c"
  "br_selfIdCapture (RecordRecoveryReason r c) = br_selfIdCapture c"
  "br_topologyManager (RecordRecoveryReason r c) = br_topologyManager c"
  "br_busManager (RecordRecoveryReason r c) = br_busManager c"
  "br_stopFlushIssued (RecordRecoveryReason r c) = br_stopFlushIssued c"
  "br_currentDiscoveryDelayMs (RecordRecoveryReason r c) = br_currentDiscoveryDelayMs c"
  "br_previousScanHadBusyNodes (RecordRecoveryReason r c) = br_previousScanHadBusyNodes c"
  "br_postResetTiming (RecordRecoveryReason r c) = br_postResetTiming c"
  "br_filtersEnabled (RecordRecoveryReason r c) = br_filtersEnabled c"
  "br_atArmed (RecordRecoveryReason r c) = br_atArmed c"
  by (simp_all add: RecordRecoveryReason_def Let_def)

lemma RecordRecoveryReasonCode_frame [simp]:
  "br_cycle (RecordRecoveryReasonCode r c) = br_cycle c"
  "br_deps (RecordRecoveryReasonCode r c) = br_deps c"
  "br_state (RecordRecoveryReasonCode r c) = br_state c"
  "br_busResetMasked (RecordRecoveryReasonCode r c) = br_busResetMasked c"
  "br_pendingBusResetEdge (RecordRecoveryReasonCode r c) = br_pendingBusResetEdge c"
  "br_deferredRunScheduled (RecordRecoveryReasonCode r c) = br_deferredRunScheduled c"
  "br_workInProgress (RecordRecoveryReasonCode r c) = br_workInProgress c"
  "br_queue (RecordRecoveryReasonCode r c) = br_queue c"
  "br_trace (RecordRecoveryReasonCode r c) = br_trace c"
  "br_selfIdLatch (RecordRecoveryReasonCode r c) = br_selfIdLatch c"
  "br_delegation (RecordRecoveryReasonCode r c) = br_delegation c"
  "br_lastGeneration (RecordRecoveryReasonCode r c) = br_lastGeneration c"
  "br_selfIdCapture (RecordRecoveryReasonCode r c) = br_selfIdCapture c"
  "br_topologyManager (RecordRecoveryReasonCode r c) = br_topologyManager c"
  "br_busManager (RecordRecoveryReasonCode r c) = br_busManager c"
  "br_stopFlushIssued (RecordRecoveryReasonCode r c) = br_stopFlushIssued c"
  "br_currentDiscoveryDelayMs (RecordRecoveryReasonCode r c) = br_currentDiscoveryDelayMs c"
  "br_previousScanHadBusyNodes (RecordRecoveryReasonCode r c) = br_previousScanHadBusyNodes c"
  "br_postResetTiming (RecordRecoveryReasonCode r c) = br_postResetTiming c"
  "br_filtersEnabled (RecordRecoveryReasonCode r c) = br_filtersEnabled c"
  "br_atArmed (RecordRecoveryReasonCode r c) = br_atArmed c"
  by (simp_all add: RecordRecoveryReasonCode_def Let_def)

lemma MaskBusReset_frame [simp]:
  "br_cycle (MaskBusReset c) = br_cycle c" "br_deps (MaskBusReset c) = br_deps c"
  "br_state (MaskBusReset c) = br_state c"
  "br_pendingBusResetEdge (MaskBusReset c) = br_pendingBusResetEdge c"
  "br_deferredRunScheduled (MaskBusReset c) = br_deferredRunScheduled c"
  "br_workInProgress (MaskBusReset c) = br_workInProgress c"
  "br_queue (MaskBusReset c) = br_queue c" "br_selfIdLatch (MaskBusReset c) = br_selfIdLatch c"
  "br_delegation (MaskBusReset c) = br_delegation c"
  "br_lastGeneration (MaskBusReset c) = br_lastGeneration c"
  "br_selfIdCapture (MaskBusReset c) = br_selfIdCapture c"
  "br_topologyManager (MaskBusReset c) = br_topologyManager c"
  "br_busManager (MaskBusReset c) = br_busManager c"
  "br_stopFlushIssued (MaskBusReset c) = br_stopFlushIssued c"
  "br_currentDiscoveryDelayMs (MaskBusReset c) = br_currentDiscoveryDelayMs c"
  "br_previousScanHadBusyNodes (MaskBusReset c) = br_previousScanHadBusyNodes c"
  "br_postResetTiming (MaskBusReset c) = br_postResetTiming c"
  "br_filtersEnabled (MaskBusReset c) = br_filtersEnabled c"
  "br_atArmed (MaskBusReset c) = br_atArmed c"
  by (simp_all add: MaskBusReset_def Let_def)

lemma UnmaskBusReset_frame [simp]:
  "br_cycle (UnmaskBusReset c) = br_cycle c" "br_deps (UnmaskBusReset c) = br_deps c"
  "br_state (UnmaskBusReset c) = br_state c"
  "br_pendingBusResetEdge (UnmaskBusReset c) = br_pendingBusResetEdge c"
  "br_deferredRunScheduled (UnmaskBusReset c) = br_deferredRunScheduled c"
  "br_workInProgress (UnmaskBusReset c) = br_workInProgress c"
  "br_queue (UnmaskBusReset c) = br_queue c" "br_selfIdLatch (UnmaskBusReset c) = br_selfIdLatch c"
  "br_delegation (UnmaskBusReset c) = br_delegation c"
  "br_lastGeneration (UnmaskBusReset c) = br_lastGeneration c"
  "br_selfIdCapture (UnmaskBusReset c) = br_selfIdCapture c"
  "br_topologyManager (UnmaskBusReset c) = br_topologyManager c"
  "br_busManager (UnmaskBusReset c) = br_busManager c"
  "br_stopFlushIssued (UnmaskBusReset c) = br_stopFlushIssued c"
  "br_currentDiscoveryDelayMs (UnmaskBusReset c) = br_currentDiscoveryDelayMs c"
  "br_previousScanHadBusyNodes (UnmaskBusReset c) = br_previousScanHadBusyNodes c"
  "br_postResetTiming (UnmaskBusReset c) = br_postResetTiming c"
  "br_filtersEnabled (UnmaskBusReset c) = br_filtersEnabled c"
  "br_atArmed (UnmaskBusReset c) = br_atArmed c"
  by (simp_all add: UnmaskBusReset_def Let_def)

lemma ForceUnmaskBusResetIfNeeded_frame [simp]:
  "br_cycle (ForceUnmaskBusResetIfNeeded c) = br_cycle c"
  "br_deps (ForceUnmaskBusResetIfNeeded c) = br_deps c"
  "br_state (ForceUnmaskBusResetIfNeeded c) = br_state c"
  "br_pendingBusResetEdge (ForceUnmaskBusResetIfNeeded c) = br_pendingBusResetEdge c"
  "br_deferredRunScheduled (ForceUnmaskBusResetIfNeeded c) = br_deferredRunScheduled c"
  "br_workInProgress (ForceUnmaskBusResetIfNeeded c) = br_workInProgress c"
  "br_queue (ForceUnmaskBusResetIfNeeded c) = br_queue c"
  "br_selfIdLatch (ForceUnmaskBusResetIfNeeded c) = br_selfIdLatch c"
  "br_delegation (ForceUnmaskBusResetIfNeeded c) = br_delegation c"
  "br_lastGeneration (ForceUnmaskBusResetIfNeeded c) = br_lastGeneration c"
  "br_selfIdCapture (ForceUnmaskBusResetIfNeeded c) = br_selfIdCapture c"
  "br_topologyManager (ForceUnmaskBusResetIfNeeded c) = br_topologyManager c"
  "br_busManager (ForceUnmaskBusResetIfNeeded c) = br_busManager c"
  "br_stopFlushIssued (ForceUnmaskBusResetIfNeeded c) = br_stopFlushIssued c"
  "br_currentDiscoveryDelayMs (ForceUnmaskBusResetIfNeeded c) = br_currentDiscoveryDelayMs c"
  "br_previousScanHadBusyNodes (ForceUnmaskBusResetIfNeeded c) = br_previousScanHadBusyNodes c"
  "br_postResetTiming (ForceUnmaskBusResetIfNeeded c) = br_postResetTiming c"
  "br_filtersEnabled (ForceUnmaskBusResetIfNeeded c) = br_filtersEnabled c"
  "br_atArmed (ForceUnmaskBusResetIfNeeded c) = br_atArmed c"
  by (simp_all add: ForceUnmaskBusResetIfNeeded_def Let_def)

lemma ClearStaleSelfIDComplete2_frame [simp]:
  "br_cycle (ClearStaleSelfIDComplete2 e c) = br_cycle c"
  "br_deps (ClearStaleSelfIDComplete2 e c) = br_deps c"
  "br_state (ClearStaleSelfIDComplete2 e c) = br_state c"
  "br_busResetMasked (ClearStaleSelfIDComplete2 e c) = br_busResetMasked c"
  "br_pendingBusResetEdge (ClearStaleSelfIDComplete2 e c) = br_pendingBusResetEdge c"
  "br_deferredRunScheduled (ClearStaleSelfIDComplete2 e c) = br_deferredRunScheduled c"
  "br_workInProgress (ClearStaleSelfIDComplete2 e c) = br_workInProgress c"
  "br_queue (ClearStaleSelfIDComplete2 e c) = br_queue c"
  "br_delegation (ClearStaleSelfIDComplete2 e c) = br_delegation c"
  "br_lastGeneration (ClearStaleSelfIDComplete2 e c) = br_lastGeneration c"
  "br_selfIdCapture (ClearStaleSelfIDComplete2 e c) = br_selfIdCapture c"
  "br_topologyManager (ClearStaleSelfIDComplete2 e c) = br_topologyManager c"
  "br_busManager (ClearStaleSelfIDComplete2 e c) = br_busManager c"
  "br_stopFlushIssued (ClearStaleSelfIDComplete2 e c) = br_stopFlushIssued c"
  "br_currentDiscoveryDelayMs (ClearStaleSelfIDComplete2 e c) = br_currentDiscoveryDelayMs c"
  "br_previousScanHadBusyNodes (ClearStaleSelfIDComplete2 e c) = br_previousScanHadBusyNodes c"
  "br_postResetTiming (ClearStaleSelfIDComplete2 e c) = br_postResetTiming c"
  "br_filtersEnabled (ClearStaleSelfIDComplete2 e c) = br_filtersEnabled c"
  "br_atArmed (ClearStaleSelfIDComplete2 e c) = br_atArmed c"
  by (simp_all add: ClearStaleSelfIDComplete2_def Let_def)

lemma ClearConsumedSelfIDInterrupts_frame [simp]:
  "br_cycle (ClearConsumedSelfIDInterrupts e c) = br_cycle c"
  "br_deps (ClearConsumedSelfIDInterrupts e c) = br_deps c"
  "br_state (ClearConsumedSelfIDInterrupts e c) = br_state c"
  "br_busResetMasked (ClearConsumedSelfIDInterrupts e c) = br_busResetMasked c"
  "br_pendingBusResetEdge (ClearConsumedSelfIDInterrupts e c) = br_pendingBusResetEdge c"
  "br_deferredRunScheduled (ClearConsumedSelfIDInterrupts e c) = br_deferredRunScheduled c"
  "br_workInProgress (ClearConsumedSelfIDInterrupts e c) = br_workInProgress c"
  "br_queue (ClearConsumedSelfIDInterrupts e c) = br_queue c"
  "br_delegation (ClearConsumedSelfIDInterrupts e c) = br_delegation c"
  "br_lastGeneration (ClearConsumedSelfIDInterrupts e c) = br_lastGeneration c"
  "br_selfIdCapture (ClearConsumedSelfIDInterrupts e c) = br_selfIdCapture c"
  "br_topologyManager (ClearConsumedSelfIDInterrupts e c) = br_topologyManager c"
  "br_busManager (ClearConsumedSelfIDInterrupts e c) = br_busManager c"
  "br_stopFlushIssued (ClearConsumedSelfIDInterrupts e c) = br_stopFlushIssued c"
  "br_currentDiscoveryDelayMs (ClearConsumedSelfIDInterrupts e c) = br_currentDiscoveryDelayMs c"
  "br_previousScanHadBusyNodes (ClearConsumedSelfIDInterrupts e c) = br_previousScanHadBusyNodes c"
  "br_postResetTiming (ClearConsumedSelfIDInterrupts e c) = br_postResetTiming c"
  "br_filtersEnabled (ClearConsumedSelfIDInterrupts e c) = br_filtersEnabled c"
  "br_atArmed (ClearConsumedSelfIDInterrupts e c) = br_atArmed c"
  by (simp_all add: ClearConsumedSelfIDInterrupts_def Let_def)

lemma ArmSelfIDBuffer_frame [simp]:
  "br_cycle (ArmSelfIDBuffer e c) = br_cycle c" "br_deps (ArmSelfIDBuffer e c) = br_deps c"
  "br_state (ArmSelfIDBuffer e c) = br_state c"
  "br_busResetMasked (ArmSelfIDBuffer e c) = br_busResetMasked c"
  "br_pendingBusResetEdge (ArmSelfIDBuffer e c) = br_pendingBusResetEdge c"
  "br_deferredRunScheduled (ArmSelfIDBuffer e c) = br_deferredRunScheduled c"
  "br_workInProgress (ArmSelfIDBuffer e c) = br_workInProgress c"
  "br_queue (ArmSelfIDBuffer e c) = br_queue c"
  "br_selfIdLatch (ArmSelfIDBuffer e c) = br_selfIdLatch c"
  "br_delegation (ArmSelfIDBuffer e c) = br_delegation c"
  "br_lastGeneration (ArmSelfIDBuffer e c) = br_lastGeneration c"
  "br_topologyManager (ArmSelfIDBuffer e c) = br_topologyManager c"
  "br_busManager (ArmSelfIDBuffer e c) = br_busManager c"
  "br_stopFlushIssued (ArmSelfIDBuffer e c) = br_stopFlushIssued c"
  "br_currentDiscoveryDelayMs (ArmSelfIDBuffer e c) = br_currentDiscoveryDelayMs c"
  "br_previousScanHadBusyNodes (ArmSelfIDBuffer e c) = br_previousScanHadBusyNodes c"
  "br_postResetTiming (ArmSelfIDBuffer e c) = br_postResetTiming c"
  "br_filtersEnabled (ArmSelfIDBuffer e c) = br_filtersEnabled c"
  "br_atArmed (ArmSelfIDBuffer e c) = br_atArmed c"
  by (simp_all add: ArmSelfIDBuffer_def Let_def split: option.split prod.split)

lemma StopFlushAT_frame [simp]:
  "br_cycle (StopFlushAT c) = br_cycle c" "br_deps (StopFlushAT c) = br_deps c"
  "br_state (StopFlushAT c) = br_state c" "br_busResetMasked (StopFlushAT c) = br_busResetMasked c"
  "br_pendingBusResetEdge (StopFlushAT c) = br_pendingBusResetEdge c"
  "br_deferredRunScheduled (StopFlushAT c) = br_deferredRunScheduled c"
  "br_workInProgress (StopFlushAT c) = br_workInProgress c" "br_queue (StopFlushAT c) = br_queue c"
  "br_selfIdLatch (StopFlushAT c) = br_selfIdLatch c"
  "br_delegation (StopFlushAT c) = br_delegation c"
  "br_lastGeneration (StopFlushAT c) = br_lastGeneration c"
  "br_selfIdCapture (StopFlushAT c) = br_selfIdCapture c"
  "br_topologyManager (StopFlushAT c) = br_topologyManager c"
  "br_busManager (StopFlushAT c) = br_busManager c"
  "br_stopFlushIssued (StopFlushAT c) = br_stopFlushIssued c"
  "br_currentDiscoveryDelayMs (StopFlushAT c) = br_currentDiscoveryDelayMs c"
  "br_previousScanHadBusyNodes (StopFlushAT c) = br_previousScanHadBusyNodes c"
  "br_postResetTiming (StopFlushAT c) = br_postResetTiming c"
  "br_filtersEnabled (StopFlushAT c) = br_filtersEnabled c"
  "br_atArmed (StopFlushAT c) = br_atArmed c"
  by (simp_all add: StopFlushAT_def Let_def)

lemma DecodeSelfID_frame [simp]:
  "br_deps (snd (DecodeSelfID e c)) = br_deps c" "br_state (snd (DecodeSelfID e c)) = br_state c"
  "br_busResetMasked (snd (DecodeSelfID e c)) = br_busResetMasked c"
  "br_pendingBusResetEdge (snd (DecodeSelfID e c)) = br_pendingBusResetEdge c"
  "br_deferredRunScheduled (snd (DecodeSelfID e c)) = br_deferredRunScheduled c"
  "br_workInProgress (snd (DecodeSelfID e c)) = br_workInProgress c"
  "br_queue (snd (DecodeSelfID e c)) = br_queue c" "pending (snd (DecodeSelfID e c)) = pending c"
  "blocked (snd (DecodeSelfID e c)) = blocked c"
  "br_selfIdLatch (snd (DecodeSelfID e c)) = br_selfIdLatch c"
  "br_delegation (snd (DecodeSelfID e c)) = br_delegation c"
  "br_selfIdCapture (snd (DecodeSelfID e c)) = br_selfIdCapture c"
  "br_topologyManager (snd (DecodeSelfID e c)) = br_topologyManager c"
  "br_busManager (snd (DecodeSelfID e c)) = br_busManager c"
  "br_stopFlushIssued (snd (DecodeSelfID e c)) = br_stopFlushIssued c"
  "br_currentDiscoveryDelayMs (snd (DecodeSelfID e c)) = br_currentDiscoveryDelayMs c"
  "br_previousScanHadBusyNodes (snd (DecodeSelfID e c)) = br_previousScanHadBusyNodes c"
  "br_postResetTiming (snd (DecodeSelfID e c)) = br_postResetTiming c"
  "br_filtersEnabled (snd (DecodeSelfID e c)) = br_filtersEnabled c"
  "br_atArmed (snd (DecodeSelfID e c)) = br_atArmed c"
  by (simp_all add: DecodeSelfID_def Let_def split: option.split sum.split)

lemma topology_failed_frame [simp]:
  "br_deps (topology_failed err c) = br_deps c" "br_state (topology_failed err c) = br_state c"
  "br_busResetMasked (topology_failed err c) = br_busResetMasked c"
  "br_pendingBusResetEdge (topology_failed err c) = br_pendingBusResetEdge c"
  "br_deferredRunScheduled (topology_failed err c) = br_deferredRunScheduled c"
  "br_workInProgress (topology_failed err c) = br_workInProgress c"
  "br_queue (topology_failed err c) = br_queue c" "pending (topology_failed err c) = pending c"
  "blocked (topology_failed err c) = blocked c"
  "br_selfIdLatch (topology_failed err c) = br_selfIdLatch c"
  "br_delegation (topology_failed err c) = br_delegation c"
  "br_lastGeneration (topology_failed err c) = br_lastGeneration c"
  "br_selfIdCapture (topology_failed err c) = br_selfIdCapture c"
  "br_topologyManager (topology_failed err c) = br_topologyManager c"
  "br_busManager (topology_failed err c) = br_busManager c"
  "br_stopFlushIssued (topology_failed err c) = br_stopFlushIssued c"
  "br_currentDiscoveryDelayMs (topology_failed err c) = br_currentDiscoveryDelayMs c"
  "br_previousScanHadBusyNodes (topology_failed err c) = br_previousScanHadBusyNodes c"
  "br_postResetTiming (topology_failed err c) = br_postResetTiming c"
  "br_filtersEnabled (topology_failed err c) = br_filtersEnabled c"
  "br_atArmed (topology_failed err c) = br_atArmed c"
  by (simp_all add: topology_failed_def Let_def)

lemma topology_accepted_frame [simp]:
  "br_deps (topology_accepted s c) = br_deps c" "br_state (topology_accepted s c) = br_state c"
  "br_busResetMasked (topology_accepted s c) = br_busResetMasked c"
  "br_pendingBusResetEdge (topology_accepted s c) = br_pendingBusResetEdge c"
  "br_deferredRunScheduled (topology_accepted s c) = br_deferredRunScheduled c"
  "br_workInProgress (topology_accepted s c) = br_workInProgress c"
  "br_queue (topology_accepted s c) = br_queue c" "br_trace (topology_accepted s c) = br_trace c"
  "pending (topology_accepted s c) = pending c" "blocked (topology_accepted s c) = blocked c"
  "br_selfIdLatch (topology_accepted s c) = br_selfIdLatch c"
  "br_delegation (topology_accepted s c) = br_delegation c"
  "br_lastGeneration (topology_accepted s c) = br_lastGeneration c"
  "br_selfIdCapture (topology_accepted s c) = br_selfIdCapture c"
  "br_topologyManager (topology_accepted s c) = br_topologyManager c"
  "br_stopFlushIssued (topology_accepted s c) = br_stopFlushIssued c"
  "br_currentDiscoveryDelayMs (topology_accepted s c) = br_currentDiscoveryDelayMs c"
  "br_previousScanHadBusyNodes (topology_accepted s c) = br_previousScanHadBusyNodes c"
  "br_postResetTiming (topology_accepted s c) = br_postResetTiming c"
  "br_filtersEnabled (topology_accepted s c) = br_filtersEnabled c"
  "br_atArmed (topology_accepted s c) = br_atArmed c"
  by (simp_all add: topology_accepted_def Let_def split: option.split)

lemma BuildTopology_frame [simp]:
  "br_deps (snd (BuildTopology e c)) = br_deps c" "br_state (snd (BuildTopology e c)) = br_state c"
  "br_busResetMasked (snd (BuildTopology e c)) = br_busResetMasked c"
  "br_pendingBusResetEdge (snd (BuildTopology e c)) = br_pendingBusResetEdge c"
  "br_deferredRunScheduled (snd (BuildTopology e c)) = br_deferredRunScheduled c"
  "br_workInProgress (snd (BuildTopology e c)) = br_workInProgress c"
  "br_queue (snd (BuildTopology e c)) = br_queue c" "pending (snd (BuildTopology e c)) = pending c"
  "blocked (snd (BuildTopology e c)) = blocked c"
  "br_selfIdLatch (snd (BuildTopology e c)) = br_selfIdLatch c"
  "br_delegation (snd (BuildTopology e c)) = br_delegation c"
  "br_lastGeneration (snd (BuildTopology e c)) = br_lastGeneration c"
  "br_selfIdCapture (snd (BuildTopology e c)) = br_selfIdCapture c"
  "br_stopFlushIssued (snd (BuildTopology e c)) = br_stopFlushIssued c"
  "br_currentDiscoveryDelayMs (snd (BuildTopology e c)) = br_currentDiscoveryDelayMs c"
  "br_previousScanHadBusyNodes (snd (BuildTopology e c)) = br_previousScanHadBusyNodes c"
  "br_postResetTiming (snd (BuildTopology e c)) = br_postResetTiming c"
  "br_filtersEnabled (snd (BuildTopology e c)) = br_filtersEnabled c"
  "br_atArmed (snd (BuildTopology e c)) = br_atArmed c"
  by (simp_all add: BuildTopology_def Let_def split: option.split sum.split prod.split)

lemma RestoreConfigROM_frame [simp]:
  "br_cycle (RestoreConfigROM e c) = br_cycle c" "br_deps (RestoreConfigROM e c) = br_deps c"
  "br_state (RestoreConfigROM e c) = br_state c"
  "br_busResetMasked (RestoreConfigROM e c) = br_busResetMasked c"
  "br_pendingBusResetEdge (RestoreConfigROM e c) = br_pendingBusResetEdge c"
  "br_deferredRunScheduled (RestoreConfigROM e c) = br_deferredRunScheduled c"
  "br_workInProgress (RestoreConfigROM e c) = br_workInProgress c"
  "br_queue (RestoreConfigROM e c) = br_queue c"
  "br_selfIdLatch (RestoreConfigROM e c) = br_selfIdLatch c"
  "br_delegation (RestoreConfigROM e c) = br_delegation c"
  "br_lastGeneration (RestoreConfigROM e c) = br_lastGeneration c"
  "br_selfIdCapture (RestoreConfigROM e c) = br_selfIdCapture c"
  "br_topologyManager (RestoreConfigROM e c) = br_topologyManager c"
  "br_busManager (RestoreConfigROM e c) = br_busManager c"
  "br_stopFlushIssued (RestoreConfigROM e c) = br_stopFlushIssued c"
  "br_currentDiscoveryDelayMs (RestoreConfigROM e c) = br_currentDiscoveryDelayMs c"
  "br_previousScanHadBusyNodes (RestoreConfigROM e c) = br_previousScanHadBusyNodes c"
  "br_postResetTiming (RestoreConfigROM e c) = br_postResetTiming c"
  "br_filtersEnabled (RestoreConfigROM e c) = br_filtersEnabled c"
  "br_atArmed (RestoreConfigROM e c) = br_atArmed c"
  by (simp_all add: RestoreConfigROM_def Let_def)

lemma ClearBusReset_frame [simp]:
  "br_cycle (ClearBusReset e c) = br_cycle c" "br_deps (ClearBusReset e c) = br_deps c"
  "br_state (ClearBusReset e c) = br_state c"
  "br_busResetMasked (ClearBusReset e c) = br_busResetMasked c"
  "br_pendingBusResetEdge (ClearBusReset e c) = br_pendingBusResetEdge c"
  "br_deferredRunScheduled (ClearBusReset e c) = br_deferredRunScheduled c"
  "br_workInProgress (ClearBusReset e c) = br_workInProgress c"
  "br_queue (ClearBusReset e c) = br_queue c"
  "br_selfIdLatch (ClearBusReset e c) = br_selfIdLatch c"
  "br_delegation (ClearBusReset e c) = br_delegation c"
  "br_lastGeneration (ClearBusReset e c) = br_lastGeneration c"
  "br_selfIdCapture (ClearBusReset e c) = br_selfIdCapture c"
  "br_topologyManager (ClearBusReset e c) = br_topologyManager c"
  "br_busManager (ClearBusReset e c) = br_busManager c"
  "br_stopFlushIssued (ClearBusReset e c) = br_stopFlushIssued c"
  "br_currentDiscoveryDelayMs (ClearBusReset e c) = br_currentDiscoveryDelayMs c"
  "br_previousScanHadBusyNodes (ClearBusReset e c) = br_previousScanHadBusyNodes c"
  "br_postResetTiming (ClearBusReset e c) = br_postResetTiming c"
  "br_filtersEnabled (ClearBusReset e c) = br_filtersEnabled c"
  "br_atArmed (ClearBusReset e c) = br_atArmed c"
  by (simp_all add: ClearBusReset_def Let_def)

lemma EnableFilters_frame [simp]:
  "br_cycle (EnableFilters e c) = br_cycle c" "br_deps (EnableFilters e c) = br_deps c"
  "br_state (EnableFilters e c) = br_state c"
  "br_busResetMasked (EnableFilters e c) = br_busResetMasked c"
  "br_pendingBusResetEdge (EnableFilters e c) = br_pendingBusResetEdge c"
  "br_deferredRunScheduled (EnableFilters e c) = br_deferredRunScheduled c"
  "br_workInProgress (EnableFilters e c) = br_workInProgress c"
  "br_queue (EnableFilters e c) = br_queue c"
  "br_selfIdLatch (EnableFilters e c) = br_selfIdLatch c"
  "br_delegation (EnableFilters e c) = br_delegation c"
  "br_lastGeneration (EnableFilters e c) = br_lastGeneration c"
  "br_selfIdCapture (EnableFilters e c) = br_selfIdCapture c"
  "br_topologyManager (EnableFilters e c) = br_topologyManager c"
  "br_busManager (EnableFilters e c) = br_busManager c"
  "br_stopFlushIssued (EnableFilters e c) = br_stopFlushIssued c"
  "br_currentDiscoveryDelayMs (EnableFilters e c) = br_currentDiscoveryDelayMs c"
  "br_previousScanHadBusyNodes (EnableFilters e c) = br_previousScanHadBusyNodes c"
  "br_postResetTiming (EnableFilters e c) = br_postResetTiming c"
  "br_atArmed (EnableFilters e c) = br_atArmed c"
  by (simp_all add: EnableFilters_def Let_def)

lemma RearmAT_frame [simp]:
  "br_cycle (RearmAT c) = br_cycle c" "br_deps (RearmAT c) = br_deps c"
  "br_state (RearmAT c) = br_state c" "br_busResetMasked (RearmAT c) = br_busResetMasked c"
  "br_pendingBusResetEdge (RearmAT c) = br_pendingBusResetEdge c"
  "br_deferredRunScheduled (RearmAT c) = br_deferredRunScheduled c"
  "br_workInProgress (RearmAT c) = br_workInProgress c" "br_queue (RearmAT c) = br_queue c"
  "br_selfIdLatch (RearmAT c) = br_selfIdLatch c" "br_delegation (RearmAT c) = br_delegation c"
  "br_lastGeneration (RearmAT c) = br_lastGeneration c"
  "br_selfIdCapture (RearmAT c) = br_selfIdCapture c"
  "br_topologyManager (RearmAT c) = br_topologyManager c"
  "br_busManager (RearmAT c) = br_busManager c"
  "br_stopFlushIssued (RearmAT c) = br_stopFlushIssued c"
  "br_currentDiscoveryDelayMs (RearmAT c) = br_currentDiscoveryDelayMs c"
  "br_previousScanHadBusyNodes (RearmAT c) = br_previousScanHadBusyNodes c"
  "br_postResetTiming (RearmAT c) = br_postResetTiming c"
  "br_filtersEnabled (RearmAT c) = br_filtersEnabled c"
  by (simp_all add: RearmAT_def Let_def)

lemma LogMetrics_frame [simp]:
  "br_cycle (LogMetrics e c) = br_cycle c" "br_deps (LogMetrics e c) = br_deps c"
  "br_state (LogMetrics e c) = br_state c"
  "br_busResetMasked (LogMetrics e c) = br_busResetMasked c"
  "br_pendingBusResetEdge (LogMetrics e c) = br_pendingBusResetEdge c"
  "br_deferredRunScheduled (LogMetrics e c) = br_deferredRunScheduled c"
  "br_workInProgress (LogMetrics e c) = br_workInProgress c"
  "br_queue (LogMetrics e c) = br_queue c" "br_trace (LogMetrics e c) = br_trace c"
  "br_selfIdLatch (LogMetrics e c) = br_selfIdLatch c"
  "br_delegation (LogMetrics e c) = br_delegation c"
  "br_lastGeneration (LogMetrics e c) = br_lastGeneration c"
  "br_selfIdCapture (LogMetrics e c) = br_selfIdCapture c"
  "br_topologyManager (LogMetrics e c) = br_topologyManager c"
  "br_busManager (LogMetrics e c) = br_busManager c"
  "br_stopFlushIssued (LogMetrics e c) = br_stopFlushIssued c"
  "br_currentDiscoveryDelayMs (LogMetrics e c) = br_currentDiscoveryDelayMs c"
  "br_previousScanHadBusyNodes (LogMetrics e c) = br_previousScanHadBusyNodes c"
  "br_postResetTiming (LogMetrics e c) = br_postResetTiming c"
  "br_filtersEnabled (LogMetrics e c) = br_filtersEnabled c"
  "br_atArmed (LogMetrics e c) = br_atArmed c"
  by (simp_all add: LogMetrics_def Let_def)

lemma ArmSoftwareResetHoldoffAfterSelfIDCompletion_frame [simp]:
  "br_deps (ArmSoftwareResetHoldoffAfterSelfIDCompletion t c) = br_deps c"
  "br_state (ArmSoftwareResetHoldoffAfterSelfIDCompletion t c) = br_state c"
  "br_busResetMasked (ArmSoftwareResetHoldoffAfterSelfIDCompletion t c) = br_busResetMasked c"
  "br_pendingBusResetEdge (ArmSoftwareResetHoldoffAfterSelfIDCompletion t c) = br_pendingBusResetEdge c"
  "br_deferredRunScheduled (ArmSoftwareResetHoldoffAfterSelfIDCompletion t c) = br_deferredRunScheduled c"
  "br_workInProgress (ArmSoftwareResetHoldoffAfterSelfIDCompletion t c) = br_workInProgress c"
  "br_queue (ArmSoftwareResetHoldoffAfterSelfIDCompletion t c) = br_queue c"
  "pending (ArmSoftwareResetHoldoffAfterSelfIDCompletion t c) = pending c"
  "br_selfIdLatch (ArmSoftwareResetHoldoffAfterSelfIDCompletion t c) = br_selfIdLatch c"
  "br_delegation (ArmSoftwareResetHoldoffAfterSelfIDCompletion t c) = br_delegation c"
  "br_lastGeneration (ArmSoftwareResetHoldoffAfterSelfIDCompletion t c) = br_lastGeneration c"
  "br_selfIdCapture (ArmSoftwareResetHoldoffAfterSelfIDCompletion t c) = br_selfIdCapture c"
  "br_topologyManager (ArmSoftwareResetHoldoffAfterSelfIDCompletion t c) = br_topologyManager c"
  "br_busManager (ArmSoftwareResetHoldoffAfterSelfIDCompletion t c) = br_busManager c"
  "br_stopFlushIssued (ArmSoftwareResetHoldoffAfterSelfIDCompletion t c) = br_stopFlushIssued c"
  "br_currentDiscoveryDelayMs (ArmSoftwareResetHoldoffAfterSelfIDCompletion t c) = br_currentDiscoveryDelayMs c"
  "br_previousScanHadBusyNodes (ArmSoftwareResetHoldoffAfterSelfIDCompletion t c) = br_previousScanHadBusyNodes c"
  "br_postResetTiming (ArmSoftwareResetHoldoffAfterSelfIDCompletion t c) = br_postResetTiming c"
  "br_filtersEnabled (ArmSoftwareResetHoldoffAfterSelfIDCompletion t c) = br_filtersEnabled c"
  "br_atArmed (ArmSoftwareResetHoldoffAfterSelfIDCompletion t c) = br_atArmed c"
  by (simp_all add: ArmSoftwareResetHoldoffAfterSelfIDCompletion_def Let_def)

lemma add_pending_frame [simp]:
  "br_deps (add_pending r c) = br_deps c" "br_state (add_pending r c) = br_state c"
  "br_busResetMasked (add_pending r c) = br_busResetMasked c"
  "br_pendingBusResetEdge (add_pending r c) = br_pendingBusResetEdge c"
  "br_deferredRunScheduled (add_pending r c) = br_deferredRunScheduled c"
  "br_workInProgress (add_pending r c) = br_workInProgress c"
  "br_trace (add_pending r c) = br_trace c" "blocked (add_pending r c) = blocked c"
  "br_selfIdLatch (add_pending r c) = br_selfIdLatch c"
  "br_delegation (add_pending r c) = br_delegation c"
  "br_lastGeneration (add_pending r c) = br_lastGeneration c"
  "br_selfIdCapture (add_pending r c) = br_selfIdCapture c"
  "br_topologyManager (add_pending r c) = br_topologyManager c"
  "br_busManager (add_pending r c) = br_busManager c"
  "br_stopFlushIssued (add_pending r c) = br_stopFlushIssued c"
  "br_currentDiscoveryDelayMs (add_pending r c) = br_currentDiscoveryDelayMs c"
  "br_previousScanHadBusyNodes (add_pending r c) = br_previousScanHadBusyNodes c"
  "br_postResetTiming (add_pending r c) = br_postResetTiming c"
  "br_filtersEnabled (add_pending r c) = br_filtersEnabled c"
  "br_atArmed (add_pending r c) = br_atArmed c"
  by (simp_all add: add_pending_def Let_def)

lemma RequestSoftwareReset_frame [simp]:
  "br_deps (RequestSoftwareReset r c) = br_deps c"
  "br_state (RequestSoftwareReset r c) = br_state c"
  "br_busResetMasked (RequestSoftwareReset r c) = br_busResetMasked c"
  "br_pendingBusResetEdge (RequestSoftwareReset r c) = br_pendingBusResetEdge c"
  "br_deferredRunScheduled (RequestSoftwareReset r c) = br_deferredRunScheduled c"
  "br_workInProgress (RequestSoftwareReset r c) = br_workInProgress c"
  "br_trace (RequestSoftwareReset r c) = br_trace c"
  "blocked (RequestSoftwareReset r c) = blocked c"
  "br_selfIdLatch (RequestSoftwareReset r c) = br_selfIdLatch c"
  "br_lastGeneration (RequestSoftwareReset r c) = br_lastGeneration c"
  "br_selfIdCapture (RequestSoftwareReset r c) = br_selfIdCapture c"
  "br_topologyManager (RequestSoftwareReset r c) = br_topologyManager c"
  "br_busManager (RequestSoftwareReset r c) = br_busManager c"
  "br_stopFlushIssued (RequestSoftwareReset r c) = br_stopFlushIssued c"
  "br_currentDiscoveryDelayMs (RequestSoftwareReset r c) = br_currentDiscoveryDelayMs c"
  "br_previousScanHadBusyNodes (RequestSoftwareReset r c) = br_previousScanHadBusyNodes c"
  "br_postResetTiming (RequestSoftwareReset r c) = br_postResetTiming c"
  "br_filtersEnabled (RequestSoftwareReset r c) = br_filtersEnabled c"
  "br_atArmed (RequestSoftwareReset r c) = br_atArmed c"
  by (simp_all add: RequestSoftwareReset_def Let_def split: option.split ResetRequestKind.split)

lemma ClearDelegationAttempt_frame [simp]:
  "br_cycle (ClearDelegationAttempt c) = br_cycle c"
  "br_deps (ClearDelegationAttempt c) = br_deps c"
  "br_state (ClearDelegationAttempt c) = br_state c"
  "br_busResetMasked (ClearDelegationAttempt c) = br_busResetMasked c"
  "br_pendingBusResetEdge (ClearDelegationAttempt c) = br_pendingBusResetEdge c"
  "br_deferredRunScheduled (ClearDelegationAttempt c) = br_deferredRunScheduled c"
  "br_workInProgress (ClearDelegationAttempt c) = br_workInProgress c"
  "br_queue (ClearDelegationAttempt c) = br_queue c"
  "br_trace (ClearDelegationAttempt c) = br_trace c"
  "br_selfIdLatch (ClearDelegationAttempt c) = br_selfIdLatch c"
  "br_lastGeneration (ClearDelegationAttempt c) = br_lastGeneration c"
  "br_selfIdCapture (ClearDelegationAttempt c) = br_selfIdCapture c"
  "br_topologyManager (ClearDelegationAttempt c) = br_topologyManager c"
  "br_busManager (ClearDelegationAttempt c) = br_busManager c"
  "br_stopFlushIssued (ClearDelegationAttempt c) = br_stopFlushIssued c"
  "br_currentDiscoveryDelayMs (ClearDelegationAttempt c) = br_currentDiscoveryDelayMs c"
  "br_previousScanHadBusyNodes (ClearDelegationAttempt c) = br_previousScanHadBusyNodes c"
  "br_postResetTiming (ClearDelegationAttempt c) = br_postResetTiming c"
  "br_filtersEnabled (ClearDelegationAttempt c) = br_filtersEnabled c"
  "br_atArmed (ClearDelegationAttempt c) = br_atArmed c"
  by (simp_all add: ClearDelegationAttempt_def Let_def)

lemma ClearSoftwareResetTracking_frame [simp]:
  "br_cycle (ClearSoftwareResetTracking r b c) = br_cycle c"
  "br_deps (ClearSoftwareResetTracking r b c) = br_deps c"
  "br_state (ClearSoftwareResetTracking r b c) = br_state c"
  "br_busResetMasked (ClearSoftwareResetTracking r b c) = br_busResetMasked c"
  "br_pendingBusResetEdge (ClearSoftwareResetTracking r b c) = br_pendingBusResetEdge c"
  "br_deferredRunScheduled (ClearSoftwareResetTracking r b c) = br_deferredRunScheduled c"
  "br_workInProgress (ClearSoftwareResetTracking r b c) = br_workInProgress c"
  "br_queue (ClearSoftwareResetTracking r b c) = br_queue c"
  "br_trace (ClearSoftwareResetTracking r b c) = br_trace c"
  "br_selfIdLatch (ClearSoftwareResetTracking r b c) = br_selfIdLatch c"
  "br_lastGeneration (ClearSoftwareResetTracking r b c) = br_lastGeneration c"
  "br_selfIdCapture (ClearSoftwareResetTracking r b c) = br_selfIdCapture c"
  "br_topologyManager (ClearSoftwareResetTracking r b c) = br_topologyManager c"
  "br_stopFlushIssued (ClearSoftwareResetTracking r b c) = br_stopFlushIssued c"
  "br_currentDiscoveryDelayMs (ClearSoftwareResetTracking r b c) = br_currentDiscoveryDelayMs c"
  "br_previousScanHadBusyNodes (ClearSoftwareResetTracking r b c) = br_previousScanHadBusyNodes c"
  "br_postResetTiming (ClearSoftwareResetTracking r b c) = br_postResetTiming c"
  "br_filtersEnabled (ClearSoftwareResetTracking r b c) = br_filtersEnabled c"
  "br_atArmed (ClearSoftwareResetTracking r b c) = br_atArmed c"
  by (simp_all add: ClearSoftwareResetTracking_def Let_def)

lemma ApplySoftwareResetPhyConfig_frame [simp]:
  "br_deps (snd (ApplySoftwareResetPhyConfig e r b c)) = br_deps c"
  "br_state (snd (ApplySoftwareResetPhyConfig e r b c)) = br_state c"
  "br_busResetMasked (snd (ApplySoftwareResetPhyConfig e r b c)) = br_busResetMasked c"
  "br_pendingBusResetEdge (snd (ApplySoftwareResetPhyConfig e r b c)) = br_pendingBusResetEdge c"
  "br_deferredRunScheduled (snd (ApplySoftwareResetPhyConfig e r b c)) = br_deferredRunScheduled c"
  "br_workInProgress (snd (ApplySoftwareResetPhyConfig e r b c)) = br_workInProgress c"
  "br_queue (snd (ApplySoftwareResetPhyConfig e r b c)) = br_queue c"
  "pending (snd (ApplySoftwareResetPhyConfig e r b c)) = pending c"
  "blocked (snd (ApplySoftwareResetPhyConfig e r b c)) = blocked c"
  "br_selfIdLatch (snd (ApplySoftwareResetPhyConfig e r b c)) = br_selfIdLatch c"
  "br_lastGeneration (snd (ApplySoftwareResetPhyConfig e r b c)) = br_lastGeneration c"
  "br_selfIdCapture (snd (ApplySoftwareResetPhyConfig e r b c)) = br_selfIdCapture c"
  "br_topologyManager (snd (ApplySoftwareResetPhyConfig e r b c)) = br_topologyManager c"
  "br_stopFlushIssued (snd (ApplySoftwareResetPhyConfig e r b c)) = br_stopFlushIssued c"
  "br_currentDiscoveryDelayMs (snd (ApplySoftwareResetPhyConfig e r b c)) = br_currentDiscoveryDelayMs c"
  "br_previousScanHadBusyNodes (snd (ApplySoftwareResetPhyConfig e r b c)) = br_previousScanHadBusyNodes c"
  "br_postResetTiming (snd (ApplySoftwareResetPhyConfig e r b c)) = br_postResetTiming c"
  "br_filtersEnabled (snd (ApplySoftwareResetPhyConfig e r b c)) = br_filtersEnabled c"
  "br_atArmed (snd (ApplySoftwareResetPhyConfig e r b c)) = br_atArmed c"
  by (simp_all add: ApplySoftwareResetPhyConfig_def Let_def split: option.split)

lemma NoteIssuedGapReset_frame [simp]:
  "br_cycle (NoteIssuedGapReset r c) = br_cycle c" "br_deps (NoteIssuedGapReset r c) = br_deps c"
  "br_state (NoteIssuedGapReset r c) = br_state c"
  "br_busResetMasked (NoteIssuedGapReset r c) = br_busResetMasked c"
  "br_pendingBusResetEdge (NoteIssuedGapReset r c) = br_pendingBusResetEdge c"
  "br_deferredRunScheduled (NoteIssuedGapReset r c) = br_deferredRunScheduled c"
  "br_workInProgress (NoteIssuedGapReset r c) = br_workInProgress c"
  "br_queue (NoteIssuedGapReset r c) = br_queue c" "br_trace (NoteIssuedGapReset r c) = br_trace c"
  "br_selfIdLatch (NoteIssuedGapReset r c) = br_selfIdLatch c"
  "br_delegation (NoteIssuedGapReset r c) = br_delegation c"
  "br_lastGeneration (NoteIssuedGapReset r c) = br_lastGeneration c"
  "br_selfIdCapture (NoteIssuedGapReset r c) = br_selfIdCapture c"
  "br_topologyManager (NoteIssuedGapReset r c) = br_topologyManager c"
  "br_stopFlushIssued (NoteIssuedGapReset r c) = br_stopFlushIssued c"
  "br_currentDiscoveryDelayMs (NoteIssuedGapReset r c) = br_currentDiscoveryDelayMs c"
  "br_previousScanHadBusyNodes (NoteIssuedGapReset r c) = br_previousScanHadBusyNodes c"
  "br_postResetTiming (NoteIssuedGapReset r c) = br_postResetTiming c"
  "br_filtersEnabled (NoteIssuedGapReset r c) = br_filtersEnabled c"
  "br_atArmed (NoteIssuedGapReset r c) = br_atArmed c"
  by (simp_all add: NoteIssuedGapReset_def Let_def split: option.split)

lemma ScheduleManualResetWatchdog_frame [simp]:
  "br_cycle (ScheduleManualResetWatchdog m r c) = br_cycle c"
  "br_deps (ScheduleManualResetWatchdog m r c) = br_deps c"
  "br_state (ScheduleManualResetWatchdog m r c) = br_state c"
  "br_busResetMasked (ScheduleManualResetWatchdog m r c) = br_busResetMasked c"
  "br_pendingBusResetEdge (ScheduleManualResetWatchdog m r c) = br_pendingBusResetEdge c"
  "br_deferredRunScheduled (ScheduleManualResetWatchdog m r c) = br_deferredRunScheduled c"
  "br_workInProgress (ScheduleManualResetWatchdog m r c) = br_workInProgress c"
  "br_trace (ScheduleManualResetWatchdog m r c) = br_trace c"
  "br_selfIdLatch (ScheduleManualResetWatchdog m r c) = br_selfIdLatch c"
  "br_delegation (ScheduleManualResetWatchdog m r c) = br_delegation c"
  "br_lastGeneration (ScheduleManualResetWatchdog m r c) = br_lastGeneration c"
  "br_selfIdCapture (ScheduleManualResetWatchdog m r c) = br_selfIdCapture c"
  "br_topologyManager (ScheduleManualResetWatchdog m r c) = br_topologyManager c"
  "br_busManager (ScheduleManualResetWatchdog m r c) = br_busManager c"
  "br_stopFlushIssued (ScheduleManualResetWatchdog m r c) = br_stopFlushIssued c"
  "br_currentDiscoveryDelayMs (ScheduleManualResetWatchdog m r c) = br_currentDiscoveryDelayMs c"
  "br_previousScanHadBusyNodes (ScheduleManualResetWatchdog m r c) = br_previousScanHadBusyNodes c"
  "br_postResetTiming (ScheduleManualResetWatchdog m r c) = br_postResetTiming c"
  "br_filtersEnabled (ScheduleManualResetWatchdog m r c) = br_filtersEnabled c"
  "br_atArmed (ScheduleManualResetWatchdog m r c) = br_atArmed c"
  by (simp_all add: ScheduleManualResetWatchdog_def Let_def)

lemma DispatchSoftwareReset_frame [simp]:
  "br_deps (snd (DispatchSoftwareReset e r c)) = br_deps c"
  "br_state (snd (DispatchSoftwareReset e r c)) = br_state c"
  "br_busResetMasked (snd (DispatchSoftwareReset e r c)) = br_busResetMasked c"
  "br_pendingBusResetEdge (snd (DispatchSoftwareReset e r c)) = br_pendingBusResetEdge c"
  "br_deferredRunScheduled (snd (DispatchSoftwareReset e r c)) = br_deferredRunScheduled c"
  "br_workInProgress (snd (DispatchSoftwareReset e r c)) = br_workInProgress c"
  "pending (snd (DispatchSoftwareReset e r c)) = pending c"
  "blocked (snd (DispatchSoftwareReset e r c)) = blocked c"
  "br_selfIdLatch (snd (DispatchSoftwareReset e r c)) = br_selfIdLatch c"
  "br_lastGeneration (snd (DispatchSoftwareReset e r c)) = br_lastGeneration c"
  "br_selfIdCapture (snd (DispatchSoftwareReset e r c)) = br_selfIdCapture c"
  "br_topologyManager (snd (DispatchSoftwareReset e r c)) = br_topologyManager c"
  "br_stopFlushIssued (snd (DispatchSoftwareReset e r c)) = br_stopFlushIssued c"
  "br_currentDiscoveryDelayMs (snd (DispatchSoftwareReset e r c)) = br_currentDiscoveryDelayMs c"
  "br_previousScanHadBusyNodes (snd (DispatchSoftwareReset e r c)) = br_previousScanHadBusyNodes c"
  "br_postResetTiming (snd (DispatchSoftwareReset e r c)) = br_postResetTiming c"
  "br_filtersEnabled (snd (DispatchSoftwareReset e r c)) = br_filtersEnabled c"
  "br_atArmed (snd (DispatchSoftwareReset e r c)) = br_atArmed c"
  by (simp_all add: DispatchSoftwareReset_def case_prod_beta Let_def)

lemma MaybeDispatchPendingSoftwareReset_frame [simp]:
  "br_deps (snd (MaybeDispatchPendingSoftwareReset e c)) = br_deps c"
  "br_state (snd (MaybeDispatchPendingSoftwareReset e c)) = br_state c"
  "br_busResetMasked (snd (MaybeDispatchPendingSoftwareReset e c)) = br_busResetMasked c"
  "br_pendingBusResetEdge (snd (MaybeDispatchPendingSoftwareReset e c)) = br_pendingBusResetEdge c"
  "br_workInProgress (snd (MaybeDispatchPendingSoftwareReset e c)) = br_workInProgress c"
  "blocked (snd (MaybeDispatchPendingSoftwareReset e c)) = blocked c"
  "br_selfIdLatch (snd (MaybeDispatchPendingSoftwareReset e c)) = br_selfIdLatch c"
  "br_lastGeneration (snd (MaybeDispatchPendingSoftwareReset e c)) = br_lastGeneration c"
  "br_selfIdCapture (snd (MaybeDispatchPendingSoftwareReset e c)) = br_selfIdCapture c"
  "br_topologyManager (snd (MaybeDispatchPendingSoftwareReset e c)) = br_topologyManager c"
  "br_stopFlushIssued (snd (MaybeDispatchPendingSoftwareReset e c)) = br_stopFlushIssued c"
  "br_currentDiscoveryDelayMs (snd (MaybeDispatchPendingSoftwareReset e c)) = br_currentDiscoveryDelayMs c"
  "br_previousScanHadBusyNodes (snd (MaybeDispatchPendingSoftwareReset e c)) = br_previousScanHadBusyNodes c"
  "br_postResetTiming (snd (MaybeDispatchPendingSoftwareReset e c)) = br_postResetTiming c"
  "br_filtersEnabled (snd (MaybeDispatchPendingSoftwareReset e c)) = br_filtersEnabled c"
  "br_atArmed (snd (MaybeDispatchPendingSoftwareReset e c)) = br_atArmed c"
  by (simp_all add: MaybeDispatchPendingSoftwareReset_def Let_def split: option.split)

lemma ReadyForDiscovery_frame [simp]:
  "br_cycle (snd (ReadyForDiscovery e g c)) = br_cycle c"
  "br_deps (snd (ReadyForDiscovery e g c)) = br_deps c"
  "br_state (snd (ReadyForDiscovery e g c)) = br_state c"
  "br_busResetMasked (snd (ReadyForDiscovery e g c)) = br_busResetMasked c"
  "br_pendingBusResetEdge (snd (ReadyForDiscovery e g c)) = br_pendingBusResetEdge c"
  "br_deferredRunScheduled (snd (ReadyForDiscovery e g c)) = br_deferredRunScheduled c"
  "br_workInProgress (snd (ReadyForDiscovery e g c)) = br_workInProgress c"
  "br_queue (snd (ReadyForDiscovery e g c)) = br_queue c"
  "br_trace (snd (ReadyForDiscovery e g c)) = br_trace c"
  "br_selfIdLatch (snd (ReadyForDiscovery e g c)) = br_selfIdLatch c"
  "br_delegation (snd (ReadyForDiscovery e g c)) = br_delegation c"
  "br_lastGeneration (snd (ReadyForDiscovery e g c)) = br_lastGeneration c"
  "br_selfIdCapture (snd (ReadyForDiscovery e g c)) = br_selfIdCapture c"
  "br_topologyManager (snd (ReadyForDiscovery e g c)) = br_topologyManager c"
  "br_busManager (snd (ReadyForDiscovery e g c)) = br_busManager c"
  "br_stopFlushIssued (snd (ReadyForDiscovery e g c)) = br_stopFlushIssued c"
  "br_currentDiscoveryDelayMs (snd (ReadyForDiscovery e g c)) = br_currentDiscoveryDelayMs c"
  "br_previousScanHadBusyNodes (snd (ReadyForDiscovery e g c)) = br_previousScanHadBusyNodes c"
  "br_postResetTiming (snd (ReadyForDiscovery e g c)) = br_postResetTiming c"
  "br_filtersEnabled (snd (ReadyForDiscovery e g c)) = br_filtersEnabled c"
  "br_atArmed (snd (ReadyForDiscovery e g c)) = br_atArmed c"
  by (simp_all add: ReadyForDiscovery_def Let_def)

lemma HandleStraySelfID_frame [simp]:
  "br_deps (HandleStraySelfID e c) = br_deps c"
  "br_busResetMasked (HandleStraySelfID e c) = br_busResetMasked c"
  "br_pendingBusResetEdge (HandleStraySelfID e c) = br_pendingBusResetEdge c"
  "br_deferredRunScheduled (HandleStraySelfID e c) = br_deferredRunScheduled c"
  "br_workInProgress (HandleStraySelfID e c) = br_workInProgress c"
  "br_queue (HandleStraySelfID e c) = br_queue c" "pending (HandleStraySelfID e c) = pending c"
  "blocked (HandleStraySelfID e c) = blocked c"
  "br_delegation (HandleStraySelfID e c) = br_delegation c"
  "br_selfIdCapture (HandleStraySelfID e c) = br_selfIdCapture c"
  "br_topologyManager (HandleStraySelfID e c) = br_topologyManager c"
  "br_busManager (HandleStraySelfID e c) = br_busManager c"
  "br_stopFlushIssued (HandleStraySelfID e c) = br_stopFlushIssued c"
  "br_currentDiscoveryDelayMs (HandleStraySelfID e c) = br_currentDiscoveryDelayMs c"
  "br_previousScanHadBusyNodes (HandleStraySelfID e c) = br_previousScanHadBusyNodes c"
  "br_postResetTiming (HandleStraySelfID e c) = br_postResetTiming c"
  "br_filtersEnabled (HandleStraySelfID e c) = br_filtersEnabled c"
  "br_atArmed (HandleStraySelfID e c) = br_atArmed c"
  by (simp_all add: HandleStraySelfID_def case_prod_beta Let_def)

lemma MaybeRequestTopologyDrivenReset_frame [simp]:
  "br_deps (MaybeRequestTopologyDrivenReset c) = br_deps c"
  "br_state (MaybeRequestTopologyDrivenReset c) = br_state c"
  "br_busResetMasked (MaybeRequestTopologyDrivenReset c) = br_busResetMasked c"
  "br_pendingBusResetEdge (MaybeRequestTopologyDrivenReset c) = br_pendingBusResetEdge c"
  "br_deferredRunScheduled (MaybeRequestTopologyDrivenReset c) = br_deferredRunScheduled c"
  "br_workInProgress (MaybeRequestTopologyDrivenReset c) = br_workInProgress c"
  "br_trace (MaybeRequestTopologyDrivenReset c) = br_trace c"
  "blocked (MaybeRequestTopologyDrivenReset c) = blocked c"
  "br_selfIdLatch (MaybeRequestTopologyDrivenReset c) = br_selfIdLatch c"
  "br_lastGeneration (MaybeRequestTopologyDrivenReset c) = br_lastGeneration c"
  "br_selfIdCapture (MaybeRequestTopologyDrivenReset c) = br_selfIdCapture c"
  "br_topologyManager (MaybeRequestTopologyDrivenReset c) = br_topologyManager c"
  "br_busManager (MaybeRequestTopologyDrivenReset c) = br_busManager c"
  "br_stopFlushIssued (MaybeRequestTopologyDrivenReset c) = br_stopFlushIssued c"
  "br_currentDiscoveryDelayMs (MaybeRequestTopologyDrivenReset c) = br_currentDiscoveryDelayMs c"
  "br_previousScanHadBusyNodes (MaybeRequestTopologyDrivenReset c) = br_previousScanHadBusyNodes c"
  "br_postResetTiming (MaybeRequestTopologyDrivenReset c) = br_postResetTiming c"
  "br_filtersEnabled (MaybeRequestTopologyDrivenReset c) = br_filtersEnabled c"
  "br_atArmed (MaybeRequestTopologyDrivenReset c) = br_atArmed c"
  by (simp_all add: MaybeRequestTopologyDrivenReset_def Let_def split: option.split)

end
