(* ===== verification/Bus_Reset_Safety.thy ===== *)
theory Bus_Reset_Safety
  imports Bus_Reset_Frames
begin

text \<open>
  What the reset coordinator may do to the bus and when: the trace of its effects never holds a
  software reset inside the holdoff after Self-ID completion, and never a clear of the bus reset
  event while an asynchronous transmit context is active.
\<close>

section \<open>Trace predicates\<close>

text \<open>The end of the holdoff after a trace that starts with the holdoff ending at \<open>b\<close>.\<close>

fun blocked_until :: "u64 \<Rightarrow> BusEvent list \<Rightarrow> u64" where
  "blocked_until b [] = b"
| "blocked_until b (HoldoffArmed t # evs) = blocked_until (t + kRepeatedResetHoldoffNs) evs"
| "blocked_until b (_ # evs) = blocked_until b evs"

fun holdoff_ok :: "u64 \<Rightarrow> BusEvent list \<Rightarrow> bool" where
  "holdoff_ok b [] \<longleftrightarrow> True"
| "holdoff_ok b (HoldoffArmed t # evs) \<longleftrightarrow> holdoff_ok (t + kRepeatedResetHoldoffNs) evs"
| "holdoff_ok b (InitiateBusReset _ t _ # evs) \<longleftrightarrow> b \<le> t \<and> holdoff_ok b evs"
| "holdoff_ok b (_ # evs) \<longleftrightarrow> holdoff_ok b evs"

definition clears_reset :: "BusEvent \<Rightarrow> bool" where
  "clears_reset ev = (case ev of WriteIntEventClear m \<Rightarrow> m AND kBusReset \<noteq> 0 | _ \<Rightarrow> False)"

definition saw_inactive :: "BusEvent option \<Rightarrow> bool" where
  "saw_inactive ev = (case ev of
     Some (ReadATControl req rsp) \<Rightarrow>
       req AND kContextControlActiveBit = 0 \<and> rsp AND kContextControlActiveBit = 0
   | _ \<Rightarrow> False)"

text \<open>Every clear of the bus reset event directly follows a read that shows both contexts inactive.\<close>

fun clears_ok :: "BusEvent option \<Rightarrow> BusEvent list \<Rightarrow> bool" where
  "clears_ok prev [] \<longleftrightarrow> True"
| "clears_ok prev (ev # evs) \<longleftrightarrow> (if clears_reset ev then saw_inactive prev else True) \<and> clears_ok (Some ev) evs"

definition last_event :: "BusEvent option \<Rightarrow> BusEvent list \<Rightarrow> BusEvent option" where
  "last_event prev evs = (if evs = [] then prev else Some (last evs))"

lemma blocked_until_append [simp]: "blocked_until b (xs @ ys) = blocked_until (blocked_until b xs) ys"
  by (induction b xs rule: blocked_until.induct) auto

lemma holdoff_ok_append [simp]:
  "holdoff_ok b (xs @ ys) \<longleftrightarrow> holdoff_ok b xs \<and> holdoff_ok (blocked_until b xs) ys"
  by (induction b xs rule: holdoff_ok.induct) auto

lemma clears_ok_append [simp]:
  "clears_ok prev (xs @ ys) \<longleftrightarrow> clears_ok prev xs \<and> clears_ok (last_event prev xs) ys"
  by (induction prev xs rule: clears_ok.induct) (auto simp: last_event_def)

definition harmless :: "BusEvent \<Rightarrow> bool" where
  "harmless ev \<longleftrightarrow> \<not> clears_reset ev
     \<and> (case ev of HoldoffArmed _ \<Rightarrow> False | InitiateBusReset _ _ _ \<Rightarrow> False | _ \<Rightarrow> True)"

lemma harmless_trace:
  "list_all harmless evs \<Longrightarrow> holdoff_ok b evs \<and> blocked_until b evs = b \<and> clears_ok prev evs"
  by (induction evs arbitrary: prev) (auto simp: harmless_def split: BusEvent.splits)

lemma harmless_events [simp]:
  "harmless (MaskInterrupts m)" "harmless (UnmaskInterrupts m)" "harmless (WriteSelfIDBuffer a)"
  "harmless (OnBusResetBegin g)" "harmless StopATContextsOnly" "harmless FlushATContexts"
  "harmless (ConfirmBusGeneration g)" "harmless (ReadATControl req rsp)"
  "harmless RestoreHeaderAfterBusReset" "harmless (WriteBusOptions w)" "harmless (WriteConfigROMHeader w)"
  "harmless (WriteAsReqFilterHiSet w)" "harmless RearmATContexts" "harmless (OnBusResetComplete g)"
  "harmless (AbortScan w)" "harmless InvalidateTopologyMap" "harmless (SetContender b)"
  "harmless (PhyRequest p)" "harmless (TopologyCallback t)"
  "harmless (WriteIntEventClear kSelfIDComplete)" "harmless (WriteIntEventClear kSelfIDComplete2)"
  "harmless (WriteIntEventClear (kSelfIDComplete OR kSelfIDComplete2))"
  by (simp_all add: harmless_def clears_reset_def kSelfIDComplete_def kSelfIDComplete2_def kBusReset_def)

section \<open>The invariant\<close>

definition trace_inv :: "BusResetCoordinator \<Rightarrow> bool" where
  "trace_inv c \<longleftrightarrow> holdoff_ok 0 (br_trace c) \<and> clears_ok None (br_trace c)
     \<and> blocked_until 0 (br_trace c) = blocked c"

lemma trace_inv_emit [simp]: "list_all harmless evs \<Longrightarrow> trace_inv (emit evs c) = trace_inv c"
  using harmless_trace by (auto simp: trace_inv_def emit_def)

lemma trace_inv_same:
  "br_trace c' = br_trace c \<Longrightarrow> blocked c' = blocked c \<Longrightarrow> trace_inv c' = trace_inv c"
  by (simp add: trace_inv_def)

lemma trace_inv_update [simp]:
  "trace_inv (c\<lparr>br_state := s\<rparr>) = trace_inv c" "trace_inv (c\<lparr>br_pendingBusResetEdge := b\<rparr>) = trace_inv c"
  "trace_inv (c\<lparr>br_stopFlushIssued := b\<rparr>) = trace_inv c" "trace_inv (c\<lparr>br_wasRoot := b\<rparr>) = trace_inv c"
  "trace_inv (c\<lparr>br_workInProgress := b\<rparr>) = trace_inv c" "trace_inv (c\<lparr>br_queue := q\<rparr>) = trace_inv c"
  "trace_inv (c\<lparr>br_deferredRunScheduled := b\<rparr>) = trace_inv c"
  "trace_inv (c\<lparr>br_selfIdLatch := l\<rparr>) = trace_inv c" "trace_inv (c\<lparr>br_busResetMasked := b\<rparr>) = trace_inv c"
  "trace_inv (c\<lparr>br_lastGeneration := g\<rparr>) = trace_inv c" "trace_inv (c\<lparr>br_filtersEnabled := b\<rparr>) = trace_inv c"
  "trace_inv (c\<lparr>br_atArmed := b\<rparr>) = trace_inv c" "trace_inv (c\<lparr>br_delegation := d\<rparr>) = trace_inv c"
  "trace_inv (c\<lparr>br_postResetTiming := t\<rparr>) = trace_inv c" "trace_inv (c\<lparr>br_busManager := bm\<rparr>) = trace_inv c"
  "trace_inv (c\<lparr>br_topologyManager := tm\<rparr>) = trace_inv c" "trace_inv (c\<lparr>br_selfIdCapture := sc\<rparr>) = trace_inv c"
  "trace_inv (c\<lparr>br_busResetClearTime := t2\<rparr>) = trace_inv c" "trace_inv (c\<lparr>br_currentDiscoveryDelayMs := n\<rparr>) = trace_inv c"
  "trace_inv (c\<lparr>br_previousScanHadBusyNodes := b\<rparr>) = trace_inv c"
  by (simp_all add: trace_inv_def)

lemma trace_inv_unchanged [simp]:
  "trace_inv (dispatch job c) = trace_inv c" "trace_inv (map_diag fd c) = trace_inv c"
  "trace_inv (map_metrics fm c) = trace_inv c" "trace_inv (rc_TransitionTo now s c) = trace_inv c"
  "trace_inv (YieldAndReschedule d c) = trace_inv c" "trace_inv (CompleteCurrentRun c) = trace_inv c"
  "trace_inv (RecordRecoveryReason r c) = trace_inv c" "trace_inv (RecordRecoveryReasonCode rc c) = trace_inv c"
  "trace_inv (topology_accepted s2 c) = trace_inv c" "trace_inv (LogMetrics e c) = trace_inv c"
  "trace_inv (RequestSoftwareReset rq c) = trace_inv c" "trace_inv (ClearDelegationAttempt c) = trace_inv c"
  "trace_inv (ClearSoftwareResetTracking rq b c) = trace_inv c" "trace_inv (NoteIssuedGapReset rq c) = trace_inv c"
  "trace_inv (ScheduleManualResetWatchdog m n c) = trace_inv c"
  "trace_inv (snd (ReadyForDiscovery e g c)) = trace_inv c"
  "trace_inv (MaybeRequestTopologyDrivenReset c) = trace_inv c"
  by (rule trace_inv_same; simp)+

lemma trace_inv_map_cycle [simp]:
  "rt_softwareResetBlockedUntilNs (cy_timing (f (br_cycle c))) = blocked c \<Longrightarrow> trace_inv (map_cycle f c) = trace_inv c"
  by (rule trace_inv_same) simp_all

lemma trace_inv_harmless [simp]:
  "trace_inv (MaskBusReset c) = trace_inv c" "trace_inv (UnmaskBusReset c) = trace_inv c"
  "trace_inv (ForceUnmaskBusResetIfNeeded c) = trace_inv c"
  "trace_inv (ClearStaleSelfIDComplete2 e c) = trace_inv c"
  "trace_inv (ClearConsumedSelfIDInterrupts e c) = trace_inv c"
  "trace_inv (StopFlushAT c) = trace_inv c"
  "trace_inv (topology_failed err c) = trace_inv c"
  "trace_inv (RestoreConfigROM e c) = trace_inv c"
  "trace_inv (EnableFilters e c) = trace_inv c"
  "trace_inv (RearmAT c) = trace_inv c"
  "trace_inv (snd (G_ATInactive e c)) = trace_inv c"
  by (simp_all add: MaskBusReset_def UnmaskBusReset_def ForceUnmaskBusResetIfNeeded_def
      ClearStaleSelfIDComplete2_def ClearConsumedSelfIDInterrupts_def StopFlushAT_def topology_failed_def
      RestoreConfigROM_def EnableFilters_def RearmAT_def G_ATInactive_def Let_def)

lemma trace_inv_harmless_cases [simp]:
  "trace_inv (ArmSelfIDBuffer e c) = trace_inv c"
  "trace_inv (snd (DecodeSelfID e c)) = trace_inv c"
  "trace_inv (snd (BuildTopology e c)) = trace_inv c"
  "trace_inv (snd (ApplySoftwareResetPhyConfig e r b c)) = trace_inv c"
  by (simp_all add: ArmSelfIDBuffer_def DecodeSelfID_def BuildTopology_def ApplySoftwareResetPhyConfig_def
      Let_def split: option.split sum.split prod.split)

lemma trace_inv_stray [simp]: "trace_inv (HandleStraySelfID e c) = trace_inv c"
  by (simp add: HandleStraySelfID_def Let_def case_prod_beta)

lemma trace_inv_holdoff:
  "trace_inv c \<Longrightarrow> trace_inv (ArmSoftwareResetHoldoffAfterSelfIDCompletion t c)"
  by (simp add: trace_inv_def ArmSoftwareResetHoldoffAfterSelfIDCompletion_def emit_def clears_reset_def
      map_cycle_def)

lemma trace_inv_initiate:
  "trace_inv c \<Longrightarrow> blocked c \<le> t \<Longrightarrow> trace_inv (emit [InitiateBusReset f t ok] c)"
  by (simp add: trace_inv_def emit_def clears_reset_def)

lemma trace_inv_dispatch:
  assumes "trace_inv c" and "blocked c \<le> en_now e ClkDispatch"
  shows "trace_inv (snd (DispatchSoftwareReset e r c))"
  using assms trace_inv_initiate
  by (simp add: DispatchSoftwareReset_def Let_def case_prod_beta)

lemma trace_inv_maybe_dispatch:
  "trace_inv c \<Longrightarrow> trace_inv (snd (MaybeDispatchPendingSoftwareReset e c))"
  by (auto simp: MaybeDispatchPendingSoftwareReset_def Let_def not_less
      intro!: trace_inv_dispatch split: option.split)

text \<open>The clear itself: in the state that clears the bus reset, after a read that shows inactivity.\<close>

lemma trace_inv_clear:
  assumes "trace_inv c" and "fst (G_ATInactive e c)"
  shows "trace_inv (ClearBusReset e (snd (G_ATInactive e c)))"
proof -
  have "last_event None (br_trace (snd (G_ATInactive e c)))
      = Some (ReadATControl (en_read e RdATRequest) (en_read e RdATResponse))"
    and "saw_inactive (Some (ReadATControl (en_read e RdATRequest) (en_read e RdATResponse)))"
    using assms(2)
    by (simp_all add: G_ATInactive_def Let_def last_event_def emit_def saw_inactive_def split: if_splits)
  moreover have "trace_inv (snd (G_ATInactive e c))" using assms(1) by simp
  ultimately show ?thesis
    by (simp add: ClearBusReset_def Let_def emit_def trace_inv_def)
qed

section \<open>Steps\<close>

lemma trace_inv_OnIrq [simp]: "trace_inv (rc_OnIrq ev t c) = trace_inv c"
  by (simp add: rc_OnIrq_def Let_def)

lemma trace_inv_Begin [simp]: "trace_inv (BeginNewResetCycle e c) = trace_inv c"
  by (simp add: BeginNewResetCycle_def Let_def ResetForNewEdge_def)

lemma trace_inv_Idle: "trace_inv c \<Longrightarrow> trace_inv (snd (StepIdle e c))"
  by (simp add: StepIdle_def Let_def trace_inv_maybe_dispatch)

lemma trace_inv_Detecting: "trace_inv c \<Longrightarrow> trace_inv (snd (StepDetecting e c))"
  by (simp add: StepDetecting_def)

lemma trace_inv_Waiting: "trace_inv c \<Longrightarrow> trace_inv (snd (StepWaitingSelfID e c))"
  by (simp add: StepWaitingSelfID_def Let_def case_prod_beta trace_inv_holdoff)

lemma trace_inv_Quiescing: "trace_inv c \<Longrightarrow> trace_inv (snd (StepQuiescingAT e c))"
  by (simp add: StepQuiescingAT_def Let_def case_prod_beta)

lemma trace_inv_Restoring: "trace_inv c \<Longrightarrow> trace_inv (snd (StepRestoringConfigROM e c))"
  by (simp add: StepRestoringConfigROM_def Let_def)

lemma trace_inv_Clearing: "trace_inv c \<Longrightarrow> trace_inv (snd (StepClearingBusReset e c))"
  by (simp add: StepClearingBusReset_def Let_def case_prod_beta trace_inv_clear)

lemma trace_inv_Rearming: "trace_inv c \<Longrightarrow> trace_inv (snd (StepRearming e c))"
  by (simp add: StepRearming_def Let_def)

lemma trace_inv_Complete: "trace_inv c \<Longrightarrow> trace_inv (snd (StepComplete e c))"
  by (simp add: StepComplete_def Let_def trace_inv_maybe_dispatch split: option.split)

lemmas trace_inv_steps = trace_inv_Idle trace_inv_Detecting trace_inv_Waiting trace_inv_Quiescing
  trace_inv_Restoring trace_inv_Clearing trace_inv_Rearming trace_inv_Complete

lemma trace_inv_iteration: "trace_inv c \<Longrightarrow> trace_inv (snd (iteration e c))"
  by (simp add: iteration_def interrupted_def Let_def fsm_step_def trace_inv_steps
      split: FsmState.split option.split prod.split)

end
