(* ===== verification/Bus_Reset_Invariants.thy ===== *)
theory Bus_Reset_Invariants
  imports Bus_Reset_Safety
begin

text \<open>
  Invariants of the reset coordinator over every sequence of interrupts, client calls and work queue
  blocks. The locale says once what an invariant has to survive; the trace invariant, the mask
  invariant and the queue invariant are its interpretations.
\<close>

section \<open>What an invariant has to survive\<close>

definition is_deferred :: "Job \<Rightarrow> bool" where
  "is_deferred job = (case job of DeferredRunJob _ \<Rightarrow> True | _ \<Rightarrow> False)"

definition pop_job :: "Job \<Rightarrow> Job list \<Rightarrow> BusResetCoordinator \<Rightarrow> BusResetCoordinator" where
  "pop_job job rest c = (if is_deferred job then c\<lparr>br_queue := rest, br_deferredRunScheduled := False\<rparr>
     else c\<lparr>br_queue := rest\<rparr>)"

text \<open>Only requests of the delegation kind name a root or touch the contender bit.\<close>

definition carries_delegation :: "ResetRequest \<Rightarrow> bool" where
  "carries_delegation r = (case rq_phyConfig r of None \<Rightarrow> False
     | Some command \<Rightarrow> cmd_forceRootNodeID command \<noteq> None \<or> cmd_setContender command \<noteq> None)"

definition legitimate :: "ResetRequest \<Rightarrow> bool" where
  "legitimate r \<longleftrightarrow> rq_kind r = Delegation \<or> \<not> carries_delegation r"

lemma legitimate_simps [simp]:
  "legitimate \<lparr>rq_kind = Delegation, rq_flavor = f, rq_phyConfig = p, rq_reason = s, rq_gapDecisionReason = g\<rparr>"
  "legitimate \<lparr>rq_kind = k, rq_flavor = f, rq_phyConfig = None, rq_reason = s, rq_gapDecisionReason = g\<rparr>"
  by (simp_all add: legitimate_def carries_delegation_def)

locale reset_step_invariant =
  fixes I :: "BusResetCoordinator \<Rightarrow> bool"
  assumes irq: "I c \<Longrightarrow> I (rc_OnIrq ev t c)"
    and request: "legitimate r \<Longrightarrow> I c \<Longrightarrow> I (RequestSoftwareReset r c)"
    and diag: "I c \<Longrightarrow> I (map_diag f c)"
    and reason: "I c \<Longrightarrow> I (RecordRecoveryReason s c)"
    and discovery_delay: "I c \<Longrightarrow> I (c\<lparr>br_currentDiscoveryDelayMs := n\<rparr>)"
    and busy_nodes: "I c \<Longrightarrow> I (c\<lparr>br_previousScanHadBusyNodes := b\<rparr>)"
    and callback: "I c \<Longrightarrow> I (emit [TopologyCallback topo] c)"
    and in_progress: "I c \<Longrightarrow> I (c\<lparr>br_workInProgress := b\<rparr>)"
    and unmask: "I c \<Longrightarrow> I (ForceUnmaskBusResetIfNeeded c)"
    and reschedule: "I c \<Longrightarrow> I (YieldAndReschedule ms c)"
    and popped: "I c \<Longrightarrow> br_queue c = job # rest \<Longrightarrow> I (pop_job job rest c)"
    and turn: "I c \<Longrightarrow> I (snd (iteration e c))"
begin

lemma loop: "I c \<Longrightarrow> I (fsm_loop n env i c)"
proof (induction n arbitrary: i c)
  case (Suc n)
  then show ?case using turn [OF Suc.prems, of "env i"]
    by (auto simp: CompleteCurrentRun_def in_progress split: prod.splits StepResult.splits)
qed (simp add: CompleteCurrentRun_def in_progress reschedule)

lemma run: "I c \<Longrightarrow> I (RunStateMachine env c)"
  by (simp add: RunStateMachine_def Let_def CompleteCurrentRun_def in_progress unmask loop)

lemma discovery: "I c \<Longrightarrow> I (discovery_block e topo c)"
  by (simp add: discovery_block_def ReadyForDiscovery_def Let_def RecordRecoveryReasonCode_def
      callback diag)

lemma watchdog: "I c \<Longrightarrow> I (MaybeRecoverMissingManualResetIrq m r c)"
  by (simp add: MaybeRecoverMissingManualResetIrq_def Let_def RecordRecoveryReasonCode_def
      request reason diag)

lemma next_job: "I c \<Longrightarrow> I (perform (NextJob env) c)"
  using popped [of c] run discovery watchdog
  by (auto simp: perform_def run_job_def pop_job_def is_deferred_def split: list.split Job.split)

lemma step: "I c \<Longrightarrow> a \<noteq> DelegationRetryReset \<Longrightarrow> I (perform a c)"
proof (cases a)
  case (NextJob env)
  assume "I c"
  then show ?thesis unfolding NextJob by (rule next_job)
qed (simp_all add: perform_def irq request diag RequestUserReset_def RequestConfigRomRestageReset_def
    RequestRolePolicyReset_def SetPreviousScanHadBusyNodes_def EscalateDiscoveryDelay_def Let_def
    discovery_delay busy_nodes)

lemma steps: "I c \<Longrightarrow> list_all (\<lambda>a. a \<noteq> DelegationRetryReset) as \<Longrightarrow> I (fold perform as c)"
  by (induction as arbitrary: c) (simp_all add: step)

end

locale reset_invariant = reset_step_invariant +
  assumes initial: "dp_hardware deps \<Longrightarrow> dp_workQueue deps \<Longrightarrow>
      I (rc_Initialize deps capture topology busManager (BusResetCoordinator0 callback))"
    and delegation: "I c \<Longrightarrow> I (c\<lparr>br_delegation := d\<rparr>)"
begin

lemma reachable: "reachable_reset c \<Longrightarrow> I c"
proof (induction rule: reachable_reset.induct)
  case (performed c a)
  then show ?case
  proof (cases "a = DelegationRetryReset")
    case True
    with performed show ?thesis by (simp add: perform_def ResetDelegationRetryCounter_def delegation)
  qed (simp add: step)
qed (simp add: initial)

end

section \<open>Effects on the bus\<close>

lemma trace_inv_Initialize:
  "trace_inv (rc_Initialize deps capture topology busManager (BusResetCoordinator0 callback))"
  by (simp add: trace_inv_def rc_Initialize_def Let_def BusResetCoordinator0_def emit_def
      ResetCycleState0_def clears_reset_def)

interpretation effects: reset_invariant trace_inv
  by unfold_locales (simp_all add: trace_inv_Initialize pop_job_def trace_inv_iteration)

section \<open>The mask of the bus reset interrupt\<close>

definition mask_inv :: "BusResetCoordinator \<Rightarrow> bool" where
  "mask_inv c \<longleftrightarrow> (br_busResetMasked c \<longrightarrow>
     dp_interruptManager (br_deps c) \<and> dp_hardware (br_deps c)
     \<and> br_state c \<in> {Detecting, WaitingSelfID, QuiescingAT, RestoringConfigROM, ClearingBusReset})"

lemma state_TransitionTo [simp]: "br_state (rc_TransitionTo now s c) = s"
  by (simp add: rc_TransitionTo_def Let_def)

lemma ATInactive_frame [simp]:
  "br_deps (snd (G_ATInactive e c)) = br_deps c" "br_state (snd (G_ATInactive e c)) = br_state c"
  "br_busResetMasked (snd (G_ATInactive e c)) = br_busResetMasked c"
  "br_queue (snd (G_ATInactive e c)) = br_queue c" "br_cycle (snd (G_ATInactive e c)) = br_cycle c"
  "br_deferredRunScheduled (snd (G_ATInactive e c)) = br_deferredRunScheduled c"
  "br_pendingBusResetEdge (snd (G_ATInactive e c)) = br_pendingBusResetEdge c"
  by (simp_all add: G_ATInactive_def Let_def)

lemma OnIrq_frame [simp]:
  "br_deps (rc_OnIrq ev t c) = br_deps c" "br_state (rc_OnIrq ev t c) = br_state c"
  "br_busResetMasked (rc_OnIrq ev t c) = br_busResetMasked c"
  "br_deferredRunScheduled (rc_OnIrq ev t c) = br_deferredRunScheduled c" "pending (rc_OnIrq ev t c) = pending c"
  by (simp_all add: rc_OnIrq_def Let_def)

lemma Begin_frame [simp]:
  "br_deps (BeginNewResetCycle e c) = br_deps c" "br_state (BeginNewResetCycle e c) = Detecting"
  "br_queue (BeginNewResetCycle e c) = br_queue c"
  "br_deferredRunScheduled (BeginNewResetCycle e c) = br_deferredRunScheduled c"
  "\<not> br_pendingBusResetEdge (BeginNewResetCycle e c)" "pending (BeginNewResetCycle e c) = None"
  by (simp_all add: BeginNewResetCycle_def Let_def ResetForNewEdge_def)

lemma masked_Begin:
  "br_busResetMasked (BeginNewResetCycle e c) \<Longrightarrow>
     br_busResetMasked c \<or> (dp_interruptManager (br_deps c) \<and> dp_hardware (br_deps c))"
  by (simp add: BeginNewResetCycle_def Let_def MaskBusReset_def split: if_splits)

lemma masked_Unmask [simp]:
  "br_busResetMasked (UnmaskBusReset c) \<longleftrightarrow>
     br_busResetMasked c \<and> \<not> (dp_interruptManager (br_deps c) \<and> dp_hardware (br_deps c))"
  "br_busResetMasked (ForceUnmaskBusResetIfNeeded c) \<longleftrightarrow>
     br_busResetMasked c \<and> \<not> (dp_interruptManager (br_deps c) \<and> dp_hardware (br_deps c))"
  by (auto simp: UnmaskBusReset_def ForceUnmaskBusResetIfNeeded_def)

lemma state_Stray: "br_state (HandleStraySelfID e c) \<in> {br_state c, QuiescingAT}"
  by (simp add: HandleStraySelfID_def Let_def case_prod_beta)

lemmas step_defs = StepIdle_def StepDetecting_def StepWaitingSelfID_def StepQuiescingAT_def
  StepRestoringConfigROM_def StepClearingBusReset_def StepRearming_def StepComplete_def

lemma mask_inv_step: "mask_inv c \<Longrightarrow> mask_inv (snd (fsm_step e c))"
  using state_Stray [of e c]
  by (cases "br_state c")
     (auto simp: mask_inv_def fsm_step_def step_defs Let_def case_prod_beta split: option.split)

lemma mask_inv_Begin: "mask_inv c \<Longrightarrow> mask_inv (BeginNewResetCycle e c)"
  using masked_Begin [of e c] by (auto simp: mask_inv_def)

lemma mask_inv_irq [simp]: "mask_inv (rc_OnIrq ev t c) = mask_inv c"
  by (simp add: mask_inv_def)

lemma mask_inv_turn: "mask_inv c \<Longrightarrow> mask_inv (snd (iteration e c))"
  by (auto simp: iteration_def interrupted_def Let_def intro!: mask_inv_step mask_inv_Begin
      split: option.split)

interpretation mask: reset_invariant mask_inv
  by unfold_locales
     (simp_all add: mask_inv_turn, auto simp: mask_inv_def rc_Initialize_def BusResetCoordinator0_def Let_def
       pop_job_def)

section \<open>The work queue\<close>

definition queue_inv :: "BusResetCoordinator \<Rightarrow> bool" where
  "queue_inv c \<longleftrightarrow> dp_hardware (br_deps c) \<and> dp_workQueue (br_deps c)
     \<and> length (filter is_deferred (br_queue c)) = (if br_deferredRunScheduled c then 1 else 0)"

lemma queue_inv_same:
  "br_deps c' = br_deps c \<Longrightarrow> br_queue c' = br_queue c
    \<Longrightarrow> br_deferredRunScheduled c' = br_deferredRunScheduled c \<Longrightarrow> queue_inv c' = queue_inv c"
  by (simp add: queue_inv_def)

text \<open>The parts of a step that do not touch the queue.\<close>

lemma queue_inv_quiet [simp]:
  "queue_inv (emit evs c) = queue_inv c" "queue_inv (map_diag fd c) = queue_inv c"
  "queue_inv (map_cycle fc c) = queue_inv c" "queue_inv (rc_TransitionTo now s c) = queue_inv c"
  "queue_inv (RecordRecoveryReason r c) = queue_inv c" "queue_inv (RecordRecoveryReasonCode rc c) = queue_inv c"
  "queue_inv (UnmaskBusReset c) = queue_inv c" "queue_inv (ForceUnmaskBusResetIfNeeded c) = queue_inv c"
  "queue_inv (ClearConsumedSelfIDInterrupts e c) = queue_inv c" "queue_inv (ArmSelfIDBuffer e c) = queue_inv c"
  "queue_inv (StopFlushAT c) = queue_inv c" "queue_inv (snd (DecodeSelfID e c)) = queue_inv c"
  "queue_inv (snd (BuildTopology e c)) = queue_inv c" "queue_inv (RestoreConfigROM e c) = queue_inv c"
  "queue_inv (ClearBusReset e c) = queue_inv c" "queue_inv (EnableFilters e c) = queue_inv c"
  "queue_inv (RearmAT c) = queue_inv c" "queue_inv (LogMetrics e c) = queue_inv c"
  "queue_inv (ArmSoftwareResetHoldoffAfterSelfIDCompletion t c) = queue_inv c"
  "queue_inv (HandleStraySelfID e c) = queue_inv c" "queue_inv (BeginNewResetCycle e c) = queue_inv c"
  "queue_inv (snd (G_ATInactive e c)) = queue_inv c"
  "queue_inv (snd (ApplySoftwareResetPhyConfig e rq b c)) = queue_inv c"
  "queue_inv (ClearSoftwareResetTracking rq b c) = queue_inv c" "queue_inv (NoteIssuedGapReset rq c) = queue_inv c"
  by (rule queue_inv_same; simp)+

lemma queue_inv_dispatch [simp]: "\<not> is_deferred job \<Longrightarrow> queue_inv (dispatch job c) = queue_inv c"
  by (simp add: queue_inv_def dispatch_def)

lemma not_deferred [simp]:
  "\<not> is_deferred RunJob" "\<not> is_deferred (DiscoveryJob d t)" "\<not> is_deferred (WatchdogJob m r)"
  "is_deferred (DeferredRunJob ms)"
  by (simp_all add: is_deferred_def)

lemma queue_inv_yield [simp]: "queue_inv c \<Longrightarrow> queue_inv (YieldAndReschedule ms c)"
  by (simp add: queue_inv_def YieldAndReschedule_def dispatch_def)

lemma queue_inv_request [simp]: "queue_inv (RequestSoftwareReset r c) = queue_inv c"
proof -
  have add: "queue_inv (add_pending r c) = queue_inv c" for c
    by (simp add: queue_inv_def add_pending_def Let_def dispatch_def)
  have upd: "queue_inv (c\<lparr>br_delegation := d\<rparr>) = queue_inv c" for d
    by (simp add: queue_inv_def)
  show ?thesis
    by (simp add: RequestSoftwareReset_def Let_def add upd split: option.split ResetRequestKind.split)
qed

lemma queue_inv_driven [simp]: "queue_inv (MaybeRequestTopologyDrivenReset c) = queue_inv c"
  by (simp add: MaybeRequestTopologyDrivenReset_def split: option.split)

lemma queue_inv_dispatch_reset: "queue_inv c \<Longrightarrow> queue_inv (snd (DispatchSoftwareReset e r c))"
  by (simp add: DispatchSoftwareReset_def Let_def case_prod_beta ScheduleManualResetWatchdog_def)

lemma queue_inv_maybe: "queue_inv c \<Longrightarrow> queue_inv (snd (MaybeDispatchPendingSoftwareReset e c))"
  by (simp add: MaybeDispatchPendingSoftwareReset_def Let_def queue_inv_dispatch_reset split: option.split)

lemma queue_inv_updates [simp]:
  "queue_inv (c\<lparr>br_stopFlushIssued := b\<rparr>) = queue_inv c" "queue_inv (c\<lparr>br_wasRoot := b\<rparr>) = queue_inv c"
  "queue_inv (c\<lparr>br_postResetTiming := t\<rparr>) = queue_inv c" "queue_inv (c\<lparr>br_workInProgress := b\<rparr>) = queue_inv c"
  "queue_inv (c\<lparr>br_pendingBusResetEdge := b\<rparr>) = queue_inv c" "queue_inv (c\<lparr>br_selfIdLatch := l\<rparr>) = queue_inv c"
  "queue_inv (c\<lparr>br_delegation := d\<rparr>) = queue_inv c" "queue_inv (c\<lparr>br_currentDiscoveryDelayMs := n\<rparr>) = queue_inv c"
  "queue_inv (c\<lparr>br_previousScanHadBusyNodes := b\<rparr>) = queue_inv c"
  by (simp_all add: queue_inv_def)

lemma queue_inv_irq [simp]: "queue_inv (rc_OnIrq ev t c) = queue_inv c"
  by (simp add: rc_OnIrq_def Let_def)

lemma queue_inv_step: "queue_inv c \<Longrightarrow> queue_inv (snd (fsm_step e c))"
  by (cases "br_state c")
     (simp_all add: fsm_step_def step_defs Let_def case_prod_beta queue_inv_maybe split: option.split)

lemma queue_inv_turn: "queue_inv c \<Longrightarrow> queue_inv (snd (iteration e c))"
  by (auto simp: iteration_def interrupted_def Let_def intro!: queue_inv_step split: option.split)

interpretation queue: reset_invariant queue_inv
proof unfold_locales
  show "queue_inv (pop_job job rest c)" if "queue_inv c" "br_queue c = job # rest" for c job rest
    using that by (auto simp: queue_inv_def pop_job_def split: if_splits)
qed (simp_all add: queue_inv_turn, simp add: queue_inv_def rc_Initialize_def BusResetCoordinator0_def Let_def)

end
