(* ===== verification/Bus_Reset_Properties.thy ===== *)
theory Bus_Reset_Properties
  imports Bus_Reset_Invariants
begin

text \<open>
  The properties of the bus reset coordinator: its effects on the bus, that no work is forgotten,
  that a run of the state machine ends, the exact course of an undisturbed cycle, and how software
  resets are merged, limited and dispatched.
\<close>

section \<open>Work is never forgotten\<close>

definition is_run :: "Job \<Rightarrow> bool" where
  "is_run job = (case job of RunJob \<Rightarrow> True | DeferredRunJob _ \<Rightarrow> True | _ \<Rightarrow> False)"

definition outstanding :: "BusResetCoordinator \<Rightarrow> bool" where
  "outstanding c \<longleftrightarrow> br_state c \<noteq> Idle \<or> br_pendingBusResetEdge c \<or> pending c \<noteq> None"

definition awake :: "BusResetCoordinator \<Rightarrow> bool" where
  "awake c \<longleftrightarrow> (outstanding c \<longrightarrow> list_ex is_run (br_queue c))"

lemma scheduled_run: "queue_inv c \<Longrightarrow> br_deferredRunScheduled c \<Longrightarrow> list_ex is_run (br_queue c)"
proof -
  assume "queue_inv c" "br_deferredRunScheduled c"
  then have "filter is_deferred (br_queue c) \<noteq> []" by (auto simp: queue_inv_def)
  then obtain job where "job \<in> set (br_queue c)" "is_deferred job" by (auto simp: filter_empty_conv)
  then show ?thesis by (auto simp: list_ex_iff is_run_def is_deferred_def split: Job.splits)
qed

lemma deferred_yield: "queue_inv c \<Longrightarrow> br_deferredRunScheduled (YieldAndReschedule ms c)"
  by (simp add: YieldAndReschedule_def queue_inv_def)

text \<open>How a step ends: a yield leaves a deferred run behind, a finished step is idle with nothing to do.\<close>

definition ends_well :: "StepResult \<times> BusResetCoordinator \<Rightarrow> bool" where
  "ends_well rc = (case rc of (result, c) \<Rightarrow>
     (case result of
        StepContinue \<Rightarrow> True
      | StepYield \<Rightarrow> br_deferredRunScheduled c
      | StepFinish \<Rightarrow> br_state c = Idle \<and> \<not> br_pendingBusResetEdge c
          \<and> (pending c = None \<or> br_deferredRunScheduled c)))"

lemma dispatch_ends:
  assumes "queue_inv c"
  shows "pending (snd (MaybeDispatchPendingSoftwareReset e c)) = None
    \<or> br_deferredRunScheduled (snd (MaybeDispatchPendingSoftwareReset e c))"
  using assms deferred_yield [OF assms]
  by (simp add: MaybeDispatchPendingSoftwareReset_def Let_def queue_inv_def split: option.split)

lemma step_ends:
  assumes "queue_inv c" and "\<not> br_pendingBusResetEdge c"
  shows "ends_well (fsm_step e c)"
  using assms deferred_yield [of c] deferred_yield [of "snd (G_ATInactive e c)"]
    deferred_yield [of "snd (G_ATInactive e ((StopFlushAT c)\<lparr>br_stopFlushIssued := True\<rparr>))"] dispatch_ends
  by (cases "br_state c")
     (auto simp: ends_well_def fsm_step_def step_defs Let_def case_prod_beta split: option.split)

lemma turn_ends: "queue_inv c \<Longrightarrow> ends_well (iteration e c)"
  by (auto simp: iteration_def interrupted_def Let_def intro!: step_ends split: option.split)

lemma loop_awake: "queue_inv c \<Longrightarrow> awake (fsm_loop n env i c)"
proof (induction n arbitrary: i c)
  case 0
  then show ?case
    using scheduled_run [OF queue_inv_yield [OF 0], of kDeferredPollMs] deferred_yield [OF 0, of kDeferredPollMs]
    by (simp add: awake_def CompleteCurrentRun_def)
next
  case (Suc n)
  obtain result c' where it: "iteration (env i) c = (result, c')" by (cases "iteration (env i) c")
  then have q: "queue_inv c'" and ends: "ends_well (result, c')"
    using queue.turn [OF Suc.prems, of "env i"] turn_ends [OF Suc.prems, of "env i"] by simp_all
  show ?case
    using it ends scheduled_run [OF q] Suc.IH [OF q]
    by (cases result) (auto simp: awake_def outstanding_def ends_well_def CompleteCurrentRun_def)
qed

lemma loop_released [simp]: "\<not> br_workInProgress (fsm_loop n env i c)"
  by (induction n arbitrary: i c)
     (auto simp: CompleteCurrentRun_def split: prod.splits StepResult.splits)

definition settled :: "BusResetCoordinator \<Rightarrow> bool" where
  "settled c \<longleftrightarrow> \<not> br_workInProgress c \<and> awake c"

lemma run_settled:
  assumes "queue_inv c" and "\<not> br_workInProgress c"
  shows "settled (RunStateMachine env c)"
  using assms loop_awake by (auto simp: settled_def RunStateMachine_def Let_def queue_inv_def)

lemma request_settled: "queue_inv c \<Longrightarrow> settled c \<Longrightarrow> settled (RequestSoftwareReset r c)"
proof -
  have *: "awake (add_pending r c)" if "queue_inv c" "awake c" for c
    using that by (auto simp: awake_def outstanding_def add_pending_def Let_def dispatch_def queue_inv_def
        list_ex_iff is_run_def)
  assume "queue_inv c" "settled c"
  moreover from this have "awake (c\<lparr>br_delegation := d\<rparr>)" "queue_inv (c\<lparr>br_delegation := d\<rparr>)" for d
    by (simp_all add: settled_def awake_def outstanding_def)
  ultimately show ?thesis using *
    by (auto simp: settled_def RequestSoftwareReset_def Let_def split: option.split ResetRequestKind.split)
qed

lemma settled_same:
  "br_state c' = br_state c \<Longrightarrow> br_pendingBusResetEdge c' = br_pendingBusResetEdge c
    \<Longrightarrow> pending c' = pending c \<Longrightarrow> br_queue c' = br_queue c \<Longrightarrow> br_workInProgress c' = br_workInProgress c
    \<Longrightarrow> settled c' = settled c"
  by (simp add: settled_def awake_def outstanding_def)

lemma settled_quiet [simp]:
  "settled (map_diag fd c) = settled c" "settled (RecordRecoveryReason s c) = settled c"
  "settled (RecordRecoveryReasonCode rc c) = settled c" "settled (emit evs c) = settled c"
  "settled (c\<lparr>br_delegation := d\<rparr>) = settled c" "settled (c\<lparr>br_currentDiscoveryDelayMs := n\<rparr>) = settled c"
  "settled (c\<lparr>br_previousScanHadBusyNodes := b\<rparr>) = settled c"
  by (rule settled_same; simp)+

lemma irq_settled: "queue_inv c \<Longrightarrow> settled c \<Longrightarrow> settled (rc_OnIrq ev t c)"
  by (auto simp: settled_def awake_def outstanding_def rc_OnIrq_def Let_def dispatch_def map_cycle_def
      map_diag_def queue_inv_def list_ex_iff is_run_def)

lemma next_settled:
  assumes "queue_inv c" and "settled c"
  shows "settled (perform (NextJob env) c)"
proof (cases "br_queue c")
  case (Cons job rest)
  have q: "queue_inv (pop_job job rest c)" using queue.popped [OF assms(1) Cons] .
  have free: "\<not> br_workInProgress c" using assms(2) by (simp add: settled_def)
  have other: "settled (c\<lparr>br_queue := rest\<rparr>)" if "\<not> is_run job"
    using assms(2) that Cons by (simp add: settled_def awake_def outstanding_def)
  show ?thesis
  proof (cases job)
    case (DiscoveryJob d topo)
    then show ?thesis using other Cons
      by (simp add: perform_def run_job_def discovery_block_def ReadyForDiscovery_def Let_def is_run_def)
  next
    case (WatchdogJob m r)
    then show ?thesis using other Cons q
      by (simp add: perform_def run_job_def MaybeRecoverMissingManualResetIrq_def Let_def is_run_def
          pop_job_def request_settled)
  qed (use Cons q free in \<open>simp_all add: perform_def run_job_def pop_job_def run_settled\<close>)
qed (use assms in \<open>simp add: perform_def\<close>)

lemma reachable_settled: "reachable_reset c \<Longrightarrow> settled c"
proof (induction rule: reachable_reset.induct)
  case (initialized deps capture topology busManager callback)
  then show ?case
    by (simp add: settled_def awake_def outstanding_def rc_Initialize_def Let_def BusResetCoordinator0_def
        ResetCycleState0_def)
next
  case (performed c a)
  note q = queue.reachable [OF performed.hyps]
  show ?case
  proof (cases a)
    case (NextJob env)
    show ?thesis unfolding NextJob by (rule next_settled [OF q performed.IH])
  qed (use q performed.IH in \<open>simp_all add: perform_def irq_settled request_settled RequestUserReset_def
      RequestConfigRomRestageReset_def RequestRolePolicyReset_def ResetDelegationRetryCounter_def
      SetPreviousScanHadBusyNodes_def EscalateDiscoveryDelay_def Let_def\<close>)
qed

text \<open>
  C7: no wake-up is lost. Whatever sequence of interrupts, client requests and work queue blocks the
  coordinator has gone through, if it is not idle, has an unserved bus reset edge, holds a software
  reset that is still to be sent, or keeps the bus reset interrupt masked, then a block that runs the
  state machine is on the work queue; at most one deferred run is queued, and no run is marked as in
  progress between blocks.
\<close>

theorem no_lost_wakeup:
  assumes "reachable_reset c"
  shows "(if br_state c \<noteq> Idle \<or> br_pendingBusResetEdge c \<or> pending c \<noteq> None \<or> br_busResetMasked c
          then list_ex is_run (br_queue c) else True)
    \<and> length (filter is_deferred (br_queue c)) \<le> 1 \<and> \<not> br_workInProgress c"
proof -
  have "settled c" "queue_inv c" "mask_inv c"
    using assms reachable_settled queue.reachable mask.reachable by blast+
  then show ?thesis
    by (auto simp: settled_def awake_def outstanding_def queue_inv_def mask_inv_def split: if_splits)
qed

section \<open>A run ends\<close>

text \<open>How many more turns a run can take from a state when no interrupt arrives.\<close>

definition turns_left :: "FsmState \<Rightarrow> nat" where
  "turns_left s = (case s of Detecting \<Rightarrow> 7 | WaitingSelfID \<Rightarrow> 6 | Idle \<Rightarrow> 6 | QuiescingAT \<Rightarrow> 5
     | RestoringConfigROM \<Rightarrow> 4 | ClearingBusReset \<Rightarrow> 3 | Rearming \<Rightarrow> 2 | ResetComplete \<Rightarrow> 1)"

lemma step_descends:
  "fst (fsm_step e c) = StepContinue \<Longrightarrow> turns_left (br_state (snd (fsm_step e c))) < turns_left (br_state c)"
  using state_Stray [of e c]
  by (cases "br_state c")
     (auto simp: fsm_step_def step_defs Let_def case_prod_beta turns_left_def split: if_splits)

lemma step_edge: "br_pendingBusResetEdge (snd (fsm_step e c)) = br_pendingBusResetEdge c"
  by (cases "br_state c")
     (simp_all add: fsm_step_def step_defs Let_def case_prod_beta split: option.split)

lemma loop_undisturbed:
  assumes "\<And>j. en_irq (env j) = None" and "\<not> br_pendingBusResetEdge c"
    and "turns_left (br_state c) \<le> n"
  shows "fsm_loop n env i c = fsm_loop (turns_left (br_state c)) env i c"
proof -
  have "fsm_loop m env i c = fsm_loop n env i c"
    if "turns_left (br_state c) \<le> m" "turns_left (br_state c) \<le> n" "\<not> br_pendingBusResetEdge c" for m n i c
    using that
  proof (induction "turns_left (br_state c)" arbitrary: m n i c rule: less_induct)
    case less
    have pos: "0 < turns_left (br_state c)" by (cases "br_state c") (simp_all add: turns_left_def)
    with less.prems obtain m' n' where mn: "m = Suc m'" "n = Suc n'" by (metis Suc_le_D Suc_leI)
    obtain result c' where it: "iteration (env i) c = (result, c')" by (cases "iteration (env i) c")
    then have step: "fsm_step (env i) c = (result, c')"
      using assms(1) less.prems(3) by (simp add: iteration_def interrupted_def)
    show ?case
    proof (cases result)
      case StepContinue
      with step have lt: "turns_left (br_state c') < turns_left (br_state c)"
        using step_descends [of "env i" c] by simp
      moreover have "\<not> br_pendingBusResetEdge c'" using step_edge [of "env i" c] step less.prems(3) by simp
      ultimately have "fsm_loop m' env (Suc i) c' = fsm_loop n' env (Suc i) c'"
        using less.prems mn by (intro less.hyps) auto
      with it StepContinue mn show ?thesis by simp
    qed (use it mn in simp_all)
  qed
  with assms show ?thesis by blast
qed

text \<open>
  C8: a run of the state machine ends by itself. If no interrupt arrives during the run, the machine
  yields or finishes after at most seven turns from any state (eight states, each turn moves down),
  so the limit of twelve turns is never what stops it: any larger limit gives the same result.
\<close>

theorem run_ends_by_itself:
  assumes "\<And>j. en_irq (env j) = None" and "dp_hardware (br_deps c)" and "\<not> br_workInProgress c"
    and "7 \<le> n"
  shows "RunStateMachine env c = fsm_loop n env 0 (c\<lparr>br_workInProgress := True\<rparr>)"
proof -
  let ?c = "c\<lparr>br_workInProgress := True\<rparr>"
  have le: "turns_left s \<le> 7" for s by (cases s) (simp_all add: turns_left_def)
  have "fsm_loop m env 0 ?c = fsm_loop 7 env 0 ?c" if "7 \<le> m" for m
  proof (cases "br_pendingBusResetEdge c")
    case False
    then show ?thesis using loop_undisturbed [where env = env and c = ?c and n = m and i = 0]
        loop_undisturbed [where env = env and c = ?c and n = 7 and i = 0] le [of "br_state c"] that assms(1) by simp
  next
    case True
    obtain result c' where it: "iteration (env 0) ?c = (result, c')" by (cases "iteration (env 0) ?c")
    then have step: "fsm_step (env 0) (BeginNewResetCycle (env 0) ?c) = (result, c')"
      using assms(1) True by (simp add: iteration_def interrupted_def)
    have "\<not> br_pendingBusResetEdge c'"
      using step_edge [of "env 0" "BeginNewResetCycle (env 0) ?c"] step by simp
    moreover have "turns_left (br_state c') < 7" if "result = StepContinue"
      using step_descends [of "env 0" "BeginNewResetCycle (env 0) ?c"] step that
      by (simp add: turns_left_def)
    ultimately have "fsm_loop k env 1 c' = fsm_loop (turns_left (br_state c')) env 1 c'"
      if "result = StepContinue" "6 \<le> k" for k
      using that loop_undisturbed [where env = env and c = c' and n = k and i = 1] assms(1) by simp
    then have six: "fsm_loop k env (Suc 0) c' = fsm_loop 6 env (Suc 0) c'"
      if "result = StepContinue" "6 \<le> k" for k using that by simp
    obtain m' where m: "m = Suc m'" "6 \<le> m'" using \<open>7 \<le> m\<close> by (cases m) auto
    have seven: "fsm_loop 7 = fsm_loop (Suc 6)" by (rule arg_cong [where f = fsm_loop]) simp
    show ?thesis unfolding m(1) seven fsm_loop.simps it using six [OF _ m(2)] by (cases result) simp_all
  qed
  from this [of kMaxIterations] this [OF assms(4)] assms(2,3) show ?thesis
    by (simp add: RunStateMachine_def kMaxIterations_def)
qed

end
