(* ===== verification/Bus_Reset_Requests.thy ===== *)
theory Bus_Reset_Requests
  imports Bus_Reset_Invariants
begin

text \<open>
  Software resets: how requests that arrive before a reset can be sent are merged, how often the root
  may be delegated, and when a reset is dropped.
\<close>

section \<open>Merging software resets\<close>

text \<open>The order of the reset kinds in which \<open>MergeResetRequests\<close> prefers them, and of the flavors.\<close>

definition kind_rank :: "ResetRequestKind \<Rightarrow> nat" where
  "kind_rank k = (case k of Recovery \<Rightarrow> 0 | RolePolicyRestage \<Rightarrow> 1 | ManualBusManager \<Rightarrow> 2
     | Delegation \<Rightarrow> 3 | GapCorrection \<Rightarrow> 4)"

lemma kind_rank_inject: "kind_rank a = kind_rank b \<Longrightarrow> a = b"
  by (cases a; cases b) (simp_all add: kind_rank_def)

instantiation ResetRequestKind :: linorder
begin

definition less_eq_ResetRequestKind :: "ResetRequestKind \<Rightarrow> ResetRequestKind \<Rightarrow> bool" where
  "less_eq_ResetRequestKind a b \<longleftrightarrow> kind_rank a \<le> kind_rank b"

definition less_ResetRequestKind :: "ResetRequestKind \<Rightarrow> ResetRequestKind \<Rightarrow> bool" where
  "less_ResetRequestKind a b \<longleftrightarrow> kind_rank a < kind_rank b"

instance
  by standard (auto simp: less_eq_ResetRequestKind_def less_ResetRequestKind_def dest: kind_rank_inject)

end

instantiation ResetFlavor :: linorder
begin

definition less_eq_ResetFlavor :: "ResetFlavor \<Rightarrow> ResetFlavor \<Rightarrow> bool" where
  "less_eq_ResetFlavor a b \<longleftrightarrow> a = ShortReset \<or> b = LongReset"

definition less_ResetFlavor :: "ResetFlavor \<Rightarrow> ResetFlavor \<Rightarrow> bool" where
  "less_ResetFlavor a b \<longleftrightarrow> a = ShortReset \<and> b = LongReset"

instance
proof
  fix x y z :: ResetFlavor
  show "(x < y) = (x \<le> y \<and> \<not> y \<le> x)" "x \<le> x" "x \<le> y \<or> y \<le> x" "x \<le> y \<Longrightarrow> y \<le> x \<Longrightarrow> x = y"
    by (cases x; cases y; simp add: less_eq_ResetFlavor_def less_ResetFlavor_def)+
  show "x \<le> y \<Longrightarrow> y \<le> z \<Longrightarrow> x \<le> z"
    by (cases x; cases y; simp add: less_eq_ResetFlavor_def)
qed

end

lemma mergedKind_max: "mergedKind a b = max a b"
  by (cases a; cases b) (simp_all add: mergedKind_def max_def less_eq_ResetRequestKind_def kind_rank_def)

lemma strongerFlavor_max: "strongerFlavor a b = max a b"
  by (cases a; cases b) (simp_all add: strongerFlavor_def max_def less_eq_ResetFlavor_def)

definition last_named :: "'a option list \<Rightarrow> 'a option" where
  "last_named xs = foldl (\<lambda>acc x. case x of Some v \<Rightarrow> Some v | None \<Rightarrow> acc) None xs"

definition named_root :: "ResetRequest \<Rightarrow> nat option" where
  "named_root r = Option.bind (rq_phyConfig r) cmd_forceRootNodeID"

definition named_gap :: "ResetRequest \<Rightarrow> nat option" where
  "named_gap r = Option.bind (rq_phyConfig r) cmd_gapCount"

lemma merge_fields:
  "rq_kind (MergeResetRequests r q) = max (rq_kind r) (rq_kind q)"
  "rq_flavor (MergeResetRequests r q) = max (rq_flavor r) (rq_flavor q)"
  "named_root (MergeResetRequests r q) = (case named_root q of Some n \<Rightarrow> Some n | None \<Rightarrow> named_root r)"
  "rq_gapDecisionReason (MergeResetRequests r q) = Some MismatchForce63 \<longleftrightarrow>
     rq_gapDecisionReason r = Some MismatchForce63 \<or> rq_gapDecisionReason q = Some MismatchForce63"
  "named_gap (MergeResetRequests r q) =
     (if rq_gapDecisionReason r = Some MismatchForce63 \<or> rq_gapDecisionReason q = Some MismatchForce63
      then Some 63 else case named_gap q of Some g \<Rightarrow> Some g | None \<Rightarrow> named_gap r)"
  by (auto simp: MergeResetRequests_def Let_def mergedKind_max strongerFlavor_max named_root_def named_gap_def
      MergePhyConfig_def PhyConfigCommand0_def kConservativeMismatchGapCount_def split: option.splits)

lemma foldl_max: "foldl (\<lambda>m q. M m q) r qs = m \<Longrightarrow> (\<And>a b. f (M a b) = max (f a) (f b))
   \<Longrightarrow> f m = Max (insert (f r) (f ` set qs))" for f :: "'b \<Rightarrow> 'a::linorder"
proof (induction qs arbitrary: r)
  case (Cons q qs)
  then have "f m = Max (insert (f (M r q)) (f ` set qs))" by simp
  also have "\<dots> = Max (insert (f r) (f ` set (q # qs)))"
    using Cons.prems(2) by (cases "qs = []") (simp_all add: ac_simps)
  finally show ?case .
qed simp

lemma case_option_same [simp]: "(case x of None \<Rightarrow> None | Some v \<Rightarrow> Some v) = x"
  by (cases x) simp_all

lemma foldl_last:
  assumes "\<And>u v. f (M u v) = (case f v of Some w \<Rightarrow> Some w | None \<Rightarrow> f u)"
  shows "foldl (\<lambda>acc x. case x of Some v \<Rightarrow> Some v | None \<Rightarrow> acc) (f b) (map f ys) = f (foldl M b ys)"
proof (induction ys arbitrary: b)
  case (Cons y ys)
  from Cons.IH [of "M b y"] show ?case by (simp add: assms)
qed simp

lemma merged_gap:
  assumes "rq_gapDecisionReason b = Some MismatchForce63 \<Longrightarrow> named_gap b = Some 63"
  shows "named_gap (foldl MergeResetRequests b ys) =
    (if list_ex (\<lambda>x. rq_gapDecisionReason x = Some MismatchForce63) (b # ys) then Some 63
     else foldl (\<lambda>acc x. case x of Some v \<Rightarrow> Some v | None \<Rightarrow> acc) (named_gap b) (map named_gap ys))"
  using assms
proof (induction ys arbitrary: b)
  case (Cons a ys)
  from Cons.IH [of "MergeResetRequests b a"] show ?case by (simp add: merge_fields split: option.split)
qed simp

text \<open>
  Merging software resets loses nothing that matters. When further requests arrive before a
  pending one can be sent, the merged request has the highest kind of all of them (gap correction,
  delegation, manual, restage, recovery), is a long reset if one of them is, names the root that the
  latest request naming a root names, and carries gap count 63 if any of them corrects a gap
  mismatch, whatever gap count the others ask for.
\<close>

lemma merged_requests:
  "let m = foldl MergeResetRequests r (q # qs) in
     rq_kind m = Max (set (map rq_kind (r # q # qs)))
     \<and> rq_flavor m = Max (set (map rq_flavor (r # q # qs)))
     \<and> named_root m = last_named (map named_root (r # q # qs))
     \<and> named_gap m = (if list_ex (\<lambda>x. rq_gapDecisionReason x = Some MismatchForce63) (r # q # qs)
           then Some 63 else last_named (map named_gap (r # q # qs)))
     \<and> (rq_gapDecisionReason m = Some MismatchForce63 \<longleftrightarrow>
           list_ex (\<lambda>x. rq_gapDecisionReason x = Some MismatchForce63) (r # q # qs))"
proof -
  define m where "m = foldl MergeResetRequests r (q # qs)"
  have m: "foldl MergeResetRequests r (q # qs) = m" by (simp add: m_def)
  have max: "rq_kind m = Max (set (map rq_kind (r # q # qs)))"
    "rq_flavor m = Max (set (map rq_flavor (r # q # qs)))"
    using foldl_max [OF m, where f = rq_kind] foldl_max [OF m, where f = rq_flavor]
    by (simp_all add: merge_fields)
  have root: "named_root m = last_named (map named_root (r # q # qs))"
    unfolding m_def last_named_def
    using foldl_last [of named_root MergeResetRequests "MergeResetRequests r q" qs]
    by (simp add: merge_fields split: option.split_asm)
  have reason: "rq_gapDecisionReason m = Some MismatchForce63 \<longleftrightarrow>
      list_ex (\<lambda>x. rq_gapDecisionReason x = Some MismatchForce63) (r # q # qs)"
    unfolding m_def by (induction qs arbitrary: r q) (simp_all add: merge_fields)
  have gap: "named_gap m = (if list_ex (\<lambda>x. rq_gapDecisionReason x = Some MismatchForce63) (r # q # qs)
      then Some 63 else last_named (map named_gap (r # q # qs)))"
    unfolding m_def last_named_def using merged_gap [of "MergeResetRequests r q" qs]
    by (auto simp: merge_fields split: option.splits)
  from max root reason gap show ?thesis unfolding m Let_def by blast
qed

section \<open>Root delegation\<close>

text \<open>Delegation is suppressed and the reset that is still to be sent, if any, does not delegate.\<close>

definition suppressed_inv :: "BusResetCoordinator \<Rightarrow> bool" where
  "suppressed_inv c \<longleftrightarrow> dl_suppressed (br_delegation c)
     \<and> (case pending c of None \<Rightarrow> True | Some r \<Rightarrow> \<not> carries_delegation r)"

lemma suppressed_same:
  "br_delegation c' = br_delegation c \<Longrightarrow> pending c' = pending c \<Longrightarrow> suppressed_inv c' = suppressed_inv c"
  by (simp add: suppressed_inv_def)

lemma merge_carries:
  "carries_delegation (MergeResetRequests r q) \<longleftrightarrow> carries_delegation r \<or> carries_delegation q"
  by (auto simp: carries_delegation_def MergeResetRequests_def Let_def MergePhyConfig_def
      PhyConfigCommand0_def split: option.splits)


lemma suppressed_quiet [simp]:
  "suppressed_inv (emit evs c) = suppressed_inv c" "suppressed_inv (map_diag fd c) = suppressed_inv c"
  "suppressed_inv (dispatch job c) = suppressed_inv c"
  "suppressed_inv (rc_TransitionTo now s c) = suppressed_inv c"
  "suppressed_inv (YieldAndReschedule ms c) = suppressed_inv c"
  "suppressed_inv (RecordRecoveryReason r c) = suppressed_inv c"
  "suppressed_inv (RecordRecoveryReasonCode rc c) = suppressed_inv c"
  "suppressed_inv (UnmaskBusReset c) = suppressed_inv c"
  "suppressed_inv (ForceUnmaskBusResetIfNeeded c) = suppressed_inv c"
  "suppressed_inv (ClearConsumedSelfIDInterrupts e c) = suppressed_inv c"
  "suppressed_inv (ArmSelfIDBuffer e c) = suppressed_inv c" "suppressed_inv (StopFlushAT c) = suppressed_inv c"
  "suppressed_inv (snd (DecodeSelfID e c)) = suppressed_inv c"
  "suppressed_inv (snd (BuildTopology e c)) = suppressed_inv c"
  "suppressed_inv (RestoreConfigROM e c) = suppressed_inv c" "suppressed_inv (ClearBusReset e c) = suppressed_inv c"
  "suppressed_inv (EnableFilters e c) = suppressed_inv c" "suppressed_inv (RearmAT c) = suppressed_inv c"
  "suppressed_inv (LogMetrics e c) = suppressed_inv c"
  "suppressed_inv (ArmSoftwareResetHoldoffAfterSelfIDCompletion t c) = suppressed_inv c"
  "suppressed_inv (HandleStraySelfID e c) = suppressed_inv c"
  by (rule suppressed_same; simp)+

lemma suppressed_ATInactive [simp]: "suppressed_inv (snd (G_ATInactive e c)) = suppressed_inv c"
  by (simp add: G_ATInactive_def Let_def)

lemma suppressed_updates [simp]:
  "suppressed_inv (c\<lparr>br_stopFlushIssued := b\<rparr>) = suppressed_inv c"
  "suppressed_inv (c\<lparr>br_wasRoot := b\<rparr>) = suppressed_inv c"
  "suppressed_inv (c\<lparr>br_postResetTiming := t\<rparr>) = suppressed_inv c"
  "suppressed_inv (c\<lparr>br_workInProgress := b\<rparr>) = suppressed_inv c"
  "suppressed_inv (c\<lparr>br_currentDiscoveryDelayMs := n\<rparr>) = suppressed_inv c"
  "suppressed_inv (c\<lparr>br_previousScanHadBusyNodes := b\<rparr>) = suppressed_inv c"
  "suppressed_inv (pop_job job rest c) = suppressed_inv c"
  by (simp_all add: suppressed_inv_def pop_job_def)

lemma suppressed_request: "legitimate r \<Longrightarrow> suppressed_inv c \<Longrightarrow> suppressed_inv (RequestSoftwareReset r c)"
  by (cases "rq_kind r")
     (auto simp: RequestSoftwareReset_def suppressed_inv_def add_pending_def Let_def legitimate_def
       merge_carries split: option.splits)

lemma suppressed_driven: "suppressed_inv c \<Longrightarrow> suppressed_inv (MaybeRequestTopologyDrivenReset c)"
proof -
  have "legitimate \<lparr>rq_kind = k, rq_flavor = f, rq_phyConfig = Some (PhyConfigCommand0\<lparr>cmd_gapCount := g\<rparr>),
      rq_reason = s, rq_gapDecisionReason = d\<rparr>" for k f g s d
    by (simp add: legitimate_def carries_delegation_def PhyConfigCommand0_def)
  then show "suppressed_inv c \<Longrightarrow> suppressed_inv (MaybeRequestTopologyDrivenReset c)"
    by (simp add: MaybeRequestTopologyDrivenReset_def suppressed_request split: option.split)
qed

lemma apply_keeps_delegation [simp]:
  "br_delegation (snd (ApplySoftwareResetPhyConfig e r False c)) = br_delegation c"
  by (simp add: ApplySoftwareResetPhyConfig_def ClearSoftwareResetTracking_def Let_def split: option.split)

lemma suppressed_maybe:
  assumes "suppressed_inv c"
  shows "suppressed_inv (snd (MaybeDispatchPendingSoftwareReset e c))"
proof (cases "pending c")
  case (Some r)
  with assms have no: "(case rq_phyConfig r of None \<Rightarrow> False
      | Some command \<Rightarrow> cmd_forceRootNodeID command \<noteq> None \<or> cmd_setContender command \<noteq> None) = False"
    by (simp add: suppressed_inv_def carries_delegation_def)
  have keeps: "br_delegation (snd (DispatchSoftwareReset e r d)) = br_delegation d" for d
    by (simp add: DispatchSoftwareReset_def no Let_def case_prod_beta ClearSoftwareResetTracking_def)
  show ?thesis using assms Some
    by (simp add: MaybeDispatchPendingSoftwareReset_def Let_def suppressed_inv_def keeps)
qed (use assms in \<open>simp add: MaybeDispatchPendingSoftwareReset_def\<close>)

lemma suppressed_step: "suppressed_inv c \<Longrightarrow> suppressed_inv (snd (fsm_step e c))"
  by (cases "br_state c")
     (simp_all add: fsm_step_def step_defs Let_def case_prod_beta suppressed_maybe suppressed_request
       suppressed_driven recovery_request_def split: option.split)

lemma suppressed_irq [simp]: "suppressed_inv (rc_OnIrq ev t c) = suppressed_inv c"
  by (rule suppressed_same) (simp_all add: rc_OnIrq_def Let_def)

lemma suppressed_Begin: "suppressed_inv c \<Longrightarrow> suppressed_inv (BeginNewResetCycle e c)"
  by (simp add: suppressed_inv_def) (simp add: BeginNewResetCycle_def Let_def)

lemma suppressed_turn: "suppressed_inv c \<Longrightarrow> suppressed_inv (snd (iteration e c))"
  by (auto simp: iteration_def interrupted_def Let_def intro!: suppressed_step suppressed_Begin
      split: option.split)

interpretation suppressed: reset_step_invariant suppressed_inv
  by unfold_locales (simp_all add: suppressed_turn suppressed_request)

lemma role_request_suppressed:
  "dl_suppressed (br_delegation c) \<Longrightarrow> RequestRolePolicyReset root l g s reason c = c"
  by (simp add: RequestRolePolicyReset_def RequestSoftwareReset_def)

lemma role_request:
  fixes root :: nat
  assumes "\<not> dl_suppressed (br_delegation c)"
  defines "n \<equiv> (if dl_target (br_delegation c) \<noteq> root then 1 else dl_retryCount (br_delegation c) + 1)"
  shows "dl_target (br_delegation (RequestRolePolicyReset root l g s reason c)) = root
    \<and> dl_retryCount (br_delegation (RequestRolePolicyReset root l g s reason c)) = n
    \<and> (dl_suppressed (br_delegation (RequestRolePolicyReset root l g s reason c)) \<longleftrightarrow> 5 < n)
    \<and> (5 < n \<longrightarrow> pending (RequestRolePolicyReset root l g s reason c) = pending c)"
  using assms
  by (auto simp: RequestRolePolicyReset_def RequestSoftwareReset_def Let_def kMaxDelegateRetries_def)

text \<open>
  Root delegation is limited to five requests for one target and then stays off. From a state in
  which delegation is not suppressed and the target is another node, the \<open>k\<close>-th request to make the
  same node root is accepted exactly for \<open>k\<close> up to five, and the sixth suppresses delegation. From
  then on, as soon as no delegating reset is pending, no sequence of interrupts, requests and work
  queue blocks lifts the suppression, however the delegations went; only the call that resets the
  retry counter does, and the repository has no caller of it.
\<close>

lemma delegation_limit:
  assumes "\<not> dl_suppressed (br_delegation c)" and "dl_target (br_delegation c) \<noteq> root"
  shows "(dl_suppressed (br_delegation ((RequestRolePolicyReset root l g s reason ^^ k) c)) \<longleftrightarrow> 5 < k)
    \<and> (5 < k \<longrightarrow> pending ((RequestRolePolicyReset root l g s reason ^^ k) c)
           = pending ((RequestRolePolicyReset root l g s reason ^^ 5) c))
    \<and> (dl_suppressed (br_delegation b)
         \<and> (case pending b of None \<Rightarrow> True | Some r \<Rightarrow> \<not> carries_delegation r)
         \<and> list_all (\<lambda>a. a \<noteq> DelegationRetryReset) as \<longrightarrow> dl_suppressed (br_delegation (fold perform as b)))"
proof -
  let ?req = "RequestRolePolicyReset root l g s reason"
  have upto: "(1 \<le> k \<and> k \<le> 5 \<longrightarrow> dl_target (br_delegation ((?req ^^ k) c)) = root
        \<and> dl_retryCount (br_delegation ((?req ^^ k) c)) = of_nat k)
      \<and> (dl_suppressed (br_delegation ((?req ^^ k) c)) \<longleftrightarrow> 5 < k)
      \<and> (5 < k \<longrightarrow> pending ((?req ^^ k) c) = pending ((?req ^^ 5) c))" for k
  proof (induction k)
    case (Suc k)
    let ?c = "(?req ^^ k) c"
    have suc: "(?req ^^ Suc k) c = ?req ?c" by simp
    consider "k = 0" | "1 \<le> k" "k < 5" | "k = 5" | "5 < k" by linarith
    then show ?case
    proof cases
      case 1
      then show ?thesis using role_request [OF assms(1), of root l g s reason] assms(2) by simp
    next
      case 2
      then have "k = 1 \<or> k = 2 \<or> k = 3 \<or> k = 4" by auto
      with 2 Suc.IH role_request [of ?c root l g s reason] show ?thesis by auto
    next
      case 3
      with Suc.IH role_request [of ?c root l g s reason] show ?thesis unfolding suc by simp
    next
      case 4
      with Suc.IH role_request_suppressed [of ?c root l g s reason] show ?thesis by simp
    qed
  qed (use assms in simp)
  with suppressed.steps [of b as] show ?thesis by (auto simp: suppressed_inv_def)
qed

section \<open>Bare resets at gap count zero\<close>

text \<open>
  A reset request that carries no PHY configuration is dropped when every node reports gap count
  zero. The coordinator wants to restate the current gap count first, the hardware layer rejects a gap
  count of zero, and the reset is then given up: whatever the hardware answers, no bus reset is
  initiated and the request is gone. Only the holdoff delays this.
\<close>

lemma bare_reset_dropped_at_gap_zero:
  assumes "cy_acceptedTopology (br_cycle c) = Some topology" and "ts_gapCountConsistent topology"
    and "ts_gapCount topology = 0" and "dp_hardware (br_deps c)"
    and "pending c = Some r" and "rq_phyConfig r = None" and "blocked c \<le> en_now e ClkDispatch"
  shows "\<not> fst (MaybeDispatchPendingSoftwareReset e c)
    \<and> br_trace (snd (MaybeDispatchPendingSoftwareReset e c)) = br_trace c
    \<and> pending (snd (MaybeDispatchPendingSoftwareReset e c)) = None"
proof -
  have "SendPhyConfig e (Some 0) None = None" by (simp add: SendPhyConfig_def Let_def)
  with assms show ?thesis
    by (simp add: MaybeDispatchPendingSoftwareReset_def DispatchSoftwareReset_def
        ApplySoftwareResetPhyConfig_def CurrentGapCountForBareReset_def kConservativeMismatchGapCount_def
        Let_def not_less)
qed

end
