(* ===== verification/Bus_Reset_Cycle.thy ===== *)
theory Bus_Reset_Cycle
  imports Bus_Reset_Properties Bus_Reset_Requests
begin

text \<open>
  The exact course of a bus reset cycle that nothing disturbs: seven turns of the state machine, the
  effects of each in order, and the topology handed to discovery at the end.
\<close>

section \<open>Turn by turn\<close>

definition all_deps :: "BusResetCoordinator \<Rightarrow> bool" where
  "all_deps c \<longleftrightarrow> dp_hardware (br_deps c) \<and> dp_workQueue (br_deps c) \<and> dp_asyncSubsystem (br_deps c)
     \<and> dp_configRomStager (br_deps c) \<and> dp_interruptManager (br_deps c) \<and> dp_topologyCallback (br_deps c)"

definition map_events :: "BusResetCoordinator \<Rightarrow> BusEvent list" where
  "map_events c = (if dp_topologyMapService (br_deps c) then [InvalidateTopologyMap] else [])"

lemma emit_trace [simp]: "br_trace (emit evs c) = br_trace c @ evs"
  by (simp add: emit_def)

lemma quiet_turn: "en_irq e = None \<Longrightarrow> \<not> br_pendingBusResetEdge c \<Longrightarrow> iteration e c = fsm_step e c"
  by (simp add: iteration_def interrupted_def)

text \<open>Members that the turns after the first leave alone.\<close>

definition fixed :: "BusResetCoordinator \<Rightarrow> BusResetCoordinator \<Rightarrow> bool" where
  "fixed c c' \<longleftrightarrow> br_deps c' = br_deps c \<and> \<not> br_pendingBusResetEdge c'
     \<and> br_currentDiscoveryDelayMs c' = br_currentDiscoveryDelayMs c
     \<and> br_previousScanHadBusyNodes c' = br_previousScanHadBusyNodes c"

lemma TransitionTo_trace [simp]: "br_trace (rc_TransitionTo now s c) = br_trace c"
  by simp

lemma Begin_effects:
  assumes "all_deps c" and "\<And>s. en_access e s"
  shows "br_trace (BeginNewResetCycle e c) = br_trace c
      @ (if dp_romScanner (br_deps c) \<and> br_lastGeneration c > 0 then [AbortScan (br_lastGeneration c)] else [])
      @ map_events c @ [MaskInterrupts kBusReset, WriteIntEventClear kSelfIDComplete2]"
    and "br_selfIdCapture (BeginNewResetCycle e c) = br_selfIdCapture c"
    and "br_topologyManager (BeginNewResetCycle e c) = map_option InvalidateForBusReset (br_topologyManager c)"
    and "br_busManager (BeginNewResetCycle e c) = br_busManager c"
    and "br_cycle (BeginNewResetCycle e c) = ResetForNewEdge (br_cycle c)"
    and "\<not> br_stopFlushIssued (BeginNewResetCycle e c)"
    and "br_lastGeneration (BeginNewResetCycle e c) = br_lastGeneration c"
    and "br_selfIdLatch (BeginNewResetCycle e c) = latch_Reset"
    and "br_currentDiscoveryDelayMs (BeginNewResetCycle e c) = br_currentDiscoveryDelayMs c"
    and "br_previousScanHadBusyNodes (BeginNewResetCycle e c) = br_previousScanHadBusyNodes c"
  using assms
  by (simp_all add: BeginNewResetCycle_def Let_def all_deps_def map_events_def MaskBusReset_def
      ClearStaleSelfIDComplete2_def latch_Reset_def)

lemma turn_begin:
  assumes "all_deps c" and "br_pendingBusResetEdge c" and "en_irq e = None" and "\<And>s. en_access e s"
    and "br_selfIdCapture c = Some capture" and "cap_segmentValid capture"
    and "cap_segmentAddress capture \<le> 0xFFFFFFFF"
  shows "fst (iteration e c) = StepContinue" and "br_state (snd (iteration e c)) = WaitingSelfID"
    and "fixed c (snd (iteration e c))" and "br_queue (snd (iteration e c)) = br_queue c"
    and "br_trace (snd (iteration e c)) = br_trace c
      @ (if dp_romScanner (br_deps c) \<and> br_lastGeneration c > 0 then [AbortScan (br_lastGeneration c)] else [])
      @ map_events c
      @ [MaskInterrupts kBusReset, WriteIntEventClear kSelfIDComplete2,
         WriteSelfIDBuffer (ucast (cap_segmentAddress capture))]"
    and "br_selfIdCapture (snd (iteration e c)) = Some (capture\<lparr>cap_armed := True\<rparr>)"
    and "br_topologyManager (snd (iteration e c)) = map_option InvalidateForBusReset (br_topologyManager c)"
    and "br_busManager (snd (iteration e c)) = br_busManager c"
    and "br_cycle (snd (iteration e c)) = ResetForNewEdge (br_cycle c)"
    and "\<not> br_stopFlushIssued (snd (iteration e c))"
    and "br_lastGeneration (snd (iteration e c)) = br_lastGeneration c"
    and "br_selfIdLatch (snd (iteration e c)) = latch_Reset"
proof -
  have it: "iteration e c = StepDetecting e (BeginNewResetCycle e c)"
    using assms by (simp add: iteration_def interrupted_def fsm_step_def)
  have hw: "dp_hardware (br_deps c)" using assms(1) by (simp add: all_deps_def)
  have arm: "Arm True capture = (kIOReturnSuccess, Some (ucast (cap_segmentAddress capture)),
      capture\<lparr>cap_armed := True\<rparr>)" using assms by (simp add: Arm_def not_less)
  note facts = Begin_effects [OF assms(1,4)] assms(4,5) hw arm
  show "fst (iteration e c) = StepContinue" "br_state (snd (iteration e c)) = WaitingSelfID"
    "fixed c (snd (iteration e c))" "br_queue (snd (iteration e c)) = br_queue c"
    "br_trace (snd (iteration e c)) = br_trace c
      @ (if dp_romScanner (br_deps c) \<and> br_lastGeneration c > 0 then [AbortScan (br_lastGeneration c)] else [])
      @ map_events c
      @ [MaskInterrupts kBusReset, WriteIntEventClear kSelfIDComplete2,
         WriteSelfIDBuffer (ucast (cap_segmentAddress capture))]"
    "br_selfIdCapture (snd (iteration e c)) = Some (capture\<lparr>cap_armed := True\<rparr>)"
    "br_topologyManager (snd (iteration e c)) = map_option InvalidateForBusReset (br_topologyManager c)"
    "br_busManager (snd (iteration e c)) = br_busManager c"
    "br_cycle (snd (iteration e c)) = ResetForNewEdge (br_cycle c)"
    "\<not> br_stopFlushIssued (snd (iteration e c))"
    "br_lastGeneration (snd (iteration e c)) = br_lastGeneration c"
    "br_selfIdLatch (snd (iteration e c)) = latch_Reset"
    unfolding it by (simp_all add: StepDetecting_def ArmSelfIDBuffer_def Let_def facts fixed_def)
qed

text \<open>The Self-ID completion arrives, the capture decodes.\<close>

lemma turn_self_id:
  assumes "all_deps c" and "br_state c = WaitingSelfID" and "\<not> br_pendingBusResetEdge c"
    and "en_irq e = Some (kSelfIDComplete, t)" and "\<And>s. en_access e s" and "G_NodeIDValid e c"
    and "br_selfIdLatch c = latch_Reset" and "br_selfIdCapture c = Some capture"
    and "Decode (en_read e RdSelfIDCount) (Some (en_read e RdSelfIDCountAgain)) (dma_view (en_dma e) capture)
           = Inr r"
  shows "fst (iteration e c) = StepContinue" and "br_state (snd (iteration e c)) = QuiescingAT"
    and "fixed c (snd (iteration e c))" and "br_queue (snd (iteration e c)) = br_queue c @ [RunJob]"
    and "br_trace (snd (iteration e c)) = br_trace c
      @ [HoldoffArmed t, ConfirmBusGeneration (ucast (res_generation r AND 0xFF)),
         WriteIntEventClear kSelfIDComplete]"
    and "br_topologyManager (snd (iteration e c)) = br_topologyManager c"
    and "br_busManager (snd (iteration e c)) = br_busManager c"
    and "cy_acceptedSelfId (br_cycle (snd (iteration e c))) = Some r"
    and "pending (snd (iteration e c)) = pending c"
    and "br_stopFlushIssued (snd (iteration e c)) = br_stopFlushIssued c"
    and "br_lastGeneration (snd (iteration e c)) = res_generation r"
    and "br_postResetTiming (snd (iteration e c)) = prt_OnSelfIDComplete (res_generation r) t"
proof -
  define d where "d = dispatch RunJob
      (c\<lparr>br_selfIdLatch := latch_Reset\<lparr>sl_complete := True, sl_completeTimeNs := t\<rparr>\<rparr>)"
  have bits: "kSelfIDComplete AND kBusReset = 0" "kSelfIDComplete AND kSelfIDComplete2 = 0"
    "kSelfIDComplete \<noteq> 0"
    by (simp_all add: kSelfIDComplete_def kSelfIDComplete2_def kBusReset_def)
  have irq: "rc_OnIrq kSelfIDComplete t c = d"
    using assms(1,7) by (simp add: rc_OnIrq_def bits Let_def d_def all_deps_def)
  have frame: "br_state d = WaitingSelfID" "br_deps d = br_deps c" "br_queue d = br_queue c @ [RunJob]"
    "br_trace d = br_trace c" "br_selfIdCapture d = Some capture" "br_cycle d = br_cycle c"
    "br_topologyManager d = br_topologyManager c" "br_busManager d = br_busManager c"
    "br_stopFlushIssued d = br_stopFlushIssued c" "\<not> br_pendingBusResetEdge d"
    "br_selfIdLatch d = latch_Reset\<lparr>sl_complete := True, sl_completeTimeNs := t\<rparr>"
    "br_currentDiscoveryDelayMs d = br_currentDiscoveryDelayMs c"
    "br_previousScanHadBusyNodes d = br_previousScanHadBusyNodes c"
    using assms by (simp_all add: d_def dispatch_def)
  have it: "iteration e c = StepWaitingSelfID e d"
    using assms(4) irq frame by (simp add: iteration_def interrupted_def fsm_step_def)
  have can: "CanAttemptSelfIDDecode e d"
    using assms(6) by (simp add: CanAttemptSelfIDDecode_def HasSelfIDCompletion_def G_NodeIDValid_def frame)
  define h where "h = ArmSoftwareResetHoldoffAfterSelfIDCompletion t d"
  have dec: "DecodeSelfID e h = (True, emit [ConfirmBusGeneration (ucast (res_generation r AND 0xFF))]
      ((map_cycle (\<lambda>y. y\<lparr>cy_acceptedSelfId := Some r\<rparr>) h)\<lparr>br_lastGeneration := res_generation r\<rparr>))"
    using assms(1,5,9) by (simp add: DecodeSelfID_def Let_def h_def frame all_deps_def)
  have hf: "br_trace h = br_trace c @ [HoldoffArmed t]" "pending h = pending c"
    by (simp_all add: h_def ArmSoftwareResetHoldoffAfterSelfIDCompletion_def frame)
  have step: "StepWaitingSelfID e d = (StepContinue, rc_TransitionTo (en_now e ClkTransition) QuiescingAT
      ((ClearConsumedSelfIDInterrupts e (snd (DecodeSelfID e h)))
        \<lparr>br_postResetTiming := prt_OnSelfIDComplete (res_generation r) t\<rparr>))"
    using can by (simp add: StepWaitingSelfID_def Let_def frame dec h_def [symmetric] latch_Reset_def)
  show "fst (iteration e c) = StepContinue" "br_state (snd (iteration e c)) = QuiescingAT"
    "fixed c (snd (iteration e c))" "br_queue (snd (iteration e c)) = br_queue c @ [RunJob]"
    "br_trace (snd (iteration e c)) = br_trace c
      @ [HoldoffArmed t, ConfirmBusGeneration (ucast (res_generation r AND 0xFF)),
         WriteIntEventClear kSelfIDComplete]"
    "br_topologyManager (snd (iteration e c)) = br_topologyManager c"
    "br_busManager (snd (iteration e c)) = br_busManager c"
    "cy_acceptedSelfId (br_cycle (snd (iteration e c))) = Some r"
    "pending (snd (iteration e c)) = pending c"
    "br_stopFlushIssued (snd (iteration e c)) = br_stopFlushIssued c"
    "br_lastGeneration (snd (iteration e c)) = res_generation r"
    "br_postResetTiming (snd (iteration e c)) = prt_OnSelfIDComplete (res_generation r) t"
    unfolding it step dec using assms(1,5)
    by (simp_all add: fixed_def frame hf h_def [symmetric] ClearConsumedSelfIDInterrupts_def Let_def all_deps_def
        latch_Reset_def kSelfIDComplete_def) (simp_all add: h_def frame latch_Reset_def)
qed

text \<open>The transmit contexts are stopped, flushed and found inactive.\<close>

definition contexts_inactive :: "StepEnv \<Rightarrow> bool" where
  "contexts_inactive e \<longleftrightarrow> en_read e RdATRequest AND kContextControlActiveBit = 0
     \<and> en_read e RdATResponse AND kContextControlActiveBit = 0"

lemma ATInactive_ready:
  assumes "dp_hardware (br_deps c)" and "en_access e AcATControl" and "contexts_inactive e"
  shows "G_ATInactive e c = (True, emit [ReadATControl (en_read e RdATRequest) (en_read e RdATResponse)] c)"
  using assms by (simp add: G_ATInactive_def contexts_inactive_def Let_def)

lemma turn_quiesce:
  assumes "all_deps c" and "br_state c = QuiescingAT" and "\<not> br_pendingBusResetEdge c"
    and "en_irq e = None" and "\<And>s. en_access e s" and "contexts_inactive e" and "\<not> br_stopFlushIssued c"
  shows "fst (iteration e c) = StepContinue" and "br_state (snd (iteration e c)) = RestoringConfigROM"
    and "fixed c (snd (iteration e c))" and "br_queue (snd (iteration e c)) = br_queue c"
    and "br_trace (snd (iteration e c)) = br_trace c @ map_events c
      @ [OnBusResetBegin (ucast ((br_lastGeneration c + 1) AND 0xFF)), StopATContextsOnly, FlushATContexts,
         ReadATControl (en_read e RdATRequest) (en_read e RdATResponse)]"
    and "br_topologyManager (snd (iteration e c)) = br_topologyManager c"
    and "br_busManager (snd (iteration e c)) = br_busManager c"
    and "br_cycle (snd (iteration e c)) = br_cycle c"
    and "br_lastGeneration (snd (iteration e c)) = br_lastGeneration c"
    and "br_postResetTiming (snd (iteration e c)) = br_postResetTiming c"
proof -
  have hw: "dp_hardware (br_deps c)" "dp_asyncSubsystem (br_deps c)" using assms(1) by (simp_all add: all_deps_def)
  show "fst (iteration e c) = StepContinue" "br_state (snd (iteration e c)) = RestoringConfigROM"
    "fixed c (snd (iteration e c))" "br_queue (snd (iteration e c)) = br_queue c"
    "br_trace (snd (iteration e c)) = br_trace c @ map_events c
      @ [OnBusResetBegin (ucast ((br_lastGeneration c + 1) AND 0xFF)), StopATContextsOnly, FlushATContexts,
         ReadATControl (en_read e RdATRequest) (en_read e RdATResponse)]"
    "br_topologyManager (snd (iteration e c)) = br_topologyManager c"
    "br_busManager (snd (iteration e c)) = br_busManager c"
    "br_cycle (snd (iteration e c)) = br_cycle c"
    "br_lastGeneration (snd (iteration e c)) = br_lastGeneration c"
    "br_postResetTiming (snd (iteration e c)) = br_postResetTiming c"
    using assms hw
    by (simp_all add: quiet_turn fsm_step_def StepQuiescingAT_def Let_def ATInactive_ready fixed_def)
       (simp_all add: StopFlushAT_def Let_def map_events_def)
qed

text \<open>The configuration ROM is restored and the topology built; consistent gap counts need no reset.\<close>

lemma no_driven_reset:
  assumes "CalculateGapConsistency (res_quads r)" and "cy_acceptedSelfId (br_cycle c) = Some r"
  shows "MaybeRequestTopologyDrivenReset c = c"
proof -
  have "EvaluateGapPolicy topology (res_quads r) b = Some d \<Longrightarrow> gd_reason d \<noteq> MismatchForce63" for topology b d
    using EvaluateGapPolicy_mismatch [of topology "res_quads r" b] assms(1) by blast
  then show ?thesis using assms(2)
    by (auto simp: MaybeRequestTopologyDrivenReset_def split: option.split)
qed

lemma turn_restore:
  assumes "all_deps c" and "br_state c = RestoringConfigROM" and "\<not> br_pendingBusResetEdge c"
    and "en_irq e = None" and "\<And>s. en_access e s"
    and "br_topologyManager c = Some manager" and "cy_acceptedSelfId (br_cycle c) = Some r"
    and "UpdateFromSelfID r (en_now e ClkTopology) (en_read e RdTopologyNodeID) manager = Some (Inr snapshot, manager')"
    and "CalculateGapConsistency (res_quads r)"
  shows "fst (iteration e c) = StepContinue" and "br_state (snd (iteration e c)) = ClearingBusReset"
    and "fixed c (snd (iteration e c))" and "br_queue (snd (iteration e c)) = br_queue c"
    and "br_trace (snd (iteration e c)) = br_trace c
      @ [RestoreHeaderAfterBusReset, WriteBusOptions (en_busOptions e), WriteConfigROMHeader (en_header e)]"
    and "cy_acceptedTopology (br_cycle (snd (iteration e c))) = Some snapshot"
    and "pending (snd (iteration e c)) = pending c"
    and "br_lastGeneration (snd (iteration e c)) = br_lastGeneration c"
    and "br_postResetTiming (snd (iteration e c)) = br_postResetTiming c"
proof -
  have hw: "dp_hardware (br_deps c)" "dp_configRomStager (br_deps c)" using assms(1) by (simp_all add: all_deps_def)
  define d where "d = RestoreConfigROM e c"
  define f where "f = topology_accepted snapshot (d\<lparr>br_topologyManager := Some manager'\<rparr>)"
  have build: "snd (BuildTopology e d) = f"
    using assms(5-8) hw by (simp add: BuildTopology_def d_def f_def)
  have f: "cy_acceptedTopology (br_cycle f) = Some snapshot" "cy_acceptedSelfId (br_cycle f) = Some r"
    "br_trace f = br_trace c
      @ [RestoreHeaderAfterBusReset, WriteBusOptions (en_busOptions e), WriteConfigROMHeader (en_header e)]"
    "br_deps f = br_deps c" "br_queue f = br_queue c" "pending f = pending c" "\<not> br_pendingBusResetEdge f"
    "br_lastGeneration f = br_lastGeneration c" "br_postResetTiming f = br_postResetTiming c"
    "br_currentDiscoveryDelayMs f = br_currentDiscoveryDelayMs c"
    "br_previousScanHadBusyNodes f = br_previousScanHadBusyNodes c"
    using assms hw by (simp_all add: f_def)
      (simp_all add: topology_accepted_def d_def RestoreConfigROM_def Let_def split: option.split)
  have driven: "MaybeRequestTopologyDrivenReset f = f"
    by (rule no_driven_reset [OF assms(9) f(2)])
  have it: "iteration e c = (StepContinue, rc_TransitionTo (en_now e ClkTransition) ClearingBusReset f)"
    using assms f driven
    by (simp add: quiet_turn fsm_step_def StepRestoringConfigROM_def Let_def d_def [symmetric] build)
  show "fst (iteration e c) = StepContinue" "br_state (snd (iteration e c)) = ClearingBusReset"
    "fixed c (snd (iteration e c))" "br_queue (snd (iteration e c)) = br_queue c"
    "br_trace (snd (iteration e c)) = br_trace c
      @ [RestoreHeaderAfterBusReset, WriteBusOptions (en_busOptions e), WriteConfigROMHeader (en_header e)]"
    "cy_acceptedTopology (br_cycle (snd (iteration e c))) = Some snapshot"
    "pending (snd (iteration e c)) = pending c"
    "br_lastGeneration (snd (iteration e c)) = br_lastGeneration c"
    "br_postResetTiming (snd (iteration e c)) = br_postResetTiming c"
    unfolding it by (simp_all add: f fixed_def)
qed

text \<open>The reset is cleared, the interrupt unmasked, the contexts re-armed.\<close>

lemma turn_clear:
  assumes "all_deps c" and "br_state c = ClearingBusReset" and "\<not> br_pendingBusResetEdge c"
    and "en_irq e = None" and "\<And>s. en_access e s" and "contexts_inactive e"
  shows "fst (iteration e c) = StepContinue" and "br_state (snd (iteration e c)) = Rearming"
    and "fixed c (snd (iteration e c))" and "br_queue (snd (iteration e c)) = br_queue c"
    and "br_trace (snd (iteration e c)) = br_trace c
      @ [ReadATControl (en_read e RdATRequest) (en_read e RdATResponse), WriteIntEventClear kBusReset,
         UnmaskInterrupts kBusReset]"
    and "br_cycle (snd (iteration e c)) = br_cycle c"
    and "br_lastGeneration (snd (iteration e c)) = br_lastGeneration c"
    and "br_postResetTiming (snd (iteration e c)) = br_postResetTiming c"
  using assms
  by (simp_all add: quiet_turn fsm_step_def StepClearingBusReset_def Let_def ATInactive_ready fixed_def
      all_deps_def) (simp_all add: UnmaskBusReset_def ClearBusReset_def Let_def)

lemma turn_rearm:
  assumes "all_deps c" and "br_state c = Rearming" and "\<not> br_pendingBusResetEdge c"
    and "en_irq e = None" and "\<And>s. en_access e s" and "G_NodeIDValid e c" and "br_lastGeneration c \<le> 0xFF"
  shows "fst (iteration e c) = StepContinue" and "br_state (snd (iteration e c)) = ResetComplete"
    and "fixed c (snd (iteration e c))" and "br_queue (snd (iteration e c)) = br_queue c"
    and "br_trace (snd (iteration e c)) = br_trace c
      @ [WriteAsReqFilterHiSet kAsReqAcceptAllMask, RearmATContexts,
         OnBusResetComplete (ucast (br_lastGeneration c))]"
    and "br_cycle (snd (iteration e c)) = br_cycle c"
    and "br_filtersEnabled (snd (iteration e c))" and "br_atArmed (snd (iteration e c))"
    and "br_lastGeneration (snd (iteration e c)) = br_lastGeneration c"
    and "br_postResetTiming (snd (iteration e c)) = br_postResetTiming c"
  using assms
  by (simp_all add: quiet_turn fsm_step_def StepRearming_def Let_def fixed_def all_deps_def)
     (simp_all add: EnableFilters_def RearmAT_def Let_def)

definition discovery_delay :: "BusResetCoordinator \<Rightarrow> u32" where
  "discovery_delay c = (if br_previousScanHadBusyNodes c \<and> br_currentDiscoveryDelayMs c > 0
     then max kAppleScanBusDelayMs (br_currentDiscoveryDelayMs c) else kAppleScanBusDelayMs)"

lemma turn_complete:
  assumes "all_deps c" and "br_state c = ResetComplete" and "\<not> br_pendingBusResetEdge c"
    and "en_irq e = None" and "pending c = None" and "cy_acceptedTopology (br_cycle c) = Some snapshot"
  shows "fst (iteration e c) = StepFinish" and "br_state (snd (iteration e c)) = Idle"
    and "fixed c (snd (iteration e c))"
    and "br_queue (snd (iteration e c)) = br_queue c @ [DiscoveryJob (discovery_delay c) snapshot]"
    and "br_trace (snd (iteration e c)) = br_trace c"
    and "br_cycle (snd (iteration e c)) = br_cycle c"
    and "br_filtersEnabled (snd (iteration e c)) = br_filtersEnabled c"
    and "br_atArmed (snd (iteration e c)) = br_atArmed c"
    and "br_lastGeneration (snd (iteration e c)) = br_lastGeneration c"
    and "br_postResetTiming (snd (iteration e c)) = br_postResetTiming c"
  using assms
  by (simp_all add: quiet_turn fsm_step_def StepComplete_def Let_def fixed_def all_deps_def discovery_delay_def)
     (simp_all add: dispatch_def)

section \<open>The whole cycle\<close>

text \<open>
  Nothing disturbs the run: the Self-ID completion is the only interrupt and arrives before the second
  turn, the registers can be accessed, the node ID is valid and the transmit contexts are inactive when
  they are looked at.
\<close>

definition node_valid :: "StepEnv \<Rightarrow> bool" where
  "node_valid e \<longleftrightarrow> en_read e RdNodeID AND 0x80000000 \<noteq> 0 \<and> en_read e RdNodeID AND 0x3F \<noteq> 63"

definition calm :: "(nat \<Rightarrow> StepEnv) \<Rightarrow> u64 \<Rightarrow> bool" where
  "calm env t \<longleftrightarrow> en_irq (env 1) = Some (kSelfIDComplete, t) \<and> (\<forall>i. i \<noteq> 1 \<longrightarrow> en_irq (env i) = None)
     \<and> (\<forall>i s. en_access (env i) s) \<and> node_valid (env 1) \<and> node_valid (env 5)
     \<and> contexts_inactive (env 2) \<and> contexts_inactive (env 4)"

lemma calm_simps:
  assumes "calm env t"
  shows "en_irq (env 1) = Some (kSelfIDComplete, t)" "i \<noteq> 1 \<Longrightarrow> en_irq (env i) = None" "en_access (env i) s"
    "contexts_inactive (env 2)" "contexts_inactive (env 4)"
    "dp_hardware (br_deps c) \<Longrightarrow> G_NodeIDValid (env 1) c" "dp_hardware (br_deps c) \<Longrightarrow> G_NodeIDValid (env 5) c"
  using assms by (simp_all add: calm_def G_NodeIDValid_def node_valid_def)

lemma loop_continue: "fst (iteration (env i) c) = StepContinue \<Longrightarrow>
    fsm_loop (Suc n) env i c = fsm_loop n env (Suc i) (snd (iteration (env i) c))"
  by (cases "iteration (env i) c") simp

lemma loop_finish: "fst (iteration (env i) c) = StepFinish \<Longrightarrow>
    fsm_loop (Suc n) env i c = CompleteCurrentRun (snd (iteration (env i) c))"
  by (cases "iteration (env i) c") simp

lemma seven_turns:
  assumes "fst (iteration (env 0) c0) = StepContinue" and "c1 = snd (iteration (env 0) c0)"
    and "fst (iteration (env 1) c1) = StepContinue" and "c2 = snd (iteration (env 1) c1)"
    and "fst (iteration (env 2) c2) = StepContinue" and "c3 = snd (iteration (env 2) c2)"
    and "fst (iteration (env 3) c3) = StepContinue" and "c4 = snd (iteration (env 3) c3)"
    and "fst (iteration (env 4) c4) = StepContinue" and "c5 = snd (iteration (env 4) c4)"
    and "fst (iteration (env 5) c5) = StepContinue" and "c6 = snd (iteration (env 5) c5)"
    and "fst (iteration (env 6) c6) = StepFinish" and "c7 = snd (iteration (env 6) c6)"
  shows "fsm_loop 12 env 0 c0 = CompleteCurrentRun c7"
proof -
  have "fsm_loop 12 env 0 c0 = fsm_loop 11 env 1 c1"
    using loop_continue [where env = env and i = 0 and n = 11, OF assms(1)] assms(2) by simp
  also have "\<dots> = fsm_loop 10 env 2 c2"
    using loop_continue [where env = env and i = 1 and n = 10, OF assms(3)] assms(4) by (simp add: eval_nat_numeral)
  also have "\<dots> = fsm_loop 9 env 3 c3"
    using loop_continue [where env = env and i = 2 and n = 9, OF assms(5)] assms(6) by simp
  also have "\<dots> = fsm_loop 8 env 4 c4"
    using loop_continue [where env = env and i = 3 and n = 8, OF assms(7)] assms(8) by simp
  also have "\<dots> = fsm_loop 7 env 5 c5"
    using loop_continue [where env = env and i = 4 and n = 7, OF assms(9)] assms(10) by simp
  also have "\<dots> = fsm_loop 6 env 6 c6"
    using loop_continue [where env = env and i = 5 and n = 6, OF assms(11)] assms(12) by simp
  also have "\<dots> = CompleteCurrentRun c7"
    using loop_finish [where env = env and i = 6 and n = 5, OF assms(13)] assms(14) by simp
  finally show ?thesis .
qed

definition cycle_events ::
  "(nat \<Rightarrow> StepEnv) \<Rightarrow> BusResetCoordinator \<Rightarrow> SelfIDCapture \<Rightarrow> u64 \<Rightarrow> u32 \<Rightarrow> BusEvent list" where
  "cycle_events env c capture t g =
     (if dp_romScanner (br_deps c) \<and> br_lastGeneration c > 0 then [AbortScan (br_lastGeneration c)] else [])
     @ map_events c
     @ [MaskInterrupts kBusReset, WriteIntEventClear kSelfIDComplete2,
        WriteSelfIDBuffer (ucast (cap_segmentAddress capture)),
        HoldoffArmed t, ConfirmBusGeneration (ucast (g AND 0xFF)), WriteIntEventClear kSelfIDComplete]
     @ map_events c
     @ [OnBusResetBegin (ucast ((g + 1) AND 0xFF)), StopATContextsOnly, FlushATContexts,
        ReadATControl (en_read (env 2) RdATRequest) (en_read (env 2) RdATResponse),
        RestoreHeaderAfterBusReset, WriteBusOptions (en_busOptions (env 3)),
        WriteConfigROMHeader (en_header (env 3)),
        ReadATControl (en_read (env 4) RdATRequest) (en_read (env 4) RdATResponse),
        WriteIntEventClear kBusReset, UnmaskInterrupts kBusReset,
        WriteAsReqFilterHiSet kAsReqAcceptAllMask, RearmATContexts, OnBusResetComplete (ucast g)]"

lemma fixedD:
  assumes "fixed c c'"
  shows "br_deps c' = br_deps c" "\<not> br_pendingBusResetEdge c'" "all_deps c' = all_deps c"
    "map_events c' = map_events c" "discovery_delay c' = discovery_delay c"
  using assms by (simp_all add: fixed_def all_deps_def map_events_def discovery_delay_def)

lemma decoded_generation:
  assumes "Decode reg reg2 capture = Inr r"
  shows "res_generation r \<le> 0xFF"
proof -
  have "res_generation r = drop_bit 16 (reg AND kGenerationMask)"
    using Decode_sequences [OF assms] by simp
  also have "\<dots> = drop_bit 16 reg AND 0xFF" by (simp add: kGenerationMask_def drop_bit_and)
  finally show ?thesis by (simp add: word_and_le1)
qed


section \<open>Effects on the bus\<close>


section \<open>A concrete coordinator\<close>

definition sample_deps :: Dependencies where
  "sample_deps = \<lparr>dp_hardware = True, dp_workQueue = True, dp_asyncSubsystem = True,
     dp_configRomStager = True, dp_interruptManager = True, dp_romScanner = True,
     dp_topologyMapService = True, dp_topologyCallback = True\<rparr>"

definition sample_dma :: "u32 list" where
  "sample_dma = [0x10000, 0x807F4880, 0x7F80B77F, 0x817F88C0, 0x7E80773F]"

definition sample_coordinator :: BusResetCoordinator where
  "sample_coordinator = rc_Initialize sample_deps (Some (sample_capture 0x7000 sample_dma))
     (Some TopologyManager0) (Some BusManager0) (BusResetCoordinator0 True)"

definition sample_env :: "nat \<Rightarrow> StepEnv" where
  "sample_env i = \<lparr>en_now = (\<lambda>_. 7), en_access = (\<lambda>_. True),
     en_read = (\<lambda>s. case s of RdNodeID \<Rightarrow> 0x8000FFC0 | RdTopologyNodeID \<Rightarrow> 0x8000FFC0
        | RdRootNodeID \<Rightarrow> 0x8000FFC0 | RdSelfIDCount \<Rightarrow> 0x10014 | RdSelfIDCountAgain \<Rightarrow> 0x10014
        | RdATRequest \<Rightarrow> 0 | RdATResponse \<Rightarrow> 0),
     en_dma = sample_dma, en_busOptions = 1, en_header = 2, en_available = True, en_portBound = True,
     en_phyHandle = True, en_initiateOk = True,
     en_irq = (if i = 1 then Some (kSelfIDComplete, 5) else None)\<rparr>"

definition silent_env :: "nat \<Rightarrow> StepEnv" where
  "silent_env i = (sample_env i)\<lparr>en_irq := None\<rparr>"

lemma sample_reachable: "reachable_reset sample_coordinator"
  unfolding sample_coordinator_def by (rule reachable_reset.initialized) (simp_all add: sample_deps_def)

lemma sample_decode:
  "Decode 0x10014 (Some 0x10014) (dma_view sample_dma ((sample_capture 0x7000 sample_dma)\<lparr>cap_armed := True\<rparr>))
     = Inr sample_bus2"
  by code_simp

lemma sample_calm: "calm sample_env 5"
  by (simp add: calm_def sample_env_def node_valid_def contexts_inactive_def)

lemma sample_after_irq:
  "all_deps (perform (Irq kBusReset 3) sample_coordinator)"
  "br_pendingBusResetEdge (perform (Irq kBusReset 3) sample_coordinator)"
  "\<not> br_workInProgress (perform (Irq kBusReset 3) sample_coordinator)"
  "br_selfIdCapture (perform (Irq kBusReset 3) sample_coordinator) = Some (sample_capture 0x7000 sample_dma)"
  "br_topologyManager (perform (Irq kBusReset 3) sample_coordinator) = Some TopologyManager0"
  "br_queue (perform (Irq kBusReset 3) sample_coordinator) = [RunJob]"
  by (simp_all add: perform_def rc_OnIrq_def Let_def kBusReset_def kSelfIDComplete_def kSelfIDComplete2_def
      sample_coordinator_def rc_Initialize_def BusResetCoordinator0_def sample_deps_def all_deps_def
      dispatch_def map_diag_def map_cycle_def emit_def)


theorem no_lost_wakeup_witness:
  "reachable_reset (perform (Irq kBusReset 3) sample_coordinator)
   \<and> list_ex is_run (br_queue (perform (Irq kBusReset 3) sample_coordinator))"
  using no_lost_wakeup [OF reachable_reset.performed [OF sample_reachable, of "Irq kBusReset 3"]]
    reachable_reset.performed [OF sample_reachable] sample_after_irq(2) by simp

theorem run_ends_by_itself_witness:
  "RunStateMachine silent_env sample_coordinator
     = fsm_loop 100 silent_env 0 (sample_coordinator\<lparr>br_workInProgress := True\<rparr>)"
  by (rule run_ends_by_itself)
     (simp_all add: silent_env_def sample_coordinator_def rc_Initialize_def Let_def BusResetCoordinator0_def
       sample_deps_def)


lemma delegation_limit_example:
  "dl_suppressed (br_delegation ((RequestRolePolicyReset 1 False None None [] ^^ 6) sample_coordinator))
   \<and> pending ((RequestRolePolicyReset 1 False None None [] ^^ 6) sample_coordinator)
       = pending ((RequestRolePolicyReset 1 False None None [] ^^ 5) sample_coordinator)
   \<and> dl_suppressed (br_delegation (fold perform [Irq kBusReset 3, NextJob silent_env]
       (map_cycle (\<lambda>y. y\<lparr>cy_pendingReset := None\<rparr>)
         ((RequestRolePolicyReset 1 False None None [] ^^ 6) sample_coordinator))))"
proof -
  let ?b = "map_cycle (\<lambda>y. y\<lparr>cy_pendingReset := None\<rparr>)
      ((RequestRolePolicyReset 1 False None None [] ^^ 6) sample_coordinator)"
  have "\<not> dl_suppressed (br_delegation sample_coordinator)" "dl_target (br_delegation sample_coordinator) \<noteq> 1"
    by code_simp+
  note off = this
  note limit = delegation_limit [OF off, where l = False and g = None and s = None and reason = "[]" and k = 6]
  have on: "dl_suppressed (br_delegation ((RequestRolePolicyReset 1 False None None [] ^^ 6) sample_coordinator))"
    using limit by simp
  then have "dl_suppressed (br_delegation ?b)"
    "case pending ?b of None \<Rightarrow> True | Some r \<Rightarrow> \<not> carries_delegation r" by simp_all
  from delegation_limit [OF off, where b = ?b and as = "[Irq kBusReset 3, NextJob silent_env]"] this on limit
  show ?thesis by simp
qed

text \<open>A bus of two nodes that both report gap count zero.\<close>

definition sample_gap0 :: SelfIDResult where
  "sample_gap0 = sample_bus2\<lparr>res_quads := [0x10000, 0x80404880, 0x814088C0]\<rparr>"

definition gap0_coordinator :: "TopologySnapshot \<Rightarrow> BusResetCoordinator" where
  "gap0_coordinator s = RequestUserReset True ''test''
     (map_cycle (\<lambda>y. y\<lparr>cy_acceptedTopology := Some s\<rparr>) sample_coordinator)"

lemma bare_reset_dropped_at_gap_zero_example:
  "\<exists>s m'. UpdateFromSelfID sample_gap0 7 0x8000FFC0 TopologyManager0 = Some (Inr s, m')
     \<and> pending (gap0_coordinator s) \<noteq> None
     \<and> br_trace (snd (MaybeDispatchPendingSoftwareReset (sample_env 0) (gap0_coordinator s)))
         = br_trace (gap0_coordinator s)"
proof -
  have "case UpdateFromSelfID sample_gap0 7 0x8000FFC0 TopologyManager0 of
      Some (Inr s, m') \<Rightarrow> ts_gapCountConsistent s \<and> ts_gapCount s = 0 | _ \<Rightarrow> False" by code_simp
  then obtain s m' where u: "UpdateFromSelfID sample_gap0 7 0x8000FFC0 TopologyManager0 = Some (Inr s, m')"
    and s: "ts_gapCountConsistent s" "ts_gapCount s = 0"
    by (auto split: option.splits sum.splits)
  have c: "cy_acceptedTopology (br_cycle (gap0_coordinator s)) = Some s"
    "dp_hardware (br_deps (gap0_coordinator s))"
    "pending (gap0_coordinator s) = Some \<lparr>rq_kind = ManualBusManager, rq_flavor = ShortReset,
       rq_phyConfig = None, rq_reason = ''test'', rq_gapDecisionReason = None\<rparr>"
    "blocked (gap0_coordinator s) \<le> en_now (sample_env 0) ClkDispatch"
    by (simp_all add: gap0_coordinator_def RequestUserReset_def RequestSoftwareReset_def add_pending_def
        Let_def sample_coordinator_def rc_Initialize_def BusResetCoordinator0_def ResetCycleState0_def
        sample_deps_def map_cycle_def map_diag_def dispatch_def emit_def)
  from bare_reset_dropped_at_gap_zero [OF c(1) s c(2,3) _ c(4)] c(3) u show ?thesis by auto
qed

section \<open>A completion that is left latched\<close>

text \<open>
  Work in the sense of the wake-up property does not include the Self-ID latch: a completion that
  arrives while the transmit contexts are being quiesced, and is still latched when the last queued
  run takes the machine back to idle, is not handled until some later event starts another run.
\<close>

definition alone_env :: "(nat \<Rightarrow> StepEnv) \<Rightarrow> nat \<Rightarrow> StepEnv" where
  "alone_env env i = (env i)\<lparr>en_dma := [0x10000, 0x807F0800, 0x7F80F7FF],
     en_read := (\<lambda>s. if s = RdSelfIDCount \<or> s = RdSelfIDCountAgain then 0x1000C else en_read (env i) s)\<rparr>"

definition busy_env :: "(nat \<Rightarrow> StepEnv) \<Rightarrow> nat \<Rightarrow> StepEnv" where
  "busy_env env i = (env i)\<lparr>en_read := (\<lambda>s. if s = RdATRequest then kContextControlActiveBit else en_read (env i) s)\<rparr>"

definition late_actions :: "Action list" where
  "late_actions = [Irq kBusReset 3, NextJob (busy_env (alone_env sample_env)), Irq kSelfIDComplete 9,
     NextJob (busy_env silent_env), NextJob (busy_env silent_env), NextJob (busy_env silent_env),
     NextJob silent_env]"

lemma fold_perform_reachable: "reachable_reset c \<Longrightarrow> reachable_reset (fold perform as c)"
  by (induction as arbitrary: c) (simp_all add: reachable_reset.performed)

lemma late_self_id_unserved:
  "reachable_reset (fold perform late_actions sample_coordinator)
   \<and> br_state (fold perform late_actions sample_coordinator) = Idle
   \<and> HasSelfIDCompletion (fold perform late_actions sample_coordinator)
   \<and> \<not> list_ex is_run (br_queue (fold perform late_actions sample_coordinator))"
proof -
  have "let c = fold perform late_actions sample_coordinator in
     br_state c = Idle \<and> HasSelfIDCompletion c \<and> \<not> list_ex is_run (br_queue c)"
    by code_simp
  then show ?thesis using fold_perform_reachable [OF sample_reachable] by (simp add: Let_def)
qed
end
