(* ===== verification/Async_Transaction.thy ===== *)
theory Async_Transaction
  imports ASFW_Prelude
begin

text \<open>
  \<^verbatim>\<open>Async/Core/CompletionStrategy.hpp\<close>, \<^verbatim>\<open>Async/Core/Transaction.hpp\<close> / \<^verbatim>\<open>.cpp\<close> and
  \<^verbatim>\<open>Async/Core/TransactionManager.hpp\<close> / \<^verbatim>\<open>.cpp\<close>: the state machine of one asynchronous transaction
  and the table of the 64 transactions in flight, indexed by transaction label. An illegal
  transition is refused and leaves the transaction as it was (the behaviour with assertions off).
\<close>

section \<open>Completion strategies\<close>

datatype CompletionStrategy = CompleteOnAT | CompleteOnPHY | CompleteOnAR | RequireBoth

definition RequiresARResponse :: "CompletionStrategy \<Rightarrow> bool" where
  "RequiresARResponse strategy \<longleftrightarrow> strategy = CompleteOnAR \<or> strategy = RequireBoth"

definition ProcessesATCompletion :: "CompletionStrategy \<Rightarrow> bool" where
  "ProcessesATCompletion strategy \<longleftrightarrow>
     strategy = CompleteOnAT \<or> strategy = CompleteOnPHY \<or> strategy = RequireBoth"

definition CompletesOnATAck :: "CompletionStrategy \<Rightarrow> bool" where
  "CompletesOnATAck strategy \<longleftrightarrow> strategy = CompleteOnAT \<or> strategy = CompleteOnPHY"

definition StrategyFromTCode :: "u8 \<Rightarrow> bool \<Rightarrow> CompletionStrategy" where
  "StrategyFromTCode tCode expectsDeferred =
     (if tCode \<in> {0x4, 0x5, 0x9, 0xA} then CompleteOnAR
      else if tCode = 0x0 then (if expectsDeferred then RequireBoth else CompleteOnAT)
      else if tCode = 0x1 then (if expectsDeferred then RequireBoth else CompleteOnAT)
      else if tCode = 0xE then CompleteOnPHY
      else CompleteOnAT)"

section \<open>The state machine\<close>

datatype TransactionState = Created | Submitted | ATPosted | ATCompleted | AwaitingAR | ARReceived
  | Completed | TimedOut | Failed | Cancelled

fun IsValidTransition :: "TransactionState \<Rightarrow> TransactionState \<Rightarrow> bool" where
  "IsValidTransition Created to \<longleftrightarrow> to = Submitted \<or> to = Cancelled"
| "IsValidTransition Submitted to \<longleftrightarrow> to = ATPosted \<or> to = Cancelled"
| "IsValidTransition ATPosted to \<longleftrightarrow>
     to = ATCompleted \<or> to = ARReceived \<or> to = Failed \<or> to = TimedOut \<or> to = Cancelled"
| "IsValidTransition ATCompleted to \<longleftrightarrow>
     to = AwaitingAR \<or> to = ARReceived \<or> to = Completed \<or> to = Failed \<or> to = TimedOut \<or> to = Cancelled"
| "IsValidTransition AwaitingAR to \<longleftrightarrow> to = ARReceived \<or> to = TimedOut \<or> to = Cancelled"
| "IsValidTransition ARReceived to \<longleftrightarrow> to = Completed \<or> to = Cancelled"
| "IsValidTransition Completed to \<longleftrightarrow> False"
| "IsValidTransition TimedOut to \<longleftrightarrow> False"
| "IsValidTransition Failed to \<longleftrightarrow> False"
| "IsValidTransition Cancelled to \<longleftrightarrow> False"

definition IsTerminalState :: "TransactionState \<Rightarrow> bool" where
  "IsTerminalState state \<longleftrightarrow> state \<in> {Completed, TimedOut, Failed, Cancelled}"

record TransactionStateHistory =
  hi_oldState :: TransactionState
  hi_newState :: TransactionState
  hi_reason :: string

text \<open>
  A transaction. The response handler is the wrapper that \<open>RegisterTx\<close> installs: the client's callback
  (a number names it, \<open>None\<close> is the null callback) and the label it captured. The payload is the
  handle the transaction owns. The 16 history entries start out uninitialised, hence the option.
\<close>

datatype ResponseHandler = Wrapper "nat option" nat

record Transaction =
  tx_label :: nat
  tx_generation :: u32
  tx_nodeID :: u16
  tx_state :: TransactionState
  tx_ackCode :: u8
  tx_tCode :: u8
  tx_retryCount :: u8
  tx_completionStrategy :: CompletionStrategy
  tx_skipATCompletion :: bool
  tx_completedByPath :: bool
  tx_payload :: "nat option"
  tx_responseHandler :: "ResponseHandler option"
  tx_timeoutMs :: u32
  tx_deadlineUs :: u64
  tx_history :: "TransactionStateHistory option list"
  tx_historyIdx :: nat

definition Transaction0 :: "nat \<Rightarrow> u32 \<Rightarrow> u16 \<Rightarrow> Transaction" where
  "Transaction0 label gen nodeID =
     \<lparr>tx_label = label, tx_generation = gen, tx_nodeID = nodeID, tx_state = Created, tx_ackCode = 0,
      tx_tCode = 0, tx_retryCount = 0, tx_completionStrategy = CompleteOnAT,
      tx_skipATCompletion = False, tx_completedByPath = False, tx_payload = None,
      tx_responseHandler = None, tx_timeoutMs = 0, tx_deadlineUs = 0,
      tx_history = replicate 16 None, tx_historyIdx = 0\<rparr>"

definition ReleaseResources :: "Transaction \<Rightarrow> Transaction" where
  "ReleaseResources t = t\<lparr>tx_payload := None\<rparr>"

definition TransitionTo :: "TransactionState \<Rightarrow> string \<Rightarrow> Transaction \<Rightarrow> Transaction" where
  "TransitionTo newState reason t =
     (if \<not> IsValidTransition (tx_state t) newState then t
      else
        let t1 = t\<lparr>tx_history := (tx_history t)[tx_historyIdx t :=
                    Some \<lparr>hi_oldState = tx_state t, hi_newState = newState, hi_reason = reason\<rparr>],
                   tx_historyIdx := (tx_historyIdx t + 1) mod 16,
                   tx_state := newState\<rparr>
        in if newState = Completed \<or> newState = TimedOut \<or> newState = Failed \<or> newState = Cancelled
           then ReleaseResources t1 else t1)"

definition IsReadOperation :: "Transaction \<Rightarrow> bool" where
  "IsReadOperation t \<longleftrightarrow> tx_tCode t = 0x4 \<or> tx_tCode t = 0x5"

definition IncrementRetry :: "Transaction \<Rightarrow> Transaction" where
  "IncrementRetry t = t\<lparr>tx_retryCount := tx_retryCount t + 1\<rparr>"

definition SetDeadline :: "u64 \<Rightarrow> Transaction \<Rightarrow> Transaction" where
  "SetDeadline us t = t\<lparr>tx_deadlineUs := us\<rparr>"

definition TryMarkCompleted :: "Transaction \<Rightarrow> bool \<times> Transaction" where
  "TryMarkCompleted t = (\<not> tx_completedByPath t, t\<lparr>tx_completedByPath := True\<rparr>)"

section \<open>The transaction manager\<close>

record MatchKey =
  mk_node :: u16
  mk_generation :: u32
  mk_label :: nat

record TransactionManager =
  tm_transactions :: "Transaction option list"
  tm_lock :: bool
  tm_initialized :: bool

datatype ManagerError = NoMemory | NotReady | Invalid | Busy

definition TransactionManager0 :: TransactionManager where
  "TransactionManager0 = \<lparr>tm_transactions = replicate 64 None, tm_lock = False, tm_initialized = False\<rparr>"

abbreviation tm_ready :: "TransactionManager \<Rightarrow> bool" where
  "tm_ready m \<equiv> tm_lock m \<and> tm_initialized m"

definition tm_Initialize :: "bool \<Rightarrow> TransactionManager \<Rightarrow> (ManagerError + unit) \<times> TransactionManager" where
  "tm_Initialize lockAllocated m =
     (if tm_initialized m then (Inr (), m)
      else if \<not> lockAllocated then (Inl NoMemory, m\<lparr>tm_lock := False\<rparr>)
      else (Inr (), m\<lparr>tm_lock := True, tm_transactions := map (\<lambda>_. None) (tm_transactions m),
                      tm_initialized := True\<rparr>))"

definition NodeIDsEquivalent :: "u16 \<Rightarrow> u16 \<Rightarrow> bool" where
  "NodeIDsEquivalent lhs rhs \<longleftrightarrow> lhs = rhs \<or> lhs AND 0x003F = rhs AND 0x003F"

definition tm_Allocate ::
  "nat \<Rightarrow> u32 \<Rightarrow> u16 \<Rightarrow> TransactionManager \<Rightarrow> (ManagerError + Transaction) \<times> TransactionManager" where
  "tm_Allocate label generation nodeID m =
     (if \<not> tm_ready m then (Inl NotReady, m)
      else if label \<ge> 64 then (Inl Invalid, m)
      else if tm_transactions m ! label \<noteq> None then (Inl Busy, m)
      else let txn = Transaction0 label generation nodeID in
           (Inr txn, m\<lparr>tm_transactions := (tm_transactions m)[label := Some txn]\<rparr>))"

definition tm_Find :: "nat \<Rightarrow> TransactionManager \<Rightarrow> Transaction option" where
  "tm_Find label m =
     (if \<not> tm_ready m then None else if label \<ge> 64 then None else tm_transactions m ! label)"

definition tm_FindByMatchKey :: "MatchKey \<Rightarrow> TransactionManager \<Rightarrow> Transaction option" where
  "tm_FindByMatchKey key m =
     (if \<not> tm_ready m then None else if mk_label key \<ge> 64 then None
      else case tm_transactions m ! mk_label key of
             None \<Rightarrow> None
           | Some txn \<Rightarrow>
               if tx_generation txn \<noteq> mk_generation key then None
               else if \<not> NodeIDsEquivalent (tx_nodeID txn) (mk_node key) then None
               else Some txn)"

definition tm_Remove :: "nat \<Rightarrow> TransactionManager \<Rightarrow> TransactionManager" where
  "tm_Remove label m =
     (if \<not> tm_ready m \<or> label \<ge> 64 then m else m\<lparr>tm_transactions := (tm_transactions m)[label := None]\<rparr>)"

definition tm_Extract :: "nat \<Rightarrow> TransactionManager \<Rightarrow> Transaction option \<times> TransactionManager" where
  "tm_Extract label m =
     (if \<not> tm_ready m \<or> label \<ge> 64 then (None, m)
      else (tm_transactions m ! label, m\<lparr>tm_transactions := (tm_transactions m)[label := None]\<rparr>))"

definition tm_Count :: "TransactionManager \<Rightarrow> nat" where
  "tm_Count m = (if \<not> tm_ready m then 0 else length (filter (\<lambda>txn. txn \<noteq> None) (tm_transactions m)))"

text \<open>
  \<open>WithTransaction\<close> runs \<open>fn\<close> on the transaction in place; what \<open>fn\<close> writes to captured variables is its
  first result, and \<open>None\<close> stands for a transaction that was not found. \<open>ForEachTransaction\<close> is used to
  collect labels only.
\<close>

definition tm_WithTransaction ::
  "nat \<Rightarrow> (Transaction \<Rightarrow> 'r \<times> Transaction) \<Rightarrow> TransactionManager \<Rightarrow> 'r option \<times> TransactionManager" where
  "tm_WithTransaction label fn m =
     (if \<not> tm_ready m then (None, m) else if label \<ge> 64 then (None, m)
      else case tm_transactions m ! label of
             None \<Rightarrow> (None, m)
           | Some txn \<Rightarrow>
               let (r, txn') = fn txn
               in (Some r, m\<lparr>tm_transactions := (tm_transactions m)[label := Some txn']\<rparr>))"

definition tm_ForEachTransaction :: "(Transaction \<Rightarrow> 'r list) \<Rightarrow> TransactionManager \<Rightarrow> 'r list" where
  "tm_ForEachTransaction fn m =
     (if \<not> tm_ready m then [] else concat (map (case_option [] fn) (tm_transactions m)))"

section \<open>The state machine: lemmas\<close>

lemma TransitionTo_frame [simp]:
  "tx_label (TransitionTo st r t) = tx_label t"
  "tx_generation (TransitionTo st r t) = tx_generation t"
  "tx_nodeID (TransitionTo st r t) = tx_nodeID t"
  "tx_ackCode (TransitionTo st r t) = tx_ackCode t"
  "tx_tCode (TransitionTo st r t) = tx_tCode t"
  "tx_retryCount (TransitionTo st r t) = tx_retryCount t"
  "tx_completionStrategy (TransitionTo st r t) = tx_completionStrategy t"
  "tx_skipATCompletion (TransitionTo st r t) = tx_skipATCompletion t"
  "tx_completedByPath (TransitionTo st r t) = tx_completedByPath t"
  "tx_responseHandler (TransitionTo st r t) = tx_responseHandler t"
  "tx_deadlineUs (TransitionTo st r t) = tx_deadlineUs t"
  by (simp_all add: TransitionTo_def ReleaseResources_def Let_def)

lemma tx_state_TransitionTo:
  "tx_state (TransitionTo st r t) = (if IsValidTransition (tx_state t) st then st else tx_state t)"
  by (simp add: TransitionTo_def ReleaseResources_def Let_def)

lemma SetDeadline_simps [simp]:
  "tx_label (SetDeadline d t) = tx_label t" "tx_state (SetDeadline d t) = tx_state t"
  "tx_completedByPath (SetDeadline d t) = tx_completedByPath t"
  "tx_retryCount (SetDeadline d t) = tx_retryCount t"
  "tx_responseHandler (SetDeadline d t) = tx_responseHandler t"
  "tx_deadlineUs (SetDeadline d t) = d" "tx_ackCode (SetDeadline d t) = tx_ackCode t"
  by (simp_all add: SetDeadline_def)

lemma IncrementRetry_simps [simp]:
  "tx_label (IncrementRetry t) = tx_label t" "tx_state (IncrementRetry t) = tx_state t"
  "tx_completedByPath (IncrementRetry t) = tx_completedByPath t"
  "tx_retryCount (IncrementRetry t) = tx_retryCount t + 1"
  "tx_responseHandler (IncrementRetry t) = tx_responseHandler t"
  "tx_ackCode (IncrementRetry t) = tx_ackCode t"
  by (simp_all add: IncrementRetry_def)

text \<open>Every legal transition leads to a state of greater rank, so no transaction makes more than six.\<close>

fun state_rank :: "TransactionState \<Rightarrow> nat" where
  "state_rank Created = 0"
| "state_rank Submitted = 1"
| "state_rank ATPosted = 2"
| "state_rank ATCompleted = 3"
| "state_rank AwaitingAR = 4"
| "state_rank ARReceived = 5"
| "state_rank _ = 6"

lemma IsValidTransition_rank: "IsValidTransition st st' \<Longrightarrow> state_rank st < state_rank st'"
  by (cases st) auto

lemma state_rank_le: "state_rank st \<le> 6"
  by (cases st) auto

text \<open>
  The transitions recorded so far, oldest first, as pairs of states, and the chain they form.
\<close>

definition recorded :: "Transaction \<Rightarrow> (TransactionState \<times> TransactionState) list" where
  "recorded t = map (\<lambda>h. case h of Some e \<Rightarrow> (hi_oldState e, hi_newState e) | None \<Rightarrow> (Created, Created))
                  (take (tx_historyIdx t) (tx_history t))"

fun chain :: "TransactionState \<Rightarrow> (TransactionState \<times> TransactionState) list \<Rightarrow> TransactionState \<Rightarrow> bool" where
  "chain a [] b \<longleftrightarrow> a = b"
| "chain a ((x, y) # es) b \<longleftrightarrow> x = a \<and> IsValidTransition x y \<and> chain y es b"

lemma chain_snoc: "chain a es b \<Longrightarrow> IsValidTransition b c \<Longrightarrow> chain a (es @ [(b, c)]) c"
  by (induction a es b rule: chain.induct) auto

lemma chain_rank: "chain a es b \<Longrightarrow> state_rank a + length es \<le> state_rank b"
  by (induction a es b rule: chain.induct) (auto dest: IsValidTransition_rank)

definition history_ok :: "Transaction \<Rightarrow> bool" where
  "history_ok t \<longleftrightarrow> length (tx_history t) = 16 \<and> tx_historyIdx t \<le> 6
     \<and> chain Created (recorded t) (tx_state t)"

lemma history_ok_TransitionTo: "history_ok t \<Longrightarrow> history_ok (TransitionTo st r t)"
proof (cases "IsValidTransition (tx_state t) st")
  case True
  assume ok: "history_ok t"
  let ?h = "Some \<lparr>hi_oldState = tx_state t, hi_newState = st, hi_reason = r\<rparr>"
  let ?t = "TransitionTo st r t"
  have idx: "tx_historyIdx t < 16" "(tx_historyIdx t + 1) mod 16 = tx_historyIdx t + 1"
    using ok by (auto simp: history_ok_def)
  have new: "tx_history ?t = (tx_history t)[tx_historyIdx t := ?h]" "tx_historyIdx ?t = tx_historyIdx t + 1"
    using True idx by (simp_all add: TransitionTo_def ReleaseResources_def Let_def)
  have rec: "recorded ?t = recorded t @ [(tx_state t, st)]"
    using ok idx by (simp add: recorded_def new take_Suc_conv_app_nth history_ok_def)
  have "chain Created (recorded ?t) st"
    unfolding rec using ok True by (intro chain_snoc) (auto simp: history_ok_def)
  moreover from chain_rank [OF this] have "length (recorded ?t) \<le> 6"
    using state_rank_le [of st] by simp
  moreover have "length (recorded ?t) = tx_historyIdx ?t"
    using ok idx by (simp add: recorded_def new history_ok_def)
  ultimately show ?thesis using ok True by (simp add: history_ok_def new tx_state_TransitionTo)
qed (simp add: TransitionTo_def)

section \<open>The state machine: properties\<close>

text \<open>
  Whatever transitions the driver asks for, a transaction makes at most six, so its 16 history
  entries are never overwritten: they hold exactly the transitions made, each of them legal, as one
  chain from \<open>Created\<close> to the current state. Once a terminal state is reached nothing changes any more, and
  the payload has been released.
\<close>

lemma transaction_history:
  "let t = fold (\<lambda>(st, reason). TransitionTo st reason) requests
             ((Transaction0 label gen nodeID)\<lparr>tx_payload := payload\<rparr>) in
   tx_historyIdx t \<le> 6 \<and> length (recorded t) = tx_historyIdx t
   \<and> chain Created (recorded t) (tx_state t)
   \<and> (if IsTerminalState (tx_state t)
      then tx_payload t = None \<and> (\<forall>st reason. TransitionTo st reason t = t)
      else tx_payload t = payload)"
proof -
  let ?step = "\<lambda>(st, reason). TransitionTo st reason"
  let ?t0 = "(Transaction0 label gen nodeID)\<lparr>tx_payload := payload\<rparr>"
  let ?pay = "\<lambda>t. tx_payload t = (if IsTerminalState (tx_state t) then None else payload)"
  have stuck: "TransitionTo st reason t = t" if "IsTerminalState (tx_state t)" for st reason t
    using that by (auto simp: TransitionTo_def IsTerminalState_def)
  have step: "?pay (TransitionTo st reason t)" if "?pay t" for st reason t
    using that stuck [of t] by (cases "IsTerminalState (tx_state t)")
      (auto simp: TransitionTo_def ReleaseResources_def Let_def IsTerminalState_def)
  have "history_ok (fold ?step requests t) \<and> ?pay (fold ?step requests t)"
    if "history_ok t \<and> ?pay t" for t
    using that
  proof (induction requests arbitrary: t)
    case (Cons x xs)
    obtain st reason where "x = (st, reason)" by fastforce
    then show ?case using Cons.IH [of "TransitionTo st reason t"] Cons.prems history_ok_TransitionTo step
      by simp
  qed simp
  moreover have "history_ok ?t0 \<and> ?pay ?t0"
    by (simp add: history_ok_def Transaction0_def recorded_def IsTerminalState_def)
  ultimately have "history_ok (fold ?step requests ?t0) \<and> ?pay (fold ?step requests ?t0)" by blast
  then show ?thesis using stuck by (simp add: Let_def history_ok_def recorded_def)
qed

text \<open>The traits of the strategies exclude each other, and reads and locks always wait for a response.\<close>

lemma StrategyFromTCode_traits:
  "(RequiresARResponse strategy \<longleftrightarrow> \<not> CompletesOnATAck strategy)
   \<and> (ProcessesATCompletion strategy \<longleftrightarrow> strategy \<noteq> CompleteOnAR)
   \<and> (StrategyFromTCode tCode deferred = CompleteOnAR \<longleftrightarrow> tCode \<in> {0x4, 0x5, 0x9, 0xA})
   \<and> (StrategyFromTCode tCode deferred = RequireBoth \<longleftrightarrow> deferred \<and> tCode \<in> {0x0, 0x1})"
  by (cases strategy; auto simp: RequiresARResponse_def CompletesOnATAck_def ProcessesATCompletion_def
      StrategyFromTCode_def)

end
