(* ===== verification/Async_Labels.thy ===== *)
theory Async_Labels
  imports ASFW_Prelude
begin

text \<open>
  \<^verbatim>\<open>Async/Track/LabelAllocator.cpp\<close>: the 64 transaction labels, a bitmap with a round-robin cursor,
  and the generation counter; \<^verbatim>\<open>Bus/GenerationTracker.cpp\<close>, which extends the 8-bit generation of the
  bus to the allocator's 10-bit one. The interface a client of the labels relies on is the locale
  \<open>label_pool\<close>.
\<close>

section \<open>The allocator\<close>

record LabelAllocator =
  la_bitmap :: u64
  la_generation :: u16
  la_next_label :: nat

definition kMaxLabels :: nat where "kMaxLabels = 64"
definition kInvalidLabel :: nat where "kInvalidLabel = 0xFF"
definition kLabelGenerationMask :: u16 where "kLabelGenerationMask = 0x03FF"

definition LabelAllocator0 :: LabelAllocator where
  "LabelAllocator0 = \<lparr>la_bitmap = 0, la_generation = 0, la_next_label = 0\<rparr>"

definition la_Reset :: "LabelAllocator \<Rightarrow> LabelAllocator" where
  "la_Reset a = a\<lparr>la_bitmap := 0, la_generation := 0, la_next_label := 0\<rparr>"

text \<open>
  The scan of \<open>Allocate\<close>. \<open>cas\<close> is what the compare-exchange of an attempt meets: \<open>None\<close> when it
  succeeds, \<open>Some b\<close> when it fails (spuriously, or because another thread changed the bitmap) and
  reads the bitmap \<open>b\<close>.
\<close>

fun alloc_scan :: "(nat \<Rightarrow> u64 option) \<Rightarrow> nat \<Rightarrow> nat list \<Rightarrow> u64 \<Rightarrow> nat option \<times> u64" where
  "alloc_scan cas start [] snapshot = (None, snapshot)"
| "alloc_scan cas start (attempt # rest) snapshot =
     (let idx = (start + attempt) mod 64 in
      if bit snapshot idx then alloc_scan cas start rest snapshot
      else (case cas attempt of
              None \<Rightarrow> (Some idx, snapshot OR push_bit idx 1)
            | Some current \<Rightarrow> alloc_scan cas start rest current))"

definition la_Allocate :: "(nat \<Rightarrow> u64 option) \<Rightarrow> LabelAllocator \<Rightarrow> nat \<times> LabelAllocator" where
  "la_Allocate cas a =
     (case alloc_scan cas (la_next_label a) [0..<kMaxLabels] (la_bitmap a) of
        (Some idx, b) \<Rightarrow> (idx, a\<lparr>la_bitmap := b, la_next_label := (idx + 1) mod 64\<rparr>)
      | (None, b) \<Rightarrow> (kInvalidLabel, a\<lparr>la_bitmap := b\<rparr>))"

definition la_NextLabel :: "LabelAllocator \<Rightarrow> nat \<times> LabelAllocator" where
  "la_NextLabel a = (la_next_label a, a\<lparr>la_next_label := (la_next_label a + 1) mod 64\<rparr>)"

definition la_Free :: "nat \<Rightarrow> LabelAllocator \<Rightarrow> LabelAllocator" where
  "la_Free label a =
     (if label \<ge> kMaxLabels then a else a\<lparr>la_bitmap := la_bitmap a AND NOT (push_bit label 1)\<rparr>)"

definition la_ClearBitmap :: "LabelAllocator \<Rightarrow> LabelAllocator" where
  "la_ClearBitmap a = a\<lparr>la_bitmap := 0, la_next_label := 0\<rparr>"

definition la_HasAnyLabelsInUse :: "LabelAllocator \<Rightarrow> bool" where
  "la_HasAnyLabelsInUse a \<longleftrightarrow> la_bitmap a \<noteq> 0"

definition la_IsLabelInUse :: "nat \<Rightarrow> LabelAllocator \<Rightarrow> bool" where
  "la_IsLabelInUse label a \<longleftrightarrow> label < kMaxLabels \<and> la_bitmap a AND push_bit label 1 \<noteq> 0"

definition la_BumpGeneration :: "LabelAllocator \<Rightarrow> LabelAllocator" where
  "la_BumpGeneration a = a\<lparr>la_generation := (la_generation a + 1) AND kLabelGenerationMask\<rparr>"

definition la_SetGeneration :: "u16 \<Rightarrow> LabelAllocator \<Rightarrow> LabelAllocator" where
  "la_SetGeneration newGen a = a\<lparr>la_generation := newGen AND kLabelGenerationMask\<rparr>"

definition la_CurrentGeneration :: "LabelAllocator \<Rightarrow> u16" where
  "la_CurrentGeneration a = la_generation a AND kLabelGenerationMask"

section \<open>The generation tracker\<close>

record GenerationTracker =
  gt_allocator :: LabelAllocator
  gt_busGeneration8bit :: u8
  gt_localNodeID :: u16

record BusState =
  bs_generation16 :: u16
  bs_generation8 :: u8
  bs_localNodeID :: u16

definition gt_Reset :: "GenerationTracker \<Rightarrow> GenerationTracker" where
  "gt_Reset g = g\<lparr>gt_localNodeID := 0, gt_busGeneration8bit := 0, gt_allocator := la_Reset (gt_allocator g)\<rparr>"

definition gt_GetCurrentState :: "GenerationTracker \<Rightarrow> BusState" where
  "gt_GetCurrentState g =
     (let gen16 = la_CurrentGeneration (gt_allocator g) in
      \<lparr>bs_generation16 = gen16, bs_generation8 = ucast (gen16 AND 0x00FF), bs_localNodeID = gt_localNodeID g\<rparr>)"

definition gt_ApplyBusGeneration :: "u8 \<Rightarrow> GenerationTracker \<Rightarrow> GenerationTracker" where
  "gt_ApplyBusGeneration generation8bit g =
     (let current16bit = la_CurrentGeneration (gt_allocator g);
          currentLow8bit = ucast (current16bit AND 0x00FF) :: u8;
          newHigh0 = current16bit AND 0xFF00;
          newHigh = (if generation8bit < currentLow8bit then newHigh0 + 0x0100 else newHigh0);
          newGen16 = newHigh OR ucast generation8bit
      in g\<lparr>gt_busGeneration8bit := generation8bit,
           gt_allocator := la_SetGeneration newGen16 (gt_allocator g)\<rparr>)"

definition gt_OnConfirmedBusGeneration :: "u8 \<Rightarrow> GenerationTracker \<Rightarrow> GenerationTracker" where
  "gt_OnConfirmedBusGeneration confirmedGeneration g =
     gt_ApplyBusGeneration confirmedGeneration (g\<lparr>gt_localNodeID := 0\<rparr>)"

definition gt_OnSelfIDComplete :: "u16 \<Rightarrow> GenerationTracker \<Rightarrow> GenerationTracker" where
  "gt_OnSelfIDComplete newNodeID g = g\<lparr>gt_localNodeID := newNodeID\<rparr>"

section \<open>Labels in use\<close>

definition la_used :: "LabelAllocator \<Rightarrow> nat set" where
  "la_used a = {i. bit (la_bitmap a) i}"

lemma la_used_less: "i \<in> la_used a \<Longrightarrow> i < 64"
  using bit_imp_le_length [of "la_bitmap a" i] by (simp add: la_used_def)

lemma la_IsLabelInUse_iff: "la_IsLabelInUse i a \<longleftrightarrow> i \<in> la_used a"
  using la_used_less [of i a] by (auto simp: la_IsLabelInUse_def la_used_def and_exp_eq_0 kMaxLabels_def)

lemma la_HasAnyLabelsInUse_iff: "la_HasAnyLabelsInUse a \<longleftrightarrow> la_used a \<noteq> {}"
  using bit_word_eqI [of "la_bitmap a" 0] by (auto simp: la_HasAnyLabelsInUse_def la_used_def)

lemma bits_or_push: "i < 64 \<Longrightarrow> {n. bit (b OR push_bit i 1) n} = insert i {n. bit b n}" for b :: u64
  by (auto simp: bit_simps)

lemma la_used_Free [simp]: "la_used (la_Free i a) = la_used a - {i}"
proof -
  have "j < 64" if "bit (la_bitmap a) j" for j using la_used_less [of j a] that by (simp add: la_used_def)
  then show ?thesis by (force simp: la_used_def la_Free_def kMaxLabels_def bit_simps)
qed

lemma la_used_simps [simp]:
  "la_used (la_ClearBitmap a) = {}" "la_used (la_Reset a) = {}" "la_used LabelAllocator0 = {}"
  "la_used (la_SetGeneration g a) = la_used a" "la_used (la_BumpGeneration a) = la_used a"
  "la_used (snd (la_NextLabel a)) = la_used a"
  by (simp_all add: la_used_def la_ClearBitmap_def la_Reset_def LabelAllocator0_def la_SetGeneration_def
      la_BumpGeneration_def la_NextLabel_def)

lemma alloc_scan_sound:
  "alloc_scan cas start as b = (r, b') \<Longrightarrow> case r of
     None \<Rightarrow> b' \<in> insert b {c. \<exists>k \<in> set as. cas k = Some c}
   | Some i \<Rightarrow> i < 64 \<and> (\<exists>c \<in> insert b {c. \<exists>k \<in> set as. cas k = Some c}. \<not> bit c i \<and> b' = c OR push_bit i 1)"
  by (induction as arbitrary: b)
     (force simp: Let_def split: if_splits option.splits prod.splits)+

lemma alloc_scan_quiet:
  "alloc_scan (\<lambda>_. None) start as b =
     (case find (\<lambda>k. \<not> bit b ((start + k) mod 64)) as of
        None \<Rightarrow> (None, b)
      | Some k \<Rightarrow> (Some ((start + k) mod 64), b OR push_bit ((start + k) mod 64) 1))"
  by (induction as) (simp_all add: Let_def)

lemma circular_cover: "i < 64 \<Longrightarrow> \<exists>k < 64. (start + k) mod 64 = i" for start i :: nat
proof -
  assume i: "i < 64"
  let ?m = "start mod 64"
  have "?m < 64" by simp
  then have "(?m + (i + (64 - ?m))) mod 64 = i" using i by simp
  then have "(start + (i + (64 - ?m)) mod 64) mod 64 = i" by (metis mod_add_left_eq mod_add_right_eq)
  moreover have "(i + (64 - ?m)) mod 64 < 64" by simp
  ultimately show ?thesis by blast
qed

lemma la_Allocate_used:
  assumes "la_Allocate (\<lambda>_. None) a = (i, a')"
  shows "if i = kInvalidLabel then a' = a \<and> la_used a = {..<64}
    else i < 64 \<and> i \<notin> la_used a \<and> la_used a' = insert i (la_used a)"
proof (cases "find (\<lambda>k. \<not> bit (la_bitmap a) ((la_next_label a + k) mod 64)) [0..<64]")
  case None
  then have all: "bit (la_bitmap a) ((la_next_label a + k) mod 64)" if "k < 64" for k
    using that by (auto simp: find_None_iff)
  have "bit (la_bitmap a) j" if "j < 64" for j
    using circular_cover [OF that, of "la_next_label a"] all by metis
  then have "la_used a = {..<64}" using la_used_less [of _ a] by (auto simp: la_used_def)
  moreover have "i = kInvalidLabel" "a' = a"
    using assms None by (auto simp: la_Allocate_def alloc_scan_quiet kMaxLabels_def)
  ultimately show ?thesis by simp
next
  case (Some k)
  let ?i = "(la_next_label a + k) mod 64"
  have "\<not> bit (la_bitmap a) ?i" using Some by (auto simp: find_Some_iff)
  moreover have "i = ?i" "la_bitmap a' = la_bitmap a OR push_bit ?i 1"
    using assms Some by (auto simp: la_Allocate_def alloc_scan_quiet kMaxLabels_def)
  moreover have "?i < 64" by simp
  ultimately show ?thesis using bits_or_push [of ?i "la_bitmap a"] by (auto simp: la_used_def kInvalidLabel_def)
qed

section \<open>The interface of a label pool\<close>

text \<open>
  A client that only frees labels it holds: \<open>held\<close> are the labels granted to it and not freed yet.
\<close>

datatype pool_op = PoolAlloc | PoolFree nat

fun pool_step :: "('s \<Rightarrow> nat option \<times> 's) \<Rightarrow> (nat \<Rightarrow> 's \<Rightarrow> 's) \<Rightarrow> pool_op \<Rightarrow> nat list \<times> 's \<Rightarrow> nat list \<times> 's" where
  "pool_step alloc free PoolAlloc (held, s) =
     (case alloc s of (Some l, s') \<Rightarrow> (l # held, s') | (None, s') \<Rightarrow> (held, s'))"
| "pool_step alloc free (PoolFree l) (held, s) =
     (if l \<in> set held then (remove1 l held, free l s) else (held, s))"

locale label_pool =
  fixes alloc :: "'s \<Rightarrow> nat option \<times> 's" and free :: "nat \<Rightarrow> 's \<Rightarrow> 's" and used :: "'s \<Rightarrow> nat set"
    and capacity :: nat
  assumes alloc_fresh: "alloc s = (Some l, s') \<Longrightarrow> l < capacity \<and> l \<notin> used s \<and> used s' = insert l (used s)"
    and alloc_full: "alloc s = (None, s') \<Longrightarrow> used s = {..<capacity} \<and> used s' = used s"
    and used_free: "used (free l s) = used s - {l}"
begin

lemma step_distinct:
  assumes "distinct held \<and> set held = used s" and "pool_step alloc free op (held, s) = (held', s')"
  shows "distinct held' \<and> set held' = used s'"
  using assms
  by (cases op) (auto dest: alloc_fresh alloc_full simp: used_free set_remove1_eq split: prod.splits option.splits if_splits)

lemma run_distinct:
  assumes "used s = {}"
  shows "let (held, s') = fold (pool_step alloc free) ops ([], s) in distinct held \<and> set held = used s'"
proof -
  have "let (held', s') = fold (pool_step alloc free) ops (held, s) in distinct held' \<and> set held' = used s'"
    if "distinct held \<and> set held = used s" for held s
    using that
  proof (induction ops arbitrary: held s)
    case (Cons op ops)
    obtain held' s' where st: "pool_step alloc free op (held, s) = (held', s')" by fastforce
    show ?case using Cons.IH [OF step_distinct [OF Cons.prems st]] st by simp
  qed simp
  from this [of "[]" s] show ?thesis using assms by simp
qed

lemma alloc_succeeds:
  assumes "used s \<noteq> {..<capacity}"
  shows "\<exists>l s'. alloc s = (Some l, s')"
  using assms alloc_full [of s] by (cases "alloc s"; cases "fst (alloc s)") auto

end

definition la_alloc :: "LabelAllocator \<Rightarrow> nat option \<times> LabelAllocator" where
  "la_alloc a = (case la_Allocate (\<lambda>_. None) a of (i, a') \<Rightarrow> (if i = kInvalidLabel then None else Some i, a'))"

interpretation labels: label_pool la_alloc la_Free la_used 64
proof
  fix s s' l
  show "la_alloc s = (Some l, s') \<Longrightarrow> l < 64 \<and> l \<notin> la_used s \<and> la_used s' = insert l (la_used s)"
    using la_Allocate_used [of s] by (auto simp: la_alloc_def split: prod.splits if_splits)
  show "la_alloc s = (None, s') \<Longrightarrow> la_used s = {..<64} \<and> la_used s' = la_used s"
    using la_Allocate_used [of s] by (auto simp: la_alloc_def split: prod.splits if_splits)
  show "la_used (la_Free l s) = la_used s - {l}" by simp
qed

section \<open>Properties\<close>

text \<open>
  However a client interleaves allocating labels and freeing labels it holds, it never holds a
  label twice, and the labels in use are exactly the ones held.
\<close>

lemma labels_unique:
  "let (held, a) = fold (pool_step la_alloc la_Free) ops ([], LabelAllocator0) in
   distinct held \<and> set held = {i. la_IsLabelInUse i a}"
  using labels.run_distinct [of LabelAllocator0 ops] by (simp add: la_IsLabelInUse_iff)

text \<open>
  Under any interference of other threads, a label that \<open>Allocate\<close> returns was free in the bitmap
  its compare-exchange replaced, and only that label's bit was set. Without interference
  \<open>Allocate\<close> returns the first free label at or after the cursor, in circular order, and fails only
  when all 64 labels are in use.
\<close>

lemma la_Allocate_correct:
  "(case la_Allocate cas a of (i, a') \<Rightarrow>
      if i = kInvalidLabel then la_next_label a' = la_next_label a
      else i < 64 \<and> la_next_label a' = (i + 1) mod 64
        \<and> (\<exists>b \<in> insert (la_bitmap a) {b. \<exists>k < 64. cas k = Some b}.
             \<not> bit b i \<and> la_bitmap a' = b OR push_bit i 1))
   \<and> (let free = filter (\<lambda>i. \<not> la_IsLabelInUse i a) (map (\<lambda>k. (la_next_label a + k) mod 64) [0..<64]) in
      fst (la_Allocate (\<lambda>_. None) a) = (case free of [] \<Rightarrow> kInvalidLabel | i # _ \<Rightarrow> i))"
proof (rule conjI)
  show "case la_Allocate cas a of (i, a') \<Rightarrow>
      if i = kInvalidLabel then la_next_label a' = la_next_label a
      else i < 64 \<and> la_next_label a' = (i + 1) mod 64
        \<and> (\<exists>b \<in> insert (la_bitmap a) {b. \<exists>k < 64. cas k = Some b}.
             \<not> bit b i \<and> la_bitmap a' = b OR push_bit i 1)"
  proof (cases "alloc_scan cas (la_next_label a) [0..<64] (la_bitmap a)")
    case (Pair r b')
    note sound = alloc_scan_sound [OF this]
    show ?thesis
    proof (cases r)
      case None
      then show ?thesis using Pair by (simp add: la_Allocate_def kMaxLabels_def)
    next
      case (Some i)
      have seen: "{c. \<exists>k \<in> set [0..<64]. cas k = Some c} = {b. \<exists>k < 64. cas k = Some b}" by auto
      from sound [unfolded Some option.case seen]
      obtain b where b: "b \<in> insert (la_bitmap a) {b. \<exists>k < 64. cas k = Some b}" "i < 64"
          "\<not> bit b i" "b' = b OR push_bit i 1" by blast
      have "la_Allocate cas a = (i, a\<lparr>la_bitmap := b', la_next_label := (i + 1) mod 64\<rparr>)"
        using Pair Some by (simp add: la_Allocate_def kMaxLabels_def)
      moreover have "i \<noteq> kInvalidLabel" using b(2) by (simp add: kInvalidLabel_def)
      ultimately show ?thesis using b
        by (auto simp del: push_bit_of_1)
    qed
  qed
  have find_filter: "find P xs = (case filter P xs of [] \<Rightarrow> None | x # _ \<Rightarrow> Some x)" for P :: "nat \<Rightarrow> bool" and xs
    by (induction xs) auto
  show "let free = filter (\<lambda>i. \<not> la_IsLabelInUse i a) (map (\<lambda>k. (la_next_label a + k) mod 64) [0..<64]) in
      fst (la_Allocate (\<lambda>_. None) a) = (case free of [] \<Rightarrow> kInvalidLabel | i # _ \<Rightarrow> i)"
    by (auto simp: la_Allocate_def alloc_scan_quiet kMaxLabels_def la_IsLabelInUse_iff la_used_def
        filter_map o_def find_filter Let_def split: list.splits)
qed

lemma unat_and_FF: "unat (x AND 0xFF) = unat x mod 256" for x :: u16
proof -
  have "x AND 0xFF = take_bit 8 x" by (simp add: take_bit_eq_mask mask_eq_exp_minus_1)
  then have "unat (x AND 0xFF) = take_bit 8 (unat x)" by (simp only: unsigned_take_bit_eq)
  then show ?thesis by (simp add: take_bit_eq_mod)
qed

lemma unat_and_3FF: "unat (x AND 0x3FF) = unat x mod 1024" for x :: u16
proof -
  have "x AND 0x3FF = take_bit 10 x" by (simp add: take_bit_eq_mask mask_eq_exp_minus_1)
  then have "unat (x AND 0x3FF) = take_bit 10 (unat x)" by (simp only: unsigned_take_bit_eq)
  then show ?thesis by (simp add: take_bit_eq_mod)
qed

lemma unat_high: "unat (x AND 0xFF00) = 256 * (unat x div 256)" for x :: u16
proof -
  have "(x AND 0xFF00) AND (x AND 0xFF) = 0"
    by (rule u16_eqI) (simp add: upt_16 bit_simps)
  then have "(x AND 0xFF00) + (x AND 0xFF) = (x AND 0xFF00) OR (x AND 0xFF)"
    by (rule disjunctive_add_eq_or)
  also have "\<dots> = x" by (rule u16_eqI) (simp add: upt_16 bit_simps)
  finally have "x AND 0xFF00 = x - (x AND 0xFF)" by (simp add: algebra_simps)
  moreover have "x AND 0xFF \<le> x" by (rule word_and_le2)
  ultimately have "unat (x AND 0xFF00) = unat x - unat (x AND 0xFF)" by (simp add: unat_sub)
  then show ?thesis by (simp add: unat_and_FF minus_mod_eq_mult_div)
qed

lemma unat_or_byte:
  fixes h :: u16 and g :: u8
  assumes "unat h mod 256 = 0"
  shows "unat (h OR ucast g) = unat h + unat g"
proof -
  have h: "h AND 0xFF = 0" using assms by (simp add: unat_eq_0 flip: unat_and_FF)
  have byte: "ucast g AND 0xFF = (ucast g :: u16)"
    by (rule u16_eqI) (simp add: upt_16 bit_simps mask_simps)
  have "h AND ucast g = (h AND 0xFF) AND ucast g" unfolding byte [symmetric, THEN arg_cong [where f = "\<lambda>x. h AND x"]]
    by (simp only: ac_simps)
  then have "h AND ucast g = 0" by (simp add: h)
  then have "h OR ucast g = h + ucast g" by (simp add: disjunctive_add_eq_or)
  moreover have "unat h + unat (ucast g :: u16) < 2 ^ 16"
  proof -
    have "unat h < 2 ^ 16" using unsigned_less [of h] by simp
    moreover have "unat h = 256 * (unat h div 256)" using assms by auto
    moreover have "unat (ucast g :: u16) < 256" using unsigned_less [of g, where 'a = nat] by (simp add: unsigned_ucast_eq take_bit_nat_eq_self)
    moreover have "unat h div 256 < 256" using \<open>unat h < 2 ^ 16\<close> by (simp add: less_mult_imp_div_less)
    ultimately show ?thesis by simp
  qed
  moreover have "take_bit 16 (unat g) = unat g"
    using unsigned_less [of g, where 'a = nat] by (simp add: take_bit_nat_eq_self)
  ultimately show ?thesis by (simp add: unat_word_ariths unsigned_ucast_eq)
qed

text \<open>The extension of the generation, on numbers.\<close>

lemma extend_generation:
  fixes T T' :: nat
  assumes "T \<le> T'" and "T' < T + 256"
  shows "(256 * ((T mod 1024) div 256) + (if T' mod 256 < T mod 256 then 256 else 0) + T' mod 256) mod 1024
    = T' mod 1024"
proof -
  define q a q' b where "q = T div 256" and "a = T mod 256" and "q' = T' div 256" and "b = T' mod 256"
  have T: "T = 256 * q + a" "T' = 256 * q' + b" "a < 256" "b < 256"
    by (simp_all add: q_def a_def q'_def b_def)
  have le: "256 * q + a \<le> 256 * q' + b" "256 * q' + b < 256 * q + a + 256" using assms T(1,2) by linarith+
  have "\<not> q' + 1 \<le> q" "\<not> q + 2 \<le> q'" using le T(3,4) by linarith+
  then have "q' = q \<or> q' = q + 1" by linarith
  then have q': "q' = q + (if b < a then 1 else 0)" using le T(3,4) by (elim disjE) (simp, simp)
  have digits: "(256 * k + c) mod 1024 = 256 * (k mod 4) + c" if "c < 256" for k c :: nat
    using that mod_mult2_eq [of "256 * k + c" 256 4] by simp
  have "T mod 1024 div 256 = q mod 4" using T digits by simp
  moreover have "256 * (q mod 4) + (if b < a then 256 else 0) + b = 256 * (q mod 4 + (if b < a then 1 else 0)) + b"
    by simp
  ultimately have "(256 * ((T mod 1024) div 256) + (if b < a then 256 else 0) + b) mod 1024
      = (256 * (q mod 4 + (if b < a then 1 else 0)) + b) mod 1024" by (simp only:)
  also have "\<dots> = 256 * ((q mod 4 + (if b < a then 1 else 0)) mod 4) + b" by (rule digits [OF T(4)])
  also have "\<dots> = 256 * (q' mod 4) + b" unfolding q' by (simp add: mod_simps)
  also have "\<dots> = T' mod 1024" using T digits by simp
  finally show ?thesis by (simp add: a_def b_def)
qed

text \<open>
  The tracker's generation is the true generation of the bus modulo 1024 as long as fewer than
  256 generations pass between two confirmations: if it was right for the generation \<open>T\<close>, then
  after confirming the low byte of the generation \<open>T'\<close> it is right for \<open>T'\<close>.
\<close>

lemma generation_tracks:
  assumes "unat (bs_generation16 (gt_GetCurrentState g)) = T mod 1024" and "T \<le> T'" and "T' < T + 256"
  shows "unat (bs_generation16 (gt_GetCurrentState (gt_OnConfirmedBusGeneration (of_nat T') g))) = T' mod 1024"
proof -
  let ?cur = "la_CurrentGeneration (gt_allocator g)" and ?g = "of_nat T' :: u8"
  let ?lo = "ucast (?cur AND 0xFF) :: u8" and ?hi = "?cur AND 0xFF00"
  let ?new = "if ?g < ?lo then ?hi + 0x0100 else ?hi"
  have cur: "unat ?cur = T mod 1024" using assms(1) by (simp add: gt_GetCurrentState_def Let_def)
  have g: "unat ?g = T' mod 256" by (simp add: unsigned_of_nat take_bit_eq_mod)
  have lo: "unat ?lo = T mod 256"
    using cur by (simp add: unsigned_ucast_eq unat_and_FF take_bit_eq_mod mod_mod_cancel)
  have hi: "unat ?hi = 256 * (T mod 1024 div 256)" using cur by (simp add: unat_high)
  have "T mod 1024 div 256 < 4" by (simp add: less_mult_imp_div_less)
  then have new: "unat ?new = 256 * (T mod 1024 div 256) + (if T' mod 256 < T mod 256 then 256 else 0)"
    using hi g lo by (simp add: word_less_nat_alt unat_word_ariths)
  then have "unat ?new mod 256 = 0" by simp
  then have "unat (?new OR ucast ?g) = unat ?new + T' mod 256" using g by (simp only: unat_or_byte)
  then have "unat ((?new OR ucast ?g) AND 0x3FF) = T' mod 1024"
    unfolding unat_and_3FF new by (simp only: extend_generation [OF assms(2,3)])
  moreover have "la_CurrentGeneration (la_SetGeneration x a) = x AND 0x3FF" for x a
    by (simp add: la_CurrentGeneration_def la_SetGeneration_def kLabelGenerationMask_def)
  moreover have "gt_allocator (gt_OnConfirmedBusGeneration ?g g) =
      la_SetGeneration (?new OR ucast ?g) (gt_allocator g)"
    by (simp add: gt_OnConfirmedBusGeneration_def gt_ApplyBusGeneration_def Let_def)
  ultimately show ?thesis by (simp only: gt_GetCurrentState_def Let_def BusState.simps)
qed

end
