(* ===== verification/Async_Tracking.thy ===== *)
theory Async_Tracking
  imports Async_Transaction Async_Labels "HOL-Library.Multiset"
begin

text \<open>
  \<^verbatim>\<open>Async/Track/Tracking.hpp\<close> and \<^verbatim>\<open>Async/Track/TransactionCompletionHandler.hpp\<close>: registration of
  transactions, their completion by acknowledgements, by response packets and by timeouts, and their
  cancellation.

  A client's callback may call back into the tracking actor. So every operation that invokes
  callbacks takes the client's behaviour \<open>cb\<close> as an argument: what the callback does to the
  tracking state. Each invocation is also recorded in \<open>tk_log\<close>, which no operation reads. The
  transaction manager and the label allocator are always there (the actor is built with them); the
  lock may be missing. Operations run one after another, as the locks serialise them.
\<close>

section \<open>Definitions\<close>

datatype kern_return = kIOReturnSuccess | kIOReturnError | kIOReturnTimeout | kIOReturnAborted

datatype AsyncStatus = kSuccess | kTimeout | kShortRead | kBusyRetryExhausted | kAborted
  | kHardwareError | kLockCompareFail | kStaleGeneration

record Completion =
  co_callback :: nat
  co_handle :: nat
  co_status :: AsyncStatus
  co_rCode :: u8
  co_data :: "u8 list"

record Track_Tracking =
  tk_labels :: LabelAllocator
  tk_mgr :: TransactionManager
  tk_lock :: bool
  tk_log :: "Completion list"

type_synonym client = "Completion \<Rightarrow> Track_Tracking \<Rightarrow> Track_Tracking"

record TxMetadata =
  me_generation :: u16
  me_destinationNodeID :: u16
  me_tCode :: u8
  me_callback :: "nat option"
  me_completionStrategy :: CompletionStrategy

record RxResponse =
  rx_generation :: u16
  rx_sourceNodeID :: u16
  rx_tLabel :: nat
  rx_rCode :: u8
  rx_payload :: "u8 list"

record TxCompletion =
  tc_eventCode :: u8
  tc_ackCode :: u8
  tc_tLabel :: nat
  tc_isResponseContext :: bool

text \<open>The status the wrapper of \<open>RegisterTx\<close> reports, and the invocation of the response handler.\<close>

definition status_of :: "kern_return \<Rightarrow> AsyncStatus" where
  "status_of kr = (case kr of kIOReturnSuccess \<Rightarrow> kSuccess | kIOReturnTimeout \<Rightarrow> kTimeout
                            | kIOReturnAborted \<Rightarrow> kAborted | _ \<Rightarrow> kHardwareError)"

definition InvokeResponseHandler ::
  "client \<Rightarrow> kern_return \<Rightarrow> u8 \<Rightarrow> u8 list \<Rightarrow> Transaction \<Rightarrow> Track_Tracking \<Rightarrow> Track_Tracking" where
  "InvokeResponseHandler cb kr responseCode data t s =
     (case tx_responseHandler t of
        Some (Wrapper (Some c) label) \<Rightarrow>
          let co = \<lparr>co_callback = c, co_handle = label + 1, co_status = status_of kr,
                    co_rCode = responseCode, co_data = data\<rparr>
          in cb co (s\<lparr>tk_log := tk_log s @ [co]\<rparr>)
      | _ \<Rightarrow> s)"

definition RegisterTx :: "TxMetadata \<Rightarrow> Track_Tracking \<Rightarrow> nat \<times> Track_Tracking" where
  "RegisterTx meta s =
     (if \<not> tk_lock s then (0, s)
      else
        let labels = (if tm_Count (tk_mgr s) = 0 \<and> la_HasAnyLabelsInUse (tk_labels s)
                      then la_ClearBitmap (tk_labels s) else tk_labels s);
            (label, labels) = la_Allocate (\<lambda>_. None) labels
        in if label = kInvalidLabel then (0, s\<lparr>tk_labels := labels\<rparr>)
           else
             case tm_Allocate label (ucast (me_generation meta)) (me_destinationNodeID meta) (tk_mgr s) of
               (Inl _, mgr) \<Rightarrow> (0, s\<lparr>tk_labels := la_Free label labels, tk_mgr := mgr\<rparr>)
             | (Inr txn, mgr) \<Rightarrow>
                 let txn = txn\<lparr>tx_timeoutMs := 200, tx_tCode := me_tCode meta,
                               tx_completionStrategy := me_completionStrategy meta\<rparr>;
                     txn = (if me_completionStrategy meta = CompleteOnAR
                            then txn\<lparr>tx_skipATCompletion := True\<rparr> else txn);
                     txn = txn\<lparr>tx_responseHandler := Some (Wrapper (me_callback meta) label)\<rparr>;
                     txn = TransitionTo Submitted ''RegisterTx'' txn
                 in (label + 1,
                     s\<lparr>tk_labels := labels,
                       tk_mgr := mgr\<lparr>tm_transactions := (tm_transactions mgr)[label := Some txn]\<rparr>\<rparr>))"

definition GetLabelFromHandle :: "nat \<Rightarrow> Track_Tracking \<Rightarrow> nat option" where
  "GetLabelFromHandle handle s =
     (if \<not> tk_lock s then None
      else if handle = 0 \<or> handle > 64 then None
      else map_option tx_label (tm_Find (handle - 1) (tk_mgr s)))"

definition post_txn :: "u64 \<Rightarrow> Transaction \<Rightarrow> unit \<times> Transaction" where
  "post_txn deadline txn =
     (let txn = TransitionTo ATPosted ''OnTxPosted'' txn;
          txn = (if tx_completionStrategy txn = CompleteOnAR
                 then TransitionTo AwaitingAR ''OnTxPosted: CompleteOnAR bypass''
                        (TransitionTo ATCompleted ''OnTxPosted: CompleteOnAR bypass'' txn)
                 else txn)
      in ((), SetDeadline deadline txn))"

definition OnTxPosted :: "nat \<Rightarrow> u64 \<Rightarrow> u64 \<Rightarrow> Track_Tracking \<Rightarrow> Track_Tracking" where
  "OnTxPosted handle nowUsec timeoutUsec s =
     (if \<not> tk_lock s then s
      else if handle = 0 \<or> handle > 64 then s
      else s\<lparr>tk_mgr := snd (tm_WithTransaction (handle - 1) (post_txn (nowUsec + timeoutUsec)) (tk_mgr s))\<rparr>)"

subsection \<open>Acknowledgements\<close>

datatype ATPostAction = kNone | kCompleteSuccess | kCompleteError | kCompleteTimeout
  | kCompleteCancelled | kCompletePhySuccess

record ATPostResult =
  po_action :: ATPostAction
  po_tag :: string
  po_postKr :: kern_return

definition ATPostResult0 :: ATPostResult where
  "ATPostResult0 = \<lparr>po_action = kNone, po_tag = '''', po_postKr = kIOReturnSuccess\<rparr>"

definition NormalizeAckFromEvent :: "u8 \<Rightarrow> u8 \<Rightarrow> u8" where
  "NormalizeAckFromEvent eventCode rawAckCode =
     (if eventCode = 0x11 then 0x0
      else if eventCode = 0x12 then 0x1
      else if eventCode = 0x14 then 0x4
      else if eventCode = 0x15 then 0x5
      else if eventCode = 0x16 then 0x6
      else if eventCode = 0x1B then 0xC
      else if eventCode = 0x1D then 0xD
      else if eventCode = 0x1E then 0xE
      else rawAckCode)"

text \<open>The two transitions on the way to waiting for a response.\<close>

definition await_AR :: "string \<Rightarrow> string \<Rightarrow> Transaction \<Rightarrow> Transaction" where
  "await_AR tag1 tag2 txn = TransitionTo AwaitingAR tag2 (TransitionTo ATCompleted tag1 txn)"

definition HandleHardwareEventCompletion ::
  "TxCompletion \<Rightarrow> Transaction \<Rightarrow> bool \<times> ATPostResult \<times> Transaction" where
  "HandleHardwareEventCompletion txc txn =
     (if tc_eventCode txc = 0x0A \<or> tc_eventCode txc = 0x03
      then (if tc_ackCode txc = 0x1
            then (True, ATPostResult0,
                  await_AR ''OnATCompletion: hw_timeout_pending'' ''OnATCompletion: ackPending'' txn)
            else (True, \<lparr>po_action = kCompleteTimeout, po_tag = ''OnATCompletion: hw_timeout'',
                         po_postKr = kIOReturnTimeout\<rparr>, txn))
      else if tc_eventCode txc = 0x0F
      then (True, \<lparr>po_action = kCompleteCancelled, po_tag = ''OnATCompletion: flushed'',
                   po_postKr = kIOReturnAborted\<rparr>, txn)
      else (False, ATPostResult0, txn))"

definition HandleAckCompletion ::
  "u64 \<Rightarrow> TxCompletion \<Rightarrow> Transaction \<Rightarrow> ATPostResult \<times> Transaction" where
  "HandleAckCompletion now txc txn =
     (let ackCode = tc_ackCode txc;
          needsARData = IsReadOperation txn \<or> tx_completionStrategy txn = CompleteOnAR
      in if ackCode = 0x1
         then (ATPostResult0, await_AR ''OnATCompletion: ackPending'' ''OnATCompletion: ackPending'' txn)
         else if ackCode = 0x0
         then (if needsARData
               then (ATPostResult0,
                     await_AR ''OnATCompletion: ackComplete_read'' ''OnATCompletion: ackComplete_read'' txn)
               else let (first, txn) = TryMarkCompleted txn in
                    if first
                    then (\<lparr>po_action = kCompleteSuccess, po_tag = ''OnATCompletion: ackComplete'',
                           po_postKr = kIOReturnSuccess\<rparr>, txn)
                    else (ATPostResult0, txn))
         else if ackCode \<in> {0x4, 0x5, 0x6}
         then (ATPostResult0, SetDeadline (now + 200000) (TransitionTo ATCompleted ''OnATCompletion: busy'' txn))
         else if ackCode \<in> {0xC, 0x11, 0x1B}
         then (ATPostResult0, await_AR ''OnATCompletion: tardy'' ''OnATCompletion: tardy'' txn)
         else if ackCode \<in> {0xD, 0xE}
         then (\<lparr>po_action = kCompleteError, po_tag = ''OnATCompletion: ackError'',
                po_postKr = kIOReturnError\<rparr>, txn)
         else (ATPostResult0, await_AR ''OnATCompletion: unknown_ack'' ''OnATCompletion: unknown_ack'' txn))"

definition at_completion :: "u64 \<Rightarrow> TxCompletion \<Rightarrow> Transaction \<Rightarrow> ATPostResult \<times> Transaction" where
  "at_completion now txc txn =
     (if tx_state txn \<in> {Completed, TimedOut, Failed, Cancelled} then (ATPostResult0, txn)
      else
        let txn = txn\<lparr>tx_ackCode := tc_ackCode txc\<rparr>
        in if tx_completionStrategy txn = CompleteOnPHY
           then (\<lparr>po_action = kCompletePhySuccess, po_tag = ''OnATCompletion: phy'',
                  po_postKr = kIOReturnSuccess\<rparr>, txn)
           else if tx_skipATCompletion txn then (ATPostResult0, txn)
           else if IsReadOperation txn \<and> tx_state txn \<noteq> AwaitingAR
           then (ATPostResult0, await_AR ''OnATCompletion: read_legacy'' ''OnATCompletion: read_legacy'' txn)
           else case HandleHardwareEventCompletion txc txn of
                  (True, post, txn) \<Rightarrow> (post, txn)
                | (False, post, txn) \<Rightarrow> HandleAckCompletion now txc txn)"

definition final_transitions :: "ATPostResult \<Rightarrow> Transaction \<Rightarrow> Transaction" where
  "final_transitions post txn =
     (case po_action post of
        kCompleteSuccess \<Rightarrow> TransitionTo Completed (po_tag post) (TransitionTo ATCompleted (po_tag post) txn)
      | kCompletePhySuccess \<Rightarrow> TransitionTo Completed (po_tag post) (TransitionTo ATCompleted (po_tag post) txn)
      | kCompleteError \<Rightarrow> TransitionTo Failed (po_tag post) (TransitionTo ATCompleted (po_tag post) txn)
      | kCompleteTimeout \<Rightarrow> TransitionTo Failed (po_tag post) (TransitionTo ATCompleted (po_tag post) txn)
      | kCompleteCancelled \<Rightarrow> TransitionTo Cancelled (po_tag post) txn
      | kNone \<Rightarrow> txn)"

definition FinalizeATPostAction ::
  "client \<Rightarrow> nat \<Rightarrow> ATPostResult \<Rightarrow> Track_Tracking \<Rightarrow> Track_Tracking" where
  "FinalizeATPostAction cb label post s =
     (if po_action post = kNone then s
      else case tm_Extract label (tk_mgr s) of
             (None, mgr) \<Rightarrow> s\<lparr>tk_mgr := mgr\<rparr>
           | (Some txn, mgr) \<Rightarrow>
               InvokeResponseHandler cb (po_postKr post) 0xFF [] (final_transitions post txn)
                 (s\<lparr>tk_mgr := mgr, tk_labels := la_Free label (tk_labels s)\<rparr>))"

definition OnATCompletion :: "client \<Rightarrow> u64 \<Rightarrow> TxCompletion \<Rightarrow> Track_Tracking \<Rightarrow> Track_Tracking" where
  "OnATCompletion cb now rawComp s =
     (let txc = rawComp\<lparr>tc_ackCode := NormalizeAckFromEvent (tc_eventCode rawComp) (tc_ackCode rawComp)\<rparr>
      in if tc_isResponseContext txc then s
         else
           let (found, mgr) = tm_WithTransaction (tc_tLabel txc) (at_completion now txc) (tk_mgr s);
               post = (case found of None \<Rightarrow> ATPostResult0 | Some p \<Rightarrow> p)
           in FinalizeATPostAction cb (tc_tLabel txc) post (s\<lparr>tk_mgr := mgr\<rparr>))"

subsection \<open>Responses\<close>

definition OnARResponse :: "client \<Rightarrow> MatchKey \<Rightarrow> u8 \<Rightarrow> u8 list \<Rightarrow> Track_Tracking \<Rightarrow> Track_Tracking" where
  "OnARResponse cb key rcode data s =
     (case tm_FindByMatchKey key (tk_mgr s) of
        None \<Rightarrow> s
      | Some txn \<Rightarrow>
          if tx_state txn \<in> {Completed, Failed, Cancelled, TimedOut} then s
          else
            let (first, txn) = TryMarkCompleted txn;
                mgr = (tk_mgr s)\<lparr>tm_transactions := (tm_transactions (tk_mgr s))[mk_label key := Some txn]\<rparr>
            in if \<not> first then s\<lparr>tk_mgr := mgr\<rparr>
               else case tm_Extract (mk_label key) mgr of
                      (None, mgr) \<Rightarrow> s\<lparr>tk_mgr := mgr\<rparr>
                    | (Some txn, mgr) \<Rightarrow>
                        let txn = TransitionTo ARReceived ''OnARResponse'' txn;
                            kr = (if rcode = 0 then kIOReturnSuccess else kIOReturnError);
                            txn = (if tx_state txn \<notin> {Completed, Failed, Cancelled, TimedOut}
                                   then TransitionTo Completed ''OnARResponse'' txn else txn)
                        in InvokeResponseHandler cb kr rcode data txn
                             (s\<lparr>tk_mgr := mgr, tk_labels := la_Free (mk_label key) (tk_labels s)\<rparr>))"

definition OnRxResponse :: "client \<Rightarrow> RxResponse \<Rightarrow> Track_Tracking \<Rightarrow> Track_Tracking" where
  "OnRxResponse cb response s =
     (if \<not> tk_lock s then s
      else OnARResponse cb \<lparr>mk_node = rx_sourceNodeID response, mk_generation = ucast (rx_generation response),
                            mk_label = rx_tLabel response\<rparr>
             (rx_rCode response) (rx_payload response) s)"

subsection \<open>Timeouts\<close>

definition HandleBusyTimeout :: "u64 \<Rightarrow> Transaction \<Rightarrow> bool \<times> Transaction" where
  "HandleBusyTimeout now txn =
     (if tx_ackCode txn \<noteq> 0x4 \<and> tx_ackCode txn \<noteq> 0x5 \<and> tx_ackCode txn \<noteq> 0x6 then (False, txn)
      else if tx_retryCount txn \<ge> 3 then (False, txn)
      else (True, SetDeadline (now + 200000) (IncrementRetry txn)))"

definition HandleATPostedTimeout :: "u64 \<Rightarrow> Transaction \<Rightarrow> bool \<times> Transaction" where
  "HandleATPostedTimeout now txn =
     (if tx_state txn \<noteq> ATPosted \<or> tx_ackCode txn \<noteq> 0x0 then (False, txn)
      else if tx_retryCount txn < 2
      then (True, SetDeadline (now + 250000) (IncrementRetry txn))
      else (False, txn))"

definition HandleAwaitingARTimeout :: "u64 \<Rightarrow> Transaction \<Rightarrow> bool \<times> Transaction" where
  "HandleAwaitingARTimeout now txn =
     (if tx_state txn \<noteq> AwaitingAR then (False, txn)
      else if tx_ackCode txn \<noteq> 0x0 \<and> tx_ackCode txn \<noteq> 0x1 \<and> tx_ackCode txn \<noteq> 0xC then (False, txn)
      else if tx_retryCount txn < 3
      then (True, SetDeadline (now + 250000) (IncrementRetry txn))
      else (False, txn))"

definition timeout_txn :: "u64 \<Rightarrow> Transaction \<Rightarrow> bool \<times> Transaction" where
  "timeout_txn now txn =
     (case HandleBusyTimeout now txn of
        (True, txn) \<Rightarrow> (False, txn)
      | (False, txn) \<Rightarrow>
          (case HandleATPostedTimeout now txn of
             (True, txn) \<Rightarrow> (False, txn)
           | (False, txn) \<Rightarrow>
               (case HandleAwaitingARTimeout now txn of
                  (True, txn) \<Rightarrow> (False, txn)
                | (False, txn) \<Rightarrow> (True, txn))))"

definition OnTimeout :: "client \<Rightarrow> u64 \<Rightarrow> nat \<Rightarrow> Track_Tracking \<Rightarrow> Track_Tracking" where
  "OnTimeout cb now label s =
     (let (found, mgr) = tm_WithTransaction label (timeout_txn now) (tk_mgr s);
          s = s\<lparr>tk_mgr := mgr\<rparr>
      in if found = Some True
         then case tm_Extract label mgr of
                (None, mgr) \<Rightarrow> s\<lparr>tk_mgr := mgr\<rparr>
              | (Some txn, mgr) \<Rightarrow>
                  InvokeResponseHandler cb kIOReturnTimeout 0xFF [] (TransitionTo TimedOut ''OnTimeout'' txn)
                    (s\<lparr>tk_mgr := mgr, tk_labels := la_Free label (tk_labels s)\<rparr>)
         else s)"

definition OnTimeoutTick :: "client \<Rightarrow> (nat \<Rightarrow> u64) \<Rightarrow> u64 \<Rightarrow> Track_Tracking \<Rightarrow> Track_Tracking" where
  "OnTimeoutTick cb NowUs nowUsec s =
     (let timedOutLabels = tm_ForEachTransaction
            (\<lambda>txn. if tx_state txn \<in> {Completed, Failed, Cancelled, TimedOut} then []
                   else if tx_deadlineUs txn > 0 \<and> nowUsec \<ge> tx_deadlineUs txn then [tx_label txn]
                   else []) (tk_mgr s)
      in fold (\<lambda>label. OnTimeout cb (NowUs label) label) timedOutLabels s)"

subsection \<open>Cancellation\<close>

definition cancel_victim :: "client \<Rightarrow> string \<Rightarrow> nat \<Rightarrow> Track_Tracking \<Rightarrow> Track_Tracking" where
  "cancel_victim cb reason label s =
     (case tm_Extract label (tk_mgr s) of
        (None, mgr) \<Rightarrow> s\<lparr>tk_mgr := mgr\<rparr>
      | (Some txn, mgr) \<Rightarrow>
          let s = s\<lparr>tk_mgr := mgr\<rparr>;
              s = (if \<not> IsTerminalState (tx_state txn)
                   then InvokeResponseHandler cb kIOReturnAborted 0xFF []
                          (TransitionTo Cancelled reason txn) s
                   else s)
          in s\<lparr>tk_labels := la_Free label (tk_labels s)\<rparr>)"

definition CancelByGeneration :: "client \<Rightarrow> u16 \<Rightarrow> Track_Tracking \<Rightarrow> Track_Tracking" where
  "CancelByGeneration cb oldGeneration s =
     fold (cancel_victim cb ''CancelByGeneration'')
       (tm_ForEachTransaction (\<lambda>txn. if tx_generation txn = ucast oldGeneration then [tx_label txn] else [])
          (tk_mgr s)) s"

definition CancelAllAndFreeLabels :: "client \<Rightarrow> Track_Tracking \<Rightarrow> Track_Tracking" where
  "CancelAllAndFreeLabels cb s =
     fold (cancel_victim cb ''CancelAll'') (tm_ForEachTransaction (\<lambda>txn. [tx_label txn]) (tk_mgr s)) s"

definition cancel_slot :: "client \<Rightarrow> nat \<Rightarrow> Track_Tracking \<Rightarrow> Track_Tracking" where
  "cancel_slot cb i s =
     (case tm_transactions (tk_mgr s) ! i of
        Some txn \<Rightarrow>
          if tx_state txn \<notin> {Completed, Failed, Cancelled}
          then let txn = TransitionTo Cancelled ''TransactionManager::CancelAll'' txn
               in InvokeResponseHandler cb kIOReturnAborted 0xFF [] txn
                    (s\<lparr>tk_mgr := (tk_mgr s)\<lparr>tm_transactions := (tm_transactions (tk_mgr s))[i := Some txn]\<rparr>\<rparr>)
          else s
      | None \<Rightarrow> s)"

definition tm_CancelAll :: "client \<Rightarrow> Track_Tracking \<Rightarrow> Track_Tracking" where
  "tm_CancelAll cb s =
     (if \<not> tm_ready (tk_mgr s) then s
      else let s = fold (cancel_slot cb) [0..<64] s
           in s\<lparr>tk_mgr := (tk_mgr s)\<lparr>tm_transactions := map (\<lambda>_. None) (tm_transactions (tk_mgr s))\<rparr>\<rparr>)"

definition tm_Shutdown :: "client \<Rightarrow> Track_Tracking \<Rightarrow> Track_Tracking" where
  "tm_Shutdown cb s =
     (if \<not> tm_initialized (tk_mgr s) then s
      else let s = tm_CancelAll cb s
           in s\<lparr>tk_mgr := (tk_mgr s)\<lparr>tm_lock := False, tm_initialized := False\<rparr>\<rparr>)"

end
