(* ===== verification/Async_Tracking_Inv.thy ===== *)
theory Async_Tracking_Inv
  imports Async_Tracking
begin

text \<open>
  The invariant of the tracking actor and that its operations keep it. Completion under re-entrant
  clients is the locale \<open>tracking_client\<close>, interpreted for the client that only notes completions
  and for the client that submits again from its callback.
\<close>

section \<open>The invariant\<close>

text \<open>
  A transaction in the table sits in the slot of its label, is past \<open>Created\<close>, in no terminal state and
  not marked completed, has used at most three deadline extensions, and has its wrapper installed.
  The labels of the transactions in the table are in use; other labels are in use only when the
  table is empty (after the manager was shut down), and \<open>RegisterTx\<close> then clears them.
\<close>

definition txn_ok :: "nat \<Rightarrow> Transaction \<Rightarrow> bool" where
  "txn_ok i t \<longleftrightarrow> tx_label t = i \<and> tx_state t \<in> {Submitted, ATPosted, ATCompleted, AwaitingAR}
     \<and> \<not> tx_completedByPath t \<and> tx_retryCount t \<le> 3 \<and> (\<exists>c. tx_responseHandler t = Some (Wrapper c i))"

definition occupied :: "TransactionManager \<Rightarrow> nat set" where
  "occupied m = {i. i < 64 \<and> tm_transactions m ! i \<noteq> None}"

definition mgr_ok :: "TransactionManager \<Rightarrow> bool" where
  "mgr_ok m \<longleftrightarrow> length (tm_transactions m) = 64
     \<and> (\<forall>i < 64. case_option True (txn_ok i) (tm_transactions m ! i))
     \<and> (tm_initialized m \<longrightarrow> tm_lock m) \<and> (\<not> tm_initialized m \<longrightarrow> occupied m = {})"

definition tk_inv :: "Track_Tracking \<Rightarrow> bool" where
  "tk_inv s \<longleftrightarrow> mgr_ok (tk_mgr s) \<and> occupied (tk_mgr s) \<subseteq> la_used (tk_labels s)
     \<and> (la_used (tk_labels s) \<subseteq> occupied (tk_mgr s) \<or> occupied (tk_mgr s) = {})"

abbreviation set_slot :: "nat \<Rightarrow> Transaction option \<Rightarrow> TransactionManager \<Rightarrow> TransactionManager" where
  "set_slot i x m \<equiv> m\<lparr>tm_transactions := (tm_transactions m)[i := x]\<rparr>"

lemma mgr_ok_length [simp]: "mgr_ok m \<Longrightarrow> length (tm_transactions m) = 64"
  by (simp add: mgr_ok_def)

lemma mgr_ok_slot: "mgr_ok m \<Longrightarrow> tm_transactions m ! i = Some t \<Longrightarrow> i < 64 \<Longrightarrow> txn_ok i t"
proof -
  assume "mgr_ok m" "tm_transactions m ! i = Some t" "i < 64"
  moreover from this have "case_option True (txn_ok i) (tm_transactions m ! i)" unfolding mgr_ok_def by blast
  ultimately show ?thesis by simp
qed

lemma mgr_ok_ready: "mgr_ok m \<Longrightarrow> occupied m \<noteq> {} \<Longrightarrow> tm_ready m"
  by (auto simp: mgr_ok_def)

lemma occupied_set_slot:
  "mgr_ok m \<Longrightarrow> i < 64 \<Longrightarrow>
     occupied (set_slot i x m) = (if x = None then occupied m - {i} else insert i (occupied m))"
  by (auto simp: occupied_def nth_list_update)

lemma mgr_ok_set_slot:
  assumes "mgr_ok m" "tm_ready m" "case_option True (txn_ok i) x"
  shows "mgr_ok (set_slot i x m)"
proof -
  have "case_option True (txn_ok j) ((tm_transactions m)[i := x] ! j)" if "j < 64" for j
  proof (cases "j = i")
    case True
    then show ?thesis using assms(1,3) that by (cases x) simp_all
  next
    case False
    then show ?thesis using assms(1) that by (simp add: mgr_ok_def)
  qed
  then show ?thesis using assms by (simp add: mgr_ok_def)
qed

lemma tk_inv_update:
  assumes "tk_inv s" "i \<in> occupied (tk_mgr s)" "txn_ok i t"
  shows "tk_inv (s\<lparr>tk_mgr := set_slot i (Some t) (tk_mgr s)\<rparr>)"
proof -
  have "mgr_ok (tk_mgr s)" "i < 64" "tm_ready (tk_mgr s)"
    using assms by (auto simp: tk_inv_def occupied_def dest: mgr_ok_ready)
  with assms show ?thesis by (simp add: tk_inv_def mgr_ok_set_slot occupied_set_slot insert_absorb)
qed

lemma tk_inv_finish:
  assumes "tk_inv s" "i \<in> occupied (tk_mgr s)"
  shows "tk_inv (s\<lparr>tk_mgr := set_slot i None (tk_mgr s), tk_labels := la_Free i (tk_labels s)\<rparr>)"
proof -
  have "mgr_ok (tk_mgr s)" "i < 64" "tm_ready (tk_mgr s)"
    using assms by (auto simp: tk_inv_def occupied_def dest: mgr_ok_ready)
  with assms show ?thesis by (auto simp: tk_inv_def mgr_ok_set_slot occupied_set_slot)
qed

lemma tm_Extract_occupied:
  assumes "mgr_ok m" "i \<in> occupied m"
  shows "tm_Extract i m = (tm_transactions m ! i, set_slot i None m)"
  using assms mgr_ok_ready [of m] by (auto simp: tm_Extract_def occupied_def)

lemma tm_WithTransaction_cases:
  assumes "mgr_ok m"
  obtains (absent) "tm_WithTransaction i f m = (None, m)" "i \<notin> occupied m"
  | (present) t r t' where "i \<in> occupied m" "tm_transactions m ! i = Some t" "txn_ok i t" "f t = (r, t')"
      "tm_WithTransaction i f m = (Some r, set_slot i (Some t') m)"
proof (cases "i \<in> occupied m")
  case False
  then show thesis by (intro absent) (auto simp: tm_WithTransaction_def occupied_def split: option.splits)
next
  case True
  then obtain t where t: "tm_transactions m ! i = Some t" "i < 64" by (auto simp: occupied_def)
  obtain r t' where f: "f t = (r, t')" by fastforce
  have "tm_ready m" using True assms mgr_ok_ready by blast
  then show thesis using t f True mgr_ok_slot [OF assms t] 
    by (intro present [of t r t']) (auto simp: tm_WithTransaction_def)
qed

lemma InvokeResponseHandler_keeps:
  assumes "tk_inv s" "\<And>co s. tk_inv s \<Longrightarrow> tk_inv (cb co s)"
  shows "tk_inv (InvokeResponseHandler cb kr rc data t s)"
proof -
  have "tk_inv (s\<lparr>tk_log := l\<rparr>)" for l using assms(1) by (simp add: tk_inv_def)
  with assms show ?thesis
    by (auto simp: InvokeResponseHandler_def Let_def split: option.splits ResponseHandler.splits)
qed

section \<open>One transaction\<close>

lemma await_AR_ok [simp]:
  "txn_ok i t \<Longrightarrow> txn_ok i (await_AR a b t)"
  "tx_responseHandler (await_AR a b t) = tx_responseHandler t"
  by (auto simp: txn_ok_def await_AR_def tx_state_TransitionTo)

lemma busy_ok [simp]: "txn_ok i t \<Longrightarrow> txn_ok i (SetDeadline d (TransitionTo ATCompleted r t))"
  by (auto simp: txn_ok_def tx_state_TransitionTo)

lemma txn_ok_ackCode [simp]: "txn_ok i (t\<lparr>tx_ackCode := a\<rparr>) \<longleftrightarrow> txn_ok i t"
  by (simp add: txn_ok_def)

lemma txn_ok_fields:
  "txn_ok i t \<Longrightarrow> \<not> tx_completedByPath t" "txn_ok i t \<Longrightarrow> \<not> IsTerminalState (tx_state t)"
  "txn_ok i t \<Longrightarrow> tx_state t \<notin> {Completed, Failed, Cancelled, TimedOut}"
  "txn_ok i t \<Longrightarrow> tx_state t \<notin> {Completed, TimedOut, Failed, Cancelled}"
  "txn_ok i t \<Longrightarrow> tx_state t \<notin> {Completed, Failed, Cancelled}"
  "txn_ok i t \<Longrightarrow> tx_label t = i"
  by (auto simp: txn_ok_def IsTerminalState_def)

definition post_ok :: "nat \<Rightarrow> Transaction \<Rightarrow> ATPostResult \<times> Transaction \<Rightarrow> bool" where
  "post_ok i t r \<longleftrightarrow> tx_responseHandler (snd r) = tx_responseHandler t
     \<and> (po_action (fst r) = kNone \<longrightarrow> txn_ok i (snd r))"

lemma post_ok_Pair [simp]:
  "post_ok i t (p, t') \<longleftrightarrow> tx_responseHandler t' = tx_responseHandler t
     \<and> (po_action p = kNone \<longrightarrow> txn_ok i t')"
  by (simp add: post_ok_def)

lemma HandleAckCompletion_ok: "txn_ok i t \<Longrightarrow> post_ok i t (HandleAckCompletion now txc t)"
  using txn_ok_fields(1) [of i t] by (simp add: HandleAckCompletion_def TryMarkCompleted_def Let_def)

lemma HandleHardwareEventCompletion_ok:
  "txn_ok i t \<Longrightarrow> post_ok i t (snd (HandleHardwareEventCompletion txc t))"
  "\<not> fst (HandleHardwareEventCompletion txc t) \<Longrightarrow> snd (HandleHardwareEventCompletion txc t) = (ATPostResult0, t)"
  by (auto simp: HandleHardwareEventCompletion_def split: if_splits)

lemma at_completion_ok:
  assumes "txn_ok i t"
  shows "post_ok i t (at_completion now txc t)"
proof -
  let ?t = "t\<lparr>tx_ackCode := tc_ackCode txc\<rparr>"
  have "post_ok i ?t (snd (HandleHardwareEventCompletion txc ?t))"
      "post_ok i ?t (HandleAckCompletion now txc ?t)"
    using assms by (simp_all add: HandleHardwareEventCompletion_ok HandleAckCompletion_ok)
  then have "post_ok i t (snd (HandleHardwareEventCompletion txc ?t))"
      "post_ok i t (HandleAckCompletion now txc ?t)" by (simp_all add: post_ok_def)
  moreover have "\<not> fst (HandleHardwareEventCompletion txc ?t) \<Longrightarrow>
      snd (snd (HandleHardwareEventCompletion txc ?t)) = ?t"
    using HandleHardwareEventCompletion_ok(2) [of txc ?t] by simp
  ultimately show ?thesis using assms txn_ok_fields(4) [OF assms]
    by (cases "HandleHardwareEventCompletion txc ?t")
       (auto simp: at_completion_def Let_def simp del: insert_iff split: bool.splits)
qed

lemma extend_ok:
  assumes "txn_ok i t" "tx_retryCount t < 3"
  shows "txn_ok i (SetDeadline d (IncrementRetry t))" "unat (tx_retryCount t + 1) = unat (tx_retryCount t) + 1"
proof -
  have "unat (tx_retryCount t) < 3" using assms(2) by (simp add: word_less_nat_alt)
  then show "unat (tx_retryCount t + 1) = unat (tx_retryCount t) + 1"
    by (simp add: unat_word_ariths(1))
  then have "tx_retryCount t + 1 \<le> 3" using \<open>unat (tx_retryCount t) < 3\<close> by (simp add: word_le_nat_alt)
  then show "txn_ok i (SetDeadline d (IncrementRetry t))" using assms(1) by (simp add: txn_ok_def)
qed

lemma timeout_handlers:
  "HandleBusyTimeout now t = (False, t)
   \<or> (tx_retryCount t < 3 \<and> HandleBusyTimeout now t = (True, SetDeadline (now + 200000) (IncrementRetry t)))"
  "HandleATPostedTimeout now t = (False, t)
   \<or> (tx_retryCount t < 3 \<and> HandleATPostedTimeout now t = (True, SetDeadline (now + 250000) (IncrementRetry t)))"
  "HandleAwaitingARTimeout now t = (False, t)
   \<or> (tx_retryCount t < 3 \<and> HandleAwaitingARTimeout now t = (True, SetDeadline (now + 250000) (IncrementRetry t)))"
proof -
  have "tx_retryCount t < 2 \<Longrightarrow> tx_retryCount t < 3" by (simp add: word_less_nat_alt)
  then show "HandleATPostedTimeout now t = (False, t)
   \<or> (tx_retryCount t < 3 \<and> HandleATPostedTimeout now t = (True, SetDeadline (now + 250000) (IncrementRetry t)))"
    by (simp add: HandleATPostedTimeout_def)
qed (simp_all add: HandleBusyTimeout_def HandleAwaitingARTimeout_def not_le)

lemma timeout_txn_cases:
  "timeout_txn now t = (True, t)
   \<or> (tx_retryCount t < 3 \<and> (\<exists>d. timeout_txn now t = (False, SetDeadline d (IncrementRetry t))))"
  using timeout_handlers [where now = now and t = t] unfolding timeout_txn_def by (elim disjE) auto

lemma timeout_txn_ok:
  assumes "txn_ok i t" "timeout_txn now t = (expired, t')"
  shows "tx_responseHandler t' = tx_responseHandler t"
    "if expired then t' = t else txn_ok i t' \<and> unat (tx_retryCount t') = unat (tx_retryCount t) + 1"
proof -
  have "tx_responseHandler t' = tx_responseHandler t \<and>
    (if expired then t' = t else txn_ok i t' \<and> unat (tx_retryCount t') = unat (tx_retryCount t) + 1)"
    using timeout_txn_cases [of now t]
  proof (elim disjE conjE exE)
    fix d assume r: "tx_retryCount t < 3" "timeout_txn now t = (False, SetDeadline d (IncrementRetry t))"
    then show ?thesis using extend_ok [OF assms(1) r(1)] assms(2) by simp
  qed (use assms(2) in simp)
  then show "tx_responseHandler t' = tx_responseHandler t"
    "if expired then t' = t else txn_ok i t' \<and> unat (tx_retryCount t') = unat (tx_retryCount t) + 1" by simp_all
qed

lemma post_txn_ok: "txn_ok i t \<Longrightarrow> txn_ok i (snd (post_txn d t))"
    "tx_responseHandler (snd (post_txn d t)) = tx_responseHandler t"
  by (auto simp: post_txn_def Let_def txn_ok_def tx_state_TransitionTo)

lemma final_transitions_handler [simp]:
  "tx_responseHandler (final_transitions p t) = tx_responseHandler t"
  by (simp add: final_transitions_def split: ATPostAction.split)

lemma Finalize_eq:
  assumes "tm_ready (tk_mgr s)" "l < 64" "tm_transactions (tk_mgr s) ! l = Some t" "po_action p \<noteq> kNone"
  shows "FinalizeATPostAction cb l p s = InvokeResponseHandler cb (po_postKr p) 0xFF [] (final_transitions p t)
       (s\<lparr>tk_mgr := set_slot l None (tk_mgr s), tk_labels := la_Free l (tk_labels s)\<rparr>)"
  using assms by (simp add: FinalizeATPostAction_def tm_Extract_def)

section \<open>Registration\<close>

lemma tm_Count_0_iff: "mgr_ok m \<Longrightarrow> tm_Count m = 0 \<longleftrightarrow> occupied m = {}"
proof -
  assume m: "mgr_ok m"
  then have "filter (\<lambda>txn. txn \<noteq> None) (tm_transactions m) = [] \<longleftrightarrow> occupied m = {}"
    by (simp add: filter_empty_conv occupied_def all_set_conv_all_nth)
  then show ?thesis using mgr_ok_ready [OF m] by (auto simp: tm_Count_def)
qed

text \<open>The labels \<open>RegisterTx\<close> allocates from are the ones without a transaction.\<close>

lemma register_labels:
  assumes "tk_inv s"
  shows "la_used (if tm_Count (tk_mgr s) = 0 \<and> la_HasAnyLabelsInUse (tk_labels s)
            then la_ClearBitmap (tk_labels s) else tk_labels s) = occupied (tk_mgr s)"
  using assms by (auto simp: tk_inv_def tm_Count_0_iff la_HasAnyLabelsInUse_iff)

definition registered_txn :: "TxMetadata \<Rightarrow> nat \<Rightarrow> Transaction" where
  "registered_txn meta label =
     TransitionTo Submitted ''RegisterTx''
       ((Transaction0 label (ucast (me_generation meta)) (me_destinationNodeID meta))
         \<lparr>tx_timeoutMs := 200, tx_tCode := me_tCode meta,
          tx_completionStrategy := me_completionStrategy meta,
          tx_skipATCompletion := (me_completionStrategy meta = CompleteOnAR),
          tx_responseHandler := Some (Wrapper (me_callback meta) label)\<rparr>)"

lemma registered_txn_ok: "txn_ok label (registered_txn meta label)"
    "tx_responseHandler (registered_txn meta label) = Some (Wrapper (me_callback meta) label)"
  by (simp_all add: txn_ok_def registered_txn_def tx_state_TransitionTo Transaction0_def)

lemma RegisterTx_cases:
  assumes inv: "tk_inv s"
  obtains (fail) s' where "RegisterTx meta s = (0, s')" "tk_inv s'" "tk_log s' = tk_log s" "tk_mgr s' = tk_mgr s"
      "\<not> tk_lock s \<or> \<not> tm_ready (tk_mgr s) \<or> occupied (tk_mgr s) = {..<64}"
  | (ok) label labels where "label < 64" "label \<notin> occupied (tk_mgr s)" "tm_ready (tk_mgr s)" "tk_lock s"
      "la_used labels = insert label (occupied (tk_mgr s))"
      "RegisterTx meta s = (label + 1, s\<lparr>tk_labels := labels,
          tk_mgr := set_slot label (Some (registered_txn meta label)) (tk_mgr s)\<rparr>)"
proof (cases "tk_lock s")
  case False
  then show thesis using inv by (intro fail [of s]) (auto simp: RegisterTx_def)
next
  case lock: True
  let ?m = "tk_mgr s"
  let ?L = "if tm_Count ?m = 0 \<and> la_HasAnyLabelsInUse (tk_labels s)
            then la_ClearBitmap (tk_labels s) else tk_labels s"
  have used: "la_used ?L = occupied ?m" using inv by (rule register_labels)
  obtain label labels where alloc: "la_Allocate (\<lambda>_. None) ?L = (label, labels)" by fastforce
  note al = la_Allocate_used [OF alloc, unfolded used]
  have m: "mgr_ok ?m" using inv by (simp add: tk_inv_def)
  show thesis
  proof (cases "label = kInvalidLabel")
    case True
    then show thesis using inv lock al alloc used
      by (intro fail [of "s\<lparr>tk_labels := labels\<rparr>"]) (auto simp: RegisterTx_def Let_def tk_inv_def)
  next
    case False
    with al have l: "label < 64" "label \<notin> occupied ?m" "la_used labels = insert label (occupied ?m)" by auto
    then have slot: "tm_transactions ?m ! label = None" by (auto simp: occupied_def)
    show thesis
    proof (cases "tm_ready ?m")
      case ready: True
      have "RegisterTx meta s = (label + 1, s\<lparr>tk_labels := labels,
          tk_mgr := set_slot label (Some (registered_txn meta label)) ?m\<rparr>)"
        using lock alloc False ready l slot
        by (simp add: RegisterTx_def Let_def tm_Allocate_def registered_txn_def Transaction0_def)
      then show thesis using lock ready l by (intro ok)
    next
      case notready: False
      have "RegisterTx meta s = (0, s\<lparr>tk_labels := la_Free label labels, tk_mgr := ?m\<rparr>)"
        using lock alloc False notready by (auto simp: RegisterTx_def Let_def tm_Allocate_def)
      moreover have "tk_inv (s\<lparr>tk_labels := la_Free label labels, tk_mgr := ?m\<rparr>)"
        using inv l by (auto simp: tk_inv_def)
      ultimately show thesis using notready by (intro fail [of "s\<lparr>tk_labels := la_Free label labels, tk_mgr := ?m\<rparr>"]) simp_all
    qed
  qed
qed

lemma RegisterTx_inv: "tk_inv s \<Longrightarrow> tk_inv (snd (RegisterTx meta s))"
proof -
  assume inv: "tk_inv s"
  then show ?thesis
  proof (cases rule: RegisterTx_cases [where meta = meta])
    case (ok label labels)
    then show ?thesis using inv registered_txn_ok(1) [of label meta]
      by (auto simp: tk_inv_def mgr_ok_set_slot occupied_set_slot)
  qed simp
qed

section \<open>Completion in one step\<close>

lemma InvokeResponseHandler_cong:
  "tx_responseHandler t' = tx_responseHandler t \<Longrightarrow>
     InvokeResponseHandler cb kr rc data t' s = InvokeResponseHandler cb kr rc data t s"
  by (simp add: InvokeResponseHandler_def)

definition finished :: "nat \<Rightarrow> Track_Tracking \<Rightarrow> Track_Tracking" where
  "finished l s = s\<lparr>tk_mgr := set_slot l None (tk_mgr s), tk_labels := la_Free l (tk_labels s)\<rparr>"

lemma tm_FindByMatchKey_Some:
  "tm_FindByMatchKey key m = Some t \<longleftrightarrow>
     tm_ready m \<and> mk_label key < 64 \<and> tm_transactions m ! mk_label key = Some t
     \<and> tx_generation t = mk_generation key \<and> NodeIDsEquivalent (tx_nodeID t) (mk_node key)"
  by (auto simp: tm_FindByMatchKey_def split: option.splits)

lemma OnARResponse_eq:
  assumes "tk_inv s"
  shows "OnARResponse cb key rc data s =
    (case tm_FindByMatchKey key (tk_mgr s) of
       None \<Rightarrow> s
     | Some t \<Rightarrow> InvokeResponseHandler cb (if rc = 0 then kIOReturnSuccess else kIOReturnError) rc data t
                  (finished (mk_label key) s))"
proof (cases "tm_FindByMatchKey key (tk_mgr s)")
  case None
  then show ?thesis by (simp add: OnARResponse_def)
next
  case (Some t)
  have m: "mgr_ok (tk_mgr s)" using assms by (simp add: tk_inv_def)
  from Some have l: "tm_ready (tk_mgr s)" "mk_label key < 64" "tm_transactions (tk_mgr s) ! mk_label key = Some t"
    by (simp_all add: tm_FindByMatchKey_Some)
  have t: "txn_ok (mk_label key) t" using mgr_ok_slot [OF m l(3,2)] .
  let ?t1 = "t\<lparr>tx_completedByPath := True\<rparr>"
  let ?t2 = "TransitionTo ARReceived ''OnARResponse'' ?t1"
  let ?t3 = "if tx_state ?t2 \<notin> {Completed, Failed, Cancelled, TimedOut}
             then TransitionTo Completed ''OnARResponse'' ?t2 else ?t2"
  have "OnARResponse cb key rc data s =
      InvokeResponseHandler cb (if rc = 0 then kIOReturnSuccess else kIOReturnError) rc data ?t3
        (finished (mk_label key) s)"
    using Some l m txn_ok_fields(1) [OF t] txn_ok_fields(3) [OF t]
    by (simp add: OnARResponse_def TryMarkCompleted_def tm_Extract_def Let_def finished_def)
  also have "tx_responseHandler ?t3 = tx_responseHandler t" by simp
  note InvokeResponseHandler_cong [OF this]
  finally show ?thesis using Some by simp
qed

lemma OnTimeout_eq:
  assumes "tk_inv s"
  shows "OnTimeout cb now l s =
    (if l \<notin> occupied (tk_mgr s) then s
     else let t = the (tm_transactions (tk_mgr s) ! l) in
          if fst (timeout_txn now t) then InvokeResponseHandler cb kIOReturnTimeout 0xFF [] t (finished l s)
          else s\<lparr>tk_mgr := set_slot l (Some (snd (timeout_txn now t))) (tk_mgr s)\<rparr>)"
proof -
  have m: "mgr_ok (tk_mgr s)" using assms by (simp add: tk_inv_def)
  then show ?thesis
  proof (cases rule: tm_WithTransaction_cases [where i = l and f = "timeout_txn now"])
    case absent
    then show ?thesis by (simp add: OnTimeout_def)
  next
    case (present t expired t')
    have l: "l < 64" "tm_ready (tk_mgr s)" using present(1) mgr_ok_ready [OF m] by (auto simp: occupied_def)
    show ?thesis
    proof (cases expired)
      case True
      then have "t' = t" using timeout_txn_ok(2) [OF present(3,4)] by simp
      moreover have "InvokeResponseHandler cb kIOReturnTimeout 0xFF [] (TransitionTo TimedOut ''OnTimeout'' t) s'
          = InvokeResponseHandler cb kIOReturnTimeout 0xFF [] t s'" for s' :: Track_Tracking
        by (rule InvokeResponseHandler_cong) simp
      ultimately show ?thesis using True present l m
        by (simp add: OnTimeout_def tm_Extract_def finished_def)
    next
      case False
      then show ?thesis using present l m by (simp add: OnTimeout_def)
    qed
  qed
qed

section \<open>Completion: the contract of a client\<close>

text \<open>
  A client whose callbacks leave the tracking state in order, whatever they do to it. Completion by
  acknowledgement, response or timeout then keeps the invariant, since the label is freed and the slot
  emptied before the callback runs.
\<close>

locale tracking_client =
  fixes cb :: client
  assumes cb_keeps: "tk_inv s \<Longrightarrow> tk_inv (cb co s)"
begin

lemma invoke_inv: "tk_inv s \<Longrightarrow> tk_inv (InvokeResponseHandler cb kr rc data t s)"
  using InvokeResponseHandler_keeps cb_keeps by blast

lemma Finalize_inv:
  assumes "tk_inv (s\<lparr>tk_mgr := set_slot l (Some t) (tk_mgr s)\<rparr>)" "l \<in> occupied (tk_mgr s)"
    "po_action p \<noteq> kNone"
  shows "tk_inv (FinalizeATPostAction cb l p (s\<lparr>tk_mgr := set_slot l (Some t') (tk_mgr s)\<rparr>))"
proof -
  let ?s = "s\<lparr>tk_mgr := set_slot l (Some t) (tk_mgr s)\<rparr>"
  let ?f = "s\<lparr>tk_mgr := set_slot l None (tk_mgr s), tk_labels := la_Free l (tk_labels s)\<rparr>"
  let ?s' = "s\<lparr>tk_mgr := set_slot l (Some t') (tk_mgr s)\<rparr>"
  have l: "l < 64" "mgr_ok (tk_mgr ?s)" "l \<in> occupied (tk_mgr ?s)"
    using assms(1,2) by (auto simp: tk_inv_def occupied_def mgr_ok_def)
  have "tm_ready (tk_mgr ?s')" using l mgr_ok_ready [of "tk_mgr ?s"] by auto
  moreover have "tm_transactions (tk_mgr ?s') ! l = Some t'" using l(1,2) by (simp add: mgr_ok_def)
  ultimately have "FinalizeATPostAction cb l p ?s'
      = InvokeResponseHandler cb (po_postKr p) 0xFF [] (final_transitions p t') ?f"
    using l(1) assms(3) by (simp add: Finalize_eq)
  moreover have "tk_inv ?f" using tk_inv_finish [OF assms(1) l(3)] by simp
  ultimately show ?thesis by (simp add: invoke_inv)
qed

lemma OnATCompletion_inv:
  assumes inv: "tk_inv s"
  shows "tk_inv (OnATCompletion cb now c s)"
proof (cases "tc_isResponseContext c")
  case False
  let ?c = "c\<lparr>tc_ackCode := NormalizeAckFromEvent (tc_eventCode c) (tc_ackCode c)\<rparr>"
  have m: "mgr_ok (tk_mgr s)" using inv by (simp add: tk_inv_def)
  from m show ?thesis
  proof (cases rule: tm_WithTransaction_cases [where i = "tc_tLabel c" and f = "at_completion now ?c"])
    case absent
    then show ?thesis using inv False by (simp add: OnATCompletion_def Let_def FinalizeATPostAction_def ATPostResult0_def)
  next
    case (present t p t')
    have post: "post_ok (tc_tLabel c) t (p, t')" using at_completion_ok [OF present(3), of now ?c] present(4) by simp
    show ?thesis
    proof (cases "po_action p = kNone")
      case True
      then have "tk_inv (s\<lparr>tk_mgr := set_slot (tc_tLabel c) (Some t') (tk_mgr s)\<rparr>)"
        using tk_inv_update [OF inv present(1)] post by simp
      then show ?thesis using True False present(5)
        by (simp add: OnATCompletion_def Let_def FinalizeATPostAction_def)
    next
      case act: False
      have "tk_inv (s\<lparr>tk_mgr := set_slot (tc_tLabel c) (Some t) (tk_mgr s)\<rparr>)"
        using tk_inv_update [OF inv present(1,3)] .
      from Finalize_inv [OF this present(1) act, of t'] show ?thesis using False present(5)
        by (simp add: OnATCompletion_def Let_def)
    qed
  qed
qed (use inv in \<open>simp add: OnATCompletion_def Let_def\<close>)

lemma OnTimeout_inv:
  assumes inv: "tk_inv s"
  shows "tk_inv (OnTimeout cb now l s)"
proof (cases "l \<in> occupied (tk_mgr s)")
  case True
  have m: "mgr_ok (tk_mgr s)" using inv by (simp add: tk_inv_def)
  obtain t where t: "tm_transactions (tk_mgr s) ! l = Some t" "txn_ok l t"
    using True mgr_ok_slot [OF m] by (auto simp: occupied_def)
  have "\<not> fst (timeout_txn now t) \<Longrightarrow> txn_ok l (snd (timeout_txn now t))"
    using timeout_txn_ok(2) [OF t(2), of now] by (cases "timeout_txn now t") auto
  then show ?thesis using inv True t tk_inv_update [OF inv True] tk_inv_finish [OF inv True]
    by (simp add: OnTimeout_eq Let_def finished_def invoke_inv)
qed (use inv in \<open>simp add: OnTimeout_eq\<close>)

lemma OnARResponse_inv:
  assumes inv: "tk_inv s"
  shows "tk_inv (OnARResponse cb key rc data s)"
proof (cases "tm_FindByMatchKey key (tk_mgr s)")
  case (Some t)
  then have "mk_label key \<in> occupied (tk_mgr s)" by (auto simp: tm_FindByMatchKey_Some occupied_def)
  from tk_inv_finish [OF inv this] show ?thesis
    using inv Some by (simp add: OnARResponse_eq finished_def invoke_inv)
qed (use inv in \<open>simp add: OnARResponse_eq\<close>)

lemma OnRxResponse_inv: "tk_inv s \<Longrightarrow> tk_inv (OnRxResponse cb r s)"
  by (simp add: OnRxResponse_def OnARResponse_inv)

lemma OnTimeoutTick_inv: "tk_inv s \<Longrightarrow> tk_inv (OnTimeoutTick cb NowUs now s)"
proof -
  have "tk_inv s \<Longrightarrow> tk_inv (fold (\<lambda>l. OnTimeout cb (NowUs l) l) ls s)" for ls
    by (induction ls arbitrary: s) (simp_all add: OnTimeout_inv)
  then show "tk_inv s \<Longrightarrow> tk_inv (OnTimeoutTick cb NowUs now s)" by (simp add: OnTimeoutTick_def Let_def)
qed

end

text \<open>
  The client that does nothing but note the completion, and the client that registers a new
  transaction from its callback, as the retry loops of the driver do.
\<close>

definition quiet :: client where
  "quiet co s = s"

definition resubmit :: "(Completion \<Rightarrow> TxMetadata) \<Rightarrow> client" where
  "resubmit metaOf co s = snd (RegisterTx (metaOf co) s)"

interpretation quiet: tracking_client quiet
  by unfold_locales (simp add: quiet_def)

interpretation resubmit: tracking_client "resubmit metaOf" for metaOf
  by unfold_locales (simp add: resubmit_def RegisterTx_inv)

section \<open>The other operations\<close>

lemma OnTxPosted_inv:
  assumes inv: "tk_inv s"
  shows "tk_inv (OnTxPosted h now timeout s)"
proof -
  have m: "mgr_ok (tk_mgr s)" using inv by (simp add: tk_inv_def)
  then show ?thesis
  proof (cases rule: tm_WithTransaction_cases [where i = "h - 1" and f = "post_txn (now + timeout)"])
    case (present t r t')
    then have "txn_ok (h - 1) t'" using post_txn_ok(1) [of "h - 1" t "now + timeout"] by simp
    from tk_inv_update [OF inv present(1) this] show ?thesis
      using inv present(5) by (simp add: OnTxPosted_def)
  qed (use inv in \<open>simp add: OnTxPosted_def\<close>)
qed

lemma cancel_victim_eq:
  assumes inv: "tk_inv s"
  shows "cancel_victim quiet r l s =
    (if l \<notin> occupied (tk_mgr s) then s
     else InvokeResponseHandler quiet kIOReturnAborted 0xFF [] (the (tm_transactions (tk_mgr s) ! l)) (finished l s))"
proof (cases "l \<in> occupied (tk_mgr s)")
  case True
  have m: "mgr_ok (tk_mgr s)" using inv by (simp add: tk_inv_def)
  obtain t where t: "tm_transactions (tk_mgr s) ! l = Some t" "txn_ok l t"
    using True mgr_ok_slot [OF m] by (auto simp: occupied_def)
  have "InvokeResponseHandler quiet kIOReturnAborted 0xFF [] (TransitionTo Cancelled r t) s'
      = InvokeResponseHandler quiet kIOReturnAborted 0xFF [] t s'" for s' :: Track_Tracking
    by (rule InvokeResponseHandler_cong) simp
  then show ?thesis using t True tm_Extract_occupied [OF m True] txn_ok_fields(2) [OF t(2)]
    by (simp add: cancel_victim_def finished_def InvokeResponseHandler_def quiet_def Let_def
        split: option.split ResponseHandler.split)
next
  case False
  have m: "mgr_ok (tk_mgr s)" using inv by (simp add: tk_inv_def)
  have "tm_Extract l (tk_mgr s) = (None, tk_mgr s)"
  proof (cases "tm_ready (tk_mgr s) \<and> l < 64")
    case True
    then have "tm_transactions (tk_mgr s) ! l = None" using False by (simp add: occupied_def)
    moreover from this have "(tm_transactions (tk_mgr s))[l := None] = tm_transactions (tk_mgr s)"
      by (metis list_update_id)
    ultimately show ?thesis using True by (simp add: tm_Extract_def)
  qed (auto simp: tm_Extract_def)
  then show ?thesis using False by (simp add: cancel_victim_def)
qed

lemma cancel_victim_inv: "tk_inv s \<Longrightarrow> tk_inv (cancel_victim quiet r l s)"
  using tk_inv_finish [of s l] by (auto simp: cancel_victim_eq finished_def intro!: quiet.invoke_inv)

lemma cancel_victims_inv: "tk_inv s \<Longrightarrow> tk_inv (fold (cancel_victim quiet r) ls s)"
  by (induction ls arbitrary: s) (simp_all add: cancel_victim_inv)

end
