(* ===== verification/Async_Tracking_Account.thy ===== *)
theory Async_Tracking_Account
  imports Async_Tracking_Inv
begin

text \<open>
  Every registered callback is accounted for: it is either still owed by a transaction in the table or
  it has been invoked, exactly once. The events of the actor and its runs.
\<close>

section \<open>Accounting for callbacks\<close>

text \<open>The callbacks still owed to clients, and those invoked.\<close>

definition callbacks_of :: "Transaction option \<Rightarrow> nat multiset" where
  "callbacks_of x = (case x of
       Some t \<Rightarrow> (case tx_responseHandler t of Some (Wrapper (Some c) _) \<Rightarrow> {#c#} | _ \<Rightarrow> {#})
     | None \<Rightarrow> {#})"

definition pending :: "TransactionManager \<Rightarrow> nat multiset" where
  "pending m = (\<Sum>i<64. callbacks_of (tm_transactions m ! i))"

definition invoked :: "Track_Tracking \<Rightarrow> nat multiset" where
  "invoked s = image_mset co_callback (mset (tk_log s))"

abbreviation account :: "Track_Tracking \<Rightarrow> nat multiset" where
  "account s \<equiv> pending (tk_mgr s) + invoked s"

lemma callbacks_of_None [simp]: "callbacks_of None = {#}"
  by (simp add: callbacks_of_def)

lemma callbacks_of_cong: "tx_responseHandler t' = tx_responseHandler t \<Longrightarrow> callbacks_of (Some t') = callbacks_of (Some t)"
  by (simp add: callbacks_of_def)

lemma pending_set_slot:
  assumes "length (tm_transactions m) = 64" "i < 64"
  shows "pending (set_slot i x m) + callbacks_of (tm_transactions m ! i) = pending m + callbacks_of x"
proof -
  have i: "i \<in> {..<64}" using assms(2) by simp
  have "(\<Sum>j\<in>{..<64} - {i}. callbacks_of ((tm_transactions m)[i := x] ! j))
      = (\<Sum>j\<in>{..<64} - {i}. callbacks_of (tm_transactions m ! j))"
    by (rule sum.cong) auto
  then show ?thesis using assms
    by (simp add: pending_def sum.remove [OF _ i] nth_list_update)
qed

lemma pending_set_slot_same:
  assumes "length (tm_transactions m) = 64" "i < 64" "callbacks_of (tm_transactions m ! i) = callbacks_of x"
  shows "pending (set_slot i x m) = pending m"
  using pending_set_slot [OF assms(1,2), of x] assms(3) by simp

lemma invoked_update [simp]:
  "invoked (s\<lparr>tk_mgr := m\<rparr>) = invoked s" "invoked (s\<lparr>tk_labels := a\<rparr>) = invoked s"
  by (simp_all add: invoked_def)

lemma Invoke_quiet [simp]:
  "invoked (InvokeResponseHandler quiet kr rc data t s) = invoked s + callbacks_of (Some t)"
  "tk_mgr (InvokeResponseHandler quiet kr rc data t s) = tk_mgr s"
  "tk_labels (InvokeResponseHandler quiet kr rc data t s) = tk_labels s"
  "tk_lock (InvokeResponseHandler quiet kr rc data t s) = tk_lock s"
  by (simp_all add: InvokeResponseHandler_def callbacks_of_def invoked_def quiet_def Let_def
      split: option.split ResponseHandler.split)

lemma account_finish:
  assumes "length (tm_transactions (tk_mgr s)) = 64" "l < 64" "tm_transactions (tk_mgr s) ! l = Some t"
    "tx_responseHandler t' = tx_responseHandler t"
  shows "account (InvokeResponseHandler quiet kr rc data t' (finished l s)) = account s"
proof -
  have p: "pending (tk_mgr s) = pending (set_slot l None (tk_mgr s)) + callbacks_of (Some t)"
    using pending_set_slot [OF assms(1,2), of None] assms(3) by simp
  show ?thesis using callbacks_of_cong [OF assms(4)] by (simp add: finished_def p ac_simps)
qed

lemma account_register:
  assumes "tk_inv s"
  shows "account (snd (RegisterTx meta s)) =
    account s + (if fst (RegisterTx meta s) = 0 then {#} else mset_set (set_option (me_callback meta)))"
  using assms
proof (cases rule: RegisterTx_cases [where meta = meta])
  case (fail s')
  then show ?thesis by (simp add: invoked_def)
next
  case (ok label labels)
  have m: "length (tm_transactions (tk_mgr s)) = 64" using assms by (simp add: tk_inv_def)
  have "tm_transactions (tk_mgr s) ! label = None" using ok(1,2) by (simp add: occupied_def)
  moreover have "callbacks_of (Some (registered_txn meta label)) = mset_set (set_option (me_callback meta))"
    using registered_txn_ok(2) [of meta label] by (cases "me_callback meta") (simp_all add: callbacks_of_def)
  ultimately show ?thesis using pending_set_slot [OF m ok(1), of "Some (registered_txn meta label)"] ok(6)
    by (simp add: invoked_def)
qed

lemma account_OnTxPosted: "tk_inv s \<Longrightarrow> account (OnTxPosted h now timeout s) = account s"
proof -
  assume inv: "tk_inv s"
  then have m: "mgr_ok (tk_mgr s)" by (simp add: tk_inv_def)
  then show ?thesis
  proof (cases rule: tm_WithTransaction_cases [where i = "h - 1" and f = "post_txn (now + timeout)"])
    case (present t r t')
    then have "callbacks_of (Some t') = callbacks_of (Some t)"
      using post_txn_ok(2) [of "now + timeout" t] by (intro callbacks_of_cong) simp
    then have "pending (set_slot (h - 1) (Some t') (tk_mgr s)) = pending (tk_mgr s)"
      using m present(1,2) by (intro pending_set_slot_same) (auto simp: occupied_def)
    then show ?thesis using present(5) by (simp add: OnTxPosted_def invoked_def)
  qed (simp add: OnTxPosted_def)
qed

lemma account_OnTimeout:
  assumes "tk_inv s"
  shows "account (OnTimeout quiet now l s) = account s"
proof (cases "l \<in> occupied (tk_mgr s)")
  case True
  have m: "mgr_ok (tk_mgr s)" using assms by (simp add: tk_inv_def)
  obtain t where t: "tm_transactions (tk_mgr s) ! l = Some t" "l < 64" "txn_ok l t"
    using True mgr_ok_slot [OF m] by (auto simp: occupied_def)
  obtain e t' where e: "timeout_txn now t = (e, t')" by fastforce
  have "pending (set_slot l (Some t') (tk_mgr s)) = pending (tk_mgr s)"
    using m t callbacks_of_cong [OF timeout_txn_ok(1) [OF t(3) e]] by (intro pending_set_slot_same) auto
  then show ?thesis using True t e m account_finish [OF _ t(2,1), of t]
    by (simp add: OnTimeout_eq [OF assms] invoked_def)
qed (simp add: OnTimeout_eq [OF assms])

lemma account_OnTimeoutTick: "tk_inv s \<Longrightarrow> account (OnTimeoutTick quiet NowUs now s) = account s"
proof -
  have "tk_inv s \<Longrightarrow> account (fold (\<lambda>l. OnTimeout quiet (NowUs l) l) ls s) = account s" for ls
    by (induction ls arbitrary: s) (simp_all add: account_OnTimeout quiet.OnTimeout_inv)
  then show "tk_inv s \<Longrightarrow> account (OnTimeoutTick quiet NowUs now s) = account s"
    by (simp add: OnTimeoutTick_def Let_def)
qed

lemma account_OnARResponse:
  assumes "tk_inv s"
  shows "account (OnARResponse quiet key rc data s) = account s"
proof (cases "tm_FindByMatchKey key (tk_mgr s)")
  case (Some t)
  then have "mk_label key < 64" "tm_transactions (tk_mgr s) ! mk_label key = Some t"
      "length (tm_transactions (tk_mgr s)) = 64"
    using assms by (simp_all add: tm_FindByMatchKey_Some tk_inv_def)
  then show ?thesis using Some account_finish [of s "mk_label key" t t] by (simp add: OnARResponse_eq [OF assms])
qed (simp add: OnARResponse_eq [OF assms])

lemma account_OnATCompletion:
  assumes inv: "tk_inv s"
  shows "account (OnATCompletion quiet now c s) = account s"
proof (cases "tc_isResponseContext c")
  case False
  let ?c = "c\<lparr>tc_ackCode := NormalizeAckFromEvent (tc_eventCode c) (tc_ackCode c)\<rparr>" and ?l = "tc_tLabel c"
  have m: "mgr_ok (tk_mgr s)" using inv by (simp add: tk_inv_def)
  then show ?thesis
  proof (cases rule: tm_WithTransaction_cases [where i = ?l and f = "at_completion now ?c"])
    case absent
    then show ?thesis using False by (simp add: OnATCompletion_def Let_def FinalizeATPostAction_def ATPostResult0_def)
  next
    case (present t p t')
    let ?s = "s\<lparr>tk_mgr := set_slot ?l (Some t') (tk_mgr s)\<rparr>"
    have h: "tx_responseHandler t' = tx_responseHandler t"
      using at_completion_ok [OF present(3), of now ?c] present(4) by simp
    have l: "?l < 64" "tm_ready (tk_mgr s)" using present(1) mgr_ok_ready [OF m] by (auto simp: occupied_def)
    have slot: "tm_transactions (tk_mgr ?s) ! ?l = Some t'" using l m by simp
    have acc: "account ?s = account s"
      using m l present(2) callbacks_of_cong [OF h] by (simp add: pending_set_slot_same invoked_def)
    have "account (FinalizeATPostAction quiet ?l p ?s) = account ?s"
    proof (cases "po_action p = kNone")
      case act: False
      have "FinalizeATPostAction quiet ?l p ?s =
          InvokeResponseHandler quiet (po_postKr p) 0xFF [] (final_transitions p t') (finished ?l ?s)"
        using Finalize_eq [of ?s ?l t' p quiet] l slot act by (simp add: finished_def)
      then show ?thesis using account_finish [of ?s ?l t' "final_transitions p t'"] l slot m by simp
    qed (simp add: FinalizeATPostAction_def)
    then show ?thesis using False present(5) acc by (simp add: OnATCompletion_def Let_def)
  qed
qed (simp add: OnATCompletion_def Let_def)

lemma account_cancel:
  assumes "tk_inv s"
  shows "account (fold (cancel_victim quiet r) ls s) = account s"
  using assms
proof (induction ls arbitrary: s)
  case (Cons l ls)
  have "account (cancel_victim quiet r l s) = account s"
  proof (cases "l \<in> occupied (tk_mgr s)")
    case True
    then show ?thesis using Cons.prems account_finish [of s l]
      by (auto simp: cancel_victim_eq occupied_def tk_inv_def)
  qed (simp add: cancel_victim_eq [OF Cons.prems])
  then show ?case using Cons by (simp add: cancel_victim_inv)
qed simp

section \<open>Shutting the manager down\<close>

lemma cancel_slot_quiet:
  "tk_labels (cancel_slot quiet i s) = tk_labels s" "tk_lock (cancel_slot quiet i s) = tk_lock s"
  "length (tm_transactions (tk_mgr (cancel_slot quiet i s))) = length (tm_transactions (tk_mgr s))"
  "tm_lock (tk_mgr (cancel_slot quiet i s)) = tm_lock (tk_mgr s)"
  "tm_initialized (tk_mgr (cancel_slot quiet i s)) = tm_initialized (tk_mgr s)"
  "j \<noteq> i \<Longrightarrow> tm_transactions (tk_mgr (cancel_slot quiet i s)) ! j = tm_transactions (tk_mgr s) ! j"
  "case_option True (txn_ok i) (tm_transactions (tk_mgr s) ! i) \<Longrightarrow>
     invoked (cancel_slot quiet i s) = invoked s + callbacks_of (tm_transactions (tk_mgr s) ! i)"
proof -
  assume "case_option True (txn_ok i) (tm_transactions (tk_mgr s) ! i)"
  then show "invoked (cancel_slot quiet i s) = invoked s + callbacks_of (tm_transactions (tk_mgr s) ! i)"
    using txn_ok_fields(5) [of i] callbacks_of_cong [of "TransitionTo Cancelled r t" t for r t]
    by (auto simp: cancel_slot_def Let_def split: option.splits)
qed (simp_all add: cancel_slot_def Let_def split: option.split)

lemma cancel_slots_quiet:
  assumes "distinct is" "list_all (\<lambda>i. case_option True (txn_ok i) (tm_transactions (tk_mgr s) ! i)) is"
  shows "tk_labels (fold (cancel_slot quiet) is s) = tk_labels s
    \<and> tk_lock (fold (cancel_slot quiet) is s) = tk_lock s
    \<and> length (tm_transactions (tk_mgr (fold (cancel_slot quiet) is s))) = length (tm_transactions (tk_mgr s))
    \<and> invoked (fold (cancel_slot quiet) is s)
        = invoked s + (\<Sum>i\<in>set is. callbacks_of (tm_transactions (tk_mgr s) ! i))"
  using assms
proof (induction "is" arbitrary: s)
  case (Cons i ks)
  let ?s = "cancel_slot quiet i s"
  have same: "tm_transactions (tk_mgr ?s) ! j = tm_transactions (tk_mgr s) ! j" if "j \<in> set ks" for j
    using Cons.prems(1) that by (intro cancel_slot_quiet(6)) auto
  then have "list_all (\<lambda>i. case_option True (txn_ok i) (tm_transactions (tk_mgr ?s) ! i)) ks"
    using Cons.prems(2) by (simp add: list_all_iff)
  note IH = Cons.IH [OF _ this]
  have "(\<Sum>i\<in>set ks. callbacks_of (tm_transactions (tk_mgr ?s) ! i))
      = (\<Sum>i\<in>set ks. callbacks_of (tm_transactions (tk_mgr s) ! i))"
    using same by (intro sum.cong) auto
  then show ?case using IH Cons.prems cancel_slot_quiet(1,2,3) cancel_slot_quiet(7) [of i s]
    by (simp add: ac_simps)
qed simp

lemma tm_CancelAll_quiet:
  assumes "tk_inv s"
  shows "tk_labels (tm_CancelAll quiet s) = tk_labels s \<and> tk_lock (tm_CancelAll quiet s) = tk_lock s
    \<and> tm_transactions (tk_mgr (tm_CancelAll quiet s)) = replicate 64 None
    \<and> account (tm_CancelAll quiet s) = account s"
proof (cases "tm_ready (tk_mgr s)")
  case True
  let ?f = "fold (cancel_slot quiet) [0..<64] s"
  have m: "mgr_ok (tk_mgr s)" using assms by (simp add: tk_inv_def)
  have "list_all (\<lambda>i. case_option True (txn_ok i) (tm_transactions (tk_mgr s) ! i)) [0..<64]"
    using m by (simp add: mgr_ok_def list_all_iff)
  from cancel_slots_quiet [OF _ this]
  have f: "tk_labels ?f = tk_labels s" "tk_lock ?f = tk_lock s" "length (tm_transactions (tk_mgr ?f)) = 64"
    "invoked ?f = invoked s + pending (tk_mgr s)" using m by (simp_all add: pending_def atLeast0LessThan)
  have "pending (t\<lparr>tm_transactions := replicate 64 None\<rparr>) = {#}" for t :: TransactionManager
    by (simp add: pending_def)
  then show ?thesis using f True by (simp add: tm_CancelAll_def Let_def map_replicate_const ac_simps)
next
  case False
  have m: "mgr_ok (tk_mgr s)" using assms by (simp add: tk_inv_def)
  have "occupied (tk_mgr s) = {}" using False mgr_ok_ready [OF m] by blast
  then have "tm_transactions (tk_mgr s) = replicate 64 None"
    using m by (intro nth_equalityI) (auto simp: occupied_def)
  then show ?thesis using False by (auto simp: tm_CancelAll_def)
qed

lemma mgr_ok_empty: "tm_transactions m = replicate 64 None \<Longrightarrow> tm_initialized m \<longrightarrow> tm_lock m \<Longrightarrow> mgr_ok m \<and> occupied m = {}"
  by (auto simp: mgr_ok_def occupied_def)

lemma tm_Shutdown_quiet:
  assumes "tk_inv s"
  shows "tk_inv (tm_Shutdown quiet s)" "account (tm_Shutdown quiet s) = account s"
proof -
  let ?c = "tm_CancelAll quiet s"
  note c = tm_CancelAll_quiet [OF assms]
  have "mgr_ok ((tk_mgr ?c)\<lparr>tm_lock := False, tm_initialized := False\<rparr>) \<and>
      occupied ((tk_mgr ?c)\<lparr>tm_lock := False, tm_initialized := False\<rparr>) = {}"
    using c by (intro mgr_ok_empty) simp_all
  then show "tk_inv (tm_Shutdown quiet s)" using assms by (simp add: tm_Shutdown_def Let_def tk_inv_def)
  have "pending ((tk_mgr ?c)\<lparr>tm_lock := False, tm_initialized := False\<rparr>) = pending (tk_mgr ?c)"
    by (simp add: pending_def)
  then show "account (tm_Shutdown quiet s) = account s" using c by (simp add: tm_Shutdown_def Let_def)
qed

lemma tm_Initialize_quiet:
  assumes "tk_inv s"
  shows "tk_inv (s\<lparr>tk_mgr := snd (tm_Initialize b (tk_mgr s))\<rparr>)"
    "pending (snd (tm_Initialize b (tk_mgr s))) = pending (tk_mgr s)"
proof -
  have m: "mgr_ok (tk_mgr s)" using assms by (simp add: tk_inv_def)
  have empty: "tm_transactions (tk_mgr s) = replicate 64 None" if "\<not> tm_initialized (tk_mgr s)"
    using m that by (intro nth_equalityI) (auto simp: occupied_def mgr_ok_def)
  show "tk_inv (s\<lparr>tk_mgr := snd (tm_Initialize b (tk_mgr s))\<rparr>)"
  proof (cases "tm_initialized (tk_mgr s)")
    case False
    then have "mgr_ok (snd (tm_Initialize b (tk_mgr s))) \<and> occupied (snd (tm_Initialize b (tk_mgr s))) = {}"
      using empty by (intro mgr_ok_empty) (simp_all add: tm_Initialize_def map_replicate_const)
    then show ?thesis using assms by (simp add: tk_inv_def)
  qed (use assms in \<open>simp add: tm_Initialize_def\<close>)
  show "pending (snd (tm_Initialize b (tk_mgr s))) = pending (tk_mgr s)"
    using empty by (simp add: tm_Initialize_def pending_def map_replicate_const)
qed

section \<open>Runs\<close>

text \<open>
  The events the actor sees, in any order: registrations, posting of descriptors, acknowledgements,
  response packets, timer ticks, bus resets, and the manager going down and up. A tick comes with the
  clock as it reads while each expired label is handled.
\<close>

datatype tk_event = EvRegister TxMetadata | EvPosted nat u64 u64 | EvATCompletion u64 TxCompletion
  | EvRxResponse RxResponse | EvTick "nat \<Rightarrow> u64" u64 | EvCancelGeneration u16 | EvCancelAll
  | EvShutdown | EvInitialize bool

fun tk_step :: "tk_event \<Rightarrow> Track_Tracking \<Rightarrow> Track_Tracking" where
  "tk_step (EvRegister meta) s = snd (RegisterTx meta s)"
| "tk_step (EvPosted handle now timeout) s = OnTxPosted handle now timeout s"
| "tk_step (EvATCompletion now c) s = OnATCompletion quiet now c s"
| "tk_step (EvRxResponse r) s = OnRxResponse quiet r s"
| "tk_step (EvTick NowUs now) s = OnTimeoutTick quiet NowUs now s"
| "tk_step (EvCancelGeneration gen) s = CancelByGeneration quiet gen s"
| "tk_step EvCancelAll s = CancelAllAndFreeLabels quiet s"
| "tk_step EvShutdown s = tm_Shutdown quiet s"
| "tk_step (EvInitialize b) s = s\<lparr>tk_mgr := snd (tm_Initialize b (tk_mgr s))\<rparr>"

definition Track_Tracking0 :: "bool \<Rightarrow> Track_Tracking" where
  "Track_Tracking0 lockAllocated =
     \<lparr>tk_labels = LabelAllocator0, tk_mgr = TransactionManager0, tk_lock = lockAllocated, tk_log = []\<rparr>"

fun registered :: "tk_event list \<Rightarrow> Track_Tracking \<Rightarrow> nat multiset" where
  "registered [] s = {#}"
| "registered (e # es) s =
     (case e of
        EvRegister meta \<Rightarrow> (if fst (RegisterTx meta s) = 0 then {#} else mset_set (set_option (me_callback meta)))
      | _ \<Rightarrow> {#}) + registered es (tk_step e s)"

lemma tk_step_inv: "tk_inv s \<Longrightarrow> tk_inv (tk_step e s)"
  by (cases e) (simp_all add: RegisterTx_inv OnTxPosted_inv quiet.OnATCompletion_inv quiet.OnRxResponse_inv
      quiet.OnTimeoutTick_inv CancelByGeneration_def CancelAllAndFreeLabels_def cancel_victims_inv
      tm_Shutdown_quiet tm_Initialize_quiet)

lemma tk_step_account:
  "tk_inv s \<Longrightarrow> account (tk_step e s) = account s + registered [e] s"
  by (cases e) (simp_all add: account_register account_OnTxPosted account_OnATCompletion account_OnARResponse
      OnRxResponse_def account_OnTimeoutTick CancelByGeneration_def CancelAllAndFreeLabels_def account_cancel
      tm_Shutdown_quiet tm_Initialize_quiet)

lemma tk_inv_0: "tk_inv (Track_Tracking0 b)"
  by (auto simp: tk_inv_def Track_Tracking0_def TransactionManager0_def mgr_ok_def occupied_def)

lemma tk_run_inv: "tk_inv s \<Longrightarrow> tk_inv (fold tk_step es s)"
  by (induction es arbitrary: s) (simp_all add: tk_step_inv)

lemma tk_run_account: "tk_inv s \<Longrightarrow> account (fold tk_step es s) = account s + registered es s"
proof (induction es arbitrary: s)
  case (Cons e es)
  then show ?case using tk_step_account [OF Cons.prems, of e] by (simp add: tk_step_inv ac_simps)
qed simp

end
