(* ===== verification/Wire_Cip.thy ===== *)
theory Wire_Cip
  imports Phy_Packets
begin

text \<open>
  The headers and sample quadlets of an audio stream: \<^verbatim>\<open>Audio/Wire/IEC61883/CipHeader.cpp\<close> (building),
  \<^verbatim>\<open>Audio/Wire/CIP/CIPHeader.hpp\<close> (decoding), \<^verbatim>\<open>Audio/Wire/CIP/CIPHeaderBuilder.hpp\<close>,
  \<^verbatim>\<open>Audio/Wire/IEC61883/DbcCounter.cpp\<close>, \<^verbatim>\<open>Audio/Wire/AM824\<close>, the integer part of
  \<^verbatim>\<open>Audio/Wire/AMDTP/PcmSlotCodec.cpp\<close> and the rate table of \<^verbatim>\<open>Audio/Wire/AMDTP/AmdtpRateGeometry.hpp\<close>.
\<close>

section \<open>CIP headers\<close>

record CipHeaderWords =
  cw_q0 :: u32
  cw_q1 :: u32

record CipHeaderConfig =
  cc_sid :: u8
  cc_dbs :: u8
  cc_fn :: u8
  cc_qpc :: u8
  cc_sph :: bool
  cc_fmt :: u8
  cc_fdf :: u8
  cc_noDataFdf :: u8

definition cip_q0 :: "CipHeaderConfig \<Rightarrow> u8 \<Rightarrow> u32" where
  "cip_q0 config dbc =
     push_bit 24 (ucast (cc_sid config AND 0x3F)) OR push_bit 16 (ucast (cc_dbs config))
     OR push_bit 14 (ucast (cc_fn config AND 0x3)) OR push_bit 11 (ucast (cc_qpc config AND 0x7))
     OR (if cc_sph config then push_bit 10 1 else 0) OR ucast dbc"

definition BuildData :: "CipHeaderConfig \<Rightarrow> u8 \<Rightarrow> u16 \<Rightarrow> CipHeaderWords" where
  "BuildData config dbc syt =
     \<lparr>cw_q0 = cip_q0 config dbc,
      cw_q1 = 0x80000000 OR push_bit 24 (ucast (cc_fmt config AND 0x3F))
              OR push_bit 16 (ucast (cc_fdf config)) OR ucast syt\<rparr>"

definition BuildNoData :: "CipHeaderConfig \<Rightarrow> u8 \<Rightarrow> CipHeaderWords" where
  "BuildNoData config dbc =
     \<lparr>cw_q0 = cip_q0 config dbc,
      cw_q1 = 0x80000000 OR push_bit 24 (ucast (cc_fmt config AND 0x3F))
              OR push_bit 16 (ucast (cc_noDataFdf config)) OR 0xFFFF\<rparr>"

text \<open>The decoder reads the quadlets in bus order.\<close>

record CIPHeader =
  ch_sourceNodeId :: u8
  ch_dataBlockSize :: u8
  ch_sourcePacketHeader :: bool
  ch_dataBlockCounter :: u8
  ch_format :: u8
  ch_fdf :: u8
  ch_syt :: u16

definition cip_Decode :: "u32 \<Rightarrow> u32 \<Rightarrow> CIPHeader option" where
  "cip_Decode q0_be q1_be =
     (let q0 = FromBusOrder q0_be;
          q1 = FromBusOrder q1_be
      in if drop_bit 31 q0 AND 1 \<noteq> 0 then None
         else if drop_bit 31 q1 AND 1 \<noteq> 1 then None
         else Some \<lparr>ch_sourceNodeId = ucast (drop_bit 24 q0 AND 0x3F),
                    ch_dataBlockSize = ucast (drop_bit 16 q0 AND 0xFF),
                    ch_sourcePacketHeader = (drop_bit 10 q0 AND 1 \<noteq> 0),
                    ch_dataBlockCounter = ucast (q0 AND 0xFF),
                    ch_format = ucast (drop_bit 24 q1 AND 0x3F),
                    ch_fdf = ucast (drop_bit 16 q1 AND 0xFF),
                    ch_syt = ucast (q1 AND 0xFFFF)\<rparr>)"

text \<open>The older builder for 48 kHz streams, which returns the quadlets in bus order.\<close>

definition cip48_build :: "u8 \<Rightarrow> u8 \<Rightarrow> u8 \<Rightarrow> u16 \<Rightarrow> bool \<Rightarrow> CipHeaderWords" where
  "cip48_build sid dbs dbc syt isNoData =
     (let sytValue = (if isNoData then 0xFFFF else syt)
      in \<lparr>cw_q0 = ToBusOrder (push_bit 24 (ucast (sid AND 0x3F)) OR push_bit 16 (ucast dbs) OR ucast dbc),
          cw_q1 = ToBusOrder (push_bit 30 2 OR push_bit 24 0x10 OR push_bit 16 2 OR ucast sytValue)\<rparr>)"

section \<open>Data block counters and sample quadlets\<close>

definition dbc_AdvanceDataBlocks :: "u8 \<Rightarrow> u8 \<Rightarrow> u8" where
  "dbc_AdvanceDataBlocks dataBlocks dbc = dbc + dataBlocks"

definition dbc_RewindDataBlocks :: "u8 \<Rightarrow> u8 \<Rightarrow> u8" where
  "dbc_RewindDataBlocks dataBlocks dbc = dbc - dataBlocks"

definition am824_encode :: "u32 \<Rightarrow> u32" where
  "am824_encode pcmSample = ToBusOrder (push_bit 24 0x40 OR (pcmSample AND 0x00FFFFFF))"

definition am824_encodeLabelOnly :: "u8 \<Rightarrow> u32" where
  "am824_encodeLabelOnly label = ToBusOrder (push_bit 24 (ucast label))"

definition am824_DecodeSample :: "u32 \<Rightarrow> u32 option" where
  "am824_DecodeSample quadlet_be =
     (let q = FromBusOrder quadlet_be
      in if drop_bit 24 q AND 0xFF = 0x40
         then Some (let sample = q AND 0x00FFFFFF
                    in if sample AND 0x800000 \<noteq> 0 then sample OR 0xFF000000 else sample)
         else None)"

definition am824_IsMIDI :: "u32 \<Rightarrow> bool" where
  "am824_IsMIDI quadlet_be =
     (let label = drop_bit 24 (FromBusOrder quadlet_be) AND 0xFF in label \<ge> 0x80 \<and> label \<le> 0x83)"

definition NormalizeSigned24In32LowAligned :: "u32 \<Rightarrow> u32" where
  "NormalizeSigned24In32LowAligned pcmSample =
     (let sample24 = pcmSample AND 0x00FFFFFF
      in if sample24 AND 0x00800000 \<noteq> 0 then sample24 OR 0xFF000000 else sample24)"

datatype PcmSlotEncoding = Am824MBLA | RawSigned24In32BE | RawSigned24In32LE

definition EncodeInt32 :: "u32 \<Rightarrow> PcmSlotEncoding \<Rightarrow> u32" where
  "EncodeInt32 sample encoding =
     (let signed24 = signed_drop_bit 8 sample
      in case encoding of
           RawSigned24In32BE \<Rightarrow> signed24
         | RawSigned24In32LE \<Rightarrow> ToBusOrder signed24
         | Am824MBLA \<Rightarrow> 0x40000000 OR (signed24 AND 0x00FFFFFF))"

section \<open>Rates\<close>

record AmdtpRateGeometry =
  rg_sampleRateHz :: nat
  rg_nominalFramesPerCycle :: nat
  rg_sytIntervalFrames :: nat
  rg_fdf :: u8

definition AmdtpRateGeometryForSampleRate :: "nat \<Rightarrow> AmdtpRateGeometry option" where
  "AmdtpRateGeometryForSampleRate hz =
     (if hz = 32000 then Some \<lparr>rg_sampleRateHz = 32000, rg_nominalFramesPerCycle = 4, rg_sytIntervalFrames = 8, rg_fdf = 0\<rparr>
      else if hz = 44100 then Some \<lparr>rg_sampleRateHz = 44100, rg_nominalFramesPerCycle = 6, rg_sytIntervalFrames = 8, rg_fdf = 1\<rparr>
      else if hz = 48000 then Some \<lparr>rg_sampleRateHz = 48000, rg_nominalFramesPerCycle = 6, rg_sytIntervalFrames = 8, rg_fdf = 2\<rparr>
      else if hz = 88200 then Some \<lparr>rg_sampleRateHz = 88200, rg_nominalFramesPerCycle = 12, rg_sytIntervalFrames = 16, rg_fdf = 3\<rparr>
      else if hz = 96000 then Some \<lparr>rg_sampleRateHz = 96000, rg_nominalFramesPerCycle = 12, rg_sytIntervalFrames = 16, rg_fdf = 4\<rparr>
      else if hz = 176400 then Some \<lparr>rg_sampleRateHz = 176400, rg_nominalFramesPerCycle = 24, rg_sytIntervalFrames = 32, rg_fdf = 5\<rparr>
      else if hz = 192000 then Some \<lparr>rg_sampleRateHz = 192000, rg_nominalFramesPerCycle = 24, rg_sytIntervalFrames = 32, rg_fdf = 6\<rparr>
      else None)"

definition AmdtpRateGeometryForFdf :: "u8 \<Rightarrow> AmdtpRateGeometry option" where
  "AmdtpRateGeometryForFdf fdf =
     (if fdf = 0 then AmdtpRateGeometryForSampleRate 32000
      else if fdf = 1 then AmdtpRateGeometryForSampleRate 44100
      else if fdf = 2 then AmdtpRateGeometryForSampleRate 48000
      else if fdf = 3 then AmdtpRateGeometryForSampleRate 88200
      else if fdf = 4 then AmdtpRateGeometryForSampleRate 96000
      else if fdf = 5 then AmdtpRateGeometryForSampleRate 176400
      else if fdf = 6 then AmdtpRateGeometryForSampleRate 192000
      else None)"

section \<open>Properties\<close>

lemma and_1_iff: "w AND 1 = of_bool (bit w 0)" for w :: u32
  by (simp add: and_one_eq mod_2_eq_odd bit_0)

lemma cip_bits:
  "bit (cw_q0 (BuildData c dbc syt)) n \<longleftrightarrow>
     bit (push_bit 24 (ucast (cc_sid c AND 0x3F)) :: u32) n \<or> bit (push_bit 16 (ucast (cc_dbs c)) :: u32) n
     \<or> bit (push_bit 14 (ucast (cc_fn c AND 0x3)) :: u32) n \<or> bit (push_bit 11 (ucast (cc_qpc c AND 0x7)) :: u32) n
     \<or> cc_sph c \<and> bit (push_bit 10 1 :: u32) n \<or> bit (ucast dbc :: u32) n"
  "cw_q0 (BuildNoData c dbc) = cw_q0 (BuildData c dbc syt)"
  by (auto simp: BuildData_def BuildNoData_def cip_q0_def bit_or_iff)

lemma cip_Decode_BuildData:
  "cip_Decode (ToBusOrder (cw_q0 (BuildData c dbc syt))) (ToBusOrder (cw_q1 (BuildData c dbc syt))) =
     Some \<lparr>ch_sourceNodeId = cc_sid c AND 0x3F, ch_dataBlockSize = cc_dbs c, ch_sourcePacketHeader = cc_sph c,
           ch_dataBlockCounter = dbc, ch_format = cc_fmt c AND 0x3F, ch_fdf = cc_fdf c, ch_syt = syt\<rparr>"
proof -
  let ?q0 = "cw_q0 (BuildData c dbc syt)" and ?q1 = "cw_q1 (BuildData c dbc syt)"
  have q1: "?q1 = 0x80000000 OR push_bit 24 (ucast (cc_fmt c AND 0x3F)) OR push_bit 16 (ucast (cc_fdf c)) OR ucast syt"
    by (simp add: BuildData_def)
  have "\<not> bit ?q0 31" "bit ?q0 10 = cc_sph c" "bit ?q1 31"
    by (simp_all add: cip_bits q1 bit_simps mask_simps)
  then have "drop_bit 31 ?q0 AND 1 = 0" "drop_bit 31 ?q1 AND 1 = 1" "(drop_bit 10 ?q0 AND 1 \<noteq> 0) = cc_sph c"
    by (simp_all add: and_1_iff bit_drop_bit_eq)
  moreover have "ucast (drop_bit 24 ?q0 AND 0x3F) = cc_sid c AND 0x3F" "ucast (drop_bit 16 ?q0 AND 0xFF) = cc_dbs c"
    "ucast (?q0 AND 0xFF) = dbc"
    by (rule u8_eqI, simp add: cip_bits upt_8 bit_simps mask_simps)+
  moreover have "ucast (drop_bit 24 ?q1 AND 0x3F) = cc_fmt c AND 0x3F" "ucast (drop_bit 16 ?q1 AND 0xFF) = cc_fdf c"
    by (rule u8_eqI, simp add: q1 upt_8 bit_simps mask_simps)+
  moreover have "ucast (?q1 AND 0xFFFF) = syt"
    by (rule u16_eqI) (simp add: q1 upt_16 bit_simps mask_simps)
  ultimately show ?thesis by (simp add: cip_Decode_def Let_def)
qed

lemma cip_Decode_BuildNoData:
  "cip_Decode (ToBusOrder (cw_q0 (BuildNoData c dbc))) (ToBusOrder (cw_q1 (BuildNoData c dbc))) =
     Some \<lparr>ch_sourceNodeId = cc_sid c AND 0x3F, ch_dataBlockSize = cc_dbs c, ch_sourcePacketHeader = cc_sph c,
           ch_dataBlockCounter = dbc, ch_format = cc_fmt c AND 0x3F, ch_fdf = cc_noDataFdf c, ch_syt = 0xFFFF\<rparr>"
proof -
  have "BuildNoData c dbc = BuildData (c\<lparr>cc_fdf := cc_noDataFdf c\<rparr>) dbc 0xFFFF"
    by (simp add: BuildNoData_def BuildData_def cip_q0_def)
  then show ?thesis by (simp add: cip_Decode_BuildData)
qed

text \<open>
  Every header the stream writes decodes to the fields it was built from, in bus byte order: source
  node (six bits), block size, counter, format (six bits), format field and time stamp; a no-data header
  carries the no-data format field and no time stamp. The older 48 kHz builder makes the same quadlets as
  the configurable one, except that it keeps the rate code in no-data packets.
\<close>

lemma cip_roundtrip:
  "(case BuildData c dbc syt of w \<Rightarrow> cip_Decode (ToBusOrder (cw_q0 w)) (ToBusOrder (cw_q1 w))) =
     Some \<lparr>ch_sourceNodeId = cc_sid c AND 0x3F, ch_dataBlockSize = cc_dbs c, ch_sourcePacketHeader = cc_sph c,
           ch_dataBlockCounter = dbc, ch_format = cc_fmt c AND 0x3F, ch_fdf = cc_fdf c, ch_syt = syt\<rparr>
   \<and> (case BuildNoData c dbc of w \<Rightarrow> cip_Decode (ToBusOrder (cw_q0 w)) (ToBusOrder (cw_q1 w))) =
     Some \<lparr>ch_sourceNodeId = cc_sid c AND 0x3F, ch_dataBlockSize = cc_dbs c, ch_sourcePacketHeader = cc_sph c,
           ch_dataBlockCounter = dbc, ch_format = cc_fmt c AND 0x3F, ch_fdf = cc_noDataFdf c, ch_syt = 0xFFFF\<rparr>
   \<and> (let c48 = \<lparr>cc_sid = sid, cc_dbs = dbs, cc_fn = 0, cc_qpc = 0, cc_sph = False, cc_fmt = 0x10, cc_fdf = 2,
                 cc_noDataFdf = 2\<rparr>;
           w = (if isNoData then BuildNoData c48 dbc else BuildData c48 dbc syt)
      in cip48_build sid dbs dbc syt isNoData = \<lparr>cw_q0 = ToBusOrder (cw_q0 w), cw_q1 = ToBusOrder (cw_q1 w)\<rparr>)"
proof -
  have "push_bit 30 2 OR push_bit 24 0x10 OR push_bit 16 2 OR x
      = 0x80000000 OR push_bit 24 (ucast (0x10 AND 0x3F :: u8)) OR push_bit 16 (ucast (2 :: u8)) OR x" for x :: u32
    by simp
  then have "cip48_build sid dbs dbc syt isNoData = \<lparr>cw_q0 = ToBusOrder (cw_q0 w), cw_q1 = ToBusOrder (cw_q1 w)\<rparr>"
    if "w = (if isNoData then BuildNoData c48 dbc else BuildData c48 dbc syt)"
      "c48 = \<lparr>cc_sid = sid, cc_dbs = dbs, cc_fn = 0, cc_qpc = 0, cc_sph = False, cc_fmt = 0x10, cc_fdf = 2,
              cc_noDataFdf = 2\<rparr>" for w c48
    using that by (simp add: cip48_build_def BuildNoData_def BuildData_def cip_q0_def Let_def)
  then show ?thesis by (simp add: cip_Decode_BuildData cip_Decode_BuildNoData)
qed

lemma and_sign24: "x AND 0x00800000 = 0 \<longleftrightarrow> \<not> bit x 23" for x :: u32
  using and_exp_eq_0 [of x 23] by simp

lemma NormalizeSigned24_bit:
  "bit (NormalizeSigned24In32LowAligned x) n \<longleftrightarrow> n < 32 \<and> bit x (if n < 24 then n else 23)"
proof (cases "n < 32")
  case True
  have "list_all (\<lambda>n. bit (if b then (x AND 0x00FFFFFF) OR 0xFF000000 else x AND 0x00FFFFFF) n
      = (if n < 24 then bit x n else b)) [0..<32]" for b
    by (cases b) (simp_all add: upt_32 bit_simps)
  then have "bit (if b then (x AND 0x00FFFFFF) OR 0xFF000000 else x AND 0x00FFFFFF) n
      = (if n < 24 then bit x n else b)" for b
    using True by (simp add: list_all_iff del: if_split_asm)
  from this [of "bit x 23"] True show ?thesis
    by (cases "bit x 23") (simp_all add: NormalizeSigned24In32LowAligned_def Let_def and_sign24 bit_and_iff)
next
  case False
  then show ?thesis using not_bit_u32 by simp
qed

lemma am824_DecodeSample_ToBusOrder:
  "am824_DecodeSample (ToBusOrder q) =
     (if drop_bit 24 q AND 0xFF = 0x40 then Some (NormalizeSigned24In32LowAligned q) else None)"
  by (simp add: am824_DecodeSample_def NormalizeSigned24In32LowAligned_def Let_def)

lemma mbla_label:
  "drop_bit 24 (0x40000000 OR (x AND 0x00FFFFFF)) AND 0xFF = (0x40 :: u32)"
  by (rule u32_eqI) (simp add: upt_32 bit_simps mask_simps)

lemma label_of_push: "drop_bit 24 (push_bit 24 (ucast label :: u32)) AND 0xFF = (ucast label :: u32)"
  for label :: u8
  by (rule u32_eqI) (simp add: upt_32 bit_simps mask_simps)

text \<open>
  A sample that goes out as an AM824 quadlet comes back: the decoder of the receive side returns the low
  24 bits of the encoded word, sign-extended, so a 24-bit sample is returned unchanged; quadlets with another
  label are refused, and an encoded sample is never taken for MIDI. The integer encoder of the payload
  writer produces the same quadlet from the top 24 bits of a 32-bit sample.
\<close>

lemma am824_roundtrip:
  "am824_DecodeSample (am824_encode x) = Some (NormalizeSigned24In32LowAligned x)
   \<and> \<not> am824_IsMIDI (am824_encode x)
   \<and> am824_DecodeSample (ToBusOrder (EncodeInt32 y Am824MBLA)) = Some (signed_drop_bit 8 y)
   \<and> (if label = 0x40 then am824_DecodeSample (am824_encodeLabelOnly label) = Some 0
      else am824_DecodeSample (am824_encodeLabelOnly label) = None)"
proof -
  have enc: "am824_encode x = ToBusOrder (0x40000000 OR (x AND 0x00FFFFFF))" for x
    by (simp add: am824_encode_def)
  have dec: "am824_DecodeSample (ToBusOrder (0x40000000 OR (x AND 0x00FFFFFF)))
      = Some (NormalizeSigned24In32LowAligned x)" for x
  proof -
    have "NormalizeSigned24In32LowAligned (0x40000000 OR (x AND 0x00FFFFFF)) = NormalizeSigned24In32LowAligned x"
      by (rule u32_eqI) (simp add: NormalizeSigned24_bit upt_32 bit_simps mask_simps)
    then show ?thesis by (simp add: am824_DecodeSample_ToBusOrder mbla_label)
  qed
  moreover have "\<not> am824_IsMIDI (am824_encode x)"
    by (simp add: am824_IsMIDI_def enc mbla_label Let_def)
  moreover have "NormalizeSigned24In32LowAligned (signed_drop_bit 8 y) = signed_drop_bit 8 y"
    by (rule u32_eqI) (simp add: NormalizeSigned24_bit upt_32 bit_simps mask_simps)
  moreover have "NormalizeSigned24In32LowAligned (push_bit 24 (ucast label)) = 0"
    by (rule u32_eqI) (simp add: NormalizeSigned24_bit upt_32 bit_simps mask_simps)
  moreover have "(ucast label = (0x40 :: u32)) = (label = 0x40)"
    by transfer (simp add: take_bit_eq_mod)
  moreover have "NormalizeSigned24In32LowAligned 0x40000000 = 0"
    by (simp add: NormalizeSigned24In32LowAligned_def)
  ultimately show ?thesis
    by (simp add: enc EncodeInt32_def am824_encodeLabelOnly_def am824_DecodeSample_ToBusOrder label_of_push)
qed

end
