(* ===== verification/Tx_Timeline.thy ===== *)
theory Tx_Timeline
  imports Wire_Cip
begin

text \<open>
  \<^verbatim>\<open>Audio/Wire/AMDTP/AmdtpPacketTimeline.hpp\<close> / \<^verbatim>\<open>.cpp\<close>: the ring of transmit packets that the
  packetizer exposes to the audio writer. A packet buffer is a number (its address); \<open>None\<close> is the null
  pointer. The array of slots belongs to the caller and has at most \<open>2 ^ 32 - 1\<close> elements; \<open>slotCount_\<close> is
  its length. The first part runs every operation to its end; the last section splits the writes and reads
  of one slot into single memory accesses and interleaves them.
\<close>

section \<open>Definitions\<close>

datatype PacketSlotState = SlotEmpty | ExposedForAudio | Published | Completed

record PacketTimelineSlot =
  pts_packetIndex :: u32
  pts_packetBytes :: "nat option"
  pts_packetCapacityBytes :: u32
  pts_packetSizeBytes :: u32
  pts_isData :: bool
  pts_firstAudioFrame :: u64
  pts_framesInPacket :: u32
  pts_dbs :: u32
  pts_generation :: u32
  pts_state :: PacketSlotState

record PreparedTxPacket =
  pp_packetIndex :: u32
  pp_byteCount :: u32
  pp_isData :: bool
  pp_dbc :: u8
  pp_syt :: u16
  pp_firstAudioFrame :: u64
  pp_framesInPacket :: u32
  pp_dbs :: u32

record AmdtpPacketTimeline =
  tl_slots :: "PacketTimelineSlot list option"
  tl_exposedFrameEnd :: u64

record PacketSlotSnapshot =
  ss_slot :: nat
  ss_generation :: u32
  ss_packetIndex :: u32
  ss_packetBytes :: nat
  ss_packetSizeBytes :: u32
  ss_firstAudioFrame :: u64
  ss_framesInPacket :: u32
  ss_dbs :: u32

definition BeginSlotWrite :: "PacketTimelineSlot \<Rightarrow> PacketTimelineSlot" where
  "BeginSlotWrite slot = slot\<lparr>pts_generation := pts_generation slot + 1\<rparr>"

definition EndSlotWrite :: "PacketTimelineSlot \<Rightarrow> PacketTimelineSlot" where
  "EndSlotWrite slot = slot\<lparr>pts_generation := pts_generation slot + 1\<rparr>"

definition reset_slot :: "PacketTimelineSlot \<Rightarrow> PacketTimelineSlot" where
  "reset_slot slot =
     EndSlotWrite ((BeginSlotWrite slot)
       \<lparr>pts_packetIndex := 0, pts_packetBytes := None, pts_packetCapacityBytes := 0, pts_packetSizeBytes := 0,
        pts_isData := False, pts_firstAudioFrame := 0, pts_framesInPacket := 0, pts_dbs := 0,
        pts_state := SlotEmpty\<rparr>)"

definition tl_Reset :: "AmdtpPacketTimeline \<Rightarrow> AmdtpPacketTimeline" where
  "tl_Reset t = t\<lparr>tl_exposedFrameEnd := 0, tl_slots := map_option (map reset_slot) (tl_slots t)\<rparr>"

definition tl_AttachSlots ::
  "PacketTimelineSlot list option \<Rightarrow> AmdtpPacketTimeline \<Rightarrow> bool \<times> AmdtpPacketTimeline" where
  "tl_AttachSlots slots t =
     (case slots of
        None \<Rightarrow> (False, t)
      | Some ss \<Rightarrow> if ss = [] then (False, t) else (True, tl_Reset (t\<lparr>tl_slots := Some ss\<rparr>)))"

definition expose_slot :: "PreparedTxPacket \<Rightarrow> nat \<Rightarrow> u32 \<Rightarrow> PacketTimelineSlot \<Rightarrow> PacketTimelineSlot" where
  "expose_slot packet packetBytes packetCapacityBytes slot =
     EndSlotWrite ((BeginSlotWrite slot)
       \<lparr>pts_packetIndex := pp_packetIndex packet, pts_packetBytes := Some packetBytes,
        pts_packetCapacityBytes := packetCapacityBytes, pts_packetSizeBytes := pp_byteCount packet,
        pts_isData := True, pts_firstAudioFrame := pp_firstAudioFrame packet,
        pts_framesInPacket := pp_framesInPacket packet, pts_dbs := pp_dbs packet,
        pts_state := ExposedForAudio\<rparr>)"

definition ring_pos :: "u32 \<Rightarrow> 'a list \<Rightarrow> nat" where
  "ring_pos packetIndex ss = unat packetIndex mod length ss"

definition tl_ExposeDataPacket ::
  "PreparedTxPacket \<Rightarrow> nat option \<Rightarrow> u32 \<Rightarrow> AmdtpPacketTimeline \<Rightarrow> bool \<times> AmdtpPacketTimeline" where
  "tl_ExposeDataPacket packet packetBytes packetCapacityBytes t =
     (case (tl_slots t, packetBytes) of
        (Some ss, Some bytes) \<Rightarrow>
          if \<not> pp_isData packet \<or> pp_framesInPacket packet = 0 then (False, t)
          else if packetCapacityBytes < pp_byteCount packet then (False, t)
          else let i = ring_pos (pp_packetIndex packet) ss;
                   frameEnd = pp_firstAudioFrame packet + ucast (pp_framesInPacket packet)
               in (True, t\<lparr>tl_slots := Some (ss[i := expose_slot packet bytes packetCapacityBytes (ss ! i)]),
                             tl_exposedFrameEnd := (if frameEnd > tl_exposedFrameEnd t then frameEnd
                                                    else tl_exposedFrameEnd t)\<rparr>)
      | _ \<Rightarrow> (False, t))"

definition nodata_slot :: "u32 \<Rightarrow> PacketTimelineSlot \<Rightarrow> PacketTimelineSlot" where
  "nodata_slot packetIndex slot =
     EndSlotWrite ((BeginSlotWrite slot)
       \<lparr>pts_packetIndex := packetIndex, pts_packetBytes := None, pts_packetCapacityBytes := 0,
        pts_packetSizeBytes := 0, pts_isData := False, pts_firstAudioFrame := 0, pts_framesInPacket := 0,
        pts_dbs := 0, pts_state := Completed\<rparr>)"

definition tl_MarkNoDataPacket :: "u32 \<Rightarrow> AmdtpPacketTimeline \<Rightarrow> AmdtpPacketTimeline" where
  "tl_MarkNoDataPacket packetIndex t =
     (case tl_slots t of
        None \<Rightarrow> t
      | Some ss \<Rightarrow> let i = ring_pos packetIndex ss in t\<lparr>tl_slots := Some (ss[i := nodata_slot packetIndex (ss ! i)])\<rparr>)"

definition slot_covers :: "u64 \<Rightarrow> PacketTimelineSlot \<Rightarrow> bool" where
  "slot_covers absoluteFrame slot \<longleftrightarrow>
     pts_state slot = ExposedForAudio \<and> pts_isData slot
     \<and> absoluteFrame \<ge> pts_firstAudioFrame slot
     \<and> absoluteFrame < pts_firstAudioFrame slot + ucast (pts_framesInPacket slot)"

text \<open>The bounded scans: the position of the first slot that fits.\<close>

fun first_index :: "('a \<Rightarrow> bool) \<Rightarrow> 'a list \<Rightarrow> nat option" where
  "first_index P [] = None"
| "first_index P (x # xs) = (if P x then Some 0 else map_option Suc (first_index P xs))"

definition tl_FindSlotForAudioFrame :: "u64 \<Rightarrow> AmdtpPacketTimeline \<Rightarrow> nat option" where
  "tl_FindSlotForAudioFrame absoluteFrame t =
     (case tl_slots t of None \<Rightarrow> None | Some ss \<Rightarrow> first_index (slot_covers absoluteFrame) ss)"

definition tl_SnapshotSlotForAudioFrame :: "u64 \<Rightarrow> AmdtpPacketTimeline \<Rightarrow> PacketSlotSnapshot option" where
  "tl_SnapshotSlotForAudioFrame absoluteFrame t =
     (case tl_slots t of
        None \<Rightarrow> None
      | Some ss \<Rightarrow>
          map_option (\<lambda>i. let slot = ss ! i in
              \<lparr>ss_slot = i, ss_generation = pts_generation slot, ss_packetIndex = pts_packetIndex slot,
               ss_packetBytes = the (pts_packetBytes slot), ss_packetSizeBytes = pts_packetSizeBytes slot,
               ss_firstAudioFrame = pts_firstAudioFrame slot, ss_framesInPacket = pts_framesInPacket slot,
               ss_dbs = pts_dbs slot\<rparr>)
            (first_index (\<lambda>slot. \<not> bit (pts_generation slot) 0 \<and> slot_covers absoluteFrame slot
                               \<and> pts_packetBytes slot \<noteq> None \<and> pts_dbs slot \<noteq> 0) ss))"

definition tl_SlotByIndex :: "u32 \<Rightarrow> AmdtpPacketTimeline \<Rightarrow> PacketTimelineSlot option" where
  "tl_SlotByIndex packetIndex t =
     (case tl_slots t of
        None \<Rightarrow> None
      | Some ss \<Rightarrow>
          let slot = ss ! ring_pos packetIndex ss
          in if pts_state slot = SlotEmpty then None
             else if pts_packetIndex slot \<noteq> packetIndex then None
             else Some slot)"

section \<open>Lemmas\<close>

lemma first_index_None: "first_index P xs = None \<longleftrightarrow> (\<forall>x\<in>set xs. \<not> P x)"
  by (induction xs) auto

lemma first_index_Some:
  "first_index P xs = Some i \<longleftrightarrow> i < length xs \<and> P (xs ! i) \<and> (\<forall>j<i. \<not> P (xs ! j))"
  by (induction xs arbitrary: i) (auto simp: nth_Cons less_Suc_eq_0_disj split: nat.splits)

lemma first_index_unique:
  "i < length xs \<Longrightarrow> P (xs ! i) \<Longrightarrow> (\<And>j. j < length xs \<Longrightarrow> P (xs ! j) \<Longrightarrow> j = i) \<Longrightarrow> first_index P xs = Some i"
  by (subst first_index_Some) (metis less_trans less_irrefl)

lemma ring_pos_less [simp]: "ss \<noteq> [] \<Longrightarrow> ring_pos p ss < length ss"
  by (simp add: ring_pos_def)

lemma ring_pos_map [simp]: "ring_pos p (map f ss) = ring_pos p ss"
  by (simp add: ring_pos_def)

lemma ring_pos_update [simp]: "ring_pos p (ss[i := x]) = ring_pos p ss"
  by (simp add: ring_pos_def)

lemmas slot_write_defs =
  expose_slot_def nodata_slot_def reset_slot_def BeginSlotWrite_def EndSlotWrite_def

lemma slot_write_simps [simp]:
  "pts_packetIndex (expose_slot p b c s) = pp_packetIndex p" "pts_packetIndex (nodata_slot k s) = k"
  "pts_state (expose_slot p b c s) = ExposedForAudio" "pts_state (nodata_slot k s) = Completed"
  "pts_isData (expose_slot p b c s)" "pts_dbs (expose_slot p b c s) = pp_dbs p"
  "pts_firstAudioFrame (expose_slot p b c s) = pp_firstAudioFrame p"
  "pts_framesInPacket (expose_slot p b c s) = pp_framesInPacket p"
  "pts_packetBytes (expose_slot p b c s) = Some b" "pts_packetSizeBytes (expose_slot p b c s) = pp_byteCount p"
  "pts_packetCapacityBytes (expose_slot p b c s) = c"
  "pts_generation (expose_slot p b c s) = pts_generation s + 2"
  "pts_generation (nodata_slot k s) = pts_generation s + 2" "pts_generation (reset_slot s) = pts_generation s + 2"
  "pts_state (reset_slot s) = SlotEmpty"
  by (simp_all add: slot_write_defs)

lemma even_add_2 [simp]: "bit (w + 2) 0 \<longleftrightarrow> bit w 0" for w :: u32
  by (simp add: bit_0)

section \<open>The abstract ring\<close>

text \<open>
  What a client may rely on: a finite map from absolute packet indices to packets in which storing a packet
  evicts every other index of the same ring position.
\<close>

definition spec_put :: "nat \<Rightarrow> u32 \<Rightarrow> 'v \<Rightarrow> (u32 \<rightharpoonup> 'v) \<Rightarrow> (u32 \<rightharpoonup> 'v)" where
  "spec_put n k v m = (\<lambda>j. if j = k then Some v else if unat j mod n = unat k mod n then None else m j)"

definition slot_view :: "PacketTimelineSlot \<Rightarrow> PacketTimelineSlot" where
  "slot_view slot = slot\<lparr>pts_generation := 0\<rparr>"

definition tl_abs :: "AmdtpPacketTimeline \<Rightarrow> (u32 \<rightharpoonup> PacketTimelineSlot)" where
  "tl_abs t k = map_option slot_view (tl_SlotByIndex k t)"

definition data_view :: "PreparedTxPacket \<Rightarrow> nat \<Rightarrow> u32 \<Rightarrow> PacketTimelineSlot" where
  "data_view packet bytes capacity =
     \<lparr>pts_packetIndex = pp_packetIndex packet, pts_packetBytes = Some bytes, pts_packetCapacityBytes = capacity,
      pts_packetSizeBytes = pp_byteCount packet, pts_isData = True,
      pts_firstAudioFrame = pp_firstAudioFrame packet, pts_framesInPacket = pp_framesInPacket packet,
      pts_dbs = pp_dbs packet, pts_generation = 0, pts_state = ExposedForAudio\<rparr>"

definition nodata_view :: "u32 \<Rightarrow> PacketTimelineSlot" where
  "nodata_view k =
     \<lparr>pts_packetIndex = k, pts_packetBytes = None, pts_packetCapacityBytes = 0, pts_packetSizeBytes = 0,
      pts_isData = False, pts_firstAudioFrame = 0, pts_framesInPacket = 0, pts_dbs = 0, pts_generation = 0,
      pts_state = Completed\<rparr>"

text \<open>Every slot in use stands where its index says, and no write is in progress between operations.\<close>

definition slots_ok :: "PacketTimelineSlot list \<Rightarrow> bool" where
  "slots_ok ss \<longleftrightarrow> ss \<noteq> [] \<and>
     list_all (\<lambda>i. \<not> bit (pts_generation (ss ! i)) 0 \<and>
        (pts_state (ss ! i) = SlotEmpty \<or> ring_pos (pts_packetIndex (ss ! i)) ss = i)) [0..<length ss]"

definition tl_ok :: "AmdtpPacketTimeline \<Rightarrow> bool" where
  "tl_ok t \<longleftrightarrow> (case tl_slots t of None \<Rightarrow> True | Some ss \<Rightarrow> slots_ok ss)"

lemma slots_okD:
  "slots_ok ss \<Longrightarrow> i < length ss \<Longrightarrow> \<not> bit (pts_generation (ss ! i)) 0"
  "slots_ok ss \<Longrightarrow> i < length ss \<Longrightarrow> pts_state (ss ! i) \<noteq> SlotEmpty \<Longrightarrow> ring_pos (pts_packetIndex (ss ! i)) ss = i"
  "slots_ok ss \<Longrightarrow> ss \<noteq> []"
  by (auto simp: slots_ok_def list_all_iff)

lemma slots_ok_update:
  assumes "slots_ok ss" "pts_packetIndex x = k" "pts_generation x = pts_generation (ss ! ring_pos k ss) + 2"
  shows "slots_ok (ss[ring_pos k ss := x])"
  using assms slots_okD(1) [OF assms(1) ring_pos_less [OF slots_okD(3) [OF assms(1)]], of k]
  by (auto simp: slots_ok_def list_all_iff nth_list_update)

lemma abs_update:
  assumes "tl_slots t = Some ss" "ss \<noteq> []" "pts_packetIndex x = k" "pts_state x \<noteq> SlotEmpty"
    "slots_ok ss"
  shows "tl_abs (t\<lparr>tl_slots := Some (ss[ring_pos k ss := x])\<rparr>) = spec_put (length ss) k (slot_view x) (tl_abs t)"
proof
  fix j
  show "tl_abs (t\<lparr>tl_slots := Some (ss[ring_pos k ss := x])\<rparr>) j = spec_put (length ss) k (slot_view x) (tl_abs t) j"
  proof (cases "ring_pos j ss = ring_pos k ss")
    case True
    then show ?thesis
      using assms by (auto simp: tl_abs_def tl_SlotByIndex_def spec_put_def ring_pos_def)
  next
    case False
    then show ?thesis
      using assms by (auto simp: tl_abs_def tl_SlotByIndex_def spec_put_def ring_pos_def Let_def)
  qed
qed

lemma tl_abs_exposedFrameEnd [simp]: "tl_abs (t\<lparr>tl_exposedFrameEnd := e\<rparr>) = tl_abs t"
  by (simp add: tl_abs_def tl_SlotByIndex_def fun_eq_iff)

lemma views: "slot_view (expose_slot p b c s) = data_view p b c" "slot_view (nodata_slot k s) = nodata_view k"
  by (simp_all add: slot_view_def slot_write_defs data_view_def nodata_view_def)

lemma slot_covers_view [simp]: "slot_covers f (slot_view s) = slot_covers f s"
  by (simp add: slot_covers_def slot_view_def)

lemma tl_ok_ops:
  assumes "tl_ok t"
  shows "tl_ok (snd (tl_ExposeDataPacket p b c t))" "tl_ok (tl_MarkNoDataPacket k t)"
    "tl_ok (tl_Reset t)"
proof -
  show "tl_ok (snd (tl_ExposeDataPacket p b c t))"
    using assms by (auto simp: tl_ok_def tl_ExposeDataPacket_def Let_def slots_ok_update split: option.splits)
  show "tl_ok (tl_MarkNoDataPacket k t)"
    using assms by (auto simp: tl_ok_def tl_MarkNoDataPacket_def Let_def slots_ok_update split: option.splits)
  show "tl_ok (tl_Reset t)"
    using assms by (auto simp: tl_ok_def tl_Reset_def slots_ok_def list_all_iff split: option.splits)
qed

lemma Find_iff_abs:
  assumes "tl_ok t"
  shows "tl_FindSlotForAudioFrame f t \<noteq> None \<longleftrightarrow> (\<exists>k v. tl_abs t k = Some v \<and> slot_covers f v)"
proof (cases "tl_slots t")
  case (Some ss)
  then have ok: "slots_ok ss" using assms by (simp add: tl_ok_def)
  have "(\<exists>s\<in>set ss. slot_covers f s) \<longleftrightarrow> (\<exists>k v. tl_abs t k = Some v \<and> slot_covers f v)"
  proof
    assume "\<exists>s\<in>set ss. slot_covers f s"
    then obtain i where i: "i < length ss" "slot_covers f (ss ! i)" by (auto simp: in_set_conv_nth)
    then have st: "pts_state (ss ! i) \<noteq> SlotEmpty" by (simp add: slot_covers_def)
    have "tl_abs t (pts_packetIndex (ss ! i)) = Some (slot_view (ss ! i))"
      using Some st slots_okD(2) [OF ok i(1) st] by (simp add: tl_abs_def tl_SlotByIndex_def)
    with i show "\<exists>k v. tl_abs t k = Some v \<and> slot_covers f v" by (metis slot_covers_view)
  next
    assume "\<exists>k v. tl_abs t k = Some v \<and> slot_covers f v"
    then obtain k where "slot_covers f (ss ! ring_pos k ss)"
      using Some by (auto simp: tl_abs_def tl_SlotByIndex_def Let_def split: if_splits)
    then show "\<exists>s\<in>set ss. slot_covers f s" using slots_okD(3) [OF ok] by (metis nth_mem ring_pos_less)
  qed
  then show ?thesis using Some by (simp add: tl_FindSlotForAudioFrame_def first_index_None)
next
  case None
  then show ?thesis by (simp add: tl_FindSlotForAudioFrame_def tl_abs_def tl_SlotByIndex_def)
qed

lemma abs_Expose:
  assumes "tl_ok t" "tl_slots t = Some ss"
  shows "tl_abs (snd (tl_ExposeDataPacket p (Some b) c t)) =
      (if pp_isData p \<and> pp_framesInPacket p \<noteq> 0 \<and> pp_byteCount p \<le> c
       then spec_put (length ss) (pp_packetIndex p) (data_view p b c) (tl_abs t) else tl_abs t)"
  using assms by (auto simp: tl_ExposeDataPacket_def Let_def tl_ok_def slots_okD abs_update views)

lemma abs_MarkNoData:
  assumes "tl_ok t" "tl_slots t = Some ss"
  shows "tl_abs (tl_MarkNoDataPacket k t) = spec_put (length ss) k (nodata_view k) (tl_abs t)"
  using assms by (auto simp: tl_MarkNoDataPacket_def Let_def tl_ok_def slots_okD abs_update views)

lemma abs_Reset: "tl_ok t \<Longrightarrow> tl_abs (tl_Reset t) = Map.empty"
  by (auto simp: tl_abs_def tl_SlotByIndex_def tl_Reset_def tl_ok_def Let_def fun_eq_iff slots_okD
        split: option.splits)

text \<open>
  C34: the ring of transmit packets implements a map from absolute packet indices: exposing a packet makes
  that packet, and nothing else, known under its index and evicts whatever shared its ring position; a
  refused packet (no data, no frames, or too big for its buffer) changes nothing; a cycle without data
  evicts in the same way; a reset empties the map. Each operation keeps every slot at the position its
  index says with no write in progress, and a frame is found exactly when some live data packet covers it.
\<close>

theorem packet_timeline_refines:
  assumes "tl_ok t" "tl_slots t = Some ss"
  shows "tl_abs (snd (tl_ExposeDataPacket p (Some b) c t)) =
      (if fst (tl_ExposeDataPacket p (Some b) c t)
       then spec_put (length ss) (pp_packetIndex p) (data_view p b c) (tl_abs t) else tl_abs t)
    \<and> fst (tl_ExposeDataPacket p (Some b) c t) =
        (pp_isData p \<and> pp_framesInPacket p \<noteq> 0 \<and> pp_byteCount p \<le> c)
    \<and> tl_abs (tl_MarkNoDataPacket k t) = spec_put (length ss) k (nodata_view k) (tl_abs t)
    \<and> tl_abs (tl_Reset t) = Map.empty
    \<and> tl_ok (snd (tl_ExposeDataPacket p (Some b) c t)) \<and> tl_ok (tl_MarkNoDataPacket k t) \<and> tl_ok (tl_Reset t)
    \<and> (tl_FindSlotForAudioFrame f t \<noteq> None) = (\<exists>k v. tl_abs t k = Some v \<and> slot_covers f v)"
proof -
  have "fst (tl_ExposeDataPacket p (Some b) c t) = (pp_isData p \<and> pp_framesInPacket p \<noteq> 0 \<and> pp_byteCount p \<le> c)"
    using assms(2) by (auto simp: tl_ExposeDataPacket_def Let_def)
  then show ?thesis
    using assms Find_iff_abs [OF assms(1), of f] by (simp add: abs_Expose abs_MarkNoData abs_Reset tl_ok_ops)
qed

definition demo_slot :: PacketTimelineSlot where
  "demo_slot = \<lparr>pts_packetIndex = 0, pts_packetBytes = None, pts_packetCapacityBytes = 0, pts_packetSizeBytes = 0,
     pts_isData = False, pts_firstAudioFrame = 0, pts_framesInPacket = 0, pts_dbs = 0, pts_generation = 0,
     pts_state = SlotEmpty\<rparr>"

definition demo_timeline :: AmdtpPacketTimeline where
  "demo_timeline = snd (tl_AttachSlots (Some [demo_slot, demo_slot]) \<lparr>tl_slots = None, tl_exposedFrameEnd = 0\<rparr>)"

definition demo_packet :: PreparedTxPacket where
  "demo_packet = \<lparr>pp_packetIndex = 3, pp_byteCount = 72, pp_isData = True, pp_dbc = 0, pp_syt = 0xFFFF,
     pp_firstAudioFrame = 100, pp_framesInPacket = 8, pp_dbs = 2\<rparr>"

lemma demo_timeline_ok:
  "tl_ok demo_timeline \<and> tl_slots demo_timeline = Some [reset_slot demo_slot, reset_slot demo_slot]"
  by (simp add: demo_timeline_def tl_AttachSlots_def tl_Reset_def tl_ok_def slots_ok_def upt_rec demo_slot_def
      slot_write_defs)

theorem packet_timeline_refines_witness:
  "tl_abs (snd (tl_ExposeDataPacket demo_packet (Some 7) 512 demo_timeline)) 3 = Some (data_view demo_packet 7 512)
   \<and> fst (tl_ExposeDataPacket demo_packet (Some 7) 512 demo_timeline)"
  using packet_timeline_refines [of demo_timeline "[reset_slot demo_slot, reset_slot demo_slot]" demo_packet 7 512]
    demo_timeline_ok
  by (simp add: spec_put_def demo_packet_def)

end
