(* ===== verification/Tx_Seqlock.thy ===== *)
theory Tx_Seqlock
  imports Tx_Timeline
begin

text \<open>
  The seqlock of one timeline slot (\<^verbatim>\<open>Audio/Wire/AMDTP/AmdtpPacketTimeline.cpp\<close>): the pump rewrites a slot on the
  work queue while the real-time writer takes a snapshot of it. Every memory access is a step of its own and
  the accesses of the two threads interleave freely, in the order the fences of the code impose: the
  generation is raised before the first field is written and after the last, and is read before the first
  field is copied and again after the last.
\<close>

section \<open>The two threads\<close>

datatype slot_access =
    WGeneration
  | WPacketIndex u32
  | WPacketBytes "nat option"
  | WPacketCapacityBytes u32
  | WPacketSizeBytes u32
  | WIsData bool
  | WFirstAudioFrame u64
  | WFramesInPacket u32
  | WDbs u32
  | WState PacketSlotState

fun perform :: "slot_access \<Rightarrow> PacketTimelineSlot \<Rightarrow> PacketTimelineSlot" where
  "perform WGeneration slot = slot\<lparr>pts_generation := pts_generation slot + 1\<rparr>"
| "perform (WPacketIndex v) slot = slot\<lparr>pts_packetIndex := v\<rparr>"
| "perform (WPacketBytes v) slot = slot\<lparr>pts_packetBytes := v\<rparr>"
| "perform (WPacketCapacityBytes v) slot = slot\<lparr>pts_packetCapacityBytes := v\<rparr>"
| "perform (WPacketSizeBytes v) slot = slot\<lparr>pts_packetSizeBytes := v\<rparr>"
| "perform (WIsData v) slot = slot\<lparr>pts_isData := v\<rparr>"
| "perform (WFirstAudioFrame v) slot = slot\<lparr>pts_firstAudioFrame := v\<rparr>"
| "perform (WFramesInPacket v) slot = slot\<lparr>pts_framesInPacket := v\<rparr>"
| "perform (WDbs v) slot = slot\<lparr>pts_dbs := v\<rparr>"
| "perform (WState v) slot = slot\<lparr>pts_state := v\<rparr>"

definition expose_program :: "PreparedTxPacket \<Rightarrow> nat \<Rightarrow> u32 \<Rightarrow> slot_access list" where
  "expose_program packet packetBytes packetCapacityBytes =
     [WGeneration, WPacketIndex (pp_packetIndex packet), WPacketBytes (Some packetBytes),
      WPacketCapacityBytes packetCapacityBytes, WPacketSizeBytes (pp_byteCount packet), WIsData True,
      WFirstAudioFrame (pp_firstAudioFrame packet), WFramesInPacket (pp_framesInPacket packet),
      WDbs (pp_dbs packet), WState ExposedForAudio, WGeneration]"

definition nodata_program :: "u32 \<Rightarrow> slot_access list" where
  "nodata_program packetIndex =
     [WGeneration, WPacketIndex packetIndex, WPacketBytes None, WPacketCapacityBytes 0, WPacketSizeBytes 0,
      WIsData False, WFirstAudioFrame 0, WFramesInPacket 0, WDbs 0, WState Completed, WGeneration]"

definition reset_program :: "slot_access list" where
  "reset_program =
     [WGeneration, WPacketIndex 0, WPacketBytes None, WPacketCapacityBytes 0, WPacketSizeBytes 0,
      WIsData False, WFirstAudioFrame 0, WFramesInPacket 0, WDbs 0, WState SlotEmpty, WGeneration]"

lemma programs_run:
  "fold perform (expose_program p b c) slot = expose_slot p b c slot"
  "fold perform (nodata_program k) slot = nodata_slot k slot"
  "fold perform reset_program slot = reset_slot slot"
  by (simp_all add: expose_program_def nodata_program_def reset_program_def slot_write_defs)

text \<open>
  The reader: \<open>sr_pc\<close> counts its accesses (0 is the first load of the generation, 1 to 8 the copies, 9 the
  second load); \<open>sr_copy\<close> holds what it copied. \<open>sq_bumps\<close> counts the increments of the generation since
  the start and \<open>sr_bumps\<close> is that count at the reader's first load: neither is a variable of the program.
\<close>

datatype reader_verdict = Copying | Discarded | Validated

record seqlock =
  sq_slot :: PacketTimelineSlot
  sq_writes :: "slot_access list"
  sq_bumps :: nat
  sr_pc :: nat
  sr_generation :: u32
  sr_copy :: PacketTimelineSlot
  sr_verdict :: reader_verdict
  sr_bumps :: nat

definition copy_field :: "nat \<Rightarrow> PacketTimelineSlot \<Rightarrow> PacketTimelineSlot \<Rightarrow> PacketTimelineSlot" where
  "copy_field pc slot copy =
     (if pc = 1 then copy\<lparr>pts_state := pts_state slot\<rparr>
      else if pc = 2 then copy\<lparr>pts_isData := pts_isData slot\<rparr>
      else if pc = 3 then copy\<lparr>pts_packetIndex := pts_packetIndex slot\<rparr>
      else if pc = 4 then copy\<lparr>pts_packetBytes := pts_packetBytes slot\<rparr>
      else if pc = 5 then copy\<lparr>pts_packetSizeBytes := pts_packetSizeBytes slot\<rparr>
      else if pc = 6 then copy\<lparr>pts_firstAudioFrame := pts_firstAudioFrame slot\<rparr>
      else if pc = 7 then copy\<lparr>pts_framesInPacket := pts_framesInPacket slot\<rparr>
      else copy\<lparr>pts_dbs := pts_dbs slot\<rparr>)"

definition reader_access :: "seqlock \<Rightarrow> seqlock" where
  "reader_access s =
     (if sr_pc s = 0
      then if bit (pts_generation (sq_slot s)) 0 then s\<lparr>sr_verdict := Discarded\<rparr>
           else s\<lparr>sr_generation := pts_generation (sq_slot s), sr_bumps := sq_bumps s, sr_pc := 1\<rparr>
      else if sr_pc s \<le> 8 then s\<lparr>sr_copy := copy_field (sr_pc s) (sq_slot s) (sr_copy s), sr_pc := sr_pc s + 1\<rparr>
      else if pts_generation (sq_slot s) \<noteq> sr_generation s then s\<lparr>sr_verdict := Discarded\<rparr>
      else s\<lparr>sr_verdict := Validated\<rparr>)"

inductive seqlock_step :: "seqlock \<Rightarrow> seqlock \<Rightarrow> bool" where
  begin_expose: "sq_writes s = [] \<Longrightarrow> seqlock_step s (s\<lparr>sq_writes := expose_program p b c\<rparr>)"
| begin_nodata: "sq_writes s = [] \<Longrightarrow> seqlock_step s (s\<lparr>sq_writes := nodata_program k\<rparr>)"
| begin_reset: "sq_writes s = [] \<Longrightarrow> seqlock_step s (s\<lparr>sq_writes := reset_program\<rparr>)"
| pump_access: "sq_writes s = a # as \<Longrightarrow>
    seqlock_step s (s\<lparr>sq_slot := perform a (sq_slot s), sq_writes := as,
                     sq_bumps := (if a = WGeneration then sq_bumps s + 1 else sq_bumps s)\<rparr>)"
| start_read: "sr_verdict s \<noteq> Copying \<Longrightarrow> seqlock_step s (s\<lparr>sr_pc := 0, sr_verdict := Copying\<rparr>)"
| read_access: "sr_verdict s = Copying \<Longrightarrow> seqlock_step s (reader_access s)"

definition seqlock_init :: "PacketTimelineSlot \<Rightarrow> seqlock" where
  "seqlock_init slot =
     \<lparr>sq_slot = slot\<lparr>pts_generation := 0\<rparr>, sq_writes = [], sq_bumps = 0, sr_pc = 0, sr_generation = 0,
      sr_copy = slot, sr_verdict = Discarded, sr_bumps = 0\<rparr>"

inductive seqlock_reach :: "seqlock \<Rightarrow> bool" where
  seqlock_start: "seqlock_reach (seqlock_init slot)"
| seqlock_next: "seqlock_reach s \<Longrightarrow> seqlock_step s s' \<Longrightarrow> seqlock_reach s'"

section \<open>The invariant\<close>

definition writing :: "slot_access list \<Rightarrow> bool" where
  "writing as \<longleftrightarrow> as \<noteq> [] \<and> last as = WGeneration \<and> WGeneration \<notin> set (butlast as)"

definition idle :: "slot_access list \<Rightarrow> bool" where
  "idle as \<longleftrightarrow> as = [] \<or> hd as = WGeneration \<and> writing (tl as)"

text \<open>The copies up to access \<open>pc\<close> agree with the slot.\<close>

definition copies_agree :: "nat \<Rightarrow> PacketTimelineSlot \<Rightarrow> PacketTimelineSlot \<Rightarrow> bool" where
  "copies_agree pc slot copy \<longleftrightarrow>
     (1 < pc \<longrightarrow> pts_state copy = pts_state slot) \<and> (2 < pc \<longrightarrow> pts_isData copy = pts_isData slot)
     \<and> (3 < pc \<longrightarrow> pts_packetIndex copy = pts_packetIndex slot)
     \<and> (4 < pc \<longrightarrow> pts_packetBytes copy = pts_packetBytes slot)
     \<and> (5 < pc \<longrightarrow> pts_packetSizeBytes copy = pts_packetSizeBytes slot)
     \<and> (6 < pc \<longrightarrow> pts_firstAudioFrame copy = pts_firstAudioFrame slot)
     \<and> (7 < pc \<longrightarrow> pts_framesInPacket copy = pts_framesInPacket slot)
     \<and> (8 < pc \<longrightarrow> pts_dbs copy = pts_dbs slot)"

definition seqlock_inv :: "seqlock \<Rightarrow> bool" where
  "seqlock_inv s \<longleftrightarrow>
     pts_generation (sq_slot s) = of_nat (sq_bumps s)
     \<and> (if even (sq_bumps s) then idle (sq_writes s) else writing (sq_writes s))
     \<and> (0 < sr_pc s \<longrightarrow> sr_bumps s \<le> sq_bumps s \<and> even (sr_bumps s) \<and> sr_generation s = of_nat (sr_bumps s)
          \<and> (sq_bumps s = sr_bumps s \<longrightarrow> copies_agree (sr_pc s) (sq_slot s) (sr_copy s)))"

lemma programs_idle [simp]: "idle (expose_program p b c)" "idle (nodata_program k)" "idle reset_program" "idle []"
  by (simp_all add: idle_def writing_def expose_program_def nodata_program_def reset_program_def)

lemma not_writing_Nil [simp]: "\<not> writing []"
  by (simp add: writing_def)

lemma copies_agree_gen [simp]: "copies_agree pc (slot\<lparr>pts_generation := g\<rparr>) copy = copies_agree pc slot copy"
  by (simp add: copies_agree_def)

lemma copies_agree_1: "copies_agree (Suc 0) slot copy"
  by (simp add: copies_agree_def)

lemma copies_agree_step:
  "0 < pc \<Longrightarrow> pc \<le> 8 \<Longrightarrow> copies_agree pc slot copy \<Longrightarrow> copies_agree (Suc pc) slot (copy_field pc slot copy)"
  by (auto simp: copies_agree_def copy_field_def)

lemma perform_generation: "a \<noteq> WGeneration \<Longrightarrow> pts_generation (perform a slot) = pts_generation slot"
  by (cases a) simp_all

lemma even_of_nat_u32: "bit (of_nat n :: u32) 0 \<longleftrightarrow> odd n"
  by (simp add: bit_0)

lemma writing_Cons: "writing (a # as) \<Longrightarrow> (if a = WGeneration then as = [] else writing as)"
  by (cases as) (auto simp: writing_def)

lemma seqlock_inv_step: "seqlock_step s s' \<Longrightarrow> seqlock_inv s \<Longrightarrow> seqlock_inv s'"
proof (induction rule: seqlock_step.induct)
  case (pump_access s a as)
  show ?case
  proof (cases "a = WGeneration")
    case True
    then have "if even (sq_bumps s) then writing as else as = []"
      using pump_access writing_Cons [of a as] by (auto simp: seqlock_inv_def idle_def)
    then show ?thesis
      using True pump_access by (auto simp: seqlock_inv_def add.commute)
  next
    case False
    then have w: "odd (sq_bumps s)" "writing as"
      using pump_access writing_Cons [of a as] by (auto simp: seqlock_inv_def idle_def split: if_splits)
    then show ?thesis
      using False pump_access by (auto simp: seqlock_inv_def perform_generation)
  qed
next
  case (read_access s)
  then show ?case
    by (auto simp: seqlock_inv_def reader_access_def copies_agree_1 copies_agree_step even_of_nat_u32)
qed (auto simp: seqlock_inv_def split: if_splits)

lemma seqlock_reach_inv: "seqlock_reach s \<Longrightarrow> seqlock_inv s"
proof (induction rule: seqlock_reach.induct)
  case (seqlock_start slot)
  then show ?case by (simp add: seqlock_inv_def seqlock_init_def)
next
  case (seqlock_next s s')
  then show ?case by (blast intro: seqlock_inv_step)
qed

lemma of_nat_u32_eq: "(of_nat m :: u32) = of_nat n \<Longrightarrow> n \<le> m \<Longrightarrow> m < n + 2 ^ 32 \<Longrightarrow> m = n"
proof -
  assume eq: "(of_nat m :: u32) = of_nat n" and le: "n \<le> m" "m < n + 2 ^ 32"
  have "(of_nat (m - n) :: u32) = 0" using eq le by (simp add: of_nat_diff)
  then have "unat (of_nat (m - n) :: u32) = 0" by simp
  then have "(m - n) mod 2 ^ 32 = 0" by (simp only: unat_of_nat) simp
  moreover have "m - n < 2 ^ 32" using le by simp
  ultimately have "m - n = 0" by (simp only: mod_less)
  then show ?thesis using le by simp
qed

text \<open>
  C33: in every interleaving of the pump's writes with a reader's copy, a snapshot that the reader accepts is
  consistent: at the moment of the second generation check no write was in progress and all eight copied
  fields are those of that one complete slot, so a covering packet's frame offset stays inside the packet.
  The 32-bit generation is told apart as long as fewer than \<open>2 ^ 32\<close> increments fall into one copy.
\<close>

theorem snapshot_consistent:
  assumes "seqlock_reach s" "sr_verdict s = Copying" "sr_pc s = 9" "sr_verdict (reader_access s) = Validated"
    and "sq_bumps s < sr_bumps s + 2 ^ 32"
  shows "idle (sq_writes s) \<and> even (sq_bumps s)
    \<and> sr_copy s = (sr_copy s)\<lparr>pts_state := pts_state (sq_slot s), pts_isData := pts_isData (sq_slot s),
        pts_packetIndex := pts_packetIndex (sq_slot s), pts_packetBytes := pts_packetBytes (sq_slot s),
        pts_packetSizeBytes := pts_packetSizeBytes (sq_slot s), pts_firstAudioFrame := pts_firstAudioFrame (sq_slot s),
        pts_framesInPacket := pts_framesInPacket (sq_slot s), pts_dbs := pts_dbs (sq_slot s)\<rparr>
    \<and> slot_covers f (sr_copy s) = slot_covers f (sq_slot s)
    \<and> (if slot_covers f (sr_copy s)
       then f - pts_firstAudioFrame (sr_copy s) < ucast (pts_framesInPacket (sr_copy s)) else True)"
proof -
  have inv: "seqlock_inv s" using assms(1) by (rule seqlock_reach_inv)
  have "pts_generation (sq_slot s) = sr_generation s"
    using assms(2-4) by (auto simp: reader_access_def split: if_splits)
  then have "sq_bumps s = sr_bumps s"
    using inv assms(3,5) by (intro of_nat_u32_eq) (auto simp: seqlock_inv_def)
  then have *: "idle (sq_writes s)" "even (sq_bumps s)" "copies_agree 9 (sq_slot s) (sr_copy s)"
    using inv assms(3) by (auto simp: seqlock_inv_def split: if_splits)
  have "f - a < b" if "a \<le> f" "f < a + b" for a b f :: u64
    using that by uint_arith
  with * show ?thesis by (simp add: copies_agree_def slot_covers_def)
qed

lemma pump_all:
  "seqlock_reach s \<Longrightarrow> seqlock_reach (s\<lparr>sq_slot := fold perform (sq_writes s) (sq_slot s), sq_writes := [],
     sq_bumps := sq_bumps s + count_list (sq_writes s) WGeneration\<rparr>)"
proof (induction "sq_writes s" arbitrary: s)
  case Nil
  then show ?case by (cases s) simp
next
  case (Cons a as)
  define u where "u = s\<lparr>sq_slot := perform a (sq_slot s), sq_writes := as,
      sq_bumps := (if a = WGeneration then sq_bumps s + 1 else sq_bumps s)\<rparr>"
  have "seqlock_reach u"
    unfolding u_def using Cons by (metis seqlock_next seqlock_step.pump_access)
  then have "seqlock_reach (u\<lparr>sq_slot := fold perform (sq_writes u) (sq_slot u), sq_writes := [],
      sq_bumps := sq_bumps u + count_list (sq_writes u) WGeneration\<rparr>)"
    using Cons(1) [of u] by (simp add: u_def)
  moreover have "sq_writes s = a # as" using Cons(2) by simp
  ultimately show ?case by (simp add: u_def split: if_splits)
qed

lemma read_on: "seqlock_reach s \<Longrightarrow> sr_verdict s = Copying \<Longrightarrow> seqlock_reach (reader_access s)"
  by (blast intro: seqlock_next seqlock_step.read_access)

definition demo_race :: seqlock where
  "demo_race = (seqlock_init demo_slot)
     \<lparr>sq_slot := expose_slot demo_packet 7 512 demo_slot, sq_bumps := 2, sr_verdict := Copying\<rparr>"

lemma demo_race_reach: "seqlock_reach demo_race"
proof -
  have "seqlock_reach ((seqlock_init demo_slot)\<lparr>sq_writes := expose_program demo_packet 7 512\<rparr>)"
    by (rule seqlock_next [OF seqlock_start seqlock_step.begin_expose]) (simp add: seqlock_init_def)
  moreover have "(seqlock_init demo_slot)\<lparr>sq_writes := expose_program demo_packet 7 512,
      sq_slot := fold perform (expose_program demo_packet 7 512) demo_slot, sq_writes := [],
      sq_bumps := 0 + count_list (expose_program demo_packet 7 512) WGeneration\<rparr> =
     (seqlock_init demo_slot)\<lparr>sq_slot := expose_slot demo_packet 7 512 demo_slot, sq_bumps := 2\<rparr>"
    unfolding programs_run by (simp add: seqlock_init_def expose_program_def)
  moreover have "sq_slot (seqlock_init demo_slot) = demo_slot" "sq_bumps (seqlock_init demo_slot) = 0"
    by (simp_all add: seqlock_init_def demo_slot_def)
  ultimately
  have "seqlock_reach ((seqlock_init demo_slot)\<lparr>sq_slot := expose_slot demo_packet 7 512 demo_slot, sq_bumps := 2\<rparr>)"
    using pump_all [of "(seqlock_init demo_slot)\<lparr>sq_writes := expose_program demo_packet 7 512\<rparr>"] by simp
  from seqlock_next [OF this seqlock_step.start_read] show ?thesis
    by (simp add: demo_race_def seqlock_init_def)
qed

definition demo_read :: "nat \<Rightarrow> seqlock" where
  "demo_read n = (reader_access ^^ n) demo_race"

lemma demo_read_reach: "n \<le> 9 \<Longrightarrow> seqlock_reach (demo_read n) \<and> sr_verdict (demo_read n) = Copying \<and> sr_pc (demo_read n) = n"
proof (induction n)
  case 0
  then show ?case using demo_race_reach by (simp add: demo_read_def demo_race_def seqlock_init_def)
next
  case (Suc n)
  have "bit (pts_generation (sq_slot demo_race)) 0 = False"
    by (simp add: demo_race_def seqlock_init_def demo_slot_def)
  moreover have "demo_read 0 = demo_race" by (simp add: demo_read_def)
  ultimately have "sr_verdict (reader_access (demo_read n)) = Copying \<and> sr_pc (reader_access (demo_read n)) = Suc n"
    using Suc by (cases n) (auto simp: reader_access_def)
  then show ?case using Suc read_on [of "demo_read n"] by (simp add: demo_read_def)
qed

lemma demo_read_9:
  "sq_bumps (demo_read 9) = 2" "sr_bumps (demo_read 9) = 2" "sr_verdict (reader_access (demo_read 9)) = Validated"
  "pts_packetIndex (sr_copy (demo_read 9)) = 3"
  by (simp_all add: demo_read_def eval_nat_numeral demo_race_def seqlock_init_def reader_access_def copy_field_def
      demo_slot_def demo_packet_def)

theorem snapshot_consistent_witness:
  "idle (sq_writes (demo_read 9)) \<and> pts_packetIndex (sr_copy (demo_read 9)) = 3
   \<and> slot_covers 104 (sr_copy (demo_read 9)) = slot_covers 104 (sq_slot (demo_read 9))"
  using snapshot_consistent [of "demo_read 9" 104] demo_read_reach [of 9] demo_read_9 by simp

end
