(* ===== verification/Wire_Cadence.thy ===== *)
theory Wire_Cadence
  imports ASFW_Prelude
begin

text \<open>
  \<^verbatim>\<open>Audio/Wire/AMDTP/AmdtpCadence.hpp\<close> / \<^verbatim>\<open>.cpp\<close>: which bus cycles of an audio stream carry data
  and how many frames. Blocking mode is an integer deadline counter in units of one tick divided by the
  sample rate; the interface \<open>IAmdtpCadence\<close> is the locale \<open>amdtp_cadence\<close>, with what a client relies
  on: the frames sent follow the sample rate without drift. \<open>uint64_t\<close> arithmetic is written out with its
  wrap-around, and shown never to wrap.
\<close>

section \<open>Definitions\<close>

definition add64 :: "nat \<Rightarrow> nat \<Rightarrow> nat" where "add64 a b = (a + b) mod 2 ^ 64"
definition sub64 :: "nat \<Rightarrow> nat \<Rightarrow> nat" where "sub64 a b = (a + 2 ^ 64 - b) mod 2 ^ 64"
definition mul64 :: "nat \<Rightarrow> nat \<Rightarrow> nat" where "mul64 a b = (a * b) mod 2 ^ 64"

definition kTicksPerCycle :: nat where "kTicksPerCycle = 3072"
definition kCyclesPerSecond :: nat where "kCyclesPerSecond = 8000"
definition kTicksPerSecond :: nat where "kTicksPerSecond = 24576000"

definition kNoSytOffset :: nat where "kNoSytOffset = 0xFFFF"

record RationalBlockingDecision =
  rd_isData :: bool
  rd_dataBlocks :: nat
  rd_sytOffsetTicks :: nat

definition NoDecision :: RationalBlockingDecision where
  "NoDecision = \<lparr>rd_isData = False, rd_dataBlocks = 0, rd_sytOffsetTicks = kNoSytOffset\<rparr>"

record RationalBlockingCadence =
  rc_denominator :: nat
  rc_sytInterval :: nat
  rc_cycleSpanSubticks :: nat
  rc_stepSubticks :: nat
  rc_initialDeadlineSubticks :: nat
  rc_deadlineSubticks :: nat
  rc_totalCycles :: nat

definition RationalBlockingCadence0 :: RationalBlockingCadence where
  "RationalBlockingCadence0 =
     \<lparr>rc_denominator = 0, rc_sytInterval = 0, rc_cycleSpanSubticks = 0, rc_stepSubticks = 0,
      rc_initialDeadlineSubticks = 0, rc_deadlineSubticks = 0, rc_totalCycles = 0\<rparr>"

definition rc_Reset :: "RationalBlockingCadence \<Rightarrow> RationalBlockingCadence" where
  "rc_Reset c = c\<lparr>rc_deadlineSubticks := rc_initialDeadlineSubticks c, rc_totalCycles := 0\<rparr>"

definition rc_Configure ::
  "nat \<Rightarrow> nat \<Rightarrow> nat \<Rightarrow> RationalBlockingCadence \<Rightarrow> bool \<times> RationalBlockingCadence" where
  "rc_Configure sampleRateHz sytInterval initialDeadlineSubticks c =
     (if sampleRateHz = 0 \<or> sytInterval = 0 then (False, RationalBlockingCadence0)
      else
        let cycleSpan = mul64 kTicksPerCycle sampleRateHz;
            step = mul64 kTicksPerSecond sytInterval
        in if step < cycleSpan then (False, RationalBlockingCadence0)
           else (True, rc_Reset (c\<lparr>rc_denominator := sampleRateHz, rc_sytInterval := sytInterval,
                   rc_cycleSpanSubticks := cycleSpan, rc_stepSubticks := step,
                   rc_initialDeadlineSubticks := initialDeadlineSubticks\<rparr>)))"

definition rc_IsConfigured :: "RationalBlockingCadence \<Rightarrow> bool" where
  "rc_IsConfigured c \<longleftrightarrow> rc_denominator c \<noteq> 0"

definition rc_CurrentDecision :: "RationalBlockingCadence \<Rightarrow> RationalBlockingDecision" where
  "rc_CurrentDecision c =
     (if \<not> rc_IsConfigured c \<or> rc_deadlineSubticks c \<ge> rc_cycleSpanSubticks c then NoDecision
      else \<lparr>rd_isData = True, rd_dataBlocks = rc_sytInterval c,
            rd_sytOffsetTicks = (rc_deadlineSubticks c div rc_denominator c) mod 2 ^ 16\<rparr>)"

definition rc_AdvanceCycle :: "RationalBlockingCadence \<Rightarrow> RationalBlockingCadence" where
  "rc_AdvanceCycle c =
     (if \<not> rc_IsConfigured c then c
      else
        let d = (if rc_deadlineSubticks c < rc_cycleSpanSubticks c
                 then add64 (rc_deadlineSubticks c) (rc_stepSubticks c) else rc_deadlineSubticks c)
        in c\<lparr>rc_deadlineSubticks := sub64 d (rc_cycleSpanSubticks c),
             rc_totalCycles := add64 (rc_totalCycles c) 1\<rparr>)"

text \<open>The adapter \<open>BlockingCadence\<close> has the engine as its only member; it fixes the seed.\<close>

definition AccumulatorEquivalentSeedSubticks :: "nat \<Rightarrow> nat" where
  "AccumulatorEquivalentSeedSubticks sytIntervalFrames =
     sub64 (mul64 kTicksPerSecond sytIntervalFrames) kTicksPerCycle"

definition bc_Configure :: "nat \<Rightarrow> nat \<Rightarrow> RationalBlockingCadence \<Rightarrow> bool \<times> RationalBlockingCadence" where
  "bc_Configure sampleRateHz sytIntervalFrames engine =
     rc_Configure sampleRateHz sytIntervalFrames (AccumulatorEquivalentSeedSubticks sytIntervalFrames) engine"

definition bc_CurrentCycleIsData :: "RationalBlockingCadence \<Rightarrow> bool" where
  "bc_CurrentCycleIsData engine = rd_isData (rc_CurrentDecision engine)"

definition bc_CurrentCycleDataFrames :: "RationalBlockingCadence \<Rightarrow> nat" where
  "bc_CurrentCycleDataFrames engine = rd_dataBlocks (rc_CurrentDecision engine)"

definition BlockingCadence0 :: RationalBlockingCadence where
  "BlockingCadence0 = snd (bc_Configure 48000 8 RationalBlockingCadence0)"

text \<open>\<open>NonBlocking48kCadence\<close> only counts cycles.\<close>

definition kFramesPerCycle48k :: nat where "kFramesPerCycle48k = 6"

definition nb_Reset :: "nat \<Rightarrow> nat" where "nb_Reset totalCycles = 0"
definition nb_CurrentCycleIsData :: "nat \<Rightarrow> bool" where "nb_CurrentCycleIsData totalCycles = True"
definition nb_CurrentCycleDataFrames :: "nat \<Rightarrow> nat" where
  "nb_CurrentCycleDataFrames totalCycles = kFramesPerCycle48k"
definition nb_AdvanceCycle :: "nat \<Rightarrow> nat" where "nb_AdvanceCycle totalCycles = add64 totalCycles 1"

section \<open>The interface\<close>

text \<open>
  What a client of a cadence relies on. \<open>owed\<close> is the number of frames due but not yet sent, in units of
  \<open>1/8000\<close> frame: every cycle \<open>rate\<close> of them fall due and a data packet pays 8000 for each frame it
  carries. A bound on what is owed then means the stream follows the sample rate without drift.
\<close>

locale amdtp_cadence =
  fixes inv :: "'s \<Rightarrow> bool" and isData :: "'s \<Rightarrow> bool" and frames :: "'s \<Rightarrow> nat" and advance :: "'s \<Rightarrow> 's"
    and rate :: "'s \<Rightarrow> nat" and owed :: "'s \<Rightarrow> nat" and bound :: "'s \<Rightarrow> nat"
  assumes advance_inv: "inv s \<Longrightarrow> inv (advance s)"
    and advance_rate: "inv s \<Longrightarrow> rate (advance s) = rate s"
    and advance_bound: "inv s \<Longrightarrow> bound (advance s) = bound s"
    and owed_less: "inv s \<Longrightarrow> owed s < bound s"
    and pays: "inv s \<Longrightarrow> owed (advance s) + 8000 * (if isData s then frames s else 0) = owed s + rate s"
begin

definition sent :: "nat \<Rightarrow> 's \<Rightarrow> nat" where
  "sent n s = (\<Sum>k<n. let u = (advance ^^ k) s in if isData u then frames u else 0)"

lemma run_inv: "inv s \<Longrightarrow> inv ((advance ^^ n) s)"
  by (induction n) (simp_all add: advance_inv)

lemma run_const: "inv s \<Longrightarrow> rate ((advance ^^ n) s) = rate s \<and> bound ((advance ^^ n) s) = bound s"
  by (induction n) (simp_all add: run_inv advance_rate advance_bound)

lemma conservation: "inv s \<Longrightarrow> owed ((advance ^^ n) s) + 8000 * sent n s = owed s + n * rate s"
proof (induction n)
  case (Suc n)
  let ?u = "(advance ^^ n) s"
  have "owed (advance ?u) + 8000 * (if isData ?u then frames ?u else 0) = owed ?u + rate ?u"
    using Suc.prems by (intro pays run_inv)
  then show ?case using Suc run_const [OF Suc.prems, of n] by (simp add: sent_def Let_def algebra_simps)
qed (simp add: sent_def)

lemma no_drift:
  assumes "inv s" "owed s = 0"
  shows "8000 * sent n s \<le> n * rate s" "n * rate s < 8000 * sent n s + bound s"
  using conservation [OF assms(1), of n] assms owed_less [OF run_inv [OF assms(1), of n]] run_const [OF assms(1), of n]
  by simp_all

end

section \<open>The deadline counter does not wrap\<close>

text \<open>
  A configured blocking cadence: its deadline is a whole number of subtick-cycles below one block. \<open>bc_owed\<close>
  is the number of frames pending, in units of \<open>1/8000\<close> frame.
\<close>

definition bc_ok :: "RationalBlockingCadence \<Rightarrow> bool" where
  "bc_ok c \<longleftrightarrow> 0 < rc_denominator c \<and> 0 < rc_sytInterval c \<and> rc_sytInterval c < 256
     \<and> rc_denominator c \<le> 8000 * rc_sytInterval c
     \<and> rc_cycleSpanSubticks c = 3072 * rc_denominator c
     \<and> rc_stepSubticks c = 3072 * (8000 * rc_sytInterval c)
     \<and> (\<exists>d < 8000 * rc_sytInterval c. rc_deadlineSubticks c = 3072 * d)"

definition bc_owed :: "RationalBlockingCadence \<Rightarrow> nat" where
  "bc_owed c = 8000 * rc_sytInterval c - 1 - rc_deadlineSubticks c div 3072"

definition bc_block :: "RationalBlockingCadence \<Rightarrow> nat" where
  "bc_block c = 8000 * rc_sytInterval c"

lemma bc_ok_configured [simp]: "bc_ok c \<Longrightarrow> rc_IsConfigured c"
  by (simp add: bc_ok_def rc_IsConfigured_def)

lemma bc_isData_iff:
  assumes "bc_ok c"
  shows "bc_CurrentCycleIsData c \<longleftrightarrow> bc_block c \<le> bc_owed c + rc_denominator c"
proof -
  obtain d where "d < 8000 * rc_sytInterval c" "rc_deadlineSubticks c = 3072 * d" using assms by (auto simp: bc_ok_def)
  then show ?thesis using assms
    by (auto simp: bc_CurrentCycleIsData_def rc_CurrentDecision_def bc_block_def bc_owed_def bc_ok_def NoDecision_def)
qed

lemma bc_advance:
  assumes "bc_ok c"
  shows "bc_ok (rc_AdvanceCycle c) \<and> rc_denominator (rc_AdvanceCycle c) = rc_denominator c
    \<and> bc_block (rc_AdvanceCycle c) = bc_block c
    \<and> bc_owed (rc_AdvanceCycle c) + (if bc_CurrentCycleIsData c then bc_block c else 0) = bc_owed c + rc_denominator c"
proof -
  let ?B = "8000 * rc_sytInterval c" and ?r = "rc_denominator c" and ?a = "rc_AdvanceCycle c"
  obtain d where d: "d < ?B" "rc_deadlineSubticks c = 3072 * d" using assms by (auto simp: bc_ok_def)
  have lim: "?B < 2048000" "?r \<le> ?B" "0 < ?r" using assms by (auto simp: bc_ok_def)
  let ?d' = "if d < ?r then d + ?B - ?r else d - ?r"
  have dl: "rc_deadlineSubticks ?a = 3072 * ?d'"
  proof (cases "d < ?r")
    case True
    then have "add64 (3072 * d) (3072 * ?B) = 3072 * (d + ?B)" using d lim by (simp add: add64_def)
    moreover have "sub64 (3072 * (d + ?B)) (3072 * ?r) = 3072 * (d + ?B - ?r)"
    proof -
      have "3072 * (d + ?B) + 2 ^ 64 - 3072 * ?r = 3072 * (d + ?B - ?r) + 2 ^ 64" using lim by (simp add: algebra_simps)
      moreover have "3072 * (d + ?B - ?r) < 2 ^ 64" using d lim by simp
      ultimately show ?thesis by (simp add: sub64_def)
    qed
    ultimately show ?thesis using True assms d by (simp add: rc_AdvanceCycle_def Let_def bc_ok_def)
  next
    case False
    have "3072 * d + 2 ^ 64 - 3072 * ?r = 3072 * (d - ?r) + 2 ^ 64" using False by (simp add: algebra_simps)
    moreover have "3072 * (d - ?r) < 2 ^ 64" using d lim by simp
    ultimately have "sub64 (3072 * d) (3072 * ?r) = 3072 * (d - ?r)" by (simp add: sub64_def)
    then show ?thesis using False assms d by (simp add: rc_AdvanceCycle_def Let_def bc_ok_def)
  qed
  have frame: "rc_denominator ?a = ?r" "rc_sytInterval ?a = rc_sytInterval c"
    "rc_cycleSpanSubticks ?a = rc_cycleSpanSubticks c" "rc_stepSubticks ?a = rc_stepSubticks c"
    using assms by (simp_all add: rc_AdvanceCycle_def Let_def)
  have less: "?d' < ?B" using d lim by auto
  have ok: "bc_ok ?a" using assms frame dl less unfolding bc_ok_def by (metis (no_types, lifting))
  have "bc_owed ?a = ?B - 1 - ?d'" "bc_owed c = ?B - 1 - d" "bc_CurrentCycleIsData c \<longleftrightarrow> d < ?r"
    using frame dl d bc_isData_iff [OF assms] by (auto simp: bc_owed_def bc_block_def)
  then show ?thesis using ok frame d lim by (auto simp: bc_block_def)
qed

interpretation blocking: amdtp_cadence bc_ok bc_CurrentCycleIsData bc_CurrentCycleDataFrames rc_AdvanceCycle
  rc_denominator bc_owed bc_block
proof
  fix s :: RationalBlockingCadence assume ok: "bc_ok s"
  have frames: "bc_CurrentCycleIsData s \<Longrightarrow> 8000 * bc_CurrentCycleDataFrames s = bc_block s"
    by (auto simp: bc_CurrentCycleIsData_def bc_CurrentCycleDataFrames_def rc_CurrentDecision_def bc_block_def
        NoDecision_def split: if_splits)
  show "bc_ok (rc_AdvanceCycle s)" "rc_denominator (rc_AdvanceCycle s) = rc_denominator s"
    "bc_block (rc_AdvanceCycle s) = bc_block s" using bc_advance [OF ok] by simp_all
  show "bc_owed s < bc_block s" using ok by (auto simp: bc_owed_def bc_block_def bc_ok_def)
  show "bc_owed (rc_AdvanceCycle s) + 8000 * (if bc_CurrentCycleIsData s then bc_CurrentCycleDataFrames s else 0)
      = bc_owed s + rc_denominator s"
    using bc_advance [OF ok] frames by (cases "bc_CurrentCycleIsData s") simp_all
qed

interpretation nonblocking: amdtp_cadence "\<lambda>_. True" nb_CurrentCycleIsData nb_CurrentCycleDataFrames nb_AdvanceCycle
  "\<lambda>_. 48000" "\<lambda>_. 0" "\<lambda>_. 1"
  by unfold_locales (simp_all add: nb_CurrentCycleIsData_def nb_CurrentCycleDataFrames_def kFramesPerCycle48k_def)

section \<open>The accumulator the cadence replaced\<close>

text \<open>
  The rule of FFADO's \<^verbatim>\<open>cip.c\<close>, in units of \<open>1/8000\<close> frame: add the frames of one cycle, send a block as
  soon as a full one is pending.
\<close>

fun accumulator :: "nat \<Rightarrow> nat \<Rightarrow> nat \<Rightarrow> nat \<Rightarrow> bool list" where
  "accumulator rate block 0 ready = []"
| "accumulator rate block (Suc n) ready =
     (if block \<le> ready + rate then True # accumulator rate block n (ready + rate - block)
      else False # accumulator rate block n (ready + rate))"

lemma accumulator_eq:
  assumes "bc_ok c"
  shows "map (\<lambda>k. bc_CurrentCycleIsData ((rc_AdvanceCycle ^^ k) c)) [0..<n]
    = accumulator (rc_denominator c) (bc_block c) n (bc_owed c)"
  using assms
proof (induction n arbitrary: c)
  case (Suc n)
  let ?a = "rc_AdvanceCycle c"
  note a = bc_advance [OF Suc.prems]
  have "map (\<lambda>k. bc_CurrentCycleIsData ((rc_AdvanceCycle ^^ k) c)) [0..<Suc n]
      = bc_CurrentCycleIsData c # map (\<lambda>k. bc_CurrentCycleIsData ((rc_AdvanceCycle ^^ k) ?a)) [0..<n]"
    unfolding map_upt_Suc by (simp add: funpow_Suc_right del: funpow.simps)
  also have "\<dots> = bc_CurrentCycleIsData c # accumulator (rc_denominator c) (bc_block c) n (bc_owed ?a)"
    using Suc.IH [of ?a] a by simp
  also have "\<dots> = accumulator (rc_denominator c) (bc_block c) (Suc n) (bc_owed c)"
  proof (cases "bc_block c \<le> bc_owed c + rc_denominator c")
    case True
    then have "bc_owed ?a = bc_owed c + rc_denominator c - bc_block c" "bc_CurrentCycleIsData c"
      using a bc_isData_iff [OF Suc.prems] by auto
    then show ?thesis using True by simp
  next
    case False
    then have "bc_owed ?a = bc_owed c + rc_denominator c" "\<not> bc_CurrentCycleIsData c"
      using a bc_isData_iff [OF Suc.prems] by auto
    then show ?thesis using False by simp
  qed
  finally show ?case .
qed simp

lemma bc_sytOffset:
  assumes "bc_ok c"
  shows "let d = rc_CurrentDecision c in
    if rd_isData d then rd_sytOffsetTicks d < kTicksPerCycle else rd_sytOffsetTicks d = kNoSytOffset"
proof (cases "rc_deadlineSubticks c < rc_cycleSpanSubticks c")
  case True
  then have "rc_deadlineSubticks c div rc_denominator c < 3072"
    using assms by (intro less_mult_imp_div_less) (simp add: bc_ok_def)
  then show ?thesis using assms True by (simp add: rc_CurrentDecision_def kTicksPerCycle_def)
qed (simp add: rc_CurrentDecision_def NoDecision_def)

text \<open>Non-blocking mode sends exactly the frames due.\<close>

lemma nonblocking_exact: "8000 * nonblocking.sent n s = n * 48000"
  using nonblocking.conservation [where n = n and s = s] by simp

lemma bc_Configure_iff:
  assumes "rate < 2 ^ 32" "syt < 256"
  shows "fst (bc_Configure rate syt e) \<longleftrightarrow> 0 < rate \<and> 0 < syt \<and> rate \<le> 8000 * syt"
    "fst (bc_Configure rate syt e) \<Longrightarrow> bc_ok (snd (bc_Configure rate syt e))
       \<and> rc_denominator (snd (bc_Configure rate syt e)) = rate \<and> rc_sytInterval (snd (bc_Configure rate syt e)) = syt
       \<and> bc_owed (snd (bc_Configure rate syt e)) = 0"
proof -
  let ?c = "snd (bc_Configure rate syt e)"
  have m: "mul64 kTicksPerCycle rate = 3072 * rate" "mul64 kTicksPerSecond syt = 3072 * (8000 * syt)"
    using assms by (simp_all add: mul64_def kTicksPerCycle_def kTicksPerSecond_def)
  show iff: "fst (bc_Configure rate syt e) \<longleftrightarrow> 0 < rate \<and> 0 < syt \<and> rate \<le> 8000 * syt"
    by (auto simp: bc_Configure_def rc_Configure_def m)
  assume "fst (bc_Configure rate syt e)"
  then have v: "0 < rate" "0 < syt" "rate \<le> 8000 * syt" using iff by auto
  have "3072 * (8000 * syt) + 2 ^ 64 - 3072 = 3072 * (8000 * syt - 1) + 2 ^ 64" using v by simp
  moreover have "3072 * (8000 * syt - 1) < 2 ^ 64" using assms(2) by simp
  ultimately have seed: "AccumulatorEquivalentSeedSubticks syt = 3072 * (8000 * syt - 1)"
    by (simp add: AccumulatorEquivalentSeedSubticks_def sub64_def m kTicksPerCycle_def)
  have c: "rc_denominator ?c = rate" "rc_sytInterval ?c = syt" "rc_cycleSpanSubticks ?c = 3072 * rate"
    "rc_stepSubticks ?c = 3072 * (8000 * syt)" "rc_deadlineSubticks ?c = 3072 * (8000 * syt - 1)"
    using v by (simp_all add: bc_Configure_def rc_Configure_def rc_Reset_def m seed Let_def)
  have "\<exists>d < 8000 * syt. 3072 * (8000 * syt - 1) = 3072 * d" using v by (intro exI [of _ "8000 * syt - 1"]) simp
  then show "bc_ok ?c \<and> rc_denominator ?c = rate \<and> rc_sytInterval ?c = syt \<and> bc_owed ?c = 0"
    using v assms(2) c by (simp add: bc_ok_def bc_owed_def)
qed

section \<open>Properties\<close>

text \<open>
  C32: the deadline counter with the adapter's seed decides exactly like the accumulator it replaced, cycle
  for cycle, at every sample rate and block size it accepts, and it accepts exactly the rates of at most
  one block per cycle. So it also sends as many frames as the sample rate demands: after \<open>n\<close> cycles the
  frames sent are the largest whole number of blocks not above \<open>n * rate / 8000\<close>. The presentation
  offset of a data packet lies within its cycle.
\<close>

theorem blocking_cadence_equivalence:
  assumes "rate < 2 ^ 32" and "syt < 256" and "bc_Configure rate syt engine = (ok, c)"
  shows "(ok \<longleftrightarrow> 0 < rate \<and> 0 < syt \<and> rate \<le> 8000 * syt)
    \<and> (ok \<longrightarrow> map (\<lambda>k. bc_CurrentCycleIsData ((rc_AdvanceCycle ^^ k) c)) [0..<n] = accumulator rate (8000 * syt) n 0
          \<and> (\<Sum>k<n. bc_CurrentCycleDataFrames ((rc_AdvanceCycle ^^ k) c)) = syt * (n * rate div (8000 * syt))
          \<and> list_all (\<lambda>k. let d = rc_CurrentDecision ((rc_AdvanceCycle ^^ k) c) in
               if rd_isData d then rd_sytOffsetTicks d < kTicksPerCycle else rd_sytOffsetTicks d = kNoSytOffset) [0..<n])"
proof -
  note cfg = bc_Configure_iff [OF assms(1,2), of engine, unfolded assms(3), simplified]
  have "map (\<lambda>k. bc_CurrentCycleIsData ((rc_AdvanceCycle ^^ k) c)) [0..<n] = accumulator rate (8000 * syt) n 0
      \<and> (\<Sum>k<n. bc_CurrentCycleDataFrames ((rc_AdvanceCycle ^^ k) c)) = syt * (n * rate div (8000 * syt))
      \<and> list_all (\<lambda>k. let d = rc_CurrentDecision ((rc_AdvanceCycle ^^ k) c) in
           if rd_isData d then rd_sytOffsetTicks d < kTicksPerCycle else rd_sytOffsetTicks d = kNoSytOffset) [0..<n]" if ok
  proof -
    have c: "bc_ok c" "rc_denominator c = rate" "bc_block c = 8000 * syt" "bc_owed c = 0" "rc_sytInterval c = syt"
      using cfg(2) [OF that] by (simp_all add: bc_block_def)
    let ?u = "\<lambda>k. (rc_AdvanceCycle ^^ k) c"
    have syt: "rc_sytInterval (?u k) = syt" for k
      using blocking.run_const [OF c(1), of k] c by (simp add: bc_block_def)
    have fr: "bc_CurrentCycleDataFrames u = (if bc_CurrentCycleIsData u then rc_sytInterval u else 0)" for u
      by (auto simp: bc_CurrentCycleDataFrames_def bc_CurrentCycleIsData_def rc_CurrentDecision_def NoDecision_def)
    let ?m = "\<Sum>k<n. if bc_CurrentCycleIsData (?u k) then 1 else (0::nat)"
    have sum: "(\<Sum>k<n. bc_CurrentCycleDataFrames (?u k)) = syt * ?m"
      unfolding fr sum_distrib_left by (rule sum.cong) (simp_all add: syt)
    moreover have "blocking.sent n c = (\<Sum>k<n. bc_CurrentCycleDataFrames (?u k))"
      unfolding blocking.sent_def Let_def by (rule sum.cong) (simp_all add: fr)
    ultimately have "bc_owed (?u n) + (8000 * syt) * ?m = n * rate"
      using blocking.conservation [OF c(1), of n] c by simp
    moreover have "bc_owed (?u n) < 8000 * syt"
      using blocking.owed_less [OF blocking.run_inv [OF c(1), of n]] blocking.run_const [OF c(1), of n] c by simp
    ultimately have "n * rate div (8000 * syt) = ?m"
      by (metis (no_types, lifting) add.commute div_mult_self2 div_less gr_implies_not0 plus_nat.add_0 add.right_neutral)
    moreover have "let d = rc_CurrentDecision (?u k) in
        if rd_isData d then rd_sytOffsetTicks d < kTicksPerCycle else rd_sytOffsetTicks d = kNoSytOffset" for k
      using bc_sytOffset [OF blocking.run_inv [OF c(1), of k]] by simp
    ultimately show ?thesis using sum accumulator_eq [OF c(1), of n] c by (simp add: list_all_iff)
  qed
  then show ?thesis using cfg(1) by blast
qed

text \<open>At 44.1 kHz with blocks of 8 frames: 441 data packets in 640 cycles, and the first decisions.\<close>

theorem blocking_cadence_equivalence_witness:
  "(\<Sum>k<640. bc_CurrentCycleDataFrames ((rc_AdvanceCycle ^^ k) (snd (bc_Configure 44100 8 RationalBlockingCadence0)))) = 8 * 441
   \<and> map (\<lambda>k. bc_CurrentCycleIsData ((rc_AdvanceCycle ^^ k) BlockingCadence0)) [0..<8]
     = [False, True, True, True, False, True, True, True]"
proof -
  have a: "bc_Configure 44100 8 RationalBlockingCadence0 = (True, snd (bc_Configure 44100 8 RationalBlockingCadence0))"
    using bc_Configure_iff(1) [of 44100 8 RationalBlockingCadence0] by (simp add: prod_eq_iff)
  have b: "bc_Configure 48000 8 RationalBlockingCadence0 = (True, BlockingCadence0)"
    using bc_Configure_iff(1) [of 48000 8 RationalBlockingCadence0] by (simp add: prod_eq_iff BlockingCadence0_def)
  have lim: "44100 < (2::nat) ^ 32" "48000 < (2::nat) ^ 32" "(8::nat) < 256" by simp_all
  from blocking_cadence_equivalence [OF lim(1,3) a, of 640]
  have "(\<Sum>k<640. bc_CurrentCycleDataFrames ((rc_AdvanceCycle ^^ k) (snd (bc_Configure 44100 8 RationalBlockingCadence0))))
      = 8 * (640 * 44100 div (8000 * 8))" by blast
  moreover have "8 * (640 * 44100 div (8000 * 8)) = 8 * (441 :: nat)" by simp
  moreover from blocking_cadence_equivalence [OF lim(2,3) b, of 8]
  have "map (\<lambda>k. bc_CurrentCycleIsData ((rc_AdvanceCycle ^^ k) BlockingCadence0)) [0..<8] = accumulator 48000 (8000 * 8) 8 0"
    by blast
  moreover have "accumulator 48000 (8000 * 8) 8 0 = [False, True, True, True, False, True, True, True]"
  proof -
    have "accumulator 48000 64000 (Suc (Suc (Suc (Suc (Suc (Suc (Suc (Suc 0)))))))) 0
        = [False, True, True, True, False, True, True, True]" by simp
    moreover have "Suc (Suc (Suc (Suc (Suc (Suc (Suc (Suc 0))))))) = 8" "8000 * 8 = (64000 :: nat)" by simp_all
    ultimately show ?thesis by (simp only:)
  qed
  ultimately show ?thesis by (simp only:)
qed

end
