(* ===== verification/Tx_Packetizer.thy ===== *)
theory Tx_Packetizer
  imports Tx_Seqlock Wire_Cadence
begin

text \<open>
  \<^verbatim>\<open>Audio/Wire/AMDTP/AmdtpTxPacketizer.hpp\<close> / \<^verbatim>\<open>.cpp\<close>: one transmit packet per bus cycle. The packetizer
  holds the stream configuration, the header builder, the data block counter, the two cadences with a
  pointer to the one in use, and the timeline it publishes to; the packet images are memory, a function from
  buffer and offset to byte, so a write outside a packet would be visible in the model.
\<close>

section \<open>Data\<close>

datatype StreamMode = Blocking | NonBlocking

datatype AmdtpPacketDisposition = NoData | Data

record AmdtpStreamConfig =
  sc_sampleRate :: u32
  sc_streamMode :: StreamMode
  sc_sid :: u8
  sc_dbs :: u8
  sc_pcmChannels :: u8
  sc_midiSlots :: u8
  sc_fmt :: u8
  sc_fdf :: u8
  sc_framesPerDataPacket :: u8
  sc_maxPacketBytes :: u32
  sc_sourceChannelOffset :: u8

text \<open>The members of the policy that the packetizer reads.\<close>

record AmdtpTxPolicy =
  tp_defaultNonAudioSlotWord :: u32
  tp_clearPayloadBeforeExposure :: bool
  tp_initializeNonAudioSlots :: bool
  tp_preserveFdfInNoDataPackets :: bool
  tp_emptyPacketsDuringIdle :: bool
  tp_dbcIsEndEvent :: bool

record TxPacketSlotView =
  sv_packetIndex :: u32
  sv_bytes :: "nat option"
  sv_capacityBytes :: u32

record AmdtpTimingState =
  tm_txClockValid :: bool
  tm_disposition :: AmdtpPacketDisposition
  tm_nextDataSyt :: u16
  tm_replayDataBlocks :: u16
  tm_replayValid :: bool

record TxPresentationPlan =
  pl_epoch :: u64
  pl_cycleOrdinal :: u64
  pl_firstAudioFrame :: u64
  pl_frameCount :: u32
  pl_disposition :: AmdtpPacketDisposition

record AmdtpTxPacketizerTelemetrySnapshot =
  te_nextAudioFrame :: u64
  te_lastDataFirstAudioFrame :: u64
  te_lastDataEndAudioFrame :: u64
  te_lastDataPacketIndex :: u64
  te_cursorEpoch :: u64
  te_frameCursorAligned :: bool
  te_hasLastDataPacket :: bool

datatype cadence_in_use = UseBlocking | UseNonBlocking

record AmdtpTxPacketizer =
  pk_streamConfig :: AmdtpStreamConfig
  pk_txPolicy :: AmdtpTxPolicy
  pk_cipBuilder :: CipHeaderConfig
  pk_dbcCounter :: u8
  pk_blockingCadence :: RationalBlockingCadence
  pk_nonBlockingCadence :: nat
  pk_cadence :: "cadence_in_use option"
  pk_timeline :: "AmdtpPacketTimeline option"
  pk_frameCursorAligned :: bool
  pk_cursorEpoch :: u64
  pk_lastDataFirstAudioFrame :: u64
  pk_lastDataEndAudioFrame :: u64
  pk_lastDataPacketIndex :: u64
  pk_hasLastDataPacket :: bool
  pk_telemetry :: AmdtpTxPacketizerTelemetrySnapshot

type_synonym packet_memory = "nat \<Rightarrow> nat \<Rightarrow> u8"

section \<open>Configuration and cursor\<close>

definition cadence_Reset :: "AmdtpTxPacketizer \<Rightarrow> AmdtpTxPacketizer" where
  "cadence_Reset pk =
     (case pk_cadence pk of
        None \<Rightarrow> pk
      | Some UseBlocking \<Rightarrow> pk\<lparr>pk_blockingCadence := rc_Reset (pk_blockingCadence pk)\<rparr>
      | Some UseNonBlocking \<Rightarrow> pk\<lparr>pk_nonBlockingCadence := nb_Reset (pk_nonBlockingCadence pk)\<rparr>)"

definition cadence_AdvanceCycle :: "cadence_in_use \<Rightarrow> AmdtpTxPacketizer \<Rightarrow> AmdtpTxPacketizer" where
  "cadence_AdvanceCycle c pk =
     (case c of
        UseBlocking \<Rightarrow> pk\<lparr>pk_blockingCadence := rc_AdvanceCycle (pk_blockingCadence pk)\<rparr>
      | UseNonBlocking \<Rightarrow> pk\<lparr>pk_nonBlockingCadence := nb_AdvanceCycle (pk_nonBlockingCadence pk)\<rparr>)"

definition cadence_CurrentCycleIsData :: "cadence_in_use \<Rightarrow> AmdtpTxPacketizer \<Rightarrow> bool" where
  "cadence_CurrentCycleIsData c pk =
     (case c of
        UseBlocking \<Rightarrow> bc_CurrentCycleIsData (pk_blockingCadence pk)
      | UseNonBlocking \<Rightarrow> nb_CurrentCycleIsData (pk_nonBlockingCadence pk))"

definition cadence_CurrentCycleDataFrames :: "cadence_in_use \<Rightarrow> AmdtpTxPacketizer \<Rightarrow> u8" where
  "cadence_CurrentCycleDataFrames c pk =
     of_nat (case c of
        UseBlocking \<Rightarrow> bc_CurrentCycleDataFrames (pk_blockingCadence pk)
      | UseNonBlocking \<Rightarrow> nb_CurrentCycleDataFrames (pk_nonBlockingCadence pk))"

definition PublishTelemetrySnapshot :: "AmdtpTxPacketizer \<Rightarrow> AmdtpTxPacketizer" where
  "PublishTelemetrySnapshot pk = pk\<lparr>pk_telemetry := (pk_telemetry pk)
     \<lparr>te_lastDataFirstAudioFrame := pk_lastDataFirstAudioFrame pk,
      te_lastDataEndAudioFrame := pk_lastDataEndAudioFrame pk,
      te_lastDataPacketIndex := pk_lastDataPacketIndex pk,
      te_cursorEpoch := pk_cursorEpoch pk,
      te_frameCursorAligned := pk_frameCursorAligned pk,
      te_hasLastDataPacket := pk_hasLastDataPacket pk\<rparr>\<rparr>"

definition set_nextAudioFrame :: "u64 \<Rightarrow> AmdtpTxPacketizer \<Rightarrow> AmdtpTxPacketizer" where
  "set_nextAudioFrame f pk = pk\<lparr>pk_telemetry := (pk_telemetry pk)\<lparr>te_nextAudioFrame := f\<rparr>\<rparr>"

definition pk_Reset :: "u8 \<Rightarrow> u64 \<Rightarrow> AmdtpTxPacketizer \<Rightarrow> AmdtpTxPacketizer" where
  "pk_Reset initialDbc initialAudioFrame pk =
     PublishTelemetrySnapshot (cadence_Reset (set_nextAudioFrame initialAudioFrame
       (pk\<lparr>pk_dbcCounter := initialDbc, pk_frameCursorAligned := False,
           pk_cursorEpoch := pk_cursorEpoch pk + 1,
           pk_lastDataFirstAudioFrame := 0, pk_lastDataEndAudioFrame := 0, pk_lastDataPacketIndex := 0,
           pk_hasLastDataPacket := False\<rparr>)))"

definition kCipHeaderBytes :: u32 where "kCipHeaderBytes = 8"
definition kBytesPerSlot :: u32 where "kBytesPerSlot = 4"

definition pk_Configure ::
  "AmdtpStreamConfig \<Rightarrow> AmdtpTxPolicy \<Rightarrow> AmdtpTxPacketizer \<Rightarrow> bool \<times> AmdtpTxPacketizer" where
  "pk_Configure streamConfig txPolicy pk =
     (case AmdtpRateGeometryForSampleRate (unat (sc_sampleRate streamConfig)) of
        None \<Rightarrow> (False, pk)
      | Some geometry \<Rightarrow>
          if sc_streamMode streamConfig \<noteq> Blocking \<and> sc_sampleRate streamConfig \<noteq> 48000 then (False, pk)
          else
            let config1 = streamConfig\<lparr>sc_fdf := rg_fdf geometry\<rparr>;
                config = (if sc_dbs config1 = 0
                          then config1\<lparr>sc_dbs := sc_pcmChannels config1 + sc_midiSlots config1\<rparr> else config1)
            in if sc_dbs config = 0 \<or> sc_framesPerDataPacket config = 0 then (False, pk)
               else
                 let dataPacketBytes = kCipHeaderBytes
                       + ucast (sc_framesPerDataPacket config) * ucast (sc_dbs config) * kBytesPerSlot
                 in if dataPacketBytes > sc_maxPacketBytes config then (False, pk)
                    else
                      let pk1 = pk\<lparr>pk_streamConfig := config, pk_txPolicy := txPolicy,
                            pk_cipBuilder := \<lparr>cc_sid = sc_sid config, cc_dbs = sc_dbs config, cc_fn = 0, cc_qpc = 0,
                              cc_sph = False, cc_fmt = sc_fmt config, cc_fdf = sc_fdf config,
                              cc_noDataFdf = (if tp_preserveFdfInNoDataPackets txPolicy then sc_fdf config else 0xFF)\<rparr>\<rparr>
                      in if sc_streamMode config = Blocking
                         then (case bc_Configure (unat (sc_sampleRate config)) (rg_sytIntervalFrames geometry mod 256)
                                      (pk_blockingCadence pk1) of
                                 (ok, engine) \<Rightarrow>
                                   let pk2 = pk1\<lparr>pk_blockingCadence := engine\<rparr>
                                   in if \<not> ok then (False, pk2)
                                      else (True, pk_Reset 0 0 (pk2\<lparr>pk_cadence := Some UseBlocking\<rparr>)))
                         else (True, pk_Reset 0 0 (pk1\<lparr>pk_cadence := Some UseNonBlocking\<rparr>)))"

definition pk_BindTimeline :: "AmdtpPacketTimeline option \<Rightarrow> AmdtpTxPacketizer \<Rightarrow> AmdtpTxPacketizer" where
  "pk_BindTimeline timeline pk = pk\<lparr>pk_timeline := timeline\<rparr>"

definition AlignFrameCursorOnce :: "u64 \<Rightarrow> AmdtpTxPacketizer \<Rightarrow> bool \<times> AmdtpTxPacketizer" where
  "AlignFrameCursorOnce frameIndex pk =
     (if pk_frameCursorAligned pk then (False, pk)
      else (True, PublishTelemetrySnapshot (set_nextAudioFrame frameIndex
              (pk\<lparr>pk_frameCursorAligned := True, pk_cursorEpoch := pk_cursorEpoch pk + 1\<rparr>))))"

definition ReArmFrameCursorAlignment :: "AmdtpTxPacketizer \<Rightarrow> AmdtpTxPacketizer" where
  "ReArmFrameCursorAlignment pk =
     (if \<not> pk_frameCursorAligned pk then pk
      else PublishTelemetrySnapshot (pk\<lparr>pk_frameCursorAligned := False, pk_cursorEpoch := pk_cursorEpoch pk + 1\<rparr>))"

definition SetPresentationCursor :: "u64 \<Rightarrow> u64 \<Rightarrow> bool \<Rightarrow> AmdtpTxPacketizer \<Rightarrow> AmdtpTxPacketizer" where
  "SetPresentationCursor epoch frame aligned pk =
     PublishTelemetrySnapshot (set_nextAudioFrame frame
       (pk\<lparr>pk_cursorEpoch := epoch, pk_frameCursorAligned := aligned\<rparr>))"

section \<open>Packet images\<close>

definition poke :: "nat \<Rightarrow> nat \<Rightarrow> u8 \<Rightarrow> packet_memory \<Rightarrow> packet_memory" where
  "poke buffer offset value mem = mem(buffer := (mem buffer)(offset := value))"

definition WriteBE32 :: "nat \<Rightarrow> nat \<Rightarrow> u32 \<Rightarrow> packet_memory \<Rightarrow> packet_memory" where
  "WriteBE32 buffer offset value mem =
     poke buffer (offset + 3) (ucast value) (poke buffer (offset + 2) (ucast (drop_bit 8 value))
       (poke buffer (offset + 1) (ucast (drop_bit 16 value)) (poke buffer offset (ucast (drop_bit 24 value)) mem)))"

definition WriteCipHeader :: "nat \<Rightarrow> CipHeaderWords \<Rightarrow> packet_memory \<Rightarrow> packet_memory" where
  "WriteCipHeader buffer header mem = WriteBE32 buffer 4 (cw_q1 header) (WriteBE32 buffer 0 (cw_q0 header) mem)"

definition WriteDataPacketDefaults :: "nat \<Rightarrow> u32 \<Rightarrow> AmdtpTxPacketizer \<Rightarrow> packet_memory \<Rightarrow> packet_memory" where
  "WriteDataPacketDefaults buffer payloadBytes pk mem =
     (let dbs = unat (sc_dbs (pk_streamConfig pk));
          pcm = unat (sc_pcmChannels (pk_streamConfig pk));
          mem1 = (if tp_clearPayloadBeforeExposure (pk_txPolicy pk)
                  then fold (\<lambda>i. poke buffer (8 + i) 0) [0..<unat payloadBytes] mem else mem)
      in if tp_initializeNonAudioSlots (pk_txPolicy pk) \<and> dbs > pcm
         then fold (\<lambda>frame. fold (\<lambda>s. WriteBE32 buffer (8 + (frame * dbs + s) * 4)
                                         (tp_defaultNonAudioSlotWord (pk_txPolicy pk))) [pcm..<dbs])
                [0..<unat payloadBytes div (dbs * 4)] mem1
         else mem1)"

section \<open>One packet per cycle\<close>

type_synonym prepare_result = "bool \<times> AmdtpTxPacketizer \<times> packet_memory \<times> PreparedTxPacket"

definition kNoInfo :: u16 where "kNoInfo = 0xFFFF"

definition PrepareNextPacket ::
  "TxPacketSlotView \<Rightarrow> AmdtpTimingState \<Rightarrow> TxPresentationPlan \<Rightarrow> AmdtpTxPacketizer \<Rightarrow> packet_memory
   \<Rightarrow> PreparedTxPacket \<Rightarrow> prepare_result" where
  "PrepareNextPacket slot timing plan pk mem out =
     (case (pk_cadence pk, pk_timeline pk, sv_bytes slot) of
        (Some c, Some timeline, Some bytes) \<Rightarrow>
          if pl_epoch plan \<noteq> 0 \<and> pl_epoch plan \<noteq> pk_cursorEpoch pk then (False, pk, mem, out)
          else
            let isData = (pl_disposition plan = Data \<and> pl_frameCount plan > 0)
            in if isData \<and> pl_frameCount plan > ucast (sc_framesPerDataPacket (pk_streamConfig pk))
               then (False, pk, mem, out)
               else
                 let frames = (if isData then ucast (pl_frameCount plan) else 0) :: u8;
                     payloadBytes = ucast frames * ucast (sc_dbs (pk_streamConfig pk)) * kBytesPerSlot;
                     isEmptyPacket = (\<not> isData \<and> tp_emptyPacketsDuringIdle (pk_txPolicy pk));
                     byteCount = (if isEmptyPacket then 0
                                  else if isData then kCipHeaderBytes + payloadBytes else kCipHeaderBytes)
                 in if sv_capacityBytes slot < byteCount then (False, pk, mem, out)
                    else
                      let dbc = pk_dbcCounter pk
                                + (if tp_dbcIsEndEvent (pk_txPolicy pk) \<and> isData then frames else 0);
                          packet = \<lparr>pp_packetIndex = sv_packetIndex slot, pp_byteCount = byteCount,
                            pp_isData = isData, pp_dbc = dbc,
                            pp_syt = (if isData then if tm_txClockValid timing then tm_nextDataSyt timing else kNoInfo
                                      else kNoInfo),
                            pp_firstAudioFrame = pl_firstAudioFrame plan,
                            pp_framesInPacket = (if isData then ucast frames else 0),
                            pp_dbs = ucast (sc_dbs (pk_streamConfig pk))\<rparr>
                      in if isData
                         then
                           let mem1 = WriteDataPacketDefaults bytes payloadBytes pk
                                        (WriteCipHeader bytes (BuildData (pk_cipBuilder pk) dbc (pp_syt packet)) mem)
                           in (case tl_ExposeDataPacket packet (Some bytes) (sv_capacityBytes slot) timeline of
                                 (ok, timeline1) \<Rightarrow>
                                   if \<not> ok then (False, pk\<lparr>pk_timeline := Some timeline1\<rparr>, mem1, packet)
                                   else
                                     let lastEnd = pl_firstAudioFrame plan + ucast frames;
                                         pk1 = pk\<lparr>pk_timeline := Some timeline1,
                                           pk_dbcCounter := dbc_AdvanceDataBlocks frames (pk_dbcCounter pk),
                                           pk_lastDataFirstAudioFrame := pp_firstAudioFrame packet,
                                           pk_lastDataEndAudioFrame := lastEnd,
                                           pk_lastDataPacketIndex := ucast (pp_packetIndex packet),
                                           pk_hasLastDataPacket := True\<rparr>
                                     in (True, cadence_AdvanceCycle c
                                           (PublishTelemetrySnapshot (set_nextAudioFrame lastEnd pk1)), mem1, packet))
                         else
                           let mem1 = (if isEmptyPacket then mem
                                       else WriteCipHeader bytes (BuildNoData (pk_cipBuilder pk) dbc) mem);
                               pk1 = pk\<lparr>pk_timeline := Some (tl_MarkNoDataPacket (sv_packetIndex slot) timeline)\<rparr>
                           in (True, cadence_AdvanceCycle c pk1, mem1, packet)
      | _ \<Rightarrow> (False, pk, mem, out))"

definition plan_from_cadence ::
  "cadence_in_use \<Rightarrow> TxPacketSlotView \<Rightarrow> AmdtpTimingState \<Rightarrow> AmdtpTxPacketizer \<Rightarrow> TxPresentationPlan" where
  "plan_from_cadence c slot timing pk =
     (let isData = (tm_disposition timing = Data \<and>
                    (if tm_replayValid timing then tm_replayDataBlocks timing \<noteq> 0
                     else cadence_CurrentCycleIsData c pk));
          frames = (if isData
                    then if tm_replayValid timing then ucast (tm_replayDataBlocks timing)
                         else cadence_CurrentCycleDataFrames c pk
                    else 0) :: u8
      in \<lparr>pl_epoch = pk_cursorEpoch pk, pl_cycleOrdinal = ucast (sv_packetIndex slot),
          pl_firstAudioFrame = te_nextAudioFrame (pk_telemetry pk), pl_frameCount = ucast frames,
          pl_disposition = (if isData then Data else NoData)\<rparr>)"

definition PrepareNextPacketFromCadence ::
  "TxPacketSlotView \<Rightarrow> AmdtpTimingState \<Rightarrow> AmdtpTxPacketizer \<Rightarrow> packet_memory \<Rightarrow> PreparedTxPacket \<Rightarrow> prepare_result" where
  "PrepareNextPacketFromCadence slot timing pk mem out =
     (case pk_cadence pk of
        None \<Rightarrow> (False, pk, mem, out)
      | Some c \<Rightarrow> PrepareNextPacket slot timing (plan_from_cadence c slot timing pk) pk mem out)"

text \<open>\<open>RevertToNoData\<close> dereferences the timeline and the packet image without a check; \<open>None\<close> is that fault.\<close>

definition RevertToNoData ::
  "TxPacketSlotView \<Rightarrow> PreparedTxPacket \<Rightarrow> AmdtpTxPacketizer \<Rightarrow> packet_memory
   \<Rightarrow> (AmdtpTxPacketizer \<times> packet_memory \<times> PreparedTxPacket) option" where
  "RevertToNoData slot packet pk mem =
     (if \<not> pp_isData packet then Some (pk, mem, packet)
      else
        let dbc = dbc_RewindDataBlocks (ucast (pp_framesInPacket packet)) (pk_dbcCounter pk);
            empty = tp_emptyPacketsDuringIdle (pk_txPolicy pk)
        in case (pk_timeline pk, if empty then Some 0 else sv_bytes slot) of
             (Some timeline, Some bytes) \<Rightarrow>
               let mem1 = (if empty then mem else WriteCipHeader bytes (BuildNoData (pk_cipBuilder pk) dbc) mem);
                   pk1 = pk\<lparr>pk_dbcCounter := dbc,
                            pk_timeline := Some (tl_MarkNoDataPacket (pp_packetIndex packet) timeline),
                            pk_hasLastDataPacket := False\<rparr>
               in Some (PublishTelemetrySnapshot (set_nextAudioFrame (pp_firstAudioFrame packet) pk1), mem1,
                        packet\<lparr>pp_byteCount := (if empty then 0 else kCipHeaderBytes), pp_isData := False,
                               pp_dbc := dbc, pp_framesInPacket := 0, pp_syt := kNoInfo\<rparr>)
           | _ \<Rightarrow> None)"

section \<open>Lemmas\<close>

definition plan_isData :: "TxPresentationPlan \<Rightarrow> bool" where
  "plan_isData plan \<longleftrightarrow> pl_disposition plan = Data \<and> pl_frameCount plan > 0"

definition plan_frames :: "TxPresentationPlan \<Rightarrow> u8" where
  "plan_frames plan = (if plan_isData plan then ucast (pl_frameCount plan) else 0)"

definition plan_payloadBytes :: "TxPresentationPlan \<Rightarrow> AmdtpTxPacketizer \<Rightarrow> u32" where
  "plan_payloadBytes plan pk = ucast (plan_frames plan) * ucast (sc_dbs (pk_streamConfig pk)) * kBytesPerSlot"

definition plan_byteCount :: "TxPresentationPlan \<Rightarrow> AmdtpTxPacketizer \<Rightarrow> u32" where
  "plan_byteCount plan pk =
     (if plan_isData plan then kCipHeaderBytes + plan_payloadBytes plan pk
      else if tp_emptyPacketsDuringIdle (pk_txPolicy pk) then 0 else kCipHeaderBytes)"

definition plan_packet ::
  "TxPacketSlotView \<Rightarrow> AmdtpTimingState \<Rightarrow> TxPresentationPlan \<Rightarrow> AmdtpTxPacketizer \<Rightarrow> PreparedTxPacket" where
  "plan_packet slot timing plan pk =
     \<lparr>pp_packetIndex = sv_packetIndex slot, pp_byteCount = plan_byteCount plan pk, pp_isData = plan_isData plan,
      pp_dbc = pk_dbcCounter pk + (if tp_dbcIsEndEvent (pk_txPolicy pk) then plan_frames plan else 0),
      pp_syt = (if plan_isData plan \<and> tm_txClockValid timing then tm_nextDataSyt timing else kNoInfo),
      pp_firstAudioFrame = pl_firstAudioFrame plan, pp_framesInPacket = ucast (plan_frames plan),
      pp_dbs = ucast (sc_dbs (pk_streamConfig pk))\<rparr>"

definition prepare_possible :: "TxPacketSlotView \<Rightarrow> TxPresentationPlan \<Rightarrow> AmdtpTxPacketizer \<Rightarrow> bool" where
  "prepare_possible slot plan pk \<longleftrightarrow>
     pk_cadence pk \<noteq> None \<and> sv_bytes slot \<noteq> None
     \<and> (pl_epoch plan = 0 \<or> pl_epoch plan = pk_cursorEpoch pk)
     \<and> (plan_isData plan \<longrightarrow> pl_frameCount plan \<le> ucast (sc_framesPerDataPacket (pk_streamConfig pk)))
     \<and> plan_byteCount plan pk \<le> sv_capacityBytes slot
     \<and> (case pk_timeline pk of None \<Rightarrow> False | Some t \<Rightarrow> plan_isData plan \<longrightarrow> tl_slots t \<noteq> None)"

definition prepared_timeline ::
  "TxPacketSlotView \<Rightarrow> AmdtpTimingState \<Rightarrow> TxPresentationPlan \<Rightarrow> AmdtpTxPacketizer \<Rightarrow> AmdtpPacketTimeline \<Rightarrow> AmdtpPacketTimeline" where
  "prepared_timeline slot timing plan pk t =
     (if plan_isData plan
      then snd (tl_ExposeDataPacket (plan_packet slot timing plan pk) (sv_bytes slot) (sv_capacityBytes slot) t)
      else tl_MarkNoDataPacket (sv_packetIndex slot) t)"

definition prepared_memory ::
  "TxPacketSlotView \<Rightarrow> AmdtpTimingState \<Rightarrow> TxPresentationPlan \<Rightarrow> AmdtpTxPacketizer \<Rightarrow> packet_memory \<Rightarrow> packet_memory" where
  "prepared_memory slot timing plan pk mem =
     (let bytes = the (sv_bytes slot); packet = plan_packet slot timing plan pk
      in if plan_isData plan
         then WriteDataPacketDefaults bytes (plan_payloadBytes plan pk) pk
                (WriteCipHeader bytes (BuildData (pk_cipBuilder pk) (pp_dbc packet) (pp_syt packet)) mem)
         else if tp_emptyPacketsDuringIdle (pk_txPolicy pk) then mem
         else WriteCipHeader bytes (BuildNoData (pk_cipBuilder pk) (pp_dbc packet)) mem)"

definition prepared_state ::
  "TxPacketSlotView \<Rightarrow> AmdtpTimingState \<Rightarrow> TxPresentationPlan \<Rightarrow> AmdtpTxPacketizer \<Rightarrow> AmdtpTxPacketizer" where
  "prepared_state slot timing plan pk =
     (let pk1 = pk\<lparr>pk_timeline := map_option (prepared_timeline slot timing plan pk) (pk_timeline pk)\<rparr>;
          lastEnd = pl_firstAudioFrame plan + ucast (plan_frames plan)
      in cadence_AdvanceCycle (the (pk_cadence pk))
           (if plan_isData plan
            then PublishTelemetrySnapshot (set_nextAudioFrame lastEnd
                   (pk1\<lparr>pk_dbcCounter := dbc_AdvanceDataBlocks (plan_frames plan) (pk_dbcCounter pk),
                        pk_lastDataFirstAudioFrame := pl_firstAudioFrame plan, pk_lastDataEndAudioFrame := lastEnd,
                        pk_lastDataPacketIndex := ucast (sv_packetIndex slot), pk_hasLastDataPacket := True\<rparr>))
            else pk1))"

lemma unat_u32_u8 [simp]: "unat (ucast w :: u32) = unat w" for w :: u8
  using unsigned_less [of w, where 'a = nat] by (simp add: unsigned_ucast_eq take_bit_nat_eq_self)

lemma unat_u64_u8 [simp]: "unat (ucast w :: u64) = unat w" for w :: u8
  using unsigned_less [of w, where 'a = nat] by (simp add: unsigned_ucast_eq take_bit_nat_eq_self)

lemma ucast_u8_eq_0 [simp]: "(ucast w :: u32) = 0 \<longleftrightarrow> w = 0" for w :: u8
  by (simp add: word_unat_eq_iff)

lemma u8_u32_u8 [simp]: "(ucast (ucast w :: u32) :: u8) = w" for w :: u8
  by (rule u8_eqI) (simp add: upt_8 bit_simps)

lemma u32_of_u8_frames:
  "n \<le> ucast b \<Longrightarrow> unat (ucast n :: u8) = unat n" for n :: u32 and b :: u8
  using unsigned_less [of b, where 'a = nat]
  by (simp add: word_le_nat_alt unsigned_ucast_eq take_bit_nat_eq_self)

lemma plan_frames_nonzero:
  assumes "plan_isData plan" "pl_frameCount plan \<le> ucast (sc_framesPerDataPacket c)"
  shows "plan_frames plan \<noteq> 0" "unat (plan_frames plan) = unat (pl_frameCount plan)"
proof -
  show n: "unat (plan_frames plan) = unat (pl_frameCount plan)"
    using assms u32_of_u8_frames by (simp add: plan_frames_def)
  moreover have "pl_frameCount plan \<noteq> 0" using assms(1) by (auto simp: plan_isData_def)
  ultimately show "plan_frames plan \<noteq> 0" by (auto simp: word_unat_eq_iff)
qed

lemma Prepare_eq:
  assumes "prepare_possible slot plan pk"
  shows "PrepareNextPacket slot timing plan pk mem out =
     (True, prepared_state slot timing plan pk, prepared_memory slot timing plan pk mem, plan_packet slot timing plan pk)"
proof -
  from assms obtain c t b where cb: "pk_cadence pk = Some c" "pk_timeline pk = Some t" "sv_bytes slot = Some b"
    by (auto simp: prepare_possible_def split: option.splits)
  show ?thesis
  proof (cases "plan_isData plan")
    case True
    then have d: "pl_disposition plan = Data" "pl_frameCount plan > 0" by (simp_all add: plan_isData_def)
    have le: "\<not> pl_frameCount plan > ucast (sc_framesPerDataPacket (pk_streamConfig pk))"
      "\<not> sv_capacityBytes slot < kCipHeaderBytes + plan_payloadBytes plan pk" "pl_epoch plan = 0 \<or> pl_epoch plan = pk_cursorEpoch pk"
      using assms True by (auto simp: prepare_possible_def plan_byteCount_def)
    obtain ss where ss: "tl_slots t = Some ss" using assms cb True by (auto simp: prepare_possible_def)
    have nz: "plan_frames plan \<noteq> 0" using plan_frames_nonzero(1) [of plan "pk_streamConfig pk"] True le(1) by simp
    have f: "ucast (pl_frameCount plan) = plan_frames plan" using True by (simp add: plan_frames_def)
    have pb: "ucast (plan_frames plan) * ucast (sc_dbs (pk_streamConfig pk)) * kBytesPerSlot = plan_payloadBytes plan pk"
      by (simp add: plan_payloadBytes_def)
    have "fst (tl_ExposeDataPacket (plan_packet slot timing plan pk) (Some b) (sv_capacityBytes slot) t)"
      using ss nz True le(2) by (simp add: tl_ExposeDataPacket_def plan_packet_def Let_def plan_byteCount_def)
    then obtain t1 where t1: "tl_ExposeDataPacket (plan_packet slot timing plan pk) (Some b) (sv_capacityBytes slot) t = (True, t1)"
      by (cases "tl_ExposeDataPacket (plan_packet slot timing plan pk) (Some b) (sv_capacityBytes slot) t") auto
    show ?thesis
      unfolding PrepareNextPacket_def
      using cb d le t1 True nz
      by (cases "tp_dbcIsEndEvent (pk_txPolicy pk)"; cases "tm_txClockValid timing")
         (simp_all add: f pb Let_def plan_packet_def plan_byteCount_def prepared_state_def prepared_timeline_def
          prepared_memory_def)
  next
    case False
    then have d: "\<not> (pl_disposition plan = Data \<and> pl_frameCount plan > 0)" by (simp add: plan_isData_def)
    have fr: "plan_frames plan = 0" using False by (simp add: plan_frames_def)
    have le: "\<not> sv_capacityBytes slot < plan_byteCount plan pk"
      "\<not> (pl_epoch plan \<noteq> 0 \<and> pl_epoch plan \<noteq> pk_cursorEpoch pk)"
      using assms by (auto simp: prepare_possible_def)
    show ?thesis
      unfolding PrepareNextPacket_def
      using cb d le False fr
      by (cases "tp_emptyPacketsDuringIdle (pk_txPolicy pk)")
         (simp_all add: Let_def plan_packet_def plan_byteCount_def prepared_state_def prepared_timeline_def
          prepared_memory_def del: de_Morgan_conj)
  qed
qed

lemma Prepare_impossible:
  assumes "\<not> prepare_possible slot plan pk"
  shows "fst (PrepareNextPacket slot timing plan pk mem out) = False
    \<and> fst (snd (PrepareNextPacket slot timing plan pk mem out)) = pk"
proof (cases "pk_cadence pk = None \<or> pk_timeline pk = None \<or> sv_bytes slot = None")
  case True
  then show ?thesis by (auto simp: PrepareNextPacket_def split: option.splits)
next
  case False
  then obtain c t b where cb: "pk_cadence pk = Some c" "pk_timeline pk = Some t" "sv_bytes slot = Some b" by auto
  show ?thesis
  proof (cases "plan_isData plan \<and> tl_slots t = None")
    case True
    then have "tl_ExposeDataPacket p (Some b) cap t = (False, t)" for p cap by (simp add: tl_ExposeDataPacket_def)
    moreover have "pk\<lparr>pk_timeline := Some t\<rparr> = pk" using cb by (cases pk) simp
    ultimately show ?thesis using cb True by (simp add: PrepareNextPacket_def Let_def plan_isData_def)
  next
    case False
    then consider (epoch) "pl_epoch plan \<noteq> 0" "pl_epoch plan \<noteq> pk_cursorEpoch pk"
      | (frames) "plan_isData plan" "pl_frameCount plan > ucast (sc_framesPerDataPacket (pk_streamConfig pk))"
      | (data) "plan_isData plan" "sv_capacityBytes slot < kCipHeaderBytes + plan_payloadBytes plan pk"
      | (nodata) "\<not> plan_isData plan"
          "sv_capacityBytes slot < (if tp_emptyPacketsDuringIdle (pk_txPolicy pk) then 0 else kCipHeaderBytes)"
      using assms cb by (auto simp: prepare_possible_def plan_byteCount_def not_le split: if_splits)
    then show ?thesis
    proof cases
      case epoch
      then show ?thesis using cb by (simp add: PrepareNextPacket_def)
    next
      case frames
      then show ?thesis using cb by (simp add: PrepareNextPacket_def plan_isData_def Let_def)
    next
      case data
      have "ucast (pl_frameCount plan) = plan_frames plan" using data by (simp add: plan_frames_def)
      then show ?thesis
        using cb data by (simp add: PrepareNextPacket_def plan_isData_def Let_def plan_payloadBytes_def)
    next
      case nodata
      then have "\<not> (pl_disposition plan = Data \<and> pl_frameCount plan > 0)" by (simp add: plan_isData_def)
      then show ?thesis
        using cb nodata(2) by (simp add: PrepareNextPacket_def Let_def del: de_Morgan_conj split: if_splits)
    qed
  qed
qed

text \<open>
  C31: preparing a packet succeeds exactly when the stream is configured and bound, the plan belongs to the
  current cursor epoch, its frames fit the packet, the image fits the buffer and, for data, the timeline has
  slots. A call that fails leaves the whole packetizer - counters, cursor, cadence and timeline - as it was,
  so it can be retried.
\<close>

theorem tx_failure_contract:
  "fst (PrepareNextPacket slot timing plan pk mem out) = prepare_possible slot plan pk
   \<and> (if fst (PrepareNextPacket slot timing plan pk mem out) then True
      else fst (snd (PrepareNextPacket slot timing plan pk mem out)) = pk)"
  using Prepare_eq [of slot plan pk timing mem out] Prepare_impossible [of slot plan pk timing mem out]
  by (cases "prepare_possible slot plan pk") simp_all

section \<open>A concrete stream\<close>

definition pk_nextAudioFrame :: "AmdtpTxPacketizer \<Rightarrow> u64" where
  "pk_nextAudioFrame pk = te_nextAudioFrame (pk_telemetry pk)"

lemma Reset_fields:
  "pk_dbcCounter (pk_Reset d f pk) = d" "pk_nextAudioFrame (pk_Reset d f pk) = f"
  "pk_timeline (pk_Reset d f pk) = pk_timeline pk" "pk_streamConfig (pk_Reset d f pk) = pk_streamConfig pk"
  "pk_txPolicy (pk_Reset d f pk) = pk_txPolicy pk" "pk_cadence (pk_Reset d f pk) = pk_cadence pk"
  "pk_cadence pk = Some UseBlocking \<Longrightarrow> pk_blockingCadence (pk_Reset d f pk) = rc_Reset (pk_blockingCadence pk)"
  by (simp_all add: pk_Reset_def cadence_Reset_def pk_nextAudioFrame_def set_nextAudioFrame_def
      PublishTelemetrySnapshot_def split: option.splits cadence_in_use.splits)

definition blank_packet :: PreparedTxPacket where
  "blank_packet = \<lparr>pp_packetIndex = 0, pp_byteCount = 0, pp_isData = False, pp_dbc = 0, pp_syt = 0xFFFF,
     pp_firstAudioFrame = 0, pp_framesInPacket = 0, pp_dbs = 0\<rparr>"

definition demo_config :: AmdtpStreamConfig where
  "demo_config = \<lparr>sc_sampleRate = 48000, sc_streamMode = Blocking, sc_sid = 0, sc_dbs = 0, sc_pcmChannels = 2,
     sc_midiSlots = 1, sc_fmt = 0x10, sc_fdf = 2, sc_framesPerDataPacket = 8, sc_maxPacketBytes = 512,
     sc_sourceChannelOffset = 0\<rparr>"

definition demo_policy :: AmdtpTxPolicy where
  "demo_policy = \<lparr>tp_defaultNonAudioSlotWord = 0x80000000, tp_clearPayloadBeforeExposure = True,
     tp_initializeNonAudioSlots = True, tp_preserveFdfInNoDataPackets = False, tp_emptyPacketsDuringIdle = False,
     tp_dbcIsEndEvent = False\<rparr>"

definition demo_pk0 :: AmdtpTxPacketizer where
  "demo_pk0 = \<lparr>pk_streamConfig = demo_config, pk_txPolicy = demo_policy,
     pk_cipBuilder = \<lparr>cc_sid = 0, cc_dbs = 0, cc_fn = 0, cc_qpc = 0, cc_sph = False, cc_fmt = 0x10, cc_fdf = 2, cc_noDataFdf = 0xFF\<rparr>,
     pk_dbcCounter = 0, pk_blockingCadence = BlockingCadence0, pk_nonBlockingCadence = 0, pk_cadence = None,
     pk_timeline = Some demo_timeline, pk_frameCursorAligned = False, pk_cursorEpoch = 0,
     pk_lastDataFirstAudioFrame = 0, pk_lastDataEndAudioFrame = 0, pk_lastDataPacketIndex = 0,
     pk_hasLastDataPacket = False,
     pk_telemetry = \<lparr>te_nextAudioFrame = 0, te_lastDataFirstAudioFrame = 0, te_lastDataEndAudioFrame = 0,
       te_lastDataPacketIndex = 0, te_cursorEpoch = 0, te_frameCursorAligned = False, te_hasLastDataPacket = False\<rparr>\<rparr>"

definition demo_pk :: AmdtpTxPacketizer where
  "demo_pk = snd (pk_Configure demo_config demo_policy demo_pk0)"

definition demo_view :: "u32 \<Rightarrow> TxPacketSlotView" where
  "demo_view k = \<lparr>sv_packetIndex = k, sv_bytes = Some (unat k), sv_capacityBytes = 512\<rparr>"

definition demo_timing :: AmdtpTimingState where
  "demo_timing = \<lparr>tm_txClockValid = True, tm_disposition = Data, tm_nextDataSyt = 0x1234, tm_replayDataBlocks = 0,
     tm_replayValid = False\<rparr>"

definition demo_plan :: TxPresentationPlan where
  "demo_plan = \<lparr>pl_epoch = 0, pl_cycleOrdinal = 3, pl_firstAudioFrame = 0, pl_frameCount = 8, pl_disposition = Data\<rparr>"

lemma demo_configured: "pk_Configure demo_config demo_policy demo_pk0 = (True, demo_pk)"
proof -
  have "fst (bc_Configure 48000 8 e)" for e
    using bc_Configure_iff(1) [of 48000 8 e] by simp
  then have "fst (pk_Configure demo_config demo_policy demo_pk0)"
    by (simp add: pk_Configure_def demo_config_def AmdtpRateGeometryForSampleRate_def Let_def
        kCipHeaderBytes_def kBytesPerSlot_def case_prod_beta)
  then show ?thesis by (simp add: demo_pk_def prod_eq_iff)
qed

lemma demo_stream_config:
  "pk_streamConfig demo_pk = demo_config\<lparr>sc_dbs := 3\<rparr>" "pk_txPolicy demo_pk = demo_policy"
  "pk_timeline demo_pk = Some demo_timeline" "pk_cadence demo_pk = Some UseBlocking"
proof -
  have "fst (bc_Configure 48000 8 e)" for e
    using bc_Configure_iff(1) [of 48000 8 e] by simp
  then show "pk_streamConfig demo_pk = demo_config\<lparr>sc_dbs := 3\<rparr>" "pk_txPolicy demo_pk = demo_policy"
    "pk_timeline demo_pk = Some demo_timeline" "pk_cadence demo_pk = Some UseBlocking"
    by (simp_all add: demo_pk_def pk_Configure_def demo_config_def AmdtpRateGeometryForSampleRate_def Let_def
        kCipHeaderBytes_def kBytesPerSlot_def case_prod_beta Reset_fields demo_pk0_def)
qed

lemma demo_possible: "prepare_possible (demo_view 3) demo_plan demo_pk" "plan_isData demo_plan"
  using demo_timeline_ok
  by (simp_all add: prepare_possible_def demo_stream_config demo_view_def demo_plan_def demo_config_def plan_isData_def
      plan_byteCount_def plan_payloadBytes_def plan_frames_def kCipHeaderBytes_def kBytesPerSlot_def)

end
