(* ===== verification/Tx_Image.thy ===== *)
theory Tx_Image
  imports Tx_Packetizer
begin

text \<open>
  The bytes that the packetizer (\<^verbatim>\<open>Audio/Wire/AMDTP/AmdtpTxPacketizer.cpp\<close>) writes: no byte outside the packet,
  a header that decodes to the stream's fields and a payload of default slots.
\<close>

section \<open>Packet images\<close>

lemma poke_other [simp]: "buffer \<noteq> b \<Longrightarrow> poke buffer o1 v mem b = mem b"
  by (simp add: poke_def)

lemma poke_same [simp]: "poke buffer o1 v mem buffer o2 = (if o2 = o1 then v else mem buffer o2)"
  by (simp add: poke_def)

text \<open>A write that touches only offsets of \<open>D\<close> of one buffer.\<close>

definition writes_within :: "nat \<Rightarrow> nat set \<Rightarrow> (packet_memory \<Rightarrow> packet_memory) \<Rightarrow> bool" where
  "writes_within buffer D f \<longleftrightarrow> (\<forall>mem b k. b = buffer \<and> k \<in> D \<or> f mem b k = mem b k)"

lemma writes_within_poke: "k \<in> D \<Longrightarrow> writes_within buffer D (poke buffer k v)"
  by (auto simp: writes_within_def poke_def)

lemma writes_within_BE32: "{k..<k + 4} \<subseteq> D \<Longrightarrow> writes_within buffer D (WriteBE32 buffer k v)"
  by (auto simp: writes_within_def WriteBE32_def poke_def)

lemma writes_within_comp:
  "writes_within buffer D f \<Longrightarrow> writes_within buffer D g \<Longrightarrow> writes_within buffer D (f \<circ> g)"
  by (simp add: writes_within_def) metis

lemma writes_within_if: "writes_within buffer D f \<Longrightarrow> writes_within buffer D (if c then f else id)"
  by (simp add: writes_within_def)

lemma writes_within_fold:
  "(\<And>x. x \<in> set xs \<Longrightarrow> writes_within buffer D (f x)) \<Longrightarrow> writes_within buffer D (fold f xs)"
proof (induction xs)
  case Nil
  then show ?case by (simp add: writes_within_def)
next
  case (Cons x xs)
  then show ?case by (simp add: writes_within_comp del: o_apply)
qed

lemma writes_within_Header: "writes_within buffer {0..<8} (WriteCipHeader buffer header)"
proof -
  have "WriteCipHeader buffer header = WriteBE32 buffer 4 (cw_q1 header) \<circ> WriteBE32 buffer 0 (cw_q0 header)"
    by (simp add: WriteCipHeader_def fun_eq_iff)
  moreover have "{4..<4 + 4} \<subseteq> {0..<8 :: nat}" "{0..<0 + 4} \<subseteq> {0..<8 :: nat}" by auto
  ultimately show ?thesis by (metis writes_within_comp writes_within_BE32)
qed

lemma slot_in_payload:
  fixes frame s dbs payload :: nat
  assumes "frame < payload div (dbs * 4)" "s < dbs"
  shows "(frame * dbs + s) * 4 + 4 \<le> payload"
proof -
  have "(frame * dbs + s) * 4 + 4 \<le> (frame + 1) * (dbs * 4)" using assms(2) by (simp add: algebra_simps)
  also have "\<dots> \<le> payload div (dbs * 4) * (dbs * 4)" using assms(1) by (intro mult_right_mono) auto
  also have "\<dots> \<le> payload" by (simp add: div_times_less_eq_dividend)
  finally show ?thesis .
qed

lemma writes_within_Defaults:
  "writes_within buffer {8..<8 + unat payloadBytes} (WriteDataPacketDefaults buffer payloadBytes pk)"
proof -
  let ?D = "{8..<8 + unat payloadBytes}" and ?dbs = "unat (sc_dbs (pk_streamConfig pk))"
    and ?pcm = "unat (sc_pcmChannels (pk_streamConfig pk))"
  have 1: "writes_within buffer ?D (fold (\<lambda>i. poke buffer (8 + i) 0) [0..<unat payloadBytes])"
    by (rule writes_within_fold) (auto intro: writes_within_poke)
  have 2: "writes_within buffer ?D (fold (\<lambda>frame. fold (\<lambda>s. WriteBE32 buffer (8 + (frame * ?dbs + s) * 4) w) [?pcm..<?dbs])
      [0..<unat payloadBytes div (?dbs * 4)])" for w
  proof (intro writes_within_fold writes_within_BE32)
    fix frame s assume "frame \<in> set [0..<unat payloadBytes div (?dbs * 4)]" "s \<in> set [?pcm..<?dbs]"
    then show "{8 + (frame * ?dbs + s) * 4..<8 + (frame * ?dbs + s) * 4 + 4} \<subseteq> ?D"
      using slot_in_payload [of frame "unat payloadBytes" ?dbs s] by auto
  qed
  have "WriteDataPacketDefaults buffer payloadBytes pk =
      (if tp_initializeNonAudioSlots (pk_txPolicy pk) \<and> ?dbs > ?pcm
       then fold (\<lambda>frame. fold (\<lambda>s. WriteBE32 buffer (8 + (frame * ?dbs + s) * 4)
              (tp_defaultNonAudioSlotWord (pk_txPolicy pk))) [?pcm..<?dbs]) [0..<unat payloadBytes div (?dbs * 4)]
       else id) \<circ> (if tp_clearPayloadBeforeExposure (pk_txPolicy pk)
       then fold (\<lambda>i. poke buffer (8 + i) 0) [0..<unat payloadBytes] else id)"
    by (rule ext) (simp add: WriteDataPacketDefaults_def Let_def)
  then show ?thesis by (simp only:) (intro writes_within_comp writes_within_if 1 2)
qed

text \<open>The quadlet that a little-endian host loads from four bytes.\<close>

definition load_quadlet :: "nat \<Rightarrow> nat \<Rightarrow> packet_memory \<Rightarrow> u32" where
  "load_quadlet b k mem = ucast (mem b k) OR push_bit 8 (ucast (mem b (k + 1)))
     OR push_bit 16 (ucast (mem b (k + 2))) OR push_bit 24 (ucast (mem b (k + 3)))"

lemma load_WriteBE32: "load_quadlet b k (WriteBE32 b k v mem) = ToBusOrder v"
  by (rule u32_eqI) (simp add: load_quadlet_def WriteBE32_def ToBusOrder_def upt_32 bit_simps mask_simps)

lemma load_within:
  "writes_within b D f \<Longrightarrow> {k..<k + 4} \<inter> D = {} \<Longrightarrow> load_quadlet b k (f mem) = load_quadlet b k mem"
proof -
  assume w: "writes_within b D f" and disj: "{k..<k + 4} \<inter> D = {}"
  have "j \<notin> D" if "j \<in> {k..<k + 4}" for j using disj that by blast
  then have "f mem b j = mem b j" if "j \<in> {k..<k + 4}" for j
    using w that unfolding writes_within_def by metis
  from this [of k] this [of "k + 1"] this [of "k + 2"] this [of "k + 3"] show ?thesis
    by (simp add: load_quadlet_def)
qed

lemma load_Header:
  "load_quadlet b 0 (WriteCipHeader b h mem) = ToBusOrder (cw_q0 h)"
  "load_quadlet b 4 (WriteCipHeader b h mem) = ToBusOrder (cw_q1 h)"
proof -
  have "load_quadlet b 0 (WriteBE32 b 4 (cw_q1 h) (WriteBE32 b 0 (cw_q0 h) mem)) =
      load_quadlet b 0 (WriteBE32 b 0 (cw_q0 h) mem)"
    by (rule load_within [OF writes_within_BE32 [OF order_refl]]) auto
  then show "load_quadlet b 0 (WriteCipHeader b h mem) = ToBusOrder (cw_q0 h)"
    by (simp add: WriteCipHeader_def load_WriteBE32)
  show "load_quadlet b 4 (WriteCipHeader b h mem) = ToBusOrder (cw_q1 h)"
    by (simp add: WriteCipHeader_def load_WriteBE32)
qed

lemma payload_nat:
  "unat (plan_payloadBytes plan pk) = unat (plan_frames plan) * unat (sc_dbs (pk_streamConfig pk)) * 4"
  "unat (kCipHeaderBytes + plan_payloadBytes plan pk) = 8 + unat (plan_payloadBytes plan pk)"
proof -
  have le: "unat f * unat d * 4 \<le> 255 * 255 * 4" for f d :: u8
    using unsigned_less [of f, where 'a = nat] unsigned_less [of d, where 'a = nat]
    by (intro mult_le_mono) auto
  have fd: "unat (ucast f * ucast d :: u32) = unat f * unat d" for f d :: u8
    using le [of f d] by (simp add: unat_word_ariths mult.commute [of "unat f"])
  show "unat (plan_payloadBytes plan pk) = unat (plan_frames plan) * unat (sc_dbs (pk_streamConfig pk)) * 4"
    using le [of "plan_frames plan" "sc_dbs (pk_streamConfig pk)"]
    by (simp add: plan_payloadBytes_def kBytesPerSlot_def unat_word_ariths fd)
  then show "unat (kCipHeaderBytes + plan_payloadBytes plan pk) = 8 + unat (plan_payloadBytes plan pk)"
    using le [of "plan_frames plan" "sc_dbs (pk_streamConfig pk)"]
    by (simp add: kCipHeaderBytes_def unat_word_ariths)
qed

text \<open>Quadlet \<open>q\<close> of the payload.\<close>

definition payload_quadlet :: "nat \<Rightarrow> nat \<Rightarrow> packet_memory \<Rightarrow> u32" where
  "payload_quadlet b q mem = load_quadlet b (8 + q * 4) mem"

lemma payload_quadlet_write:
  "payload_quadlet b q (WriteBE32 b (8 + r * 4) w mem) = (if q = r then ToBusOrder w else payload_quadlet b q mem)"
proof (cases "q = r")
  case False
  then have "{8 + q * 4..<8 + q * 4 + 4} \<inter> {8 + r * 4..<8 + r * 4 + 4} = {}" by auto
  with False show ?thesis
    unfolding payload_quadlet_def by (simp add: load_within [OF writes_within_BE32 [OF order_refl]])
qed (simp add: payload_quadlet_def load_WriteBE32)

lemma payload_quadlet_fold:
  "payload_quadlet b q (fold (\<lambda>s. WriteBE32 b (8 + g s * 4) w) xs mem) =
     (if q \<in> g ` set xs then ToBusOrder w else payload_quadlet b q mem)"
  by (induction xs arbitrary: mem) (auto simp: payload_quadlet_write)

lemma payload_quadlet_fold2:
  "payload_quadlet b q (fold (\<lambda>f. fold (\<lambda>s. WriteBE32 b (8 + (f * d + s) * 4) w) ys) xs mem) =
     (if \<exists>f\<in>set xs. q \<in> (\<lambda>s. f * d + s) ` set ys then ToBusOrder w else payload_quadlet b q mem)"
  by (induction xs arbitrary: mem) (auto simp only: fold_simps payload_quadlet_fold [of b q "\<lambda>s. _ * d + s"] list.set ball_simps bex_simps comp_apply split: if_splits)

lemma payload_zero:
  assumes "q * 4 + 4 \<le> n"
  shows "payload_quadlet b q (fold (\<lambda>i. poke b (8 + i) 0) [0..<n] mem) = 0"
proof -
  have "fold (\<lambda>i. poke b (8 + i) 0) [0..<n] mem b k = (if k \<in> {8..<8 + n} then 0 else mem b k)" for k
    by (induction n) auto
  with assms show ?thesis by (simp add: payload_quadlet_def load_quadlet_def)
qed

lemma payload_Defaults:
  assumes "frame < frames" "s < unat (sc_dbs (pk_streamConfig pk))"
    and "unat payloadBytes = frames * unat (sc_dbs (pk_streamConfig pk)) * 4"
    and "tp_clearPayloadBeforeExposure (pk_txPolicy pk)" "tp_initializeNonAudioSlots (pk_txPolicy pk)"
  shows "payload_quadlet b (frame * unat (sc_dbs (pk_streamConfig pk)) + s) (WriteDataPacketDefaults b payloadBytes pk mem) =
    (if s < unat (sc_pcmChannels (pk_streamConfig pk)) then 0 else ToBusOrder (tp_defaultNonAudioSlotWord (pk_txPolicy pk)))"
proof -
  define d where "d = unat (sc_dbs (pk_streamConfig pk))"
  define pcm where "pcm = unat (sc_pcmChannels (pk_streamConfig pk))"
  have n: "unat payloadBytes div (d * 4) = frames" using assms(2,3) by (simp add: d_def)
  have "(frame * d + s) * 4 + 4 \<le> unat payloadBytes"
    using slot_in_payload [of frame "unat payloadBytes" d s] assms(1,2) n by (simp add: d_def)
  then have z: "payload_quadlet b (frame * d + s) (fold (\<lambda>i. poke b (8 + i) 0) [0..<unat payloadBytes] mem) = 0"
    by (rule payload_zero)
  have in_iff: "(\<exists>f\<in>set [0..<frames]. frame * d + s \<in> (\<lambda>s. f * d + s) ` set [pcm..<d]) \<longleftrightarrow> pcm \<le> s"
  proof
    assume "\<exists>f\<in>set [0..<frames]. frame * d + s \<in> (\<lambda>s. f * d + s) ` set [pcm..<d]"
    then obtain f s' where eq: "frame * d + s = f * d + s'" and s': "pcm \<le> s'" "s' < d"
      by (elim bexE imageE) (simp only: set_upt atLeastLessThan_iff)
    have "s = s'" using arg_cong [OF eq, of "\<lambda>x. x mod d"] s' assms(2) by (simp add: d_def)
    with s' show "pcm \<le> s" by simp
  next
    assume "pcm \<le> s"
    then show "\<exists>f\<in>set [0..<frames]. frame * d + s \<in> (\<lambda>s. f * d + s) ` set [pcm..<d]"
      using assms(1,2) by (intro bexI [of _ frame] image_eqI [of _ _ s]) (auto simp: d_def)
  qed
  have "payload_quadlet b (frame * d + s) (fold (\<lambda>f. fold (\<lambda>s. WriteBE32 b (8 + (f * d + s) * 4) w) [pcm..<d]) [0..<frames] m) =
      (if pcm \<le> s then ToBusOrder w else payload_quadlet b (frame * d + s) m)" for w m
    by (simp only: payload_quadlet_fold2 in_iff)
  moreover have "s < d" using assms(2) by (simp add: d_def)
  ultimately show ?thesis
    unfolding WriteDataPacketDefaults_def Let_def d_def [symmetric] pcm_def [symmetric]
    using assms(4,5) z by (simp add: n del: distrib_right_numeral)
qed

definition payload_default :: "AmdtpTxPacketizer \<Rightarrow> nat \<Rightarrow> u32" where
  "payload_default pk s = (if s < unat (sc_pcmChannels (pk_streamConfig pk)) then 0
     else ToBusOrder (tp_defaultNonAudioSlotWord (pk_txPolicy pk)))"

definition payload_is_default :: "AmdtpTxPacketizer \<Rightarrow> nat \<Rightarrow> nat \<Rightarrow> packet_memory \<Rightarrow> bool" where
  "payload_is_default pk b frames mem =
     list_all (\<lambda>frame. list_all (\<lambda>s. payload_quadlet b (frame * unat (sc_dbs (pk_streamConfig pk)) + s) mem =
       payload_default pk s) [0..<unat (sc_dbs (pk_streamConfig pk))]) [0..<frames]"

text \<open>
  C30: the packet image. A prepared packet's bytes lie within the buffer's capacity and nothing outside them
  is written, in this buffer or another. Unless the packet is an empty idle packet, its first two quadlets
  decode to the stream's header with the packet's own counter and time stamp, and with the no-data format
  field when it carries no data. Under the default policy the payload of a data packet is silence in every
  PCM slot and the configured word in every other slot, for every frame of the packet.
\<close>

theorem tx_packet_image:
  assumes "prepare_possible slot plan pk" "sv_bytes slot = Some b"
  shows "case PrepareNextPacket slot timing plan pk mem out of (ok, pk', mem', p) \<Rightarrow>
     ok \<and> pp_byteCount p \<le> sv_capacityBytes slot
     \<and> (\<forall>b' k. b' = b \<and> k < unat (pp_byteCount p) \<or> mem' b' k = mem b' k)
     \<and> (if pp_byteCount p = 0 then pp_isData p = False
        else cip_Decode (load_quadlet b 0 mem') (load_quadlet b 4 mem') =
          Some \<lparr>ch_sourceNodeId = cc_sid (pk_cipBuilder pk) AND 0x3F, ch_dataBlockSize = cc_dbs (pk_cipBuilder pk),
                ch_sourcePacketHeader = cc_sph (pk_cipBuilder pk), ch_dataBlockCounter = pp_dbc p,
                ch_format = cc_fmt (pk_cipBuilder pk) AND 0x3F,
                ch_fdf = (if pp_isData p then cc_fdf (pk_cipBuilder pk) else cc_noDataFdf (pk_cipBuilder pk)),
                ch_syt = pp_syt p\<rparr>)
     \<and> (if pp_isData p \<and> tp_clearPayloadBeforeExposure (pk_txPolicy pk) \<and> tp_initializeNonAudioSlots (pk_txPolicy pk)
        then payload_is_default pk b (unat (pp_framesInPacket p)) mem' else True)"
proof -
  let ?p = "plan_packet slot timing plan pk" and ?mem = "prepared_memory slot timing plan pk mem"
  have cap: "pp_byteCount ?p \<le> sv_capacityBytes slot"
    using assms(1) by (simp add: prepare_possible_def plan_packet_def)
  have k8: "unat kCipHeaderBytes = 8" by (simp add: kCipHeaderBytes_def)
  show ?thesis
  proof (cases "plan_isData plan")
    case True
    define h where "h = BuildData (pk_cipBuilder pk) (pp_dbc ?p) (pp_syt ?p)"
    let ?D = "WriteDataPacketDefaults b (plan_payloadBytes plan pk) pk"
    have mem: "?mem = ?D (WriteCipHeader b h mem)"
      using assms True by (simp add: prepared_memory_def Let_def h_def)
    have bc: "unat (pp_byteCount ?p) = 8 + unat (plan_payloadBytes plan pk)"
      using True by (simp add: plan_packet_def plan_byteCount_def payload_nat)
    have "b' = b \<and> k < unat (pp_byteCount ?p) \<or> ?mem b' k = mem b' k" for b' k
      using writes_within_Defaults [of b "plan_payloadBytes plan pk" pk] writes_within_Header [of b h]
      unfolding mem writes_within_def bc by (metis atLeastLessThan_iff trans_less_add1)
    moreover have "load_quadlet b 0 ?mem = ToBusOrder (cw_q0 h)" "load_quadlet b 4 ?mem = ToBusOrder (cw_q1 h)"
      unfolding mem by (subst load_within [OF writes_within_Defaults], auto simp: load_Header)+
    moreover have "pp_byteCount ?p \<noteq> 0" using bc by (auto simp: word_unat_eq_iff)
    moreover have "payload_is_default pk b (unat (pp_framesInPacket ?p)) ?mem"
      if "tp_clearPayloadBeforeExposure (pk_txPolicy pk)" "tp_initializeNonAudioSlots (pk_txPolicy pk)"
      unfolding payload_is_default_def payload_default_def mem list_all_iff
      using that by (simp add: payload_Defaults [where frames = "unat (plan_frames plan)"] plan_packet_def payload_nat)
    moreover have "pp_isData ?p" using True by (simp add: plan_packet_def)
    ultimately show ?thesis
      using cap by (simp add: Prepare_eq [OF assms(1)] h_def cip_Decode_BuildData)
  next
    case False
    define h where "h = BuildNoData (pk_cipBuilder pk) (pp_dbc ?p)"
    have ne: "\<not> pp_isData ?p" "pp_syt ?p = 0xFFFF" using False by (simp_all add: plan_packet_def kNoInfo_def)
    show ?thesis
    proof (cases "tp_emptyPacketsDuringIdle (pk_txPolicy pk)")
      case True
      then have "?mem = mem" "pp_byteCount ?p = 0"
        using False by (simp_all add: prepared_memory_def plan_packet_def plan_byteCount_def)
      then show ?thesis using cap ne by (simp add: Prepare_eq [OF assms(1)])
    next
      case nempty: False
      then have mem: "?mem = WriteCipHeader b h mem" and bc: "pp_byteCount ?p = 8"
        using False assms(2) by (simp_all add: prepared_memory_def plan_packet_def plan_byteCount_def h_def kCipHeaderBytes_def)
      have "b' = b \<and> k < 8 \<or> ?mem b' k = mem b' k" for b' k
        using writes_within_Header [of b h] unfolding mem writes_within_def by (metis atLeastLessThan_iff)
      moreover have "load_quadlet b 0 ?mem = ToBusOrder (cw_q0 h)" "load_quadlet b 4 ?mem = ToBusOrder (cw_q1 h)"
        unfolding mem by (rule load_Header)+
      ultimately show ?thesis
        using cap ne bc by (simp add: Prepare_eq [OF assms(1)] h_def cip_Decode_BuildNoData)
    qed
  qed
qed

theorem tx_packet_image_witness:
  "case PrepareNextPacket (demo_view 3) demo_timing demo_plan demo_pk (\<lambda>_ _. 0) blank_packet of (ok, pk', mem', p) \<Rightarrow>
     ok \<and> pp_byteCount p \<le> 512"
  using tx_packet_image [OF demo_possible(1), where b = 3 and timing = demo_timing and mem = "\<lambda>_ _. 0" and out = blank_packet]
  by (auto simp: demo_view_def split: prod.splits)

end
