(* ===== verification/Tx_Stream.thy ===== *)
theory Tx_Stream
  imports Tx_Image
begin

text \<open>
  The packetizer (\<^verbatim>\<open>Audio/Wire/AMDTP/AmdtpTxPacketizer.cpp\<close>) over many cycles: continuity of frames and data
  block counters, turning a data packet back, and the long-run rate of a configured blocking stream.
\<close>

section \<open>The stream of packets\<close>

text \<open>A run of calls, one per cycle; a call that fails contributes no packet.\<close>

fun tx_run :: "(TxPacketSlotView \<times> AmdtpTimingState) list \<Rightarrow> AmdtpTxPacketizer \<Rightarrow> packet_memory
    \<Rightarrow> AmdtpTxPacketizer \<times> PreparedTxPacket list" where
  "tx_run [] pk mem = (pk, [])"
| "tx_run ((slot, timing) # xs) pk mem =
     (case PrepareNextPacketFromCadence slot timing pk mem blank_packet of
        (ok, pk1, mem1, p) \<Rightarrow>
          (case tx_run xs pk1 mem1 of (pk2, ps) \<Rightarrow> (pk2, if ok then p # ps else ps)))"

definition packet_frames :: "PreparedTxPacket \<Rightarrow> nat" where
  "packet_frames p = unat (pp_framesInPacket p)"

definition frames_before :: "PreparedTxPacket list \<Rightarrow> nat \<Rightarrow> nat" where
  "frames_before ps i = sum_list (map packet_frames (take i ps))"

lemma advance_keeps [simp]:
  "pk_dbcCounter (cadence_AdvanceCycle c pk) = pk_dbcCounter pk"
  "pk_txPolicy (cadence_AdvanceCycle c pk) = pk_txPolicy pk"
  "pk_telemetry (cadence_AdvanceCycle c pk) = pk_telemetry pk"
  "pk_timeline (cadence_AdvanceCycle c pk) = pk_timeline pk"
  "pk_cipBuilder (cadence_AdvanceCycle c pk) = pk_cipBuilder pk"
  "pk_cursorEpoch (cadence_AdvanceCycle c pk) = pk_cursorEpoch pk"
  "pk_streamConfig (cadence_AdvanceCycle c pk) = pk_streamConfig pk"
  "pk_cadence (cadence_AdvanceCycle c pk) = pk_cadence pk"
  by (simp_all add: cadence_AdvanceCycle_def split: cadence_in_use.splits)

lemma telemetry_keeps [simp]:
  "pk_dbcCounter (PublishTelemetrySnapshot pk) = pk_dbcCounter pk"
  "pk_txPolicy (PublishTelemetrySnapshot pk) = pk_txPolicy pk"
  "pk_timeline (PublishTelemetrySnapshot pk) = pk_timeline pk"
  "pk_cipBuilder (PublishTelemetrySnapshot pk) = pk_cipBuilder pk"
  "pk_streamConfig (PublishTelemetrySnapshot pk) = pk_streamConfig pk"
  "pk_cadence (PublishTelemetrySnapshot pk) = pk_cadence pk"
  "pk_blockingCadence (PublishTelemetrySnapshot pk) = pk_blockingCadence pk"
  "pk_nonBlockingCadence (PublishTelemetrySnapshot pk) = pk_nonBlockingCadence pk"
  "pk_nextAudioFrame (PublishTelemetrySnapshot pk) = pk_nextAudioFrame pk"
  "pk_dbcCounter (set_nextAudioFrame f pk) = pk_dbcCounter pk"
  "pk_txPolicy (set_nextAudioFrame f pk) = pk_txPolicy pk"
  "pk_timeline (set_nextAudioFrame f pk) = pk_timeline pk"
  "pk_cipBuilder (set_nextAudioFrame f pk) = pk_cipBuilder pk"
  "pk_streamConfig (set_nextAudioFrame f pk) = pk_streamConfig pk"
  "pk_cadence (set_nextAudioFrame f pk) = pk_cadence pk"
  "pk_blockingCadence (set_nextAudioFrame f pk) = pk_blockingCadence pk"
  "pk_nonBlockingCadence (set_nextAudioFrame f pk) = pk_nonBlockingCadence pk"
  "pk_nextAudioFrame (set_nextAudioFrame f pk) = f"
  by (simp_all add: PublishTelemetrySnapshot_def set_nextAudioFrame_def pk_nextAudioFrame_def)

lemma nextAudioFrame_advance [simp]: "pk_nextAudioFrame (cadence_AdvanceCycle c pk) = pk_nextAudioFrame pk"
  by (simp add: pk_nextAudioFrame_def)

lemma prepared_counters:
  "pk_dbcCounter (prepared_state slot timing plan pk) = pk_dbcCounter pk + plan_frames plan"
  "pk_txPolicy (prepared_state slot timing plan pk) = pk_txPolicy pk"
  "pk_nextAudioFrame (prepared_state slot timing plan pk) =
     (if plan_isData plan then pl_firstAudioFrame plan + ucast (plan_frames plan) else pk_nextAudioFrame pk)"
  by (simp_all add: prepared_state_def Let_def dbc_AdvanceDataBlocks_def plan_frames_def pk_nextAudioFrame_def)
     (simp_all add: set_nextAudioFrame_def PublishTelemetrySnapshot_def)

lemma of_nat_unat_u8 [simp]: "(of_nat (unat w) :: u8) = w" "(of_nat (unat w) :: u64) = ucast w" for w :: u8
  by (simp_all add: word_unat_eq_iff unat_of_nat)

lemma prepare_step:
  assumes "PrepareNextPacketFromCadence slot timing pk mem out = (ok, pk1, mem1, p)"
  shows "if ok then pp_firstAudioFrame p = pk_nextAudioFrame pk
      \<and> pp_dbc p = pk_dbcCounter pk + (if tp_dbcIsEndEvent (pk_txPolicy pk) then of_nat (packet_frames p) else 0)
      \<and> pk_nextAudioFrame pk1 = pk_nextAudioFrame pk + of_nat (packet_frames p)
      \<and> pk_dbcCounter pk1 = pk_dbcCounter pk + of_nat (packet_frames p)
      \<and> pk_txPolicy pk1 = pk_txPolicy pk
    else pk1 = pk"
proof (cases "pk_cadence pk")
  case None
  then show ?thesis using assms by (auto simp: PrepareNextPacketFromCadence_def)
next
  case (Some c)
  define plan where "plan = plan_from_cadence c slot timing pk"
  have eq: "PrepareNextPacket slot timing plan pk mem out = (ok, pk1, mem1, p)"
    using assms Some by (simp add: PrepareNextPacketFromCadence_def plan_def)
  have first: "pl_firstAudioFrame plan = pk_nextAudioFrame pk"
    by (simp add: plan_def plan_from_cadence_def Let_def pk_nextAudioFrame_def)
  show ?thesis
  proof (cases "prepare_possible slot plan pk")
    case True
    have fr: "packet_frames (plan_packet slot timing plan pk) = unat (plan_frames plan)"
      by (simp add: packet_frames_def plan_packet_def)
    show ?thesis
      using eq first fr Prepare_eq [OF True, of timing mem out]
      by (auto simp: prepared_counters plan_packet_def plan_frames_def)
  next
    case False
    then show ?thesis using eq Prepare_impossible [OF False, of timing mem out] by simp
  qed
qed

lemma frames_before_simps:
  "frames_before (p # ps) (Suc i) = packet_frames p + frames_before ps i" "frames_before ps 0 = 0"
  by (simp_all add: frames_before_def)

lemma list_all_upt_Suc: "list_all P [0..<Suc n] \<longleftrightarrow> P 0 \<and> list_all (\<lambda>i. P (Suc i)) [0..<n]"
  by (auto simp: list_all_iff less_Suc_eq_0_disj simp del: upt_Suc)

lemma tx_run_counters:
  "case tx_run xs pk mem of (pk', ps) \<Rightarrow>
     pk_nextAudioFrame pk' = pk_nextAudioFrame pk + of_nat (frames_before ps (length ps))
     \<and> pk_dbcCounter pk' = pk_dbcCounter pk + of_nat (frames_before ps (length ps))"
proof (induction xs arbitrary: pk mem)
  case (Cons x xs)
  obtain slot timing where x: "x = (slot, timing)" by (cases x)
  obtain ok pk1 mem1 p where r: "PrepareNextPacketFromCadence slot timing pk mem blank_packet = (ok, pk1, mem1, p)"
    by (cases "PrepareNextPacketFromCadence slot timing pk mem blank_packet") auto
  show ?case
    using Cons [of pk1 mem1] prepare_step [OF r] x r
    by (cases ok) (auto simp: frames_before_simps add.assoc split: prod.splits)
qed (simp add: frames_before_simps)

text \<open>
  C28: the stream has no gaps. Over any sequence of cycles - data, no data and failed calls in any order - the
  first frame of each packet is the start of the stream plus the frames of all packets before it, and its
  counter is the initial counter plus the data blocks before it, modulo 256 (including its own blocks in the
  families that count the end); the cursor and the counter after the run continue both sequences.
\<close>

theorem tx_stream_continuity:
  "case tx_run xs pk mem of (pk', ps) \<Rightarrow>
     list_all (\<lambda>i. pp_firstAudioFrame (ps ! i) = pk_nextAudioFrame pk + of_nat (frames_before ps i)
        \<and> pp_dbc (ps ! i) = pk_dbcCounter pk
            + of_nat (frames_before ps (if tp_dbcIsEndEvent (pk_txPolicy pk) then i + 1 else i))) [0..<length ps]
     \<and> pk_nextAudioFrame pk' = pk_nextAudioFrame pk + of_nat (frames_before ps (length ps))
     \<and> pk_dbcCounter pk' = pk_dbcCounter pk + of_nat (frames_before ps (length ps))"
proof (induction xs arbitrary: pk mem)
  case Nil
  then show ?case by (simp add: frames_before_def)
next
  case (Cons x xs)
  obtain slot timing where x: "x = (slot, timing)" by (cases x)
  obtain ok pk1 mem1 p where r: "PrepareNextPacketFromCadence slot timing pk mem blank_packet = (ok, pk1, mem1, p)"
    by (cases "PrepareNextPacketFromCadence slot timing pk mem blank_packet") auto
  obtain pk2 ps where r2: "tx_run xs pk1 mem1 = (pk2, ps)" by (cases "tx_run xs pk1 mem1")
  note IH = Cons [of pk1 mem1, unfolded r2 prod.case] and step = prepare_step [OF r]
  show ?case
  proof (cases ok)
    case False
    then show ?thesis using IH step x r r2 by simp
  next
    case True
    show ?thesis
      using IH step True x r r2
      by (cases "tp_dbcIsEndEvent (pk_txPolicy pk)")
         (simp_all add: list_all_upt_Suc frames_before_simps add.assoc del: upt_Suc)
  qed
qed

section \<open>Turning a data packet back\<close>

lemma spec_put_twice: "spec_put n k v (spec_put n k w m) = spec_put n k v m"
  by (auto simp: spec_put_def fun_eq_iff)

lemma prepared_cadences:
  "pk_blockingCadence (prepared_state slot timing (plan\<lparr>pl_disposition := d\<rparr>) pk) =
   pk_blockingCadence (prepared_state slot timing plan pk)"
  "pk_nonBlockingCadence (prepared_state slot timing (plan\<lparr>pl_disposition := d\<rparr>) pk) =
   pk_nonBlockingCadence (prepared_state slot timing plan pk)"
  by (simp_all add: prepared_state_def Let_def cadence_AdvanceCycle_def split: cadence_in_use.splits)

lemma prepared_keeps:
  "pk_txPolicy (prepared_state slot timing plan pk) = pk_txPolicy pk"
  "pk_cipBuilder (prepared_state slot timing plan pk) = pk_cipBuilder pk"
  "pk_timeline (prepared_state slot timing plan pk) = map_option (prepared_timeline slot timing plan pk) (pk_timeline pk)"
  by (simp_all add: prepared_state_def Let_def)

lemma exposed_slots: "tl_slots t = Some ss \<Longrightarrow> \<exists>ss'. tl_slots (snd (tl_ExposeDataPacket p b c t)) = Some ss' \<and> length ss' = length ss"
  by (auto simp: tl_ExposeDataPacket_def Let_def split: option.splits)

text \<open>
  Turning a prepared data packet back into a cycle without data gives what preparing no data would have
  given: the same packet, counter, cadence, header quadlets and known packets; and the cursor stands again at
  the packet's first frame, so the frames go out with the next data packet.
\<close>

lemma revert_is_no_data:
  assumes "prepare_possible slot plan pk" "plan_isData plan" "sv_bytes slot = Some b"
    and "pk_timeline pk = Some t" "tl_ok t"
  shows "case (PrepareNextPacket slot timing plan pk mem out,
               PrepareNextPacket slot timing (plan\<lparr>pl_disposition := NoData\<rparr>) pk mem out) of
     ((ok, pk1, mem1, p1), (ok', pk', mem', p')) \<Rightarrow>
       (case RevertToNoData slot p1 pk1 mem1 of
          None \<Rightarrow> False
        | Some (pk2, mem2, p2) \<Rightarrow>
            ok \<and> ok' \<and> p2 = p' \<and> pk_dbcCounter pk2 = pk_dbcCounter pk \<and> pk_dbcCounter pk' = pk_dbcCounter pk
            \<and> pk_nextAudioFrame pk2 = pl_firstAudioFrame plan
            \<and> pk_blockingCadence pk2 = pk_blockingCadence pk' \<and> pk_nonBlockingCadence pk2 = pk_nonBlockingCadence pk'
            \<and> map_option tl_abs (pk_timeline pk2) = map_option tl_abs (pk_timeline pk')
            \<and> (if pp_byteCount p2 = 0 then True
               else load_quadlet b 0 mem2 = load_quadlet b 0 mem' \<and> load_quadlet b 4 mem2 = load_quadlet b 4 mem'))"
proof -
  let ?plan' = "plan\<lparr>pl_disposition := NoData\<rparr>"
  have nd: "\<not> plan_isData ?plan'" "plan_frames ?plan' = 0" by (simp_all add: plan_isData_def plan_frames_def)
  have "unat kCipHeaderBytes \<le> unat (plan_byteCount plan pk)"
    using assms(2) by (simp add: plan_byteCount_def payload_nat) (simp add: kCipHeaderBytes_def)
  then have poss: "prepare_possible slot ?plan' pk"
    using assms(1,2,4) nd by (auto simp: prepare_possible_def plan_byteCount_def word_le_nat_alt)
  obtain ss where ss: "tl_slots t = Some ss" using assms(1,2,4) by (auto simp: prepare_possible_def)
  let ?t1 = "prepared_timeline slot timing plan pk t"
  obtain ss' where ss': "tl_slots ?t1 = Some ss'" "length ss' = length ss"
    using exposed_slots [OF ss] assms(2) by (fastforce simp: prepared_timeline_def)
  have ok1: "tl_ok ?t1" using assms(2,5) by (simp add: prepared_timeline_def tl_ok_ops)
  have abs1: "\<exists>m v. tl_abs ?t1 = m \<and> (m = tl_abs t \<or> m = spec_put (length ss) (sv_packetIndex slot) v (tl_abs t))"
    using assms(2,3) abs_Expose [OF assms(5) ss, of "plan_packet slot timing plan pk" b "sv_capacityBytes slot"]
    by (auto simp: prepared_timeline_def plan_packet_def)
  have tla: "tl_abs (tl_MarkNoDataPacket (sv_packetIndex slot) ?t1) = tl_abs (tl_MarkNoDataPacket (sv_packetIndex slot) t)"
    using abs_MarkNoData [OF ok1 ss'(1)] abs_MarkNoData [OF assms(5) ss] abs1 ss'(2)
    by (auto simp: spec_put_twice)
  define p1 where "p1 = plan_packet slot timing plan pk"
  define pk1 where "pk1 = prepared_state slot timing plan pk"
  define mem1 where "mem1 = prepared_memory slot timing plan pk mem"
  define empty where "empty = tp_emptyPacketsDuringIdle (pk_txPolicy pk)"
  let ?p2 = "p1\<lparr>pp_byteCount := (if empty then 0 else kCipHeaderBytes), pp_isData := False,
      pp_dbc := pk_dbcCounter pk, pp_framesInPacket := 0, pp_syt := kNoInfo\<rparr>"
  have p1: "pp_isData p1" "pp_packetIndex p1 = sv_packetIndex slot" "pp_firstAudioFrame p1 = pl_firstAudioFrame plan"
    "ucast (pp_framesInPacket p1) = plan_frames plan"
    using assms(2) by (simp_all add: plan_packet_def p1_def)
  have pk1: "tp_emptyPacketsDuringIdle (pk_txPolicy pk1) = empty" "pk_cipBuilder pk1 = pk_cipBuilder pk" "pk_timeline pk1 = Some ?t1"
    using assms(4) by (simp_all add: pk1_def empty_def prepared_keeps)
  have dbc: "dbc_RewindDataBlocks (plan_frames plan) (pk_dbcCounter pk1) = pk_dbcCounter pk"
    by (simp add: pk1_def dbc_RewindDataBlocks_def prepared_counters)
  have rev: "RevertToNoData slot p1 pk1 mem1 =
      Some (PublishTelemetrySnapshot (set_nextAudioFrame (pl_firstAudioFrame plan)
              (pk1\<lparr>pk_dbcCounter := pk_dbcCounter pk,
                   pk_timeline := Some (tl_MarkNoDataPacket (sv_packetIndex slot) ?t1), pk_hasLastDataPacket := False\<rparr>)),
            (if empty then mem1 else WriteCipHeader b (BuildNoData (pk_cipBuilder pk) (pk_dbcCounter pk)) mem1), ?p2)"
    unfolding RevertToNoData_def Let_def by (simp add: p1 pk1 dbc assms(3))
  have p': "plan_packet slot timing ?plan' pk = ?p2"
    using nd by (simp add: plan_packet_def p1_def plan_byteCount_def empty_def)
  have t': "map_option tl_abs (pk_timeline (prepared_state slot timing ?plan' pk)) = Some (tl_abs (tl_MarkNoDataPacket (sv_packetIndex slot) t))"
    using nd assms(4) by (simp add: prepared_keeps prepared_timeline_def)
  have m': "prepared_memory slot timing ?plan' pk mem =
      (if empty then mem else WriteCipHeader b (BuildNoData (pk_cipBuilder pk) (pk_dbcCounter pk)) mem)"
    using nd assms(3) by (simp add: prepared_memory_def Let_def empty_def plan_packet_def)
  have c': "pk_dbcCounter (prepared_state slot timing ?plan' pk) = pk_dbcCounter pk"
    using nd by (simp add: prepared_counters)
  show ?thesis
    unfolding Prepare_eq [OF assms(1)] Prepare_eq [OF poss] p1_def [symmetric] pk1_def [symmetric] mem1_def [symmetric] p' m'
    by (simp add: rev t' c' tla load_Header prepared_cadences pk1_def [symmetric])
qed

section \<open>The stream keeps the sample rate\<close>

definition stream_ready :: "AmdtpTxPacketizer \<Rightarrow> bool" where
  "stream_ready pk \<longleftrightarrow> pk_cadence pk = Some UseBlocking \<and> bc_ok (pk_blockingCadence pk)
     \<and> rc_sytInterval (pk_blockingCadence pk) \<le> unat (sc_framesPerDataPacket (pk_streamConfig pk))
     \<and> (case pk_timeline pk of None \<Rightarrow> False | Some t \<Rightarrow> tl_slots t \<noteq> None)"

text \<open>A cycle whose packet buffer holds a full data packet and whose timing asks for data by the cadence.\<close>

definition data_cycle :: "AmdtpStreamConfig \<Rightarrow> TxPacketSlotView \<times> AmdtpTimingState \<Rightarrow> bool" where
  "data_cycle config x \<longleftrightarrow>
     sv_bytes (fst x) \<noteq> None
     \<and> 8 + unat (sc_framesPerDataPacket config) * unat (sc_dbs config) * 4 \<le> unat (sv_capacityBytes (fst x))
     \<and> tm_disposition (snd x) = Data \<and> \<not> tm_replayValid (snd x)"

definition cycle_frames :: "RationalBlockingCadence \<Rightarrow> nat" where
  "cycle_frames c = (if bc_CurrentCycleIsData c then bc_CurrentCycleDataFrames c else 0)"

lemma cycle_frames_le: "cycle_frames c \<le> rc_sytInterval c"
  by (simp add: cycle_frames_def bc_CurrentCycleDataFrames_def rc_CurrentDecision_def NoDecision_def)

lemma cycle_frames_pos: "bc_ok c \<Longrightarrow> bc_CurrentCycleIsData c \<Longrightarrow> 0 < cycle_frames c"
  by (auto simp: cycle_frames_def bc_CurrentCycleIsData_def bc_CurrentCycleDataFrames_def rc_CurrentDecision_def
      NoDecision_def bc_ok_def split: if_splits)

lemma sent_Suc: "blocking.sent (Suc n) c = cycle_frames c + blocking.sent n (rc_AdvanceCycle c)"
  unfolding blocking.sent_def sum.lessThan_Suc_shift
  by (simp add: cycle_frames_def funpow_swap1 Let_def)

lemma advance_sytInterval: "bc_ok c \<Longrightarrow> rc_sytInterval (rc_AdvanceCycle c) = rc_sytInterval c"
  using bc_advance [of c] by (simp add: bc_block_def)

lemma ready_plan:
  assumes "stream_ready pk" "data_cycle (pk_streamConfig pk) (slot, timing)"
  defines "plan \<equiv> plan_from_cadence UseBlocking slot timing pk"
  shows "unat (plan_frames plan) = cycle_frames (pk_blockingCadence pk)"
    and "prepare_possible slot plan pk"
proof -
  let ?c = "pk_blockingCadence pk"
  have c: "bc_ok ?c" "cycle_frames ?c \<le> unat (sc_framesPerDataPacket (pk_streamConfig pk))"
    using assms(1) cycle_frames_le [of ?c] by (auto simp: stream_ready_def)
  have small: "cycle_frames ?c < 256" using c(2) unsigned_less [of "sc_framesPerDataPacket (pk_streamConfig pk)", where 'a = nat] by simp
  have isD: "pl_disposition plan = (if bc_CurrentCycleIsData ?c then Data else NoData)"
    and fr: "pl_frameCount plan = ucast (if bc_CurrentCycleIsData ?c then of_nat (bc_CurrentCycleDataFrames ?c) else 0 :: u8)"
    using assms(2) by (simp_all add: plan_def plan_from_cadence_def Let_def data_cycle_def cadence_CurrentCycleIsData_def
        cadence_CurrentCycleDataFrames_def)
  have n: "unat (pl_frameCount plan) = cycle_frames ?c"
    using small unfolding fr by (simp add: cycle_frames_def unat_of_nat split: if_splits)
  have d: "plan_isData plan \<longleftrightarrow> bc_CurrentCycleIsData ?c"
    using isD n cycle_frames_pos [OF c(1)] by (auto simp: plan_isData_def word_less_nat_alt)
  have "pl_frameCount plan \<le> ucast (sc_framesPerDataPacket (pk_streamConfig pk))"
    using n c(2) by (simp add: word_le_nat_alt)
  then show pf: "unat (plan_frames plan) = cycle_frames ?c"
    using n d u32_of_u8_frames [of "pl_frameCount plan" "sc_framesPerDataPacket (pk_streamConfig pk)"]
    by (simp add: plan_frames_def cycle_frames_def)
  have "unat (plan_payloadBytes plan pk) \<le> unat (sc_framesPerDataPacket (pk_streamConfig pk)) * unat (sc_dbs (pk_streamConfig pk)) * 4"
    unfolding payload_nat pf using c(2) by (intro mult_le_mono) auto
  then have "plan_byteCount plan pk \<le> sv_capacityBytes slot"
    using assms(2) by (auto simp: data_cycle_def plan_byteCount_def word_le_nat_alt payload_nat(2))
      (simp_all add: kCipHeaderBytes_def)
  moreover have "pl_epoch plan = pk_cursorEpoch pk" by (simp add: plan_def plan_from_cadence_def Let_def)
  ultimately show "prepare_possible slot plan pk"
    using assms(1,2) \<open>pl_frameCount plan \<le> _\<close>
    by (auto simp: prepare_possible_def stream_ready_def data_cycle_def split: option.splits)
qed

lemma ready_step:
  assumes "stream_ready pk" "data_cycle (pk_streamConfig pk) (slot, timing)"
  obtains pk1 mem1 p where "PrepareNextPacketFromCadence slot timing pk mem out = (True, pk1, mem1, p)"
    and "stream_ready pk1" "pk_streamConfig pk1 = pk_streamConfig pk"
    and "pk_blockingCadence pk1 = rc_AdvanceCycle (pk_blockingCadence pk)"
    and "packet_frames p = cycle_frames (pk_blockingCadence pk)"
proof -
  define plan where "plan = plan_from_cadence UseBlocking slot timing pk"
  note ready = ready_plan [OF assms, folded plan_def]
  let ?pk1 = "prepared_state slot timing plan pk"
  have c: "pk_cadence pk = Some UseBlocking" "bc_ok (pk_blockingCadence pk)" using assms(1) by (simp_all add: stream_ready_def)
  have adv: "pk_blockingCadence ?pk1 = rc_AdvanceCycle (pk_blockingCadence pk)"
    using c by (simp add: prepared_state_def Let_def cadence_AdvanceCycle_def)
  have cfg: "pk_streamConfig ?pk1 = pk_streamConfig pk" "pk_cadence ?pk1 = pk_cadence pk"
    by (simp_all add: prepared_state_def Let_def)
  obtain t ss where t: "pk_timeline pk = Some t" "tl_slots t = Some ss"
    using assms(1) by (auto simp: stream_ready_def split: option.splits)
  have "tl_slots (tl_MarkNoDataPacket k t) \<noteq> None" for k using t by (simp add: tl_MarkNoDataPacket_def Let_def)
  then have "tl_slots (prepared_timeline slot timing plan pk t) \<noteq> None"
    using exposed_slots [OF t(2)] by (fastforce simp: prepared_timeline_def)
  then have rdy: "stream_ready ?pk1"
    using assms(1) adv cfg t c bc_advance [OF c(2)] by (simp add: stream_ready_def prepared_keeps advance_sytInterval)
  have fr: "packet_frames (plan_packet slot timing plan pk) = cycle_frames (pk_blockingCadence pk)"
    using ready(1) by (simp add: packet_frames_def plan_packet_def)
  have eq: "PrepareNextPacketFromCadence slot timing pk mem out =
      (True, ?pk1, prepared_memory slot timing plan pk mem, plan_packet slot timing plan pk)"
    using c Prepare_eq [OF ready(2)] by (simp add: PrepareNextPacketFromCadence_def plan_def)
  show ?thesis using that [OF eq rdy cfg(1) adv fr] .
qed

lemma ready_run:
  assumes "stream_ready pk" "list_all (data_cycle (pk_streamConfig pk)) xs"
  shows "case tx_run xs pk mem of (pk', ps) \<Rightarrow>
    length ps = length xs \<and> frames_before ps (length ps) = blocking.sent (length xs) (pk_blockingCadence pk)"
  using assms
proof (induction xs arbitrary: pk mem)
  case Nil
  then show ?case by (simp add: frames_before_simps blocking.sent_def)
next
  case (Cons x xs)
  obtain slot timing where x: "x = (slot, timing)" by (cases x)
  have "data_cycle (pk_streamConfig pk) (slot, timing)" using Cons.prems(2) x by simp
  from ready_step [OF Cons.prems(1) this, of mem blank_packet] obtain pk1 mem1 p where
    r: "PrepareNextPacketFromCadence slot timing pk mem blank_packet = (True, pk1, mem1, p)"
    "stream_ready pk1" "pk_streamConfig pk1 = pk_streamConfig pk"
    "pk_blockingCadence pk1 = rc_AdvanceCycle (pk_blockingCadence pk)"
    "packet_frames p = cycle_frames (pk_blockingCadence pk)" .
  have "list_all (data_cycle (pk_streamConfig pk1)) xs" using Cons.prems(2) r(3) by simp
  from Cons.IH [OF r(2) this, of mem1] show ?case
    using x r by (auto simp: frames_before_simps sent_Suc split: prod.splits)
qed

lemma rate_bounds:
  "AmdtpRateGeometryForSampleRate hz = Some g \<Longrightarrow>
     rg_sytIntervalFrames g < 256 \<and> 0 < rg_sytIntervalFrames g \<and> 0 < hz \<and> hz \<le> 8000 * rg_sytIntervalFrames g \<and> hz < 2 ^ 32"
  by (auto simp: AmdtpRateGeometryForSampleRate_def split: if_splits)

lemma bc_Configure_Reset:
  "fst (bc_Configure rate syt e) \<Longrightarrow> rc_Reset (snd (bc_Configure rate syt e)) = snd (bc_Configure rate syt e)"
  by (auto simp: bc_Configure_def rc_Configure_def rc_Reset_def Let_def split: if_splits)

lemma Configure_blocking:
  assumes "pk_Configure config policy pk = (True, pk')" "sc_streamMode config = Blocking"
    "AmdtpRateGeometryForSampleRate (unat (sc_sampleRate config)) = Some g"
  shows "pk_cadence pk' = Some UseBlocking \<and> bc_ok (pk_blockingCadence pk')
    \<and> rc_denominator (pk_blockingCadence pk') = unat (sc_sampleRate config)
    \<and> rc_sytInterval (pk_blockingCadence pk') = rg_sytIntervalFrames g \<and> bc_owed (pk_blockingCadence pk') = 0
    \<and> pk_timeline pk' = pk_timeline pk \<and> pk_dbcCounter pk' = 0 \<and> pk_nextAudioFrame pk' = 0
    \<and> sc_framesPerDataPacket (pk_streamConfig pk') = sc_framesPerDataPacket config
    \<and> pk_txPolicy pk' = policy"
proof -
  let ?e = "bc_Configure (unat (sc_sampleRate config)) (rg_sytIntervalFrames g) (pk_blockingCadence pk)"
  note b = rate_bounds [OF assms(3)]
  have ok: "fst ?e" using bc_Configure_iff(1) [of "unat (sc_sampleRate config)" "rg_sytIntervalFrames g"] b by simp
  then have e: "?e = (True, snd ?e)" by (metis prod.collapse)
  note c = bc_Configure_iff(2) [OF _ _ ok]
  have R: "rc_Reset (snd ?e) = snd ?e" using ok by (rule bc_Configure_Reset)
  have m: "rg_sytIntervalFrames g mod 256 = rg_sytIntervalFrames g" using b by simp
  have red: "pk_blockingCadence pk' = rc_Reset (snd ?e) \<and> pk_cadence pk' = Some UseBlocking \<and> pk_timeline pk' = pk_timeline pk
      \<and> pk_dbcCounter pk' = 0 \<and> pk_nextAudioFrame pk' = 0
      \<and> sc_framesPerDataPacket (pk_streamConfig pk') = sc_framesPerDataPacket config \<and> pk_txPolicy pk' = policy"
    using assms
    by (simp add: pk_Configure_def Let_def m split: if_splits;
        subst (asm) e;
        auto simp: Reset_fields)
  with c R b show ?thesis by simp
qed



end
