(* ===== verification/Wire_Timing.thy ===== *)
theory Wire_Timing
  imports Wire_Cadence "HOL-Library.Signed_Division"
begin

text \<open>
  \<^verbatim>\<open>Common/TimingUtils.hpp\<close>, \<^verbatim>\<open>Audio/Wire/AMDTP/AmdtpTiming.hpp\<close>, the time stamp functions of
  \<^verbatim>\<open>Audio/Wire/AMDTP/RxSequenceReplay.hpp\<close>, \<^verbatim>\<open>Audio/Wire/MOTU/MotuSph.hpp\<close> and \<^verbatim>\<open>Audio/Wire/IEC61883/Syt.cpp\<close>:
  the cycle timer of the bus, presentation time stamps (SYT, SPH), and their replay. Register and header
  values are numbers below \<open>2 ^ 32\<close> or \<open>2 ^ 16\<close>: a shift is a division or multiplication by a power of
  two, a mask of low bits is a remainder, and the disjunction of disjoint fields is their sum. Signed
  64-bit values are integers; the C++ remainder truncates toward zero, as \<open>smod\<close> does.
\<close>

section \<open>The cycle timer\<close>

definition kNanosPerSecond :: nat where "kNanosPerSecond = 1000000000"
definition kNanosPerCycle :: nat where "kNanosPerCycle = 125000"
definition kFWTimeWrapSeconds :: nat where "kFWTimeWrapSeconds = 128"
definition kFWTimeWrapNanos :: int where "kFWTimeWrapNanos = 128 * 1000000000"

record CycleTimerFields =
  ct_seconds :: nat
  ct_cycle :: nat
  ct_offset :: nat

definition tstampToOffsets :: "nat \<Rightarrow> nat \<Rightarrow> nat \<Rightarrow> int" where
  "tstampToOffsets seconds cycle offset =
     int kTicksPerCycle * (int cycle + int kCyclesPerSecond * int seconds) + int offset"

definition decodeCycleTimer :: "nat \<Rightarrow> CycleTimerFields" where
  "decodeCycleTimer cycleTimer =
     \<lparr>ct_seconds = cycleTimer div 2 ^ 25 mod 128, ct_cycle = cycleTimer div 2 ^ 12 mod 8192,
      ct_offset = cycleTimer mod 4096\<rparr>"

definition encodeCycleTimer :: "nat \<Rightarrow> nat \<Rightarrow> nat \<Rightarrow> nat" where
  "encodeCycleTimer seconds cycle offset =
     (seconds mod 128) * 2 ^ 25 + (cycle mod 8192) * 2 ^ 12 + offset mod 4096"

definition encodedTstampToOffsets :: "nat \<Rightarrow> int" where
  "encodedTstampToOffsets cycleTimer =
     (let t = decodeCycleTimer cycleTimer in tstampToOffsets (ct_seconds t) (ct_cycle t) (ct_offset t))"

definition encodedFWTimeToNanos :: "nat \<Rightarrow> nat" where
  "encodedFWTimeToNanos cycleTimer =
     (let t = decodeCycleTimer cycleTimer
      in ct_seconds t * kNanosPerSecond + ct_cycle t * kNanosPerCycle
         + (ct_offset t * kNanosPerCycle) div kTicksPerCycle)"

definition nanosToEncodedFWTime :: "nat \<Rightarrow> nat" where
  "nanosToEncodedFWTime nanos0 =
     (let nanos = nanos0 mod (kFWTimeWrapSeconds * kNanosPerSecond);
          sec = (nanos div kNanosPerSecond) mod 128;
          remNs = nanos mod kNanosPerSecond;
          cyc = remNs div kNanosPerCycle;
          offsetNs = remNs mod kNanosPerCycle;
          off = (offsetNs * kTicksPerCycle) div kNanosPerCycle
      in sec * 2 ^ 25 + cyc * 2 ^ 12 + off)"

definition deltaFWTimeNanos :: "nat \<Rightarrow> nat \<Rightarrow> int" where
  "deltaFWTimeNanos a b =
     (let d = int (encodedFWTimeToNanos a) - int (encodedFWTimeToNanos b);
          halfWrap = kFWTimeWrapNanos div 2;
          d = (if d > halfWrap then d - kFWTimeWrapNanos else d)
      in if d < - halfWrap then d + kFWTimeWrapNanos else d)"

definition normalizeToFWTimeRange :: "int \<Rightarrow> int" where
  "normalizeToFWTimeRange nanos = ((nanos smod kFWTimeWrapNanos) + kFWTimeWrapNanos) smod kFWTimeWrapNanos"

section \<open>Presentation time stamps\<close>

definition kEightSecondTicks :: int where "kEightSecondTicks = 8 * 24576000"
definition kSytFieldDomainTicks :: int where "kSytFieldDomainTicks = 16 * 3072"

definition EncodeCycleOffset :: "nat \<Rightarrow> nat \<Rightarrow> nat" where
  "EncodeCycleOffset cycle offsetTicks = (cycle mod 16) * 4096 + offsetTicks mod 4096"

definition extendTstamp :: "nat \<Rightarrow> nat \<Rightarrow> int" where
  "extendTstamp baseCycle syt =
     (let sytCycle4 = syt div 4096 mod 16;
          sytOffset = syt mod 4096;
          cycle = (baseCycle - baseCycle mod 16) + sytCycle4;
          cycle = (if cycle < baseCycle then cycle + 16 else cycle)
      in tstampToOffsets 0 cycle sytOffset)"

text \<open>The body shared by \<open>extOffsetDiff\<close>, \<open>extOffsetDiff1s\<close> and \<open>SYTDiffInOffsets\<close>.\<close>

definition shortest_diff :: "int \<Rightarrow> int \<Rightarrow> int" where
  "shortest_diff domain diff =
     (let d = diff smod domain;
          d = (if d < 0 then d + domain else d)
      in if d > domain div 2 then d - domain else d)"

definition extOffsetDiff :: "int \<Rightarrow> int \<Rightarrow> int" where
  "extOffsetDiff a b = shortest_diff kEightSecondTicks (a - b)"

definition extOffsetDiff1s :: "int \<Rightarrow> int \<Rightarrow> int" where
  "extOffsetDiff1s a b = shortest_diff (int kTicksPerSecond) (a - b)"

definition normalizeOffsetDomain :: "int \<Rightarrow> int" where
  "normalizeOffsetDomain ticks =
     (let t = ticks smod kEightSecondTicks in if t < 0 then t + kEightSecondTicks else t)"

definition sytToFieldTicks :: "nat \<Rightarrow> int" where
  "sytToFieldTicks syt = int (syt div 4096 mod 16) * int kTicksPerCycle + int (syt mod 4096)"

definition SYTDiffInOffsets :: "nat \<Rightarrow> nat \<Rightarrow> int" where
  "SYTDiffInOffsets sytNew sytOld =
     shortest_diff kSytFieldDomainTicks (sytToFieldTicks sytNew - sytToFieldTicks sytOld)"

definition extendTstampFromCycleTimer :: "nat \<Rightarrow> nat \<Rightarrow> int" where
  "extendTstampFromCycleTimer baseCycleTimer syt =
     (let base = decodeCycleTimer baseCycleTimer;
          sytCycle4 = syt div 4096 mod 16;
          sytOffset = syt mod 4096;
          cycle = (ct_cycle base - ct_cycle base mod 16) + sytCycle4;
          (seconds, cycle) =
            (if cycle < ct_cycle base
             then (if cycle + 16 \<ge> kCyclesPerSecond
                   then ((ct_seconds base + 1) mod 128, cycle + 16 - kCyclesPerSecond)
                   else (ct_seconds base, cycle + 16))
             else (ct_seconds base, cycle))
      in tstampToOffsets seconds cycle sytOffset)"

section \<open>Replay of time stamps\<close>

definition ComputeReplaySytOffset :: "nat \<Rightarrow> nat \<Rightarrow> nat \<Rightarrow> nat" where
  "ComputeReplaySytOffset syt sourceCycleTimer transferDelayTicks =
     (if syt = 0xFFFF then 0xFFFFFFFF
      else
        let sourceCycleLow = ct_cycle (decodeCycleTimer sourceCycleTimer) mod 16;
            sytCycleLow = syt div 4096 mod 16;
            sytCycleLow = (if sytCycleLow < sourceCycleLow then sytCycleLow + 16 else sytCycleLow) - sourceCycleLow;
            offset = sytCycleLow * kTicksPerCycle + syt mod 4096;
            offset = (if offset < transferDelayTicks then offset + 16 * kTicksPerCycle else offset)
        in (offset + 2 ^ 32 - transferDelayTicks) mod 2 ^ 32)"

definition ComputeReplaySyt :: "nat \<Rightarrow> nat \<Rightarrow> nat \<Rightarrow> nat" where
  "ComputeReplaySyt sytOffset outputCycleTimer transferDelayTicks =
     (if sytOffset = 0xFFFFFFFF then 0xFFFF
      else
        let outputCycle = ct_cycle (decodeCycleTimer outputCycleTimer);
            presentationOffset = (sytOffset + transferDelayTicks) mod 2 ^ 32;
            cycle = outputCycle + presentationOffset div kTicksPerCycle;
            offset = presentationOffset mod kTicksPerCycle
        in (cycle mod 16) * 4096 + offset)"

definition ComputeReplaySytFromTicks :: "nat \<Rightarrow> int \<Rightarrow> nat \<Rightarrow> nat" where
  "ComputeReplaySytFromTicks sytOffset outputCycleTicks transferDelayTicks =
     (let normalized = normalizeOffsetDomain outputCycleTicks;
          seconds = nat (normalized div int kTicksPerSecond);
          ticksWithinSecond = nat (normalized mod int kTicksPerSecond);
          cycle = ticksWithinSecond div kTicksPerCycle;
          offset = ticksWithinSecond mod kTicksPerCycle
      in ComputeReplaySyt sytOffset (encodeCycleTimer seconds cycle offset) transferDelayTicks)"

definition SphFromTick :: "nat \<Rightarrow> nat" where
  "SphFromTick tick =
     (let wrapped = tick mod kTicksPerSecond
      in (wrapped div kTicksPerCycle) * 2 ^ 12 + wrapped mod kTicksPerCycle)"

definition TickFromSph :: "nat \<Rightarrow> nat" where
  "TickFromSph sph = (sph div 2 ^ 12 mod 8192) * kTicksPerCycle + sph mod 4096"

definition TickOffsetFromBase :: "nat \<Rightarrow> nat \<Rightarrow> nat" where
  "TickOffsetFromBase sph baseTick =
     (let tick = TickFromSph sph;
          tick = (if tick < baseTick then tick + kTicksPerSecond else tick)
      in (tick + 2 ^ 32 - baseTick) mod 2 ^ 32)"

definition ReplaySph :: "nat \<Rightarrow> nat \<Rightarrow> nat" where
  "ReplaySph cachedOffset baseTick = SphFromTick (((baseTick + cachedOffset) mod 2 ^ 32) mod kTicksPerSecond)"

section \<open>Lemmas\<close>

lemma decode_encode:
  assumes "s < 128" "c < 8192" "f < 4096"
  shows "decodeCycleTimer (encodeCycleTimer s c f) = \<lparr>ct_seconds = s, ct_cycle = c, ct_offset = f\<rparr>"
proof -
  have e: "encodeCycleTimer s c f = f + 4096 * (c + 8192 * s)" using assms by (simp add: encodeCycleTimer_def)
  have "(f + 4096 * (c + 8192 * s)) div 4096 = c + 8192 * s" "(f + 4096 * (c + 8192 * s)) mod 4096 = f"
    using assms(3) by (simp_all del: distrib_left_numeral)
  moreover have "(f + 4096 * (c + 8192 * s)) div 2 ^ 25 = s"
  proof -
    have "(f + 4096 * (c + 8192 * s)) div 2 ^ 25 = (f + 4096 * (c + 8192 * s)) div 4096 div 8192"
      by (simp add: div_mult2_eq [symmetric])
    then show ?thesis using assms(2,3) by (simp del: distrib_left_numeral)
  qed
  ultimately show ?thesis using assms by (simp add: decodeCycleTimer_def e del: distrib_left_numeral)
qed

lemma smod_wrap: "0 < k \<Longrightarrow> (if x smod k < 0 then x smod k + k else x smod k) = x mod k" for x k :: int
proof -
  assume k: "0 < k"
  have "x = x smod k + k * (x sdiv k)" by (simp add: smod_mult_sdiv_eq)
  then have "x mod k = (x smod k) mod k" by (metis mod_mult_self2)
  also have "\<dots> = (if x smod k < 0 then x smod k + k else x smod k)"
  proof (cases "x smod k < 0")
    case True
    have "(x smod k) mod k = (x smod k + k) mod k" by simp
    also have "\<dots> = x smod k + k" using True smod_int_range [where a = x and b = k] k by (intro mod_pos_pos_trivial) auto
    finally show ?thesis using True by simp
  next
    case False
    then show ?thesis using smod_int_range [where a = x and b = k] k by simp
  qed
  finally show ?thesis by simp
qed

lemma shortest_diff_range:
  assumes "0 < k"
  shows "- k < 2 * shortest_diff k x" "2 * shortest_diff k x \<le> k" "k dvd x - shortest_diff k x"
proof -
  have d: "shortest_diff k x = (if x mod k > k div 2 then x mod k - k else x mod k)"
    using smod_wrap [OF assms, of x] by (simp add: shortest_diff_def Let_def)
  have "0 \<le> x mod k" "x mod k < k" using assms by simp_all
  then show "- k < 2 * shortest_diff k x" "2 * shortest_diff k x \<le> k" by (auto simp: d)
  have "k dvd x - x mod k" by simp
  moreover have "x - (x mod k - k) = (x - x mod k) + k" by simp
  ultimately show "k dvd x - shortest_diff k x" unfolding d by (metis dvd_add_triv_right_iff)
qed

lemma ct_cycle_less: "ct_cycle (decodeCycleTimer w) < 8192"
  by (simp add: decodeCycleTimer_def)

text \<open>The cycle distance the replay works with, and that it is the one between the two cycles.\<close>

lemma cycle_distance:
  fixes a c out :: nat
  defines "k \<equiv> (if a < c mod 16 then a + 16 else a) - c mod 16"
  assumes "a < 16" "c < 8192"
  shows "k < 16" "(out + k) mod 16 = (a + out + 8192 - c) mod 16"
proof -
  have s: "c mod 16 < 16" by simp
  show "k < 16" using assms(2) s unfolding k_def by (simp split: if_split) linarith
  let ?q = "c div 16"
  have c: "c = 16 * ?q + c mod 16" by simp
  have q: "?q < 512" using assms(3) by simp
  show "(out + k) mod 16 = (a + out + 8192 - c) mod 16"
  proof (cases "a < c mod 16")
    case True
    have "a + out + 8192 - (16 * q + r) = (out + (a + 16 - r)) + 16 * (511 - q)" if "a < r" "r < 16" "q < 512" for q r
      using that by arith
    from this [OF True s q] c True have "a + out + 8192 - c = (out + k) + 16 * (511 - ?q)" by (simp add: k_def)
    then show ?thesis by simp
  next
    case False
    have "a + out + 8192 - (16 * q + r) = (out + (a - r)) + 16 * (512 - q)" if "\<not> a < r" "r < 16" "q < 512" for q r
      using that by arith
    from this [OF False s q] c False have "a + out + 8192 - c = (out + k) + 16 * (512 - ?q)" by (simp add: k_def)
    then show ?thesis by simp
  qed
qed

section \<open>Properties\<close>

text \<open>
  Replaying a received presentation time keeps its distance to the packet's cycle: stored as an offset
  against the source cycle and turned back into a time stamp against the output cycle, it names the cycle
  that is as far ahead of the output as the original was ahead of the source (modulo the 16 cycles a time
  stamp can express), at the same tick within the cycle. Replayed into the cycle it came from it is
  unchanged. A packet without a time stamp is replayed without one.
\<close>

lemma replay_syt:
  assumes "syt < 2 ^ 16" and "syt mod 4096 < 3072" and "delay \<le> 16 * 3072"
  shows "ComputeReplaySyt (ComputeReplaySytOffset syt src delay) out delay =
      EncodeCycleOffset (syt div 4096 + ct_cycle (decodeCycleTimer out) + 8192 - ct_cycle (decodeCycleTimer src))
        (syt mod 4096)
    \<and> ComputeReplaySyt (ComputeReplaySytOffset syt src delay) src delay = syt
    \<and> ComputeReplaySyt (ComputeReplaySytOffset 0xFFFF src delay) out delay = 0xFFFF"
proof -
  define c where "c = ct_cycle (decodeCycleTimer src)"
  define a where "a = syt div 4096"
  define f where "f = syt mod 4096"
  define k where "k = (if a < c mod 16 then a + 16 else a) - c mod 16"
  define x where "x = k * 3072 + f"
  define y where "y = (if x < delay then x + 49152 else x)"
  have a: "a < 16" "a mod 16 = a" using assms(1) by (simp_all add: a_def)
  have syt: "syt = a * 4096 + f" by (simp add: a_def f_def)
  have f: "f < 3072" using assms(2) by (simp add: f_def)
  have ne: "syt \<noteq> 0xFFFF" using assms(2) by auto
  have c: "c < 8192" using ct_cycle_less by (simp add: c_def)
  note k = cycle_distance [OF a(1) c, folded k_def]
  have y: "delay \<le> y" "y < 2 ^ 32 - 1" using k(1) f assms(3) by (simp_all add: y_def x_def)
  have "(y + 2 ^ 32 - delay) mod 2 ^ 32 = y - delay"
  proof -
    have "y + 2 ^ 32 - delay = (y - delay) + 2 ^ 32" using y(1) by linarith
    moreover have "((y - delay) + 2 ^ 32) mod 2 ^ 32 = (y - delay) mod 2 ^ 32" by (rule mod_add_self2)
    moreover have "(y - delay) mod 2 ^ 32 = y - delay" using y(2) by (intro mod_less) linarith
    ultimately show ?thesis by (simp only:)
  qed
  moreover have "ComputeReplaySytOffset syt src delay = (y + 2 ^ 32 - delay) mod 2 ^ 32"
    unfolding ComputeReplaySytOffset_def Let_def kTicksPerCycle_def c_def [symmetric] a_def [symmetric] f_def [symmetric]
      a(2) if_not_P [OF ne] k_def [symmetric] x_def [symmetric] y_def by simp
  ultimately have off: "ComputeReplaySytOffset syt src delay = y - delay" by (simp only:)
  have ymod: "y mod 3072 = f"
  proof -
    have "(f + 3072 * j) mod 3072 = f" for j using f by simp
    from this [of k] this [of "k + 16"] show ?thesis by (simp add: y_def x_def algebra_simps)
  qed
  have ydiv: "(d + y div 3072) mod 16 = (d + k) mod 16" for d
  proof (cases "x < delay")
    case True
    have "(f + 3072 * (k + 16)) div 3072 = k + 16" using f by (simp del: distrib_left_numeral)
    then have "y div 3072 = k + 16" using True by (simp add: y_def x_def algebra_simps)
    moreover have "(d + (k + 16)) mod 16 = (d + k + 16) mod 16" by (simp add: add.assoc)
    ultimately show ?thesis by (simp only: mod_add_self2)
  next
    case False
    then show ?thesis using f by (simp add: y_def x_def)
  qed
  have gen: "ComputeReplaySyt (ComputeReplaySytOffset syt src delay) w delay =
      ((a + ct_cycle (decodeCycleTimer w) + 8192 - c) mod 16) * 4096 + f" for w
  proof -
    have "y - delay + delay = y" "y - delay \<noteq> 0xFFFFFFFF" "y mod 2 ^ 32 = y" using y by simp_all
    then show ?thesis using ymod ydiv k(2) [of "ct_cycle (decodeCycleTimer w)"]
      by (simp add: ComputeReplaySyt_def Let_def kTicksPerCycle_def off)
  qed
  have "a + c + 8192 - c = a + 16 * 512" by simp
  then have "(a + c + 8192 - c) mod 16 = a" using a by (simp only: mod_mult_self2)
  then have "ComputeReplaySyt (ComputeReplaySytOffset syt src delay) src delay = syt"
    using gen [of src] syt by (simp add: c_def)
  then show ?thesis using gen [of out] f
    by (simp add: EncodeCycleOffset_def ComputeReplaySytOffset_def ComputeReplaySyt_def a_def f_def c_def)
qed

text \<open>
  The cycle-timer helpers agree with the clock they encode: encoding and decoding the fields is the
  identity, the signed differences are the representatives of least absolute value in their domain, and
  converting a cycle time to nanoseconds and back loses at most one tick of the 24.576 MHz clock.
\<close>

lemma timer_arithmetic:
  assumes "s < 128" and "c < 8000" and "f < 3072"
  shows "decodeCycleTimer (encodeCycleTimer s c f) = \<lparr>ct_seconds = s, ct_cycle = c, ct_offset = f\<rparr>
    \<and> (\<exists>f' \<in> {f - 1, f}. nanosToEncodedFWTime (encodedFWTimeToNanos (encodeCycleTimer s c f)) = encodeCycleTimer s c f')
    \<and> kEightSecondTicks dvd (a - b) - extOffsetDiff a b \<and> 2 * \<bar>extOffsetDiff a b\<bar> \<le> kEightSecondTicks
    \<and> int kTicksPerSecond dvd (a - b) - extOffsetDiff1s a b \<and> 2 * \<bar>extOffsetDiff1s a b\<bar> \<le> int kTicksPerSecond
    \<and> normalizeOffsetDomain a = a mod kEightSecondTicks"
proof -
  have d: "decodeCycleTimer (encodeCycleTimer s c f) = \<lparr>ct_seconds = s, ct_cycle = c, ct_offset = f\<rparr>"
    using assms by (simp add: decode_encode)
  define g where "g = f * 125000 div 3072"
  define h where "h = g * 3072 div 125000"
  have g: "g < 125000" using assms(3) by (simp add: g_def less_mult_imp_div_less)
  have "g * 3072 \<le> f * 125000" "f * 125000 < g * 3072 + 3072"
    using div_mult_mod_eq [of "f * 125000" 3072] by (simp_all add: g_def)
  moreover have "h * 125000 \<le> g * 3072" "g * 3072 < h * 125000 + 125000"
    using div_mult_mod_eq [of "g * 3072" 125000] by (simp_all add: h_def)
  ultimately have h: "h \<le> f" "f \<le> h + 1" by linarith+
  have n: "encodedFWTimeToNanos (encodeCycleTimer s c f) = s * 1000000000 + (c * 125000 + g)"
    by (simp add: encodedFWTimeToNanos_def Let_def d kNanosPerSecond_def kNanosPerCycle_def kTicksPerCycle_def g_def)
  have r: "c * 125000 + g < 1000000000" using assms(2) g by linarith
  then have "(s * 1000000000 + (c * 125000 + g)) mod (128 * 1000000000) = s * 1000000000 + (c * 125000 + g)"
    using assms(1) by (intro mod_less) linarith
  moreover have "(s * 1000000000 + (c * 125000 + g)) div 1000000000 = s"
    "(s * 1000000000 + (c * 125000 + g)) mod 1000000000 = c * 125000 + g" using r by simp_all
  moreover have "(c * 125000 + g) div 125000 = c" "(c * 125000 + g) mod 125000 = g" using g by simp_all
  ultimately have "nanosToEncodedFWTime (encodedFWTimeToNanos (encodeCycleTimer s c f)) = s * 2 ^ 25 + c * 2 ^ 12 + h"
    using assms(1) unfolding n nanosToEncodedFWTime_def Let_def kFWTimeWrapSeconds_def kNanosPerSecond_def
      kNanosPerCycle_def kTicksPerCycle_def by (simp only: h_def mod_less)
  moreover have "encodeCycleTimer s c h = s * 2 ^ 25 + c * 2 ^ 12 + h"
    using assms h by (simp add: encodeCycleTimer_def)
  moreover have "h \<in> {f - 1, f}" using h by auto
  ultimately have "\<exists>f' \<in> {f - 1, f}. nanosToEncodedFWTime (encodedFWTimeToNanos (encodeCycleTimer s c f)) = encodeCycleTimer s c f'"
    by metis
  moreover have "2 * \<bar>shortest_diff k z\<bar> \<le> k \<and> k dvd z - shortest_diff k z" if "0 < k" for k z
    using shortest_diff_range [OF that, of z] by auto
  moreover have "0 < kEightSecondTicks" "0 < int kTicksPerSecond" by (simp_all add: kEightSecondTicks_def kTicksPerSecond_def)
  moreover have "normalizeOffsetDomain a = a mod kEightSecondTicks"
    unfolding normalizeOffsetDomain_def Let_def by (rule smod_wrap) (simp add: kEightSecondTicks_def)
  ultimately show ?thesis using d by (simp add: extOffsetDiff_def extOffsetDiff1s_def)
qed

end
