(* ===== verification/Rx_Replay.thy ===== *)
theory Rx_Replay
  imports Wire_Timing
begin

text \<open>
  \<^verbatim>\<open>Audio/Wire/AMDTP/RxSequenceReplay.hpp\<close>: the ring through which the receive path hands the packet sequence of the
  device to the transmit path. \<open>Publish\<close> stores an entry field by field, then its sequence number, then
  advances the producer cursor; these stores are also given one by one, so that a read can fall between
  them. The array of slots is a function of the index; cursors and sequence numbers are \<open>uint64_t\<close>, with
  the wrap-around of their increments written out.
\<close>

section \<open>Definitions\<close>

record RxSequenceEntry =
  re_firstAudioFrame :: u64
  re_sourceCycleTimer :: u32
  re_sytOffset :: u32
  re_dataBlocks :: u16
  re_dbc :: u8
  re_flags :: u8

datatype RxSequenceReplayReadFailure =
    kReaderInactive | kEpochChanged | kAheadOfProducer | kHistoryOverwritten
  | kSlotSequenceMismatch | kSlotEpochMismatch | kSlotChanged

definition kCapacity :: nat where "kCapacity = 512"
definition kReadDelay :: nat where "kReadDelay = kCapacity div 2"

record replay_slot =
  rs_sequence :: nat
  rs_epoch :: u32
  rs_entry :: RxSequenceEntry

record RxSequenceReplayState =
  rp_slots :: "nat \<Rightarrow> replay_slot"
  rp_producerCursor :: nat
  rp_epoch :: u32
  rp_established :: bool

definition rp_Reset :: "RxSequenceReplayState \<Rightarrow> RxSequenceReplayState" where
  "rp_Reset st = st\<lparr>rp_established := False, rp_producerCursor := 0, rp_epoch := rp_epoch st + 1,
     rp_slots := (\<lambda>i. (rp_slots st i)\<lparr>rs_sequence := 0\<rparr>)\<rparr>"

text \<open>The stores of \<open>Publish\<close> in program order.\<close>

datatype publish_store =
    PEpoch u32 | PFirstAudioFrame u64 | PSourceCycleTimer u32 | PSytOffset u32 | PDataBlocks u16 | PDbc u8
  | PFlags u8 | PSequence nat | PProducerCursor nat

definition publish_program :: "RxSequenceEntry \<Rightarrow> RxSequenceReplayState \<Rightarrow> publish_store list" where
  "publish_program entry st =
     [PEpoch (rp_epoch st), PFirstAudioFrame (re_firstAudioFrame entry),
      PSourceCycleTimer (re_sourceCycleTimer entry), PSytOffset (re_sytOffset entry),
      PDataBlocks (re_dataBlocks entry), PDbc (re_dbc entry), PFlags (re_flags entry),
      PSequence (add64 (rp_producerCursor st) 1), PProducerCursor (add64 (rp_producerCursor st) 1)]"

fun store_slot :: "publish_store \<Rightarrow> replay_slot \<Rightarrow> replay_slot" where
  "store_slot (PEpoch v) slot = slot\<lparr>rs_epoch := v\<rparr>"
| "store_slot (PFirstAudioFrame v) slot = slot\<lparr>rs_entry := (rs_entry slot)\<lparr>re_firstAudioFrame := v\<rparr>\<rparr>"
| "store_slot (PSourceCycleTimer v) slot = slot\<lparr>rs_entry := (rs_entry slot)\<lparr>re_sourceCycleTimer := v\<rparr>\<rparr>"
| "store_slot (PSytOffset v) slot = slot\<lparr>rs_entry := (rs_entry slot)\<lparr>re_sytOffset := v\<rparr>\<rparr>"
| "store_slot (PDataBlocks v) slot = slot\<lparr>rs_entry := (rs_entry slot)\<lparr>re_dataBlocks := v\<rparr>\<rparr>"
| "store_slot (PDbc v) slot = slot\<lparr>rs_entry := (rs_entry slot)\<lparr>re_dbc := v\<rparr>\<rparr>"
| "store_slot (PFlags v) slot = slot\<lparr>rs_entry := (rs_entry slot)\<lparr>re_flags := v\<rparr>\<rparr>"
| "store_slot (PSequence v) slot = slot\<lparr>rs_sequence := v\<rparr>"
| "store_slot (PProducerCursor v) slot = slot"

text \<open>\<open>i\<close> is the slot that \<open>Publish\<close> took before its first store.\<close>

definition publish_store_step :: "nat \<Rightarrow> publish_store \<Rightarrow> RxSequenceReplayState \<Rightarrow> RxSequenceReplayState" where
  "publish_store_step i s st =
     (case s of
        PProducerCursor v \<Rightarrow> st\<lparr>rp_producerCursor := v\<rparr>
      | _ \<Rightarrow> st\<lparr>rp_slots := (rp_slots st)(i := store_slot s (rp_slots st i))\<rparr>)"

definition publish_partial :: "nat \<Rightarrow> RxSequenceEntry \<Rightarrow> RxSequenceReplayState \<Rightarrow> RxSequenceReplayState" where
  "publish_partial n entry st =
     fold (publish_store_step (rp_producerCursor st mod kCapacity)) (take n (publish_program entry st)) st"

definition rp_Publish :: "RxSequenceEntry \<Rightarrow> RxSequenceReplayState \<Rightarrow> RxSequenceReplayState" where
  "rp_Publish entry st =
     (let cursor = rp_producerCursor st
      in st\<lparr>rp_slots := (rp_slots st)(cursor mod kCapacity :=
                \<lparr>rs_sequence = add64 cursor 1, rs_epoch = rp_epoch st, rs_entry = entry\<rparr>),
             rp_producerCursor := add64 cursor 1\<rparr>)"

definition rp_MarkEstablished :: "RxSequenceReplayState \<Rightarrow> bool \<times> RxSequenceReplayState" where
  "rp_MarkEstablished st =
     (if rp_producerCursor st < kReadDelay then (False, st) else (True, st\<lparr>rp_established := True\<rparr>))"

text \<open>
  The loads of \<open>Read\<close> happen at one moment here, so its second look at sequence and epoch sees what the first
  saw and the failure \<open>kSlotChanged\<close> does not occur.
\<close>

definition rp_Read :: "nat \<Rightarrow> u32 \<Rightarrow> RxSequenceReplayState \<Rightarrow> RxSequenceReplayReadFailure + RxSequenceEntry" where
  "rp_Read cursor expectedEpoch st =
     (let slot = rp_slots st (cursor mod kCapacity)
      in if rs_sequence slot \<noteq> add64 cursor 1 then Inl kSlotSequenceMismatch
         else if rs_epoch slot \<noteq> expectedEpoch then Inl kSlotEpochMismatch
         else Inr (rs_entry slot))"

record RxSequenceReplayReader =
  rr_nextCursor :: nat
  rr_epoch :: u32
  rr_active :: bool

definition rr_Reset :: "RxSequenceReplayReader \<Rightarrow> RxSequenceReplayReader" where
  "rr_Reset rd = \<lparr>rr_nextCursor = 0, rr_epoch = 0, rr_active = False\<rparr>"

definition rr_Begin :: "RxSequenceReplayState \<Rightarrow> RxSequenceReplayReader \<Rightarrow> bool \<times> RxSequenceReplayReader" where
  "rr_Begin replay rd =
     (let producer = rp_producerCursor replay
      in if \<not> rp_established replay \<or> producer < kReadDelay then (False, rd)
         else (True, \<lparr>rr_nextCursor = producer - kReadDelay, rr_epoch = rp_epoch replay, rr_active = True\<rparr>))"

definition rr_TryRead ::
  "RxSequenceReplayState \<Rightarrow> RxSequenceReplayReader
   \<Rightarrow> (RxSequenceReplayReadFailure + RxSequenceEntry) \<times> RxSequenceReplayReader" where
  "rr_TryRead replay rd =
     (if \<not> rr_active rd then (Inl kReaderInactive, rd)
      else if rp_epoch replay \<noteq> rr_epoch rd then (Inl kEpochChanged, rd)
      else if rr_nextCursor rd \<ge> rp_producerCursor replay then (Inl kAheadOfProducer, rd)
      else if rp_producerCursor replay - rr_nextCursor rd > kCapacity then (Inl kHistoryOverwritten, rd)
      else case rp_Read (rr_nextCursor rd) (rr_epoch rd) replay of
             Inl f \<Rightarrow> (Inl f, rd)
           | Inr e \<Rightarrow> (Inr e, rd\<lparr>rr_nextCursor := add64 (rr_nextCursor rd) 1\<rparr>))"

section \<open>The published history\<close>

definition store_to_slot :: "publish_store \<Rightarrow> bool" where
  "store_to_slot s = (case s of PProducerCursor v \<Rightarrow> False | _ \<Rightarrow> True)"

lemma publish_step_slot:
  "store_to_slot s \<Longrightarrow> publish_store_step i s st = st\<lparr>rp_slots := (rp_slots st)(i := store_slot s (rp_slots st i))\<rparr>"
  by (cases s) (simp_all add: publish_store_step_def store_to_slot_def)

lemma publish_steps:
  "list_all store_to_slot ss \<Longrightarrow>
   fold (publish_store_step i) ss st = st\<lparr>rp_slots := (rp_slots st)(i := fold store_slot ss (rp_slots st i))\<rparr>"
proof (induction ss arbitrary: st)
  case (Cons s ss)
  then have "store_to_slot s" "list_all store_to_slot ss" by simp_all
  then show ?case by (simp only: fold_simps publish_step_slot Cons.IH) (simp cong: if_cong)
qed simp

text \<open>What the slot holds when the first \<open>n\<close> stores of \<open>Publish\<close> are done.\<close>

definition mixed_entry :: "nat \<Rightarrow> RxSequenceEntry \<Rightarrow> RxSequenceEntry \<Rightarrow> RxSequenceEntry" where
  "mixed_entry n old new =
     \<lparr>re_firstAudioFrame = (if 2 \<le> n then re_firstAudioFrame new else re_firstAudioFrame old),
      re_sourceCycleTimer = (if 3 \<le> n then re_sourceCycleTimer new else re_sourceCycleTimer old),
      re_sytOffset = (if 4 \<le> n then re_sytOffset new else re_sytOffset old),
      re_dataBlocks = (if 5 \<le> n then re_dataBlocks new else re_dataBlocks old),
      re_dbc = (if 6 \<le> n then re_dbc new else re_dbc old),
      re_flags = (if 7 \<le> n then re_flags new else re_flags old)\<rparr>"

definition mixed_slot :: "nat \<Rightarrow> RxSequenceEntry \<Rightarrow> RxSequenceReplayState \<Rightarrow> replay_slot \<Rightarrow> replay_slot" where
  "mixed_slot n new st slot =
     \<lparr>rs_sequence = (if 8 \<le> n then add64 (rp_producerCursor st) 1 else rs_sequence slot),
      rs_epoch = (if 1 \<le> n then rp_epoch st else rs_epoch slot), rs_entry = mixed_entry n (rs_entry slot) new\<rparr>"

lemma le_8_cases: "n \<le> (8::nat) \<Longrightarrow> n \<in> {0, 1, 2, 3, 4, 5, 6, 7, 8}"
  by auto

lemma publish_partial_slots:
  assumes "n \<le> 8"
  shows "publish_partial n new st = st\<lparr>rp_slots := (rp_slots st)(rp_producerCursor st mod kCapacity :=
    mixed_slot n new st (rp_slots st (rp_producerCursor st mod kCapacity)))\<rparr>"
proof -
  let ?ss = "take n (publish_program new st)"
  have "list_all store_to_slot ?ss"
    using le_8_cases [OF assms] by (auto simp: publish_program_def store_to_slot_def)
  moreover have "fold store_slot ?ss slot = mixed_slot n new st slot" for slot
    using le_8_cases [OF assms]
    by (cases slot; cases "rs_entry slot") (auto simp: publish_program_def mixed_slot_def mixed_entry_def)
  ultimately show ?thesis by (simp add: publish_partial_def publish_steps)
qed

lemma publish_partial_all: "publish_partial 9 new st = rp_Publish new st"
proof -
  have "take 9 (publish_program new st) = take 8 (publish_program new st) @ [PProducerCursor (add64 (rp_producerCursor st) 1)]"
    by (simp add: publish_program_def)
  then have "publish_partial 9 new st =
      publish_store_step (rp_producerCursor st mod kCapacity) (PProducerCursor (add64 (rp_producerCursor st) 1)) (publish_partial 8 new st)"
    by (simp add: publish_partial_def)
  also have "\<dots> = rp_Publish new st"
    by (cases new)
      (simp add: publish_partial_slots publish_store_step_def rp_Publish_def Let_def mixed_slot_def mixed_entry_def)
  finally show ?thesis .
qed

text \<open>
  The ring stands for the list of entries published since the last reset: the cursor is its length and the
  last 512 entries are in the slots of their positions.
\<close>

definition replay_rep :: "RxSequenceReplayState \<Rightarrow> RxSequenceEntry list \<Rightarrow> bool" where
  "replay_rep st hist \<longleftrightarrow>
     length hist < 2 ^ 64 \<and> rp_producerCursor st = length hist
     \<and> (\<forall>k. k < length hist \<longrightarrow> length hist \<le> k + kCapacity \<longrightarrow>
           rp_slots st (k mod kCapacity) = \<lparr>rs_sequence = Suc k, rs_epoch = rp_epoch st, rs_entry = hist ! k\<rparr>)"

lemma add64_Suc: "Suc n < 2 ^ 64 \<Longrightarrow> add64 n (Suc 0) = Suc n"
  by (simp add: add64_def)

lemma replay_rep_Reset: "replay_rep (rp_Reset st) []"
  by (simp add: replay_rep_def rp_Reset_def)

lemma mod_window:
  assumes "k < n" "n < k + c" "(0::nat) < c"
  shows "k mod c \<noteq> n mod c"
proof
  assume eq: "k mod c = n mod c"
  have "c dvd n - k" using mod_eq_dvd_iff_nat [of k n c] assms(1) eq by simp
  then show False using assms dvd_imp_le [of c "n - k"] by simp
qed

lemma replay_rep_Publish:
  assumes "replay_rep st hist" "Suc (length hist) < 2 ^ 64"
  shows "replay_rep (rp_Publish e st) (hist @ [e])"
proof -
  have "rp_slots (rp_Publish e st) (k mod kCapacity) = \<lparr>rs_sequence = Suc k, rs_epoch = rp_epoch st, rs_entry = (hist @ [e]) ! k\<rparr>"
    if "k < Suc (length hist)" "Suc (length hist) \<le> k + kCapacity" for k
  proof (cases "k = length hist")
    case True
    then show ?thesis using assms add64_Suc [OF assms(2)] by (simp add: replay_rep_def rp_Publish_def Let_def)
  next
    case False
    then have "k mod kCapacity \<noteq> length hist mod kCapacity"
      using that mod_window [of k "length hist" kCapacity] by (simp add: kCapacity_def)
    then show ?thesis using assms False that by (simp add: replay_rep_def rp_Publish_def Let_def nth_append)
  qed
  moreover have "rp_producerCursor (rp_Publish e st) = Suc (length hist)" "rp_epoch (rp_Publish e st) = rp_epoch st"
    using assms add64_Suc [OF assms(2)] by (simp_all add: replay_rep_def rp_Publish_def Let_def)
  ultimately show ?thesis using assms(2) by (simp add: replay_rep_def)
qed

lemma replay_rep_run: "length es < 2 ^ 64 \<Longrightarrow> replay_rep (fold rp_Publish es (rp_Reset st)) es"
proof (induction es rule: rev_induct)
  case (snoc e es)
  then show ?case using replay_rep_Publish [of "fold rp_Publish es (rp_Reset st)" es e] by simp
qed (simp add: replay_rep_Reset)

lemma Read_history:
  assumes "replay_rep st hist" "k < length hist" "length hist \<le> k + kCapacity"
  shows "rp_Read k (rp_epoch st) st = Inr (hist ! k)"
  using assms add64_Suc [of k] by (simp add: replay_rep_def rp_Read_def)


definition demo_entry :: "u64 \<Rightarrow> RxSequenceEntry" where
  "demo_entry f = \<lparr>re_firstAudioFrame = f, re_sourceCycleTimer = 0, re_sytOffset = ucast f, re_dataBlocks = 8,
     re_dbc = 0, re_flags = 3\<rparr>"

definition demo_replay :: RxSequenceReplayState where
  "demo_replay = fold rp_Publish (replicate 512 (demo_entry 1))
     (rp_Reset \<lparr>rp_slots = (\<lambda>_. \<lparr>rs_sequence = 0, rs_epoch = 0, rs_entry = demo_entry 0\<rparr>), rp_producerCursor = 0,
       rp_epoch = 0, rp_established = False\<rparr>)"

lemma demo_replay_rep: "replay_rep demo_replay (replicate 512 (demo_entry 1)) \<and> rp_epoch demo_replay = 1"
proof -
  have ep: "rp_epoch (fold rp_Publish es st) = rp_epoch st" for es st
    by (induction es arbitrary: st) (simp_all add: rp_Publish_def Let_def)
  show ?thesis
  proof
    show "replay_rep demo_replay (replicate 512 (demo_entry 1))"
      unfolding demo_replay_def by (rule replay_rep_run) simp
    show "rp_epoch demo_replay = 1" unfolding demo_replay_def ep by (simp add: rp_Reset_def)
  qed
qed


end
