(* ===== verification/Config_ROM_CRC.thy ===== *)
theory Config_ROM_CRC
  imports ASFW_Prelude
begin

text \<open>
  \<^verbatim>\<open>Common/CSRSpace.hpp\<close>: the CRC-16 of IEEE 1212 over a block of quadlets. The builder and the parser
  of the configuration ROM and the topology map each have a copy of it. The reference is
  the bit-serial shift register; from it follows which corruptions the checksum detects.
\<close>

section \<open>The checksum\<close>

definition kConfigROMCRCPolynomial :: u16 where "kConfigROMCRCPolynomial = 0x1021"

text \<open>One round of the loop over the bits of a half quadlet.\<close>

definition crc_round :: "u16 \<Rightarrow> u16" where
  "crc_round crc = (if crc AND 0x8000 \<noteq> 0 then push_bit 1 crc XOR kConfigROMCRCPolynomial else push_bit 1 crc)"

definition CRCStep :: "u16 \<Rightarrow> u16 \<Rightarrow> u16" where
  "CRCStep crc data = (crc_round ^^ 16) (crc XOR data)"

definition crc_quadlet :: "u16 \<Rightarrow> u32 \<Rightarrow> u16" where
  "crc_quadlet crc q = CRCStep (CRCStep crc (ucast (drop_bit 16 q AND 0xFFFF))) (ucast (q AND 0xFFFF))"

definition ComputeBlockCRC16 :: "u32 list \<Rightarrow> u16" where
  "ComputeBlockCRC16 block = foldl crc_quadlet 0 block"

section \<open>The shift register\<close>

text \<open>The register takes one bit of the message at a time, most significant bit first.\<close>

definition crc_bit :: "u16 \<Rightarrow> bool \<Rightarrow> u16" where
  "crc_bit crc b = crc_round (crc XOR (if b then 0x8000 else 0))"

definition half_bits :: "u16 \<Rightarrow> bool list" where
  "half_bits w = map (bit w) [15, 14, 13, 12, 11, 10, 9, 8, 7, 6, 5, 4, 3, 2, 1, 0]"

definition quad_bits :: "u32 \<Rightarrow> bool list" where
  "quad_bits q = half_bits (ucast (drop_bit 16 q AND 0xFFFF)) @ half_bits (ucast (q AND 0xFFFF))"

definition block_bits :: "u32 list \<Rightarrow> bool list" where
  "block_bits block = concat (map quad_bits block)"

lemma top_bit: "crc AND 0x8000 \<noteq> 0 \<longleftrightarrow> bit crc 15" for crc :: u16
  using and_exp_eq_0 [of crc 15] by simp

lemma bit_crc_round:
  "bit (crc_round crc) n \<longleftrightarrow> (1 \<le> n \<and> n < 16 \<and> bit crc (n - 1)) \<noteq> (bit crc 15 \<and> (n = 0 \<or> n = 5 \<or> n = 12))"
proof -
  have "list_all (\<lambda>n. bit (0x1021 :: u16) n \<longleftrightarrow> n = 0 \<or> n = 5 \<or> n = 12) [0..<16]"
    by (simp add: upt_16 bit_simps)
  then have "n < 16 \<Longrightarrow> bit (0x1021 :: u16) n \<longleftrightarrow> n = 0 \<or> n = 5 \<or> n = 12"
    by (simp add: list_all_iff)
  then have poly: "bit kConfigROMCRCPolynomial n \<longleftrightarrow> n = 0 \<or> n = 5 \<or> n = 12"
    using not_bit_u16 [of n kConfigROMCRCPolynomial] by (cases "n < 16") (auto simp: kConfigROMCRCPolynomial_def)
  have shift: "bit (push_bit 1 crc) n \<longleftrightarrow> 1 \<le> n \<and> n < 16 \<and> bit crc (n - 1)"
    unfolding bit_push_bit_iff by auto
  show ?thesis
    unfolding crc_round_def top_bit using poly shift by (cases "bit crc 15") (simp_all only: if_True if_False bit_xor_iff, blast+)
qed

lemma xor_cancel: "a XOR c = b XOR c \<Longrightarrow> a = b" for a b c :: u16
proof -
  assume "a XOR c = b XOR c"
  then have "(a XOR c) XOR c = (b XOR c) XOR c" by simp
  then show "a = b" by (simp add: xor.assoc)
qed

lemma crc_round_inject: "crc_round a = crc_round b \<Longrightarrow> a = b"
proof (rule bit_word_eqI)
  fix n
  assume eq: "crc_round a = crc_round b" and "n < LENGTH(16)"
  have top: "bit a 15 = bit b 15" using arg_cong [OF eq, of "\<lambda>w. bit w 0"] by (simp add: bit_crc_round)
  show "bit a n = bit b n"
  proof (cases "n = 15")
    case False
    then show ?thesis using arg_cong [OF eq, of "\<lambda>w. bit w (Suc n)"] top \<open>n < LENGTH(16)\<close>
      by (auto simp: bit_crc_round)
  qed (simp add: top)
qed

lemma crc_rounds_inject: "(crc_round ^^ n) a = (crc_round ^^ n) b \<Longrightarrow> a = b"
  by (induction n) (auto dest: crc_round_inject)

lemma crc_bit_inject: "crc_bit a x = crc_bit b x \<Longrightarrow> a = b"
proof -
  assume "crc_bit a x = crc_bit b x"
  then have "a XOR (if x then 0x8000 else 0) = b XOR (if x then 0x8000 else 0)"
    unfolding crc_bit_def by (rule crc_round_inject)
  then show "a = b" by (rule xor_cancel)
qed

lemma crc_bits_inject: "foldl crc_bit a bs = foldl crc_bit b bs \<Longrightarrow> a = b"
  by (induction bs arbitrary: a b) (auto dest: crc_bit_inject)

text \<open>A round is linear, so a bit may be added before or after the rounds of the bits behind it.\<close>

lemma crc_round_xor: "crc_round (a XOR b) = crc_round a XOR crc_round b"
  by (rule bit_word_eqI) (auto simp: bit_crc_round bit_simps)

lemma crc_rounds_xor: "(crc_round ^^ n) (a XOR b) = (crc_round ^^ n) a XOR (crc_round ^^ n) b"
  by (induction n) (simp_all add: crc_round_xor)

lemma crc_round_low: "\<not> bit a 15 \<Longrightarrow> crc_round a = push_bit 1 a"
  by (simp add: crc_round_def top_bit)

lemma crc_rounds_low: "m + n < 16 \<Longrightarrow> (crc_round ^^ n) (push_bit m 1) = push_bit (m + n) 1"
  for m n :: nat
proof (induction n)
  case (Suc n)
  then have "\<not> bit (push_bit (m + n) (1 :: u16)) 15" by (auto simp: bit_simps)
  with Suc show ?case by (simp add: crc_round_low push_bit_push_bit)
qed simp

lemma crc_rounds_0 [simp]: "(crc_round ^^ n) 0 = 0"
proof -
  have "crc_round 0 = 0" by (simp add: crc_round_def)
  then show ?thesis by (induction n) simp_all
qed

text \<open>The register after the first \<open>n\<close> bits of a half quadlet.\<close>

definition high_bits :: "nat \<Rightarrow> u16 \<Rightarrow> u16" where
  "high_bits n w = push_bit (16 - n) (drop_bit (16 - n) w)"

lemma high_bits_Suc:
  assumes "n < 16"
  shows "high_bits (Suc n) w = high_bits n w XOR (if bit w (15 - n) then push_bit (15 - n) 1 else 0)"
proof (rule bit_word_eqI)
  fix k
  show "bit (high_bits (Suc n) w) k
      = bit (high_bits n w XOR (if bit w (15 - n) then push_bit (15 - n) 1 else 0)) k"
    using assms by (cases "k = 15 - n") (auto simp: high_bits_def bit_simps)
qed

lemma crc_bits_prefix:
  "n \<le> 16 \<Longrightarrow> foldl crc_bit crc (map (\<lambda>k. bit w (15 - k)) [0..<n]) = (crc_round ^^ n) (crc XOR high_bits n w)"
proof (induction n)
  case 0
  have "high_bits 0 w = 0" by (rule bit_word_eqI) (simp add: high_bits_def bit_simps)
  then show ?case by simp
next
  case (Suc n)
  let ?b = "if bit w (15 - n) then push_bit (15 - n) 1 else 0"
  have "(crc_round ^^ n) ?b = (if bit w (15 - n) then 0x8000 else 0)"
    using Suc.prems crc_rounds_low [of "15 - n" n] by simp
  then have "crc_bit ((crc_round ^^ n) (crc XOR high_bits n w)) (bit w (15 - n))
      = crc_round ((crc_round ^^ n) ((crc XOR high_bits n w) XOR ?b))"
    by (simp only: crc_bit_def crc_rounds_xor)
  with Suc show ?case by (simp add: high_bits_Suc xor.assoc)
qed

lemma half_bits_map: "half_bits w = map (\<lambda>k. bit w (15 - k)) [0..<16]"
  by (simp add: half_bits_def upt_16)

text \<open>The loop over 16 rounds is the register fed with 16 bits.\<close>

lemma CRCStep_bits: "CRCStep crc w = foldl crc_bit crc (half_bits w)"
  unfolding half_bits_map by (simp add: crc_bits_prefix CRCStep_def high_bits_def)

lemma ComputeBlockCRC16_bits: "ComputeBlockCRC16 block = foldl crc_bit 0 (block_bits block)"
proof -
  have "foldl crc_quadlet crc block = foldl crc_bit crc (block_bits block)" for crc
    by (induction block arbitrary: crc)
       (simp_all add: block_bits_def quad_bits_def crc_quadlet_def CRCStep_bits)
  then show ?thesis by (simp add: ComputeBlockCRC16_def)
qed

section \<open>Detected corruptions\<close>

lemma half_bits_surj: "length bs = 16 \<Longrightarrow> \<exists>w. half_bits w = bs"
proof -
  assume len: "length bs = 16"
  let ?w = "of_nat (horner_sum of_bool 2 (rev bs)) :: u16"
  have "bit ?w (15 - k) = bs ! k" if "k < 16" for k
  proof -
    have "15 - k < 16" by simp
    with that len show ?thesis by (simp add: bit_simps bit_horner_sum_bit_iff rev_nth)
  qed
  then have "half_bits ?w = bs" unfolding half_bits_map by (intro nth_equalityI) (simp_all add: len)
  then show ?thesis ..
qed

lemma CRCStep_inject: "CRCStep crc v = CRCStep crc w \<Longrightarrow> v = w"
proof -
  assume "CRCStep crc v = CRCStep crc w"
  then have "crc XOR v = crc XOR w" unfolding CRCStep_def by (rule crc_rounds_inject)
  then show "v = w" using xor_cancel [of v crc w] by (simp only: xor.commute [of crc])
qed

lemma crc_window:
  assumes "length u = length v" and "length u \<le> 16" and "foldl crc_bit crc u = foldl crc_bit crc v"
  shows "u = v"
proof -
  let ?z = "replicate (16 - length u) False"
  have "length (u @ ?z) = 16" "length (v @ ?z) = 16" using assms(1,2) by simp_all
  then obtain wu wv where w: "half_bits wu = u @ ?z" "half_bits wv = v @ ?z"
    using half_bits_surj by blast
  have "CRCStep crc wu = CRCStep crc wv" using assms(3) by (simp add: CRCStep_bits w)
  then have "wu = wv" by (rule CRCStep_inject)
  then have "u @ ?z = v @ ?z" using w by metis
  then show ?thesis by (simp only: append_same_eq)
qed

lemma quad_bits_inject: "quad_bits a = quad_bits b \<Longrightarrow> a = b"
proof -
  assume "quad_bits a = quad_bits b"
  then have "half_bits (ucast (drop_bit 16 a AND 0xFFFF)) = half_bits (ucast (drop_bit 16 b AND 0xFFFF))"
    and "half_bits (ucast (a AND 0xFFFF)) = half_bits (ucast (b AND 0xFFFF))"
    by (simp_all add: quad_bits_def half_bits_def)
  then show "a = b" by (intro u32_eqI) (simp add: half_bits_def upt_32 bit_simps)
qed

lemma length_quad_bits [simp]: "length (quad_bits q) = 32"
  by (simp add: quad_bits_def half_bits_def)

lemma block_bits_inject: "block_bits xs = block_bits ys \<Longrightarrow> xs = ys"
proof (induction xs arbitrary: ys)
  case Nil
  then show ?case by (cases ys) (auto simp: block_bits_def dest: arg_cong [where f = length])
next
  case (Cons x xs)
  have "quad_bits q \<noteq> []" for q using length_quad_bits [of q] by force
  with Cons.prems obtain y ys' where ys: "ys = y # ys'" by (cases ys) (auto simp: block_bits_def)
  with Cons.prems have "quad_bits x = quad_bits y" "block_bits xs = block_bits ys'"
    by (auto simp: block_bits_def)
  with Cons.IH ys quad_bits_inject show ?case by simp
qed

text \<open>
  What the configuration ROM's checksum detects. Two different blocks whose bits differ only
  within a window of sixteen consecutive bits (a burst), anywhere in the block, never have the same
  checksum.
\<close>

lemma crc_detects_bursts:
  assumes "block_bits xs = pre @ u @ post" and "block_bits ys = pre @ v @ post"
    and "length u = length v" and "length u \<le> 16" and "xs \<noteq> ys"
  shows "ComputeBlockCRC16 xs \<noteq> ComputeBlockCRC16 ys"
proof
  assume "ComputeBlockCRC16 xs = ComputeBlockCRC16 ys"
  then have "foldl crc_bit (foldl crc_bit 0 pre) u = foldl crc_bit (foldl crc_bit 0 pre) v"
    using assms(1,2) by (auto simp: ComputeBlockCRC16_bits dest: crc_bits_inject)
  then have "u = v" by (rule crc_window [OF assms(3,4)])
  with assms(1,2) have "block_bits xs = block_bits ys" by simp
  with assms(5) show False by (blast dest: block_bits_inject)
qed

end
