(* ===== verification/Config_ROM_Builder.thy ===== *)
theory Config_ROM_Builder
  imports Config_ROM_CRC Bus_Options
begin

text \<open>
  \<^verbatim>\<open>ConfigROM/Local/ConfigROMBuilder.cpp\<close>: the image of the local configuration ROM, from its bus
  information block over the entries of the root directory to the finished image. The image is the
  class's array of 256 quadlets in host order; bytes of a text are \<open>u8\<close>.
\<close>

section \<open>State\<close>

definition kMaxQuadlets :: nat where "kMaxQuadlets = 256"

definition kBusNameQuadlet :: u32 where "kBusNameQuadlet = 0x31333934"

record ConfigROMBuilder =
  cb_words :: "u32 list"
  cb_quadCount :: nat
  cb_rootDirHeaderIndex :: "nat option"
  cb_lastBusOptions :: u32
  cb_begun :: bool
  cb_finalized :: bool

definition cb_Reset :: ConfigROMBuilder where
  "cb_Reset = \<lparr>cb_words = replicate kMaxQuadlets 0, cb_quadCount = 0, cb_rootDirHeaderIndex = None,
     cb_lastBusOptions = 0, cb_begun = False, cb_finalized = False\<rparr>"

definition cb_Append :: "u32 \<Rightarrow> ConfigROMBuilder \<Rightarrow> ConfigROMBuilder" where
  "cb_Append value0 b =
     (if cb_quadCount b < kMaxQuadlets
      then b\<lparr>cb_words := (cb_words b)[cb_quadCount b := value0], cb_quadCount := cb_quadCount b + 1\<rparr>
      else b)"

definition set_word :: "nat \<Rightarrow> u32 \<Rightarrow> ConfigROMBuilder \<Rightarrow> ConfigROMBuilder" where
  "set_word i w b = b\<lparr>cb_words := (cb_words b)[i := w]\<rparr>"

definition cb_ComputeCRC :: "nat \<Rightarrow> nat \<Rightarrow> ConfigROMBuilder \<Rightarrow> u16" where
  "cb_ComputeCRC start count b =
     (let end' = min (start + count) (cb_quadCount b)
      in foldl (\<lambda>crc i. crc_quadlet crc (cb_words b ! i)) 0 [start..<end'])"

section \<open>Directory entries\<close>

definition kImmediate :: u8 where "kImmediate = 0"
definition kCSROffset :: u8 where "kCSROffset = 1"
definition kLeaf :: u8 where "kLeaf = 2"
definition kDirectory :: u8 where "kDirectory = 3"

definition MakeDirectoryEntry :: "u8 \<Rightarrow> u8 \<Rightarrow> u32 \<Rightarrow> u32" where
  "MakeDirectoryEntry key type value24 =
     push_bit 30 (ucast type AND 0x3) OR push_bit 24 (ucast key AND 0x3F) OR (value24 AND 0x00FFFFFF)"

section \<open>Operations\<close>

definition FinaliseBIB :: "ConfigROMBuilder \<Rightarrow> ConfigROMBuilder" where
  "FinaliseBIB b =
     (if cb_quadCount b < 5 then b
      else
        let crc = cb_ComputeCRC 1 4 b
        in set_word 0 (push_bit 24 4 OR push_bit 16 4 OR ucast crc) b)"

definition cb_Begin :: "u32 \<Rightarrow> u64 \<Rightarrow> u32 \<Rightarrow> ConfigROMBuilder \<Rightarrow> ConfigROMBuilder" where
  "cb_Begin busOptions guid nodeCapabilities b =
     (let b = cb_Reset\<lparr>cb_begun := True, cb_finalized := False, cb_lastBusOptions := busOptions\<rparr>;
          guidHi = ucast (drop_bit 32 guid);
          guidLo = ucast (guid AND 0xFFFFFFFF);
          b = cb_Append 0 b;
          b = cb_Append kBusNameQuadlet b;
          b = cb_Append (SetGeneration busOptions 0) b;
          b = cb_Append guidHi b;
          b = cb_Append guidLo b
      in FinaliseBIB b)"

definition EnsureRootDirectory :: "ConfigROMBuilder \<Rightarrow> bool \<times> ConfigROMBuilder" where
  "EnsureRootDirectory b =
     (if \<not> cb_begun b then (False, b)
      else
        (True, case cb_rootDirHeaderIndex b of
           None \<Rightarrow> cb_Append 0 (b\<lparr>cb_rootDirHeaderIndex := Some (cb_quadCount b)\<rparr>)
         | Some _ \<Rightarrow> b))"

definition AddImmediateEntry :: "u8 \<Rightarrow> u32 \<Rightarrow> ConfigROMBuilder \<Rightarrow> bool \<times> ConfigROMBuilder" where
  "AddImmediateEntry key value24 b =
     (if \<not> cb_begun b \<or> cb_finalized b then (False, b)
      else
        let (ok, b) = EnsureRootDirectory b in
        if \<not> ok then (False, b)
        else if cb_quadCount b \<ge> kMaxQuadlets then (False, b)
        else (True, cb_Append (MakeDirectoryEntry key kImmediate value24) b))"

text \<open>The word with four bytes of a text, the first in the most significant byte, padded with 0.\<close>

definition text_word :: "u8 list \<Rightarrow> nat \<Rightarrow> u32" where
  "text_word txt i =
     fold (\<lambda>byte word.
        let idx = i * 4 + byte; ch = (if idx < length txt then txt ! idx else 0)
        in word OR push_bit (24 - byte * 8) (ucast ch)) [0, 1, 2, 3] 0"

text \<open>A leaf is named by the offset of its header; offset 0 is the invalid handle.\<close>

type_synonym LeafHandle = u16

definition leaf_valid :: "LeafHandle \<Rightarrow> bool" where "leaf_valid h \<longleftrightarrow> h \<noteq> 0"

definition WriteTextLeaf :: "u8 list \<Rightarrow> ConfigROMBuilder \<Rightarrow> LeafHandle \<times> ConfigROMBuilder" where
  "WriteTextLeaf txt b =
     (let leafOffset = cb_quadCount b;
          payloadBytes = length txt;
          payloadQuadlets = (payloadBytes + 3) div 4
      in if leafOffset + 1 + payloadQuadlets > kMaxQuadlets then (0, b)
         else
           let headerIndex = cb_quadCount b;
               b = cb_Append 0 b;
               b = fold (\<lambda>i. cb_Append (text_word txt i)) [0..<payloadQuadlets] b;
               crc = cb_ComputeCRC (headerIndex + 1) payloadQuadlets b;
               b = set_word headerIndex (push_bit 16 (of_nat payloadQuadlets) OR ucast crc) b
           in (of_nat leafOffset, b))"

definition AddTextLeaf :: "u8 \<Rightarrow> u8 list \<Rightarrow> ConfigROMBuilder \<Rightarrow> LeafHandle \<times> ConfigROMBuilder" where
  "AddTextLeaf key txt b =
     (if \<not> cb_begun b \<or> cb_finalized b then (0, b)
      else
        let (ok, b) = EnsureRootDirectory b in
        if \<not> ok then (0, b)
        else if cb_quadCount b \<ge> kMaxQuadlets then (0, b)
        else
          let entryIndex = cb_quadCount b;
              b = cb_Append 0 b;
              (leafHandle, b) = WriteTextLeaf txt b
          in if \<not> leaf_valid leafHandle then (0, b)
             else (leafHandle, set_word entryIndex (MakeDirectoryEntry key kLeaf (ucast leafHandle)) b))"

definition FinaliseRootDirectory :: "ConfigROMBuilder \<Rightarrow> ConfigROMBuilder" where
  "FinaliseRootDirectory b =
     (case cb_rootDirHeaderIndex b of
        None \<Rightarrow> b
      | Some headerIndex \<Rightarrow>
          if headerIndex \<ge> cb_quadCount b then b
          else
            let entries = cb_quadCount b - headerIndex - 1;
                crc = cb_ComputeCRC (headerIndex + 1) entries b
            in set_word headerIndex (push_bit 16 (of_nat entries) OR ucast crc) b)"

definition cb_Finalize :: "ConfigROMBuilder \<Rightarrow> ConfigROMBuilder" where
  "cb_Finalize b =
     (if \<not> cb_begun b \<or> cb_finalized b then b
      else (FinaliseRootDirectory b)\<lparr>cb_finalized := True\<rparr>)"

definition UpdateGeneration :: "u8 \<Rightarrow> ConfigROMBuilder \<Rightarrow> ConfigROMBuilder" where
  "UpdateGeneration generation b =
     (if cb_quadCount b < 3 then b
      else FinaliseBIB (set_word 2 (SetGeneration (cb_lastBusOptions b) generation) b))"

definition kModuleVendorId :: u8 where "kModuleVendorId = 0x03"
definition kNodeCapabilities :: u8 where "kNodeCapabilities = 0x0C"
definition kTextualDescriptor :: u8 where "kTextualDescriptor = 0x01"

definition cb_Build :: "u32 \<Rightarrow> u64 \<Rightarrow> u32 \<Rightarrow> u8 list \<Rightarrow> ConfigROMBuilder \<Rightarrow> ConfigROMBuilder" where
  "cb_Build busOptions guid nodeCapabilities vendorName b =
     (let b = cb_Begin busOptions guid nodeCapabilities b;
          vendorId = ucast (drop_bit 40 guid AND 0xFFFFFF);
          b = snd (AddImmediateEntry kModuleVendorId vendorId b);
          b = snd (AddImmediateEntry kNodeCapabilities nodeCapabilities b);
          b = (if vendorName \<noteq> [] then snd (AddTextLeaf kTextualDescriptor vendorName b) else b)
      in cb_Finalize b)"

section \<open>Views\<close>

text \<open>\<open>OSSwapHostToBigInt32\<close> and \<open>OSSwapBigToHostInt32\<close> on the little-endian hosts of the driver.\<close>

definition OSSwap32 :: "u32 \<Rightarrow> u32" where
  "OSSwap32 w = push_bit 24 (w AND 0xFF) OR push_bit 8 (w AND 0xFF00)
     OR (drop_bit 8 w AND 0xFF00) OR (drop_bit 24 w AND 0xFF)"

definition ImageNative :: "ConfigROMBuilder \<Rightarrow> u32 list" where
  "ImageNative b = take (cb_quadCount b) (cb_words b)"

definition ImageBE :: "ConfigROMBuilder \<Rightarrow> u32 list" where
  "ImageBE b = map (\<lambda>i. OSSwap32 (cb_words b ! i)) [0..<cb_quadCount b]"

definition HeaderQuad :: "ConfigROMBuilder \<Rightarrow> u32" where
  "HeaderQuad b = (if cb_quadCount b > 0 then cb_words b ! 0 else 0)"

definition BusInfoQuad :: "ConfigROMBuilder \<Rightarrow> u32" where
  "BusInfoQuad b = (if cb_quadCount b > 2 then cb_words b ! 2 else 0)"

definition GuidHiQuad :: "ConfigROMBuilder \<Rightarrow> u32" where
  "GuidHiQuad b = (if cb_quadCount b > 3 then cb_words b ! 3 else 0)"

definition GuidLoQuad :: "ConfigROMBuilder \<Rightarrow> u32" where
  "GuidLoQuad b = (if cb_quadCount b > 4 then cb_words b ! 4 else 0)"

section \<open>The image as a list\<close>

lemma OSSwap32_twice [simp]: "OSSwap32 (OSSwap32 w) = w"
  by (rule u32_eqI) (simp add: OSSwap32_def upt_32 bit_simps mask_simps)

text \<open>
  The class invariant: the array keeps its length, the cursor stays within it, and a builder that has
  begun holds the bus information block and nothing else, or has the header of the root directory
  right behind it.
\<close>

definition cb_ok :: "ConfigROMBuilder \<Rightarrow> bool" where
  "cb_ok b \<longleftrightarrow> length (cb_words b) = kMaxQuadlets \<and> cb_quadCount b \<le> kMaxQuadlets
     \<and> (if cb_begun b
        then (case cb_rootDirHeaderIndex b of None \<Rightarrow> cb_quadCount b = 5 | Some h \<Rightarrow> h = 5 \<and> 6 \<le> cb_quadCount b)
        else b = cb_Reset)"

lemma length_ImageNative: "cb_ok b \<Longrightarrow> length (ImageNative b) = cb_quadCount b"
  by (simp add: cb_ok_def ImageNative_def)

lemma ImageBE_native: "cb_ok b \<Longrightarrow> ImageBE b = map OSSwap32 (ImageNative b)"
  by (rule nth_equalityI) (simp_all add: cb_ok_def ImageNative_def ImageBE_def)

lemma ImageNative_nth: "i < cb_quadCount b \<Longrightarrow> ImageNative b ! i = cb_words b ! i"
  by (simp add: ImageNative_def)

lemma foldl_nth: "foldl (\<lambda>s i. f s (xs ! i)) s [m..<n] = foldl f s (drop m (take n xs))" if "n \<le> length xs"
  using that
proof (induction n)
  case (Suc n)
  show ?case
  proof (cases "m \<le> n")
    case True
    then have "drop m (take (Suc n) xs) = drop m (take n xs) @ [xs ! n]"
      using Suc.prems by (simp add: take_Suc_conv_app_nth)
    with Suc True show ?thesis by simp
  qed simp
qed simp

lemma cb_ComputeCRC_block:
  assumes "cb_ok b"
  shows "cb_ComputeCRC start count b = ComputeBlockCRC16 (take count (drop start (ImageNative b)))"
proof -
  have "min (start + count) (cb_quadCount b) \<le> length (cb_words b)"
    using assms by (auto simp: cb_ok_def intro: le_trans [OF min.cobounded2])
  from foldl_nth [OF this, of crc_quadlet 0 start] show ?thesis
    by (simp add: cb_ComputeCRC_def ComputeBlockCRC16_def ImageNative_def take_drop min_def Let_def add.commute)
qed

lemma ImageNative_Append:
  "cb_ok b \<Longrightarrow> cb_quadCount b < kMaxQuadlets \<Longrightarrow> ImageNative (cb_Append w b) = ImageNative b @ [w]"
  by (simp add: cb_ok_def ImageNative_def cb_Append_def take_Suc_conv_app_nth)

lemma ImageNative_set_word: "ImageNative (set_word i w b) = (ImageNative b)[i := w]"
  by (simp add: ImageNative_def set_word_def take_update_swap)

lemma cb_ok_count: "cb_ok b \<Longrightarrow> cb_begun b \<Longrightarrow> 5 \<le> cb_quadCount b"
  by (auto simp: cb_ok_def split: option.splits)

lemma cb_ok_Append:
  assumes "cb_ok b" and "cb_begun b" and "cb_rootDirHeaderIndex b \<noteq> None"
  shows "cb_ok (cb_Append w b)"
  using assms by (auto simp: cb_ok_def cb_Append_def split: option.splits)

lemma cb_ok_set_word: "cb_ok b \<Longrightarrow> cb_begun b \<Longrightarrow> i < cb_quadCount b \<Longrightarrow> cb_ok (set_word i w b)"
  by (auto simp: cb_ok_def set_word_def split: option.splits)

lemma Append_frame [simp]:
  "cb_rootDirHeaderIndex (cb_Append w b) = cb_rootDirHeaderIndex b"
  "cb_lastBusOptions (cb_Append w b) = cb_lastBusOptions b"
  "cb_begun (cb_Append w b) = cb_begun b" "cb_finalized (cb_Append w b) = cb_finalized b"
  "cb_quadCount (cb_Append w b) = min (Suc (cb_quadCount b)) (max kMaxQuadlets (cb_quadCount b))"
  by (simp_all add: cb_Append_def min_def max_def)

lemma set_word_frame [simp]:
  "cb_rootDirHeaderIndex (set_word i w b) = cb_rootDirHeaderIndex b"
  "cb_lastBusOptions (set_word i w b) = cb_lastBusOptions b"
  "cb_begun (set_word i w b) = cb_begun b" "cb_finalized (set_word i w b) = cb_finalized b"
  "cb_quadCount (set_word i w b) = cb_quadCount b"
  by (simp_all add: set_word_def)

section \<open>Every operation keeps the invariant\<close>

lemma cb_ok_Reset: "cb_ok cb_Reset"
  by (simp add: cb_ok_def cb_Reset_def)

text \<open>The bus information block.\<close>

definition header_of :: "u32 list \<Rightarrow> u32" where
  "header_of block = push_bit 24 4 OR push_bit 16 4 OR ucast (ComputeBlockCRC16 block)"

definition bib_image :: "u32 \<Rightarrow> u64 \<Rightarrow> u32 list" where
  "bib_image busOptions guid =
     (let block = [kBusNameQuadlet, busOptions, ucast (drop_bit 32 guid), ucast (guid AND 0xFFFFFFFF)]
      in header_of block # block)"

lemma FinaliseBIB_image:
  assumes "cb_ok b" and "cb_begun b"
  shows "cb_ok (FinaliseBIB b)"
    and "ImageNative (FinaliseBIB b) = (ImageNative b)[0 := header_of (take 4 (drop 1 (ImageNative b)))]"
    and "cb_rootDirHeaderIndex (FinaliseBIB b) = cb_rootDirHeaderIndex b"
    and "cb_lastBusOptions (FinaliseBIB b) = cb_lastBusOptions b"
    and "cb_begun (FinaliseBIB b) = cb_begun b" and "cb_finalized (FinaliseBIB b) = cb_finalized b"
    and "cb_quadCount (FinaliseBIB b) = cb_quadCount b"
proof -
  have "\<not> cb_quadCount b < 5" using cb_ok_count [OF assms] by simp
  then have F: "FinaliseBIB b = set_word 0 (header_of (take 4 (drop 1 (ImageNative b)))) b"
    by (simp add: FinaliseBIB_def Let_def header_of_def cb_ComputeCRC_block [OF assms(1)])
  show "cb_ok (FinaliseBIB b)"
    unfolding F using assms \<open>\<not> cb_quadCount b < 5\<close> by (intro cb_ok_set_word) auto
  show "ImageNative (FinaliseBIB b) = (ImageNative b)[0 := header_of (take 4 (drop 1 (ImageNative b)))]"
    unfolding F by (rule ImageNative_set_word)
  show "cb_rootDirHeaderIndex (FinaliseBIB b) = cb_rootDirHeaderIndex b"
    "cb_lastBusOptions (FinaliseBIB b) = cb_lastBusOptions b" "cb_begun (FinaliseBIB b) = cb_begun b"
    "cb_finalized (FinaliseBIB b) = cb_finalized b" "cb_quadCount (FinaliseBIB b) = cb_quadCount b"
    unfolding F by simp_all
qed

lemma Begin_image:
  shows "cb_ok (cb_Begin busOptions guid caps b)"
    and "ImageNative (cb_Begin busOptions guid caps b) = bib_image (SetGeneration busOptions 0) guid"
    and "cb_rootDirHeaderIndex (cb_Begin busOptions guid caps b) = None"
    and "cb_lastBusOptions (cb_Begin busOptions guid caps b) = busOptions"
    and "cb_begun (cb_Begin busOptions guid caps b)" and "\<not> cb_finalized (cb_Begin busOptions guid caps b)"
proof -
  define b1 where "b1 = cb_Reset\<lparr>cb_begun := True, cb_finalized := False, cb_lastBusOptions := busOptions\<rparr>"
  define b5 where "b5 = cb_Append (ucast (guid AND 0xFFFFFFFF)) (cb_Append (ucast (drop_bit 32 guid))
    (cb_Append (SetGeneration busOptions 0) (cb_Append kBusNameQuadlet (cb_Append 0 b1))))"
  have B: "cb_Begin busOptions guid caps b = FinaliseBIB b5"
    by (simp add: cb_Begin_def Let_def b5_def b1_def)
  have words: "cb_words b5 = (replicate 256 0)[0 := 0, 1 := kBusNameQuadlet, 2 := SetGeneration busOptions 0,
      3 := ucast (drop_bit 32 guid), 4 := ucast (guid AND 0xFFFFFFFF)]"
    and count: "cb_quadCount b5 = 5"
    by (simp_all add: b5_def b1_def cb_Append_def cb_Reset_def kMaxQuadlets_def numeral_eq_Suc)
  have fields: "cb_rootDirHeaderIndex b5 = None" "cb_lastBusOptions b5 = busOptions" "cb_begun b5" "\<not> cb_finalized b5"
    by (simp_all add: b5_def b1_def cb_Reset_def)
  have ok: "cb_ok b5" by (simp add: cb_ok_def words count fields kMaxQuadlets_def)
  have img: "ImageNative b5 = [0, kBusNameQuadlet, SetGeneration busOptions 0, ucast (drop_bit 32 guid),
      ucast (guid AND 0xFFFFFFFF)]"
    by (simp add: ImageNative_def words count take_update_swap numeral_eq_Suc)
  note F = FinaliseBIB_image [OF ok fields(3)]
  show "cb_ok (cb_Begin busOptions guid caps b)" unfolding B by (rule F)
  show "ImageNative (cb_Begin busOptions guid caps b) = bib_image (SetGeneration busOptions 0) guid"
    unfolding B F(2) img by (simp add: bib_image_def Let_def)
  show "cb_rootDirHeaderIndex (cb_Begin busOptions guid caps b) = None"
    "cb_lastBusOptions (cb_Begin busOptions guid caps b) = busOptions"
    "cb_begun (cb_Begin busOptions guid caps b)" "\<not> cb_finalized (cb_Begin busOptions guid caps b)"
    unfolding B by (simp_all add: F fields)
qed

section \<open>A ROM that is being written\<close>

text \<open>
  Between \<open>Begin\<close> and \<open>Finalize\<close> the image is the bus information block and, once an entry has been
  added, the placeholder of the directory header followed by what was written so far.
\<close>

definition writing :: "u32 list \<Rightarrow> u32 list option \<Rightarrow> ConfigROMBuilder \<Rightarrow> bool" where
  "writing bib body b \<longleftrightarrow> cb_ok b \<and> cb_begun b \<and> \<not> cb_finalized b \<and> length bib = 5
     \<and> (case body of None \<Rightarrow> cb_rootDirHeaderIndex b = None \<and> ImageNative b = bib
        | Some es \<Rightarrow> cb_rootDirHeaderIndex b = Some 5 \<and> ImageNative b = bib @ 0 # es)"

definition body_of :: "u32 list option \<Rightarrow> u32 list" where
  "body_of body = (case body of None \<Rightarrow> [] | Some es \<Rightarrow> es)"

lemma body_of_simps [simp]: "body_of None = []" "body_of (Some es) = es"
  by (simp_all add: body_of_def)

lemma writing_count:
  assumes "writing bib body b"
  shows "cb_quadCount b = (case body of None \<Rightarrow> 5 | Some es \<Rightarrow> 6 + length es)" and "cb_quadCount b \<le> kMaxQuadlets"
proof -
  have "cb_quadCount b = length (ImageNative b)" using assms by (simp add: writing_def length_ImageNative)
  then show "cb_quadCount b = (case body of None \<Rightarrow> 5 | Some es \<Rightarrow> 6 + length es)"
    using assms by (auto simp: writing_def split: option.splits)
  show "cb_quadCount b \<le> kMaxQuadlets" using assms by (simp add: writing_def cb_ok_def)
qed

lemma writing_Append:
  assumes "writing bib (Some es) b" and "6 + length es < kMaxQuadlets"
  shows "writing bib (Some (es @ [w])) (cb_Append w b)"
  using assms writing_count [OF assms(1)]
  by (simp add: writing_def cb_ok_Append ImageNative_Append)

lemma EnsureRootDirectory_writing:
  assumes "writing bib body b"
  shows "fst (EnsureRootDirectory b)" and "writing bib (Some (body_of body)) (snd (EnsureRootDirectory b))"
proof -
  show "fst (EnsureRootDirectory b)" using assms by (simp add: EnsureRootDirectory_def writing_def)
  show "writing bib (Some (body_of body)) (snd (EnsureRootDirectory b))"
  proof (cases body)
    case None
    let ?b = "b\<lparr>cb_rootDirHeaderIndex := Some 5\<rparr>"
    have count: "cb_quadCount b = 5" using writing_count [OF assms] None by simp
    have b: "cb_ok b" "cb_begun b" "\<not> cb_finalized b" "length bib = 5" "ImageNative b = bib"
      "cb_rootDirHeaderIndex b = None"
      using assms None by (simp_all add: writing_def)
    have "cb_ok (cb_Append 0 ?b)"
      using b count by (simp add: cb_ok_def cb_Append_def kMaxQuadlets_def)
    moreover have "ImageNative (cb_Append 0 ?b) = bib @ [0]"
    proof -
      have "ImageNative (cb_Append 0 ?b) = ImageNative (cb_Append 0 b)"
        by (simp add: ImageNative_def cb_Append_def)
      then show ?thesis using b count by (simp add: ImageNative_Append kMaxQuadlets_def)
    qed
    ultimately show ?thesis using b None count by (simp add: writing_def EnsureRootDirectory_def)
  qed (use assms in \<open>simp add: writing_def EnsureRootDirectory_def\<close>)
qed

lemma AddImmediateEntry_writing:
  assumes "writing bib body b"
  shows "fst (AddImmediateEntry key v b) \<longleftrightarrow> length (body_of body) < 250"
    and "writing bib (Some (body_of body @ (if length (body_of body) < 250
           then [MakeDirectoryEntry key kImmediate v] else []))) (snd (AddImmediateEntry key v b))"
proof -
  obtain d where e: "EnsureRootDirectory b = (True, d)" and d: "writing bib (Some (body_of body)) d"
    using EnsureRootDirectory_writing [OF assms] by (cases "EnsureRootDirectory b") auto
  have full: "cb_quadCount d \<ge> kMaxQuadlets \<longleftrightarrow> \<not> length (body_of body) < 250"
    using writing_count [OF d] by (auto simp: kMaxQuadlets_def)
  have A: "AddImmediateEntry key v b = (if length (body_of body) < 250
      then (True, cb_Append (MakeDirectoryEntry key kImmediate v) d) else (False, d))"
    using assms e full by (simp add: AddImmediateEntry_def writing_def)
  show "fst (AddImmediateEntry key v b) \<longleftrightarrow> length (body_of body) < 250" by (simp add: A)
  show "writing bib (Some (body_of body @ (if length (body_of body) < 250
      then [MakeDirectoryEntry key kImmediate v] else []))) (snd (AddImmediateEntry key v b))"
    using d writing_Append [OF d] by (simp add: A kMaxQuadlets_def)
qed

text \<open>A text leaf: its header, then the text four bytes to a quadlet.\<close>

definition text_words :: "u8 list \<Rightarrow> u32 list" where
  "text_words txt = map (text_word txt) [0..<(length txt + 3) div 4]"

definition block_header :: "u32 list \<Rightarrow> u32" where
  "block_header block = push_bit 16 (of_nat (length block)) OR ucast (ComputeBlockCRC16 block)"

lemma length_text_words [simp]: "length (text_words txt) = (length txt + 3) div 4"
  by (simp add: text_words_def)

lemma writing_Appends:
  assumes "writing bib (Some es) b" and "6 + length es + length ws \<le> kMaxQuadlets"
  shows "writing bib (Some (es @ ws)) (fold cb_Append ws b)"
  using assms
proof (induction ws arbitrary: es b)
  case (Cons w ws)
  from Cons.IH [OF writing_Append [OF Cons.prems(1), of w]] Cons.prems(2) show ?case by simp
qed simp

lemma writing_set_word:
  assumes "writing bib (Some es) b" and "i < length es"
  shows "writing bib (Some (es[i := w])) (set_word (6 + i) w b)"
proof -
  have "ImageNative b = bib @ 0 # es" "length bib = 5" using assms(1) by (simp_all add: writing_def)
  then have "(ImageNative b)[6 + i := w] = bib @ 0 # es[i := w]" by (simp add: list_update_append)
  then show ?thesis
    using assms writing_count [OF assms(1)]
    by (simp add: writing_def cb_ok_set_word ImageNative_set_word)
qed

lemma WriteTextLeaf_writing:
  assumes "writing bib (Some es) b"
  shows "WriteTextLeaf txt b = (0, b) \<and> kMaxQuadlets < 7 + length es + length (text_words txt)
    \<or> fst (WriteTextLeaf txt b) = of_nat (6 + length es)
      \<and> 7 + length es + length (text_words txt) \<le> kMaxQuadlets
      \<and> writing bib (Some (es @ block_header (text_words txt) # text_words txt)) (snd (WriteTextLeaf txt b))"
proof (cases "7 + length es + length (text_words txt) \<le> kMaxQuadlets")
  case True
  have count: "cb_quadCount b = 6 + length es" using writing_count [OF assms] by simp
  let ?ws = "text_words txt"
  define c where "c = fold cb_Append ?ws (cb_Append 0 b)"
  have fold_map: "fold (\<lambda>i. cb_Append (text_word txt i)) is d = fold cb_Append (map (text_word txt) is) d" for "is" d
    by (induction "is" arbitrary: d) simp_all
  have c: "writing bib (Some ((es @ [0]) @ ?ws)) c"
    unfolding c_def using writing_Appends [OF writing_Append [OF assms, of 0], of ?ws] True by simp
  then have img: "ImageNative c = bib @ 0 # es @ 0 # ?ws" "length bib = 5" "cb_ok c"
    by (simp_all add: writing_def)
  then have block: "take ((length txt + 3) div 4) (drop (7 + length es) (ImageNative c)) = ?ws" by simp
  have W: "WriteTextLeaf txt b = (of_nat (6 + length es), set_word (6 + length es) (block_header ?ws) c)"
    using True count block
    by (simp add: WriteTextLeaf_def Let_def fold_map c_def [symmetric] text_words_def [symmetric] block_header_def
        cb_ComputeCRC_block [OF img(3)])
  have "((es @ [0]) @ ?ws)[length es := block_header ?ws] = es @ block_header ?ws # ?ws" by simp
  with writing_set_word [OF c, of "length es" "block_header ?ws"]
  have "writing bib (Some (es @ block_header ?ws # ?ws)) (snd (WriteTextLeaf txt b))" unfolding W by simp
  then show ?thesis using True W by simp
next
  case False
  then show ?thesis using writing_count [OF assms] by (auto simp: WriteTextLeaf_def Let_def)
qed

lemma ucast_of_nat_u16: "n < 2 ^ 16 \<Longrightarrow> ucast (of_nat n :: u16) = (of_nat n :: u32)"
  by (rule word_unat_eq_iff [THEN iffD2]) (simp add: unsigned_ucast_eq unsigned_of_nat take_bit_nat_eq_self)

lemma AddTextLeaf_writing:
  assumes "writing bib body b"
  defines "es \<equiv> body_of body"
  shows "writing bib (Some (if 250 \<le> length es then es
      else if 8 + length es + length (text_words txt) \<le> kMaxQuadlets
      then es @ MakeDirectoryEntry key kLeaf (of_nat (7 + length es)) # block_header (text_words txt) # text_words txt
      else es @ [0])) (snd (AddTextLeaf key txt b))"
proof -
  obtain d where e: "EnsureRootDirectory b = (True, d)" and d: "writing bib (Some es) d"
    using EnsureRootDirectory_writing [OF assms(1)] by (cases "EnsureRootDirectory b") (auto simp: es_def)
  note count = writing_count [OF d]
  show ?thesis
  proof (cases "250 \<le> length es")
    case True
    then have "AddTextLeaf key txt b = (0, d)"
      using assms(1) e count by (simp add: AddTextLeaf_def writing_def kMaxQuadlets_def)
    then show ?thesis using d True by simp
  next
    case False
    let ?ws = "text_words txt"
    have f: "writing bib (Some (es @ [0])) (cb_Append 0 d)"
      using writing_Append [OF d, of 0] False by (simp add: kMaxQuadlets_def)
    have A: "AddTextLeaf key txt b = (let (h, c) = WriteTextLeaf txt (cb_Append 0 d) in
        if \<not> leaf_valid h then (0, c) else (h, set_word (6 + length es) (MakeDirectoryEntry key kLeaf (ucast h)) c))"
      using assms(1) e count False by (simp add: AddTextLeaf_def writing_def kMaxQuadlets_def)
    from WriteTextLeaf_writing [OF f, of "txt"]
    consider (full) "WriteTextLeaf txt (cb_Append 0 d) = (0, cb_Append 0 d)" "kMaxQuadlets < 8 + length es + length ?ws"
      | (room) "fst (WriteTextLeaf txt (cb_Append 0 d)) = of_nat (7 + length es)" "8 + length es + length ?ws \<le> kMaxQuadlets"
        "writing bib (Some ((es @ [0]) @ block_header ?ws # ?ws)) (snd (WriteTextLeaf txt (cb_Append 0 d)))" by auto
    then show ?thesis
    proof cases
      case full
      then show ?thesis using A f False by (simp add: leaf_valid_def)
    next
      case room
      let ?h = "of_nat (7 + length es) :: LeafHandle"
      have small: "7 + length es < 2 ^ 16" using room(2) by (simp add: kMaxQuadlets_def)
      then have nat: "unat ?h = 7 + length es" by (simp only: unsigned_of_nat) (simp add: take_bit_nat_eq_self)
      then have h: "leaf_valid ?h" unfolding leaf_valid_def by auto
      have u: "ucast ?h = (of_nat (7 + length es) :: u32)" by (rule ucast_of_nat_u16 [OF small])
      from room(1) A h u have "snd (AddTextLeaf key txt b) =
          set_word (6 + length es) (MakeDirectoryEntry key kLeaf (of_nat (7 + length es)))
            (snd (WriteTextLeaf txt (cb_Append 0 d)))"
        by (simp add: case_prod_beta)
      with writing_set_word [OF room(3), of "length es"] room(2) False show ?thesis by simp
    qed
  qed
qed

lemma Finalize_writing:
  assumes "writing bib body b"
  shows "cb_ok (cb_Finalize b)"
    and "ImageNative (cb_Finalize b) = bib @ (case body of None \<Rightarrow> [] | Some es \<Rightarrow> block_header es # es)"
    and "cb_begun (cb_Finalize b)" and "cb_lastBusOptions (cb_Finalize b) = cb_lastBusOptions b"
proof -
  have b: "cb_ok b" "cb_begun b" "\<not> cb_finalized b" "length bib = 5" using assms by (simp_all add: writing_def)
  have "cb_ok (cb_Finalize b) \<and> ImageNative (cb_Finalize b) = bib @ (case body of None \<Rightarrow> [] | Some es \<Rightarrow> block_header es # es)
      \<and> cb_begun (cb_Finalize b) \<and> cb_lastBusOptions (cb_Finalize b) = cb_lastBusOptions b"
  proof (cases body)
    case None
    then show ?thesis using assms
      by (auto simp: writing_def cb_Finalize_def FinaliseRootDirectory_def cb_ok_def ImageNative_def)
  next
    case (Some es)
    then have img: "ImageNative b = bib @ 0 # es" "cb_rootDirHeaderIndex b = Some 5" "cb_quadCount b = 6 + length es"
      using assms writing_count [OF assms] by (simp_all add: writing_def)
    have crc: "cb_ComputeCRC 6 (length es) b = ComputeBlockCRC16 es"
      using cb_ComputeCRC_block [OF b(1), of 6 "length es"] img b(4) by simp
    have F: "cb_Finalize b = (set_word 5 (block_header es) b)\<lparr>cb_finalized := True\<rparr>"
      using b img crc by (simp add: cb_Finalize_def FinaliseRootDirectory_def Let_def block_header_def)
    have upd: "cb_ok (c\<lparr>cb_finalized := True\<rparr>) = cb_ok c" "ImageNative (c\<lparr>cb_finalized := True\<rparr>) = ImageNative c"
      if "cb_begun c" for c using that by (simp_all add: cb_ok_def ImageNative_def cong: option.case_cong)
    show ?thesis unfolding F using b img Some
      by (simp add: upd cb_ok_set_word ImageNative_set_word list_update_append)
  qed
  then show "cb_ok (cb_Finalize b)"
    "ImageNative (cb_Finalize b) = bib @ (case body of None \<Rightarrow> [] | Some es \<Rightarrow> block_header es # es)"
    "cb_begun (cb_Finalize b)" "cb_lastBusOptions (cb_Finalize b) = cb_lastBusOptions b" by simp_all
qed

section \<open>The written image\<close>

datatype RomItem = ImmediateItem u8 u32 | TextItem u8 "u8 list"

primrec add_item :: "RomItem \<Rightarrow> ConfigROMBuilder \<Rightarrow> ConfigROMBuilder" where
  "add_item (ImmediateItem key v) b = snd (AddImmediateEntry key v b)"
| "add_item (TextItem key txt) b = snd (AddTextLeaf key txt b)"

text \<open>What an item adds behind the directory header, given what is there already.\<close>

primrec item_quads :: "RomItem \<Rightarrow> u32 list \<Rightarrow> u32 list" where
  "item_quads (ImmediateItem key v) es = (if length es < 250 then es @ [MakeDirectoryEntry key kImmediate v] else es)"
| "item_quads (TextItem key txt) es =
     (if 250 \<le> length es then es
      else if 8 + length es + length (text_words txt) \<le> kMaxQuadlets
      then es @ MakeDirectoryEntry key kLeaf (of_nat (7 + length es)) # block_header (text_words txt) # text_words txt
      else es @ [0])"

lemma add_item_writing:
  "writing bib body b \<Longrightarrow> writing bib (Some (item_quads i (body_of body))) (add_item i b)"
  using AddImmediateEntry_writing(2) [of bib body b] AddTextLeaf_writing [of bib body b]
  by (cases i) (auto split: if_splits)

lemma add_items_writing:
  "writing bib body b \<Longrightarrow> writing bib (if is = [] then body else Some (fold item_quads is (body_of body)))
     (fold add_item is b)"
proof (induction "is" arbitrary: body b)
  case (Cons i "is")
  from Cons.IH [OF add_item_writing [OF Cons.prems, of i]] show ?case by (cases "is") simp_all
qed simp

lemma add_item_options: "cb_lastBusOptions (add_item i b) = cb_lastBusOptions b"
proof -
  have fold_app: "cb_lastBusOptions (fold (\<lambda>k. cb_Append (f k)) ks c) = cb_lastBusOptions c"
    for f :: "nat \<Rightarrow> u32" and ks c by (induction ks arbitrary: c) simp_all
  show ?thesis
    by (cases i) (auto simp: AddImmediateEntry_def AddTextLeaf_def EnsureRootDirectory_def WriteTextLeaf_def
        Let_def fold_app split: option.splits)
qed

lemma add_items_options: "cb_lastBusOptions (fold add_item is b) = cb_lastBusOptions b"
  by (induction "is" arbitrary: b) (simp_all add: add_item_options)

text \<open>The ROM of a list of items: the bus information block, then the root directory.\<close>

definition rom_image :: "u32 \<Rightarrow> u64 \<Rightarrow> RomItem list \<Rightarrow> u32 list" where
  "rom_image busOptions guid items =
     bib_image busOptions guid
     @ (if items = [] then [] else let es = fold item_quads items [] in block_header es # es)"

definition write_rom :: "u32 \<Rightarrow> u64 \<Rightarrow> u32 \<Rightarrow> RomItem list \<Rightarrow> ConfigROMBuilder \<Rightarrow> ConfigROMBuilder" where
  "write_rom busOptions guid caps items b = cb_Finalize (fold add_item items (cb_Begin busOptions guid caps b))"

lemma write_rom_facts:
  shows "cb_ok (write_rom busOptions guid caps items b)"
    and "ImageNative (write_rom busOptions guid caps items b) = rom_image (SetGeneration busOptions 0) guid items"
    and "cb_begun (write_rom busOptions guid caps items b)"
    and "cb_lastBusOptions (write_rom busOptions guid caps items b) = busOptions"
proof -
  let ?bib = "bib_image (SetGeneration busOptions 0) guid"
  let ?body = "if items = [] then None else Some (fold item_quads items [])"
  have "writing ?bib None (cb_Begin busOptions guid caps b)"
    by (simp add: writing_def Begin_image) (simp add: bib_image_def Let_def)
  from add_items_writing [OF this, of items]
  have w: "writing ?bib ?body (fold add_item items (cb_Begin busOptions guid caps b))"
    by (cases items) simp_all
  note F = Finalize_writing [OF w, folded write_rom_def]
  show "cb_ok (write_rom busOptions guid caps items b)" "cb_begun (write_rom busOptions guid caps items b)"
    by (fact F)+
  show "ImageNative (write_rom busOptions guid caps items b) = rom_image (SetGeneration busOptions 0) guid items"
    by (simp add: F(2) rom_image_def Let_def)
  show "cb_lastBusOptions (write_rom busOptions guid caps items b) = busOptions"
    by (simp add: F(4) add_items_options Begin_image)
qed

lemma UpdateGeneration_image:
  assumes "cb_ok b" and "cb_begun b" and "ImageNative b = rom_image opts guid items"
  shows "ImageNative (UpdateGeneration g b) = rom_image (SetGeneration (cb_lastBusOptions b) g) guid items"
    and "cb_ok (UpdateGeneration g b)"
proof -
  have five: "5 \<le> cb_quadCount b" using assms by (simp add: cb_ok_count)
  let ?c = "set_word 2 (SetGeneration (cb_lastBusOptions b) g) b"
  have c: "cb_ok ?c" "cb_begun ?c" using assms five by (auto intro: cb_ok_set_word)
  have U: "UpdateGeneration g b = FinaliseBIB ?c" using five by (simp add: UpdateGeneration_def)
  show "cb_ok (UpdateGeneration g b)" unfolding U by (rule FinaliseBIB_image [OF c])
  show "ImageNative (UpdateGeneration g b) = rom_image (SetGeneration (cb_lastBusOptions b) g) guid items"
    unfolding U FinaliseBIB_image(2) [OF c] ImageNative_set_word assms(3)
    by (simp add: rom_image_def bib_image_def Let_def numeral_eq_Suc)
qed

text \<open>
  C12: what the configuration ROM builder writes. Whatever items are added between \<open>Begin\<close> and
  \<open>Finalize\<close> and whatever the builder held before, the image is the bus information block of the
  options and GUID with the checksum over its four quadlets, followed by the root directory of the
  items that fit, with their number and the checksum over all of them in its header; a later change
  of the generation changes the four generation bits of the bus options and the checksum of the
  first block and nothing else.
\<close>

theorem builder_image_exact:
  "ImageNative (write_rom busOptions guid caps items b) = rom_image (SetGeneration busOptions 0) guid items
   \<and> ImageNative (UpdateGeneration g (write_rom busOptions guid caps items b))
       = rom_image (SetGeneration busOptions g) guid items
   \<and> cb_ok (UpdateGeneration g (write_rom busOptions guid caps items b))"
  using write_rom_facts [of busOptions guid caps items b]
    UpdateGeneration_image [of "write_rom busOptions guid caps items b"] by simp

lemma Build_write_rom:
  "cb_Build busOptions guid caps vendor b = write_rom busOptions guid caps
     ([ImmediateItem kModuleVendorId (ucast (drop_bit 40 guid AND 0xFFFFFF)), ImmediateItem kNodeCapabilities caps]
      @ (if vendor = [] then [] else [TextItem kTextualDescriptor vendor])) b"
  by (simp add: cb_Build_def write_rom_def Let_def)

section \<open>Every sequence of operations\<close>

datatype BuilderOp = OpBegin u32 u64 u32 | OpItem RomItem | OpFinalize | OpGeneration u8
  | OpBuild u32 u64 u32 "u8 list"

primrec builder_step :: "BuilderOp \<Rightarrow> ConfigROMBuilder \<Rightarrow> ConfigROMBuilder" where
  "builder_step (OpBegin busOptions guid caps) b = cb_Begin busOptions guid caps b"
| "builder_step (OpItem i) b = add_item i b"
| "builder_step OpFinalize b = cb_Finalize b"
| "builder_step (OpGeneration g) b = UpdateGeneration g b"
| "builder_step (OpBuild busOptions guid caps vendor) b = cb_Build busOptions guid caps vendor b"

lemma cb_ok_Ensure:
  assumes "cb_ok b" and "cb_begun b"
  shows "cb_ok (snd (EnsureRootDirectory b))" and "cb_begun (snd (EnsureRootDirectory b))"
    and "cb_rootDirHeaderIndex (snd (EnsureRootDirectory b)) = Some 5" and "fst (EnsureRootDirectory b)"
  using assms
  by (auto simp: EnsureRootDirectory_def cb_ok_def cb_Append_def kMaxQuadlets_def split: option.splits)

lemma cb_ok_Appends:
  "cb_ok b \<Longrightarrow> cb_begun b \<Longrightarrow> cb_rootDirHeaderIndex b \<noteq> None \<Longrightarrow>
     cb_ok (fold (\<lambda>i. cb_Append (f i)) is b) \<and> cb_begun (fold (\<lambda>i. cb_Append (f i)) is b)
     \<and> cb_quadCount b \<le> cb_quadCount (fold (\<lambda>i. cb_Append (f i)) is b)"
proof (induction "is" arbitrary: b)
  case (Cons i "is")
  have "cb_quadCount b \<le> cb_quadCount (cb_Append (f i) b)" by (simp add: cb_Append_def)
  with Cons.IH [of "cb_Append (f i) b"] Cons.prems show ?case by (auto simp: cb_ok_Append)
qed simp

lemma cb_ok_WriteTextLeaf:
  assumes "cb_ok b" and "cb_begun b" and "cb_rootDirHeaderIndex b \<noteq> None"
  shows "cb_ok (snd (WriteTextLeaf txt b)) \<and> cb_begun (snd (WriteTextLeaf txt b))
    \<and> cb_quadCount b \<le> cb_quadCount (snd (WriteTextLeaf txt b))"
proof (cases "cb_quadCount b + 1 + (length txt + 3) div 4 > kMaxQuadlets")
  case False
  let ?c = "fold (\<lambda>i. cb_Append (text_word txt i)) [0..<(length txt + 3) div 4] (cb_Append 0 b)"
  have a: "cb_ok (cb_Append 0 b)" "cb_begun (cb_Append 0 b)" "cb_rootDirHeaderIndex (cb_Append 0 b) \<noteq> None"
    using assms by (simp_all add: cb_ok_Append)
  have "cb_quadCount b < cb_quadCount (cb_Append 0 b)" using False by (simp add: cb_Append_def)
  with cb_ok_Appends [OF a, of "text_word txt" "[0..<(length txt + 3) div 4]"]
  have "cb_ok ?c" "cb_begun ?c" "cb_quadCount b < cb_quadCount ?c" by auto
  then show ?thesis using False by (simp add: WriteTextLeaf_def Let_def cb_ok_set_word)
qed (use assms in \<open>simp add: WriteTextLeaf_def Let_def\<close>)

lemma cb_ok_item: "cb_ok b \<Longrightarrow> cb_ok (add_item i b)"
proof (cases "cb_begun b \<and> \<not> cb_finalized b")
  case True
  assume "cb_ok b"
  define d where "d = snd (EnsureRootDirectory b)"
  have d: "cb_ok d" "cb_begun d" "cb_rootDirHeaderIndex d = Some 5" "EnsureRootDirectory b = (True, d)"
    using cb_ok_Ensure [OF \<open>cb_ok b\<close>] True by (simp_all add: d_def prod_eq_iff)
  then have a: "cb_ok (cb_Append w d)" "cb_begun (cb_Append w d)" "cb_rootDirHeaderIndex (cb_Append w d) \<noteq> None" for w
    by (simp_all add: cb_ok_Append)
  have less: "cb_quadCount d < kMaxQuadlets \<Longrightarrow> cb_quadCount d < cb_quadCount (cb_Append 0 d)" by (simp add: cb_Append_def)
  show ?thesis
  proof (cases i)
    case (ImmediateItem key v)
    then show ?thesis using True d a by (simp add: AddImmediateEntry_def)
  next
    case (TextItem key "txt")
    then show ?thesis
      using True d(1,4) less cb_ok_WriteTextLeaf [OF a, of "txt"]
      by (auto simp: AddTextLeaf_def case_prod_beta Let_def Suc_le_eq intro!: cb_ok_set_word)
  qed
qed (cases i; auto simp: AddImmediateEntry_def AddTextLeaf_def)

lemma cb_ok_Finalize: "cb_ok b \<Longrightarrow> cb_ok (cb_Finalize b)"
proof (cases "cb_begun b \<and> \<not> cb_finalized b")
  case True
  assume ok: "cb_ok b"
  have "cb_ok (FinaliseRootDirectory b) \<and> cb_begun (FinaliseRootDirectory b)"
    using ok True by (auto simp: FinaliseRootDirectory_def Let_def intro: cb_ok_set_word split: option.split)
  then show ?thesis using True by (auto simp: cb_Finalize_def cb_ok_def cong: option.case_cong)
qed (auto simp: cb_Finalize_def)

lemma cb_ok_UpdateGeneration: "cb_ok b \<Longrightarrow> cb_ok (UpdateGeneration g b)"
proof (cases "cb_begun b")
  case True
  assume ok: "cb_ok b"
  then have "cb_ok (set_word 2 w b)" for w using True cb_ok_count [OF ok True] by (intro cb_ok_set_word) auto
  then show ?thesis using True ok by (simp add: UpdateGeneration_def FinaliseBIB_image)
next
  case False
  assume "cb_ok b"
  then have "cb_quadCount b = 0" using False by (auto simp: cb_ok_def cb_Reset_def)
  then show ?thesis using \<open>cb_ok b\<close> by (simp add: UpdateGeneration_def)
qed

interpretation builder: class_invariant cb_ok "\<lambda>_. True" builder_step
proof
  fix b op
  assume "cb_ok b"
  then show "cb_ok (builder_step op b)"
    by (cases op) (simp_all add: Begin_image cb_ok_item cb_ok_Finalize cb_ok_UpdateGeneration Build_write_rom write_rom_facts)
qed

text \<open>
  C37: whatever sequence of operations a client calls, in or out of order, the builder stays well
  formed: no write leaves the array of 256 quadlets, the image is never longer, and a root directory
  starts right behind the bus information block.
\<close>

theorem builder_well_formed:
  "let b = fold builder_step ops cb_Reset in
     length (cb_words b) = 256 \<and> length (ImageNative b) = cb_quadCount b \<and> cb_quadCount b \<le> 256
     \<and> (case cb_rootDirHeaderIndex b of None \<Rightarrow> cb_quadCount b = 0 \<or> cb_quadCount b = 5
        | Some h \<Rightarrow> h = 5 \<and> 6 \<le> cb_quadCount b)"
proof -
  have ok: "cb_ok (fold builder_step ops cb_Reset)"
    by (rule builder.after_ops [OF cb_ok_Reset]) (simp add: list_all_iff)
  from length_ImageNative [OF ok] ok show ?thesis
    unfolding Let_def by (auto simp: cb_ok_def kMaxQuadlets_def cb_Reset_def split: if_splits option.splits)
qed

end
