(* ===== verification/Config_ROM_Parser.thy ===== *)
theory Config_ROM_Parser
  imports Config_ROM_Builder
begin

text \<open>
  \<^verbatim>\<open>ConfigROM/Parse/ConfigROMParser.cpp\<close>: decoding of the bus information block, of directories and of
  textual descriptor leaves from quadlets in wire order. A read outside the given quadlets, which
  the code does not define, is the value \<open>None\<close> of \<open>ParseTextDescriptorLeaf\<close>; the other functions check
  every index before they use it.
\<close>

section \<open>Results\<close>

datatype ParseErrorCode = RomNullInput | RomTooShort | RomOutOfBounds | RomInvalidHeader
  | RomUnsupportedTextDescriptor | RomUnsupportedTextEncoding

record ParseError =
  pe_code :: ParseErrorCode
  pe_offsetQuadlets :: u32

definition perror :: "ParseErrorCode \<Rightarrow> u32 \<Rightarrow> ParseError + 'a" where
  "perror code offset = Inl \<lparr>pe_code = code, pe_offsetQuadlets = offset\<rparr>"

datatype CRCStatus = CrcNotPresent | CrcNotCheckable | CrcOk | CrcMismatch

datatype ConfigROMFormat = RomUnknown | Minimal1212 | General1394

record BusInfoBlock =
  bib_format :: ConfigROMFormat
  bib_busInfoLength :: u8
  bib_crcLength :: u8
  bib_crc :: u16
  bib_irmc :: bool
  bib_cmc :: bool
  bib_isc :: bool
  bib_bmc :: bool
  bib_pmc :: bool
  bib_cycClkAcc :: u8
  bib_maxRec :: u8
  bib_maxRom :: u8
  bib_generation :: u8
  bib_linkSpd :: u8
  bib_guid :: u64

record BIBParseResult =
  bp_bib :: BusInfoBlock
  bp_crcStatus :: CRCStatus
  bp_computed :: "u16 option"

record DirectoryEntry =
  de_index :: u32
  de_keyType :: u8
  de_keyId :: u8
  de_value :: u32
  de_hasTarget :: bool
  de_targetRel :: u32

datatype CfgKey = CfgTextDescriptor | CfgVendorId | CfgModelId | CfgUnit_Spec_Id | CfgUnit_Sw_Version
  | CfgLogical_Unit_Number | CfgNode_Capabilities | CfgUnit_Directory | CfgManagement_Agent_Offset
  | CfgUnit_Characteristics | CfgFast_Start

record RomEntry =
  re_key :: CfgKey
  re_value :: u32
  re_entryType :: u8
  re_leafOffsetQuadlets :: u32

section \<open>The bus information block\<close>

definition kMinimal1212BusInfoLength :: u8 where "kMinimal1212BusInfoLength = 1"
definition kGeneral1394MinBusInfoLength :: u8 where "kGeneral1394MinBusInfoLength = 4"

definition ReadBEQuadlet :: "u32 list \<Rightarrow> nat \<Rightarrow> u32" where
  "ReadBEQuadlet quadletsBE index = OSSwap32 (quadletsBE ! index)"

definition ComputeCRC16_1212 :: "u32 list \<Rightarrow> u16" where
  "ComputeCRC16_1212 quadletsHost =
     foldl (\<lambda>crc q. CRCStep (CRCStep crc (ucast (drop_bit 16 q AND 0xFFFF))) (ucast (q AND 0xFFFF))) 0 quadletsHost"

definition BusInfoBlock0 :: BusInfoBlock where
  "BusInfoBlock0 = \<lparr>bib_format = RomUnknown, bib_busInfoLength = 0, bib_crcLength = 0, bib_crc = 0,
     bib_irmc = False, bib_cmc = False, bib_isc = False, bib_bmc = False, bib_pmc = False,
     bib_cycClkAcc = 0, bib_maxRec = 0, bib_maxRom = 0, bib_generation = 0, bib_linkSpd = 0, bib_guid = 0\<rparr>"

definition ParseBIB :: "u32 list \<Rightarrow> ParseError + BIBParseResult" where
  "ParseBIB bibQuadletsBE =
     (if bibQuadletsBE = [] then perror RomTooShort 0
      else
        let q0 = ReadBEQuadlet bibQuadletsBE 0;
            bib = BusInfoBlock0\<lparr>bib_busInfoLength := ucast (drop_bit 24 q0 AND 0xFF),
                    bib_crcLength := ucast (drop_bit 16 q0 AND 0xFF), bib_crc := ucast (q0 AND 0xFFFF)\<rparr>
        in
        if bib_busInfoLength bib = kMinimal1212BusInfoLength
        then Inr \<lparr>bp_bib = bib\<lparr>bib_format := Minimal1212\<rparr>, bp_crcStatus = CrcNotCheckable, bp_computed = None\<rparr>
        else if bib_busInfoLength bib < kGeneral1394MinBusInfoLength then perror RomInvalidHeader 0
        else if bib_crcLength bib \<noteq> 0 \<and> bib_crcLength bib < bib_busInfoLength bib then perror RomInvalidHeader 0
        else
        let requiredQuadlets = unat (bib_busInfoLength bib) + 1 in
        if length bibQuadletsBE < requiredQuadlets then perror RomTooShort (of_nat (length bibQuadletsBE))
        else
        let q1 = ReadBEQuadlet bibQuadletsBE 1; q2 = ReadBEQuadlet bibQuadletsBE 2;
            q3 = ReadBEQuadlet bibQuadletsBE 3; q4 = ReadBEQuadlet bibQuadletsBE 4
        in
        if q1 \<noteq> kBusNameQuadlet then perror RomInvalidHeader 1
        else
        let bib = bib\<lparr>bib_format := General1394,
              bib_irmc := drop_bit 31 q2 AND 1 \<noteq> 0, bib_cmc := drop_bit 30 q2 AND 1 \<noteq> 0,
              bib_isc := drop_bit 29 q2 AND 1 \<noteq> 0, bib_bmc := drop_bit 28 q2 AND 1 \<noteq> 0,
              bib_pmc := drop_bit 27 q2 AND 1 \<noteq> 0,
              bib_cycClkAcc := ucast (drop_bit 16 q2 AND 0xFF), bib_maxRec := ucast (drop_bit 12 q2 AND 0xF),
              bib_maxRom := ucast (drop_bit 8 q2 AND 0x3), bib_generation := ucast (drop_bit 4 q2 AND 0xF),
              bib_linkSpd := ucast (q2 AND 0x7),
              bib_guid := push_bit 32 (ucast q3) OR ucast q4\<rparr>
        in
        if bib_crcLength bib = 0
        then Inr \<lparr>bp_bib = bib, bp_crcStatus = CrcNotPresent, bp_computed = None\<rparr>
        else
        let crcQuadlets = unat (bib_crcLength bib) in
        if crcQuadlets > length bibQuadletsBE - 1
        then Inr \<lparr>bp_bib = bib, bp_crcStatus = CrcNotCheckable, bp_computed = None\<rparr>
        else
        let crcInput = map (ReadBEQuadlet bibQuadletsBE) [1..<Suc crcQuadlets];
            computed = ComputeCRC16_1212 crcInput
        in Inr \<lparr>bp_bib = bib, bp_crcStatus = (if computed = bib_crc bib then CrcOk else CrcMismatch),
                bp_computed = Some computed\<rparr>)"

definition CalculateCRCCoverageBytes :: "BusInfoBlock \<Rightarrow> u32" where
  "CalculateCRCCoverageBytes bib =
     (let totalQuadlets = ucast (bib_crcLength bib) + 1; totalBytes = totalQuadlets * 4
      in if totalBytes > 1024 then 1024 else totalBytes)"

section \<open>Directories\<close>

text \<open>The 24-bit value of an entry, sign-extended.\<close>

definition signedValue :: "u32 \<Rightarrow> int" where
  "signedValue v = (if v AND 0x800000 \<noteq> 0 then sint (v OR 0xFF000000) else sint v)"

definition parse_entry :: "nat \<Rightarrow> u32 \<Rightarrow> DirectoryEntry" where
  "parse_entry i entry =
     (let out = \<lparr>de_index = of_nat i, de_keyType = ucast (drop_bit 30 entry AND 0x3),
            de_keyId = ucast (drop_bit 24 entry AND 0x3F), de_value = entry AND 0x00FFFFFF,
            de_hasTarget = False, de_targetRel = 0\<rparr>
      in if de_keyType out = kLeaf \<or> de_keyType out = kDirectory
         then let rel = int i + signedValue (de_value out)
              in if rel \<ge> 0 then out\<lparr>de_hasTarget := True, de_targetRel := of_int rel\<rparr> else out
         else out)"

definition ParseDirectory :: "u32 list \<Rightarrow> u32 \<Rightarrow> ParseError + DirectoryEntry list" where
  "ParseDirectory dirQuadletsBE entryCap =
     (if dirQuadletsBE = [] then perror RomTooShort 0
      else
        let hdr = OSSwap32 (dirQuadletsBE ! 0);
            len = drop_bit 16 hdr AND 0xFFFF;
            available = of_nat (length dirQuadletsBE - 1)
        in if len > available then perror RomOutOfBounds (available + 1)
           else
             let count = min len entryCap
             in Inr (map (\<lambda>i. parse_entry i (OSSwap32 (dirQuadletsBE ! i))) [1..<Suc (unat count)]))"

definition IsLeafOrDirectory :: "u8 \<Rightarrow> bool" where
  "IsLeafOrDirectory keyType \<longleftrightarrow> keyType = kLeaf \<or> keyType = kDirectory"

definition AppendRecognizedEntry ::
  "u8 \<Rightarrow> u8 \<Rightarrow> u32 \<Rightarrow> u32 \<Rightarrow> RomEntry list \<Rightarrow> RomEntry list" where
  "AppendRecognizedEntry keyType keyId value0 target entries =
     (let plain = (\<lambda>key. entries @ [\<lparr>re_key = key, re_value = value0, re_entryType = keyType,
            re_leafOffsetQuadlets = 0\<rparr>]);
          linked = (\<lambda>key. entries @ [\<lparr>re_key = key, re_value = value0, re_entryType = keyType,
            re_leafOffsetQuadlets = target\<rparr>]);
          immediate = (\<lambda>key. if keyType = kImmediate then plain key else entries)
      in if keyId = 0x01 then
           if \<not> IsLeafOrDirectory keyType then entries
           else if target = 0 then entries else linked CfgTextDescriptor
         else if keyId = 0x03 then immediate CfgVendorId
         else if keyId = 0x17 then immediate CfgModelId
         else if keyId = 0x12 then immediate CfgUnit_Spec_Id
         else if keyId = 0x13 then immediate CfgUnit_Sw_Version
         else if keyId = 0x14 then
           if keyType = kImmediate then plain CfgLogical_Unit_Number
           else if keyType = kCSROffset then plain CfgManagement_Agent_Offset else entries
         else if keyId = 0x0C then immediate CfgNode_Capabilities
         else if keyId = 0x11 then if keyType = kDirectory then linked CfgUnit_Directory else entries
         else if keyId = 0x38 then if keyType = kCSROffset then plain CfgManagement_Agent_Offset else entries
         else if keyId = 0x39 then immediate CfgUnit_Characteristics
         else if keyId = 0x3A then if keyType = kLeaf \<and> target \<noteq> 0 then linked CfgFast_Start else entries
         else entries)"

definition kMaxDirectoryEntriesToScan :: u32 where "kMaxDirectoryEntriesToScan = 64"

definition ParseRootDirectory :: "u32 list \<Rightarrow> u32 \<Rightarrow> ParseError + RomEntry list" where
  "ParseRootDirectory dirQuadletsBE maxQuadlets =
     (if maxQuadlets = 0 then perror RomTooShort 0
      else
        let cappedMax = min (unat maxQuadlets) (length dirQuadletsBE)
        in if cappedMax = 0 then perror RomTooShort 0
           else ebind (ParseDirectory (take cappedMax dirQuadletsBE) kMaxDirectoryEntriesToScan)
             (\<lambda>parsed. Inr (fold (\<lambda>entry. AppendRecognizedEntry (de_keyType entry) (de_keyId entry)
                 (de_value entry) (if de_hasTarget entry then de_targetRel entry else 0)) parsed [])))"

section \<open>Textual descriptors\<close>

definition readBE32 :: "u32 list \<Rightarrow> u32 \<Rightarrow> u32 option" where
  "readBE32 quadletsBE idx =
     (if unat idx < length quadletsBE then Some (OSSwap32 (quadletsBE ! unat idx)) else None)"

definition quad_bytes :: "u32 \<Rightarrow> u8 list" where
  "quad_bytes q = map (\<lambda>j. ucast (drop_bit (j * 8) q AND 0xFF)) [3, 2, 1, 0]"

text \<open>The loop over quadlets and bytes; it ends at the first byte 0.\<close>

fun text_loop :: "u32 list \<Rightarrow> u32 \<Rightarrow> nat \<Rightarrow> u8 list \<Rightarrow> u8 list option" where
  "text_loop quadletsBE start 0 txt = Some txt"
| "text_loop quadletsBE start (Suc n) txt =
     (case readBE32 quadletsBE start of
        None \<Rightarrow> None
      | Some q \<Rightarrow>
          let seg = takeWhile (\<lambda>byte. byte \<noteq> 0) (quad_bytes q)
          in if length seg < 4 then Some (txt @ seg)
             else text_loop quadletsBE (start + 1) n (txt @ seg))"

definition ParseTextDescriptorLeaf :: "u32 list \<Rightarrow> u32 \<Rightarrow> (ParseError + u8 list) option" where
  "ParseTextDescriptorLeaf allQuadletsBE leafOffsetQuadlets =
     (let totalQuadlets = of_nat (length allQuadletsBE) in
      if leafOffsetQuadlets + 2 \<ge> totalQuadlets then Some (perror RomOutOfBounds leafOffsetQuadlets)
      else Option.bind (readBE32 allQuadletsBE leafOffsetQuadlets) (\<lambda>header.
        let leafLength = drop_bit 16 header AND 0xFFFF;
            leafEndExclusive = leafOffsetQuadlets + 1 + leafLength
        in
        if leafLength < 2 \<or> leafEndExclusive > totalQuadlets
        then Some (perror RomInvalidHeader leafOffsetQuadlets)
        else Option.bind (readBE32 allQuadletsBE (leafOffsetQuadlets + 1)) (\<lambda>typeSpec.
          let descriptorType = ucast (drop_bit 24 typeSpec AND 0xFF) :: u8;
              specifierId = typeSpec AND 0xFFFFFF
          in
          if descriptorType \<noteq> 0 \<or> specifierId \<noteq> 0
          then Some (perror RomUnsupportedTextDescriptor (leafOffsetQuadlets + 1))
          else Option.bind (readBE32 allQuadletsBE (leafOffsetQuadlets + 2)) (\<lambda>widthCharsetLang.
            if widthCharsetLang \<noteq> 0 then Some (perror RomUnsupportedTextEncoding (leafOffsetQuadlets + 2))
            else
              let textStartQuadlet = leafOffsetQuadlets + 3;
                  textQuadlets = (if leafLength \<ge> 2 then leafLength - 2 else 0)
              in
              if textQuadlets = 0 \<or> textStartQuadlet + textQuadlets > totalQuadlets
              then Some (perror RomTooShort leafOffsetQuadlets)
              else map_option Inr (text_loop allQuadletsBE textStartQuadlet (unat textQuadlets) [])))))"

end
