(* ===== verification/Config_ROM_Properties.thy ===== *)
theory Config_ROM_Properties
  imports Config_ROM_Parser
begin

text \<open>
  What the parser of configuration ROMs accepts and returns, and what it makes of the ROM that the
  builder writes.
\<close>

section \<open>The bus information block\<close>

lemma crc_same: "ComputeCRC16_1212 xs = ComputeBlockCRC16 xs"
  by (simp add: ComputeCRC16_1212_def ComputeBlockCRC16_def crc_quadlet_def [abs_def])

lemma header_fields:
  "drop_bit 24 (header_of block) AND 0xFF = 4" "drop_bit 16 (header_of block) AND 0xFF = 4"
  "ucast (header_of block AND 0xFFFF) = ComputeBlockCRC16 block"
  unfolding header_of_def
  by (rule u32_eqI, simp add: upt_32 bit_simps mask_simps, rule u32_eqI, simp add: upt_32 bit_simps mask_simps,
      rule u16_eqI, simp add: upt_16 bit_simps mask_simps)

definition options_of :: "BusInfoBlock \<Rightarrow> BusOptionsDecoded" where
  "options_of bib = \<lparr>bo_irmc = bib_irmc bib, bo_cmc = bib_cmc bib, bo_isc = bib_isc bib, bo_bmc = bib_bmc bib,
     bo_pmc = bib_pmc bib, bo_cycClkAcc = bib_cycClkAcc bib, bo_maxRec = bib_maxRec bib,
     bo_maxRom = bib_maxRom bib, bo_generation = bib_generation bib, bo_linkSpd = bib_linkSpd bib\<rparr>"

lemma guid_halves: "push_bit 32 (ucast (ucast (drop_bit 32 guid) :: u32)) OR ucast (ucast (guid AND 0xFFFFFFFF) :: u32) = guid"
  for guid :: u64
proof -
  have low: "bit (0xFFFFFFFF :: u64) n \<longleftrightarrow> n < 32" for n
  proof -
    have "(0xFFFFFFFF :: u64) = mask 32" by (simp add: mask_eq_exp_minus_1)
    then show ?thesis by (simp only: bit_mask_iff) auto
  qed
  show ?thesis
  proof (rule bit_word_eqI)
    fix n :: nat
    assume "n < LENGTH(64)"
    then show "bit (push_bit 32 (ucast (ucast (drop_bit 32 guid) :: u32)) OR ucast (ucast (guid AND 0xFFFFFFFF) :: u32) :: u64) n
        = bit guid n"
      unfolding bit_or_iff bit_push_bit_iff bit_unsigned_iff bit_and_iff bit_drop_bit_eq low
      by (cases "n < 32") auto
  qed
qed

lemma option_bits:
  "drop_bit n w AND 1 \<noteq> 0 \<longleftrightarrow> bit w n" for w :: u32
  by (simp add: and_one_eq odd_iff_mod_2_eq_one [symmetric] bit_iff_odd_drop_bit)

lemma option_fields:
  "(ucast (drop_bit 16 w AND 0xFF) :: u8) = ucast (drop_bit 16 (w AND kCycClkAccMask))"
  "(ucast (drop_bit 12 w AND 0xF) :: u8) = ucast (drop_bit 12 (w AND kMaxRecMask))"
  "(ucast (drop_bit 8 w AND 0x3) :: u8) = ucast (drop_bit 8 (w AND kMaxROMMask))"
  "(ucast (drop_bit 4 w AND 0xF) :: u8) = ucast (drop_bit 4 (w AND kBusOptGenerationMask))"
  "(ucast (w AND 0x7) :: u8) = ucast (drop_bit 0 (w AND kLinkSpdMask))" for w :: u32
  by (rule u8_eqI, simp add: bus_options_masks upt_8 bit_simps)+

lemma ParseBIB_image:
  "\<exists>r. ParseBIB (map OSSwap32 (bib_image opts guid @ rest)) = Inr r \<and> bp_crcStatus r = CrcOk
     \<and> bib_format (bp_bib r) = General1394 \<and> options_of (bp_bib r) = DecodeBusOptions opts
     \<and> bib_guid (bp_bib r) = guid \<and> bib_busInfoLength (bp_bib r) = 4 \<and> bib_crcLength (bp_bib r) = 4"
proof -
  let ?block = "[kBusNameQuadlet, opts, ucast (drop_bit 32 guid), ucast (guid AND 0xFFFFFFFF)]"
  define img where "img = map OSSwap32 (bib_image opts guid @ rest)"
  have img: "img = map OSSwap32 (header_of ?block # ?block @ rest)" by (simp add: img_def bib_image_def Let_def)
  have reads: "ReadBEQuadlet img 0 = header_of ?block" "ReadBEQuadlet img (Suc 0) = kBusNameQuadlet"
    "ReadBEQuadlet img 2 = opts" "ReadBEQuadlet img 3 = ucast (drop_bit 32 guid)"
    "ReadBEQuadlet img 4 = ucast (guid AND 0xFFFFFFFF)"
    unfolding img by (simp_all add: ReadBEQuadlet_def numeral_eq_Suc)
  have "[1..<Suc 4] = [Suc 0, 2, 3, 4]" by (simp add: upt_rec)
  then have input: "map (ReadBEQuadlet img) [1..<Suc 4] = ?block" by (simp only: list.map reads)
  have len: "length img = 5 + length rest" "img \<noteq> []" by (simp_all add: img)
  have options: "DecodeBusOptions opts = \<lparr>bo_irmc = drop_bit 31 opts AND 1 \<noteq> 0, bo_cmc = drop_bit 30 opts AND 1 \<noteq> 0,
      bo_isc = drop_bit 29 opts AND 1 \<noteq> 0, bo_bmc = drop_bit 28 opts AND 1 \<noteq> 0, bo_pmc = drop_bit 27 opts AND 1 \<noteq> 0,
      bo_cycClkAcc = ucast (drop_bit 16 opts AND 0xFF), bo_maxRec = ucast (drop_bit 12 opts AND 0xF),
      bo_maxRom = ucast (drop_bit 8 opts AND 0x3), bo_generation = ucast (drop_bit 4 opts AND 0xF),
      bo_linkSpd = ucast (opts AND 0x7)\<rparr>"
    unfolding DecodeBusOptions_def option_fields option_bits cap_bits by simp
  show ?thesis
    unfolding img_def [symmetric] ParseBIB_def using input len
    by (simp add: reads header_fields crc_same Let_def kMinimal1212BusInfoLength_def
        kGeneral1394MinBusInfoLength_def BusInfoBlock0_def guid_halves options_of_def options)
qed

section \<open>Directories\<close>

lemma unat_le_len: "unat (drop_bit 16 hdr AND 0xFFFF) \<le> 0xFFFF" for hdr :: u32
  using unat_and_le [of "drop_bit 16 hdr" "0xFFFF"] by simp

lemma MakeDirectoryEntry_fields:
  "ucast (drop_bit 30 (MakeDirectoryEntry key type v) AND 0x3) = type AND 0x3"
  "ucast (drop_bit 24 (MakeDirectoryEntry key type v) AND 0x3F) = key AND 0x3F"
  "MakeDirectoryEntry key type v AND 0x00FFFFFF = v AND 0x00FFFFFF"
  unfolding MakeDirectoryEntry_def
  by (rule u8_eqI, simp add: upt_8 bit_simps mask_simps, rule u8_eqI, simp add: upt_8 bit_simps mask_simps,
      rule u32_eqI, simp add: upt_32 bit_simps mask_simps)

lemma block_header_length:
  assumes "length block < 2 ^ 16"
  shows "drop_bit 16 (block_header block) AND 0xFFFF = of_nat (length block)"
proof -
  have small: "\<not> bit (of_nat (length block) :: u32) n" if "16 \<le> n" for n
    using that assms by (intro not_bit_if_less [of _ 16]) (simp_all add: unsigned_of_nat take_bit_nat_eq_self)
  show ?thesis
    unfolding block_header_def
    by (rule u32_eqI) (simp add: upt_32 bit_simps mask_simps small del: bit_of_nat_iff)
qed

lemma map_entries:
  "n \<le> length es \<Longrightarrow> map (\<lambda>i. f i (g ((h # es) ! i))) [1..<Suc (min n c)]
     = map (\<lambda>(i, e). f i (g e)) (zip [1..<Suc n] (take c (take n es)))"
  by (rule nth_equalityI) (auto simp del: upt_Suc)

text \<open>
  Which directories the parser reads, and what it returns. A directory whose header announces
  more entries than there are quadlets is refused; otherwise the result has one record for each of
  the announced entries, up to the cap, and nothing outside the directory is read.
\<close>

lemma ParseDirectory_exact:
  assumes "length dir < 2 ^ 32"
  shows "ParseDirectory dir cap =
    (case dir of [] \<Rightarrow> perror RomTooShort 0
     | hdr # es \<Rightarrow>
         let n = unat (drop_bit 16 (OSSwap32 hdr) AND 0xFFFF)
         in if length es < n then perror RomOutOfBounds (of_nat (length dir))
            else Inr (map (\<lambda>(i, e). parse_entry i (OSSwap32 e)) (zip [1..<Suc n] (take (unat cap) (take n es)))))"
proof (cases dir)
  case (Cons hdr es)
  let ?len = "drop_bit 16 (OSSwap32 hdr) AND 0xFFFF" and ?avail = "of_nat (length es) :: u32"
  have avail: "unat ?avail = length es" using assms Cons by (simp add: unsigned_of_nat take_bit_nat_eq_self)
  have more: "?avail < ?len \<longleftrightarrow> length es < unat ?len" by (simp add: word_less_nat_alt avail)
  have dir: "of_nat (length dir) = ?avail + 1" using Cons by (simp add: add.commute)
  show ?thesis
  proof (cases "length es < unat ?len")
    case True
    then show ?thesis using Cons more dir by (simp add: ParseDirectory_def Let_def add.commute)
  next
    case False
    let ?n = "unat (min ?len cap)"
    have n: "?n = min (unat ?len) (unat cap)" by (simp add: min_def word_le_nat_alt)
    have "map (\<lambda>i. parse_entry i (OSSwap32 ((hdr # es) ! i))) [1..<Suc ?n]
        = map (\<lambda>(i, e). parse_entry i (OSSwap32 e)) (zip [1..<Suc (unat ?len)] (take (unat cap) (take (unat ?len) es)))"
      unfolding n using False by (intro map_entries) simp
    then show ?thesis using Cons more False by (simp add: ParseDirectory_def Let_def)
  qed
qed (simp add: ParseDirectory_def)

section \<open>Reading back what was written\<close>

lemma fold_immediate:
  "length es + length kvs \<le> 250 \<Longrightarrow> fold item_quads (map (\<lambda>(k, v). ImmediateItem k v) kvs) es
     = es @ map (\<lambda>(k, v). MakeDirectoryEntry k kImmediate v) kvs"
proof (induction kvs arbitrary: es)
  case (Cons kv kvs)
  from Cons.prems Cons.IH show ?case by (cases kv) simp
qed simp

lemma parse_immediate:
  "parse_entry i (MakeDirectoryEntry k kImmediate v) = \<lparr>de_index = of_nat i, de_keyType = kImmediate,
     de_keyId = k AND 0x3F, de_value = v AND 0x00FFFFFF, de_hasTarget = False, de_targetRel = 0\<rparr>"
  by (simp add: parse_entry_def Let_def MakeDirectoryEntry_fields kImmediate_def kLeaf_def kDirectory_def)

lemma length_bib_image [simp]: "length (bib_image opts guid) = 5"
  by (simp add: bib_image_def Let_def)


section \<open>Textual descriptors\<close>

text \<open>The bytes of a text after packing: the text padded with zeros to whole quadlets.\<close>

lemma quad_bytes_text_word:
  "quad_bytes (text_word txt i) = map (\<lambda>j. if i * 4 + j < length txt then txt ! (i * 4 + j) else 0) [0, 1, 2, 3]"
proof -
  have "quad_bytes (push_bit 24 (ucast a) OR push_bit 16 (ucast b) OR push_bit 8 (ucast c) OR ucast d) = [a, b, c, d]"
    for a b c d :: u8
    unfolding quad_bytes_def list.map
    by (intro list.inject [THEN iffD2] conjI refl; rule u8_eqI; simp add: upt_8 bit_simps mask_simps)
  then show ?thesis by (simp add: text_word_def Let_def or.assoc)
qed

text \<open>The loop returns the bytes up to the first zero.\<close>

lemma text_loop_take:
  assumes "unat start + n \<le> length qs" and "length qs < 2 ^ 32"
  shows "text_loop qs start n acc
    = Some (acc @ takeWhile (\<lambda>byte. byte \<noteq> 0) (concat (map (\<lambda>q. quad_bytes (OSSwap32 q)) (take n (drop (unat start) qs)))))"
  using assms
proof (induction n arbitrary: start acc)
  case (Suc n)
  let ?q = "qs ! unat start"
  let ?seg = "takeWhile (\<lambda>byte. byte \<noteq> 0) (quad_bytes (OSSwap32 ?q))"
  have nxt: "unat (start + 1) = Suc (unat start)"
    using Suc.prems by (intro unat_Suc_less [THEN conjunct1, of _ "of_nat (length qs)"])
      (simp add: word_less_nat_alt unsigned_of_nat take_bit_nat_eq_self)
  have read: "readBE32 qs start = Some (OSSwap32 ?q)" using Suc.prems by (simp add: readBE32_def)
  have cons: "take (Suc n) (drop (unat start) qs) = ?q # take n (drop (Suc (unat start)) qs)"
    using Suc.prems by (simp add: Cons_nth_drop_Suc [symmetric])
  have four: "length (quad_bytes (OSSwap32 ?q)) = 4" by (simp add: quad_bytes_def)
  show ?case
  proof (cases "length ?seg < 4")
    case True
    then have "?seg \<noteq> quad_bytes (OSSwap32 ?q)" using four by (metis less_irrefl)
    then have "\<exists>x \<in> set (quad_bytes (OSSwap32 ?q)). x = 0" by (simp add: takeWhile_eq_all_conv)
    then have "takeWhile (\<lambda>byte. byte \<noteq> 0) (quad_bytes (OSSwap32 ?q) @ ys) = ?seg" for ys
      by (auto intro: takeWhile_append1)
    then show ?thesis using True by (simp add: read cons Let_def)
  next
    case False
    then have "length (quad_bytes (OSSwap32 ?q)) \<le> length ?seg" using four by simp
    then have "take (length ?seg) (quad_bytes (OSSwap32 ?q)) = quad_bytes (OSSwap32 ?q)" by (rule take_all)
    then have seg: "?seg = quad_bytes (OSSwap32 ?q)" using takeWhile_eq_take by metis
    then have all: "x \<in> set (quad_bytes (OSSwap32 ?q)) \<Longrightarrow> x \<noteq> 0" for x by (simp add: takeWhile_eq_all_conv)
    show ?thesis
      using Suc.IH [of "start + 1" "acc @ quad_bytes (OSSwap32 ?q)"] Suc.prems four all
      by (simp add: read cons Let_def nxt seg takeWhile_append2)
  qed
qed simp

lemma unat_off:
  fixes off :: u32
  assumes "unat off + k < 2 ^ 32"
  shows "unat (off + of_nat k) = unat off + k"
  using assms by (simp add: unat_word_ariths unsigned_of_nat take_bit_nat_eq_self)

lemma readBE32_off:
  assumes "unat off + k < length qs" and "length qs < 2 ^ 32"
  shows "readBE32 qs (off + of_nat k) = Some (OSSwap32 (qs ! (unat off + k)))"
  using assms unat_off [of off k] by (simp add: readBE32_def)

lemma type_spec_0: "ucast (drop_bit 24 w AND 0xFF) \<noteq> (0 :: u8) \<or> w AND 0xFFFFFF \<noteq> 0 \<longleftrightarrow> w \<noteq> 0" for w :: u32
proof -
  have "w = 0" if hi: "ucast (drop_bit 24 w AND 0xFF) = (0 :: u8)" and lo: "w AND 0xFFFFFF = 0"
  proof -
    have "list_all (\<lambda>n. \<not> bit (ucast (drop_bit 24 w AND 0xFF) :: u8) n) [0..<8]" by (simp only: hi) (simp add: list_all_iff)
    moreover have "list_all (\<lambda>n. \<not> bit (w AND 0xFFFFFF) n) [0..<32]" by (simp only: lo) (simp add: list_all_iff)
    ultimately show ?thesis by (intro u32_eqI) (simp add: upt_8 upt_32 bit_simps)
  qed
  then show ?thesis by auto
qed

lemma text_leaf_eq:
  assumes "length qs < 2 ^ 31" and "unat off + 2 < 2 ^ 32"
  shows "ParseTextDescriptorLeaf qs off = Some (
    let pos = unat off; q = (\<lambda>i. OSSwap32 (qs ! (pos + i))); n = unat (drop_bit 16 (q 0) AND 0xFFFF) in
    if length qs \<le> pos + 2 then perror RomOutOfBounds off
    else if n < 2 \<or> length qs < pos + 1 + n then perror RomInvalidHeader off
    else if q 1 \<noteq> 0 then perror RomUnsupportedTextDescriptor (off + 1)
    else if q 2 \<noteq> 0 then perror RomUnsupportedTextEncoding (off + 2)
    else if n = 2 then perror RomTooShort off
    else Inr (takeWhile (\<lambda>byte. byte \<noteq> 0)
           (concat (map (\<lambda>w. quad_bytes (OSSwap32 w)) (take (n - 2) (drop (pos + 3) qs))))))"
proof -
  let ?q = "\<lambda>i. OSSwap32 (qs ! (unat off + i))" and ?total = "of_nat (length qs) :: u32"
  let ?leaf = "drop_bit 16 (?q 0) AND 0xFFFF :: u32"
  have total: "unat ?total = length qs" using assms(1) by (simp add: unsigned_of_nat take_bit_nat_eq_self)
  have start: "?total \<le> off + 2 \<longleftrightarrow> length qs \<le> unat off + 2"
    using unat_off [of off 2] assms(2) by (simp add: word_le_nat_alt total)
  show ?thesis
  proof (cases "length qs \<le> unat off + 2")
    case True
    then show ?thesis using start by (simp add: ParseTextDescriptorLeaf_def Let_def)
  next
    case False
    note n = unat_le_len [of "?q 0"]
    have r: "readBE32 qs off = Some (?q 0)" "readBE32 qs (off + 1) = Some (?q 1)" "readBE32 qs (off + 2) = Some (?q 2)"
      using readBE32_off [of off 0 qs] readBE32_off [of off 1 qs] readBE32_off [of off 2 qs] False assms(1) by simp_all
    have "unat (off + of_nat (1 + unat ?leaf)) = unat off + (1 + unat ?leaf)"
      using False assms(1) n by (intro unat_off) simp
    then have fin: "?total < off + 1 + ?leaf \<longleftrightarrow> length qs < unat off + 1 + unat ?leaf"
      by (simp add: word_less_nat_alt total add.assoc)
    have two: "?leaf < 2 \<longleftrightarrow> unat ?leaf < 2" "2 \<le> ?leaf \<longleftrightarrow> 2 \<le> unat ?leaf"
      by (simp_all add: word_less_nat_alt word_le_nat_alt)
    have len: "unat (?leaf - 2) = unat ?leaf - 2" if "2 \<le> unat ?leaf"
      using that two(2) by (simp add: unat_sub)
    have tail: "\<not> ?total < off + 3 + (?leaf - 2)" if "2 \<le> unat ?leaf" "\<not> length qs < unat off + 1 + unat ?leaf"
    proof -
      have "off + 3 + (?leaf - 2) = off + 1 + ?leaf" by simp
      then show ?thesis using fin that by metis
    qed
    have loop: "text_loop qs (off + 3) (unat (?leaf - 2)) [] = Some (takeWhile (\<lambda>byte. byte \<noteq> 0)
        (concat (map (\<lambda>w. quad_bytes (OSSwap32 w)) (take (unat ?leaf - 2) (drop (unat off + 3) qs)))))"
      if "2 \<le> unat ?leaf" "\<not> length qs < unat off + 1 + unat ?leaf"
    proof -
      have "unat (off + 3) = unat off + 3" using unat_off [of off 3] False assms(1) by simp
      with text_loop_take [of "off + 3" "unat ?leaf - 2" qs "[]"] that assms(1) len show ?thesis by simp
    qed
    have zero: "?leaf = 2 \<longleftrightarrow> unat ?leaf = 2" by (simp add: word_unat_eq_iff)
    note facts = r start False fin two zero type_spec_0 [of "?q 1"]
    show ?thesis
      unfolding ParseTextDescriptorLeaf_def Let_def using facts len tail loop by auto
  qed
qed


section \<open>The text leaf of the local ROM\<close>

lemma concat_quads: "concat (map (\<lambda>i. map (\<lambda>j. f (i * 4 + j)) [0, 1, 2, 3]) [0..<k]) = map f [0..<4 * k]"
proof (induction k)
  case (Suc k)
  have "[0..<4 * Suc k] = [0..<4 * k] @ [4 * k, 4 * k + 1, 4 * k + 2, 4 * k + 3]"
    using upt_add_eq_append [of 0 "4 * k" 4] by (simp add: upt_conv_Cons add.commute)
  with Suc show ?case by (simp add: mult.commute)
qed simp

lemma text_words_bytes:
  "concat (map quad_bytes (text_words txt)) = txt @ replicate (4 * ((length txt + 3) div 4) - length txt) 0"
proof -
  let ?k = "(length txt + 3) div 4" and ?f = "\<lambda>i. if i < length txt then txt ! i else 0"
  have "concat (map quad_bytes (text_words txt)) = map ?f [0..<4 * ?k]"
    using concat_quads [of ?f ?k] by (simp add: text_words_def comp_def quad_bytes_text_word)
  also have "\<dots> = txt @ replicate (4 * ?k - length txt) 0"
    by (rule nth_equalityI) (auto simp: nth_append)
  finally show ?thesis .
qed

text \<open>
  The text that the builder packs, the parser unpacks: a leaf made of the two zero descriptor
  quadlets of a minimal ASCII text and the builder's quadlets for a text without zero bytes, at any
  place of a ROM, is read as that text.
\<close>

lemma text_leaf_roundtrip:
  assumes "txt \<noteq> []" and "0 \<notin> set txt" and "length (pre @ post) + length txt < 60000"
  shows "ParseTextDescriptorLeaf
      (map OSSwap32 (pre @ block_header (0 # 0 # text_words txt) # 0 # 0 # text_words txt @ post)) (of_nat (length pre))
    = Some (Inr txt)"
proof -
  let ?k = "(length txt + 3) div 4" and ?ws = "0 # 0 # text_words txt"
  let ?rom = "map OSSwap32 (pre @ block_header ?ws # ?ws @ post)"
  have pre: "unat (of_nat (length pre) :: u32) = length pre"
    using assms(3) by (simp add: unsigned_of_nat take_bit_nat_eq_self)
  have k: "?k \<noteq> 0" "length txt \<le> 4 * ?k" "?k \<le> length txt" using assms(1) by (cases "txt"; simp)+
  have bytes: "takeWhile (\<lambda>byte. byte \<noteq> 0) (concat (map quad_bytes (text_words txt))) = txt"
    unfolding text_words_bytes using assms(2) by (subst takeWhile_append2) (auto simp: takeWhile_replicate)
  have hdr: "unat (drop_bit 16 (block_header ?ws) AND 0xFFFF) = 2 + ?k"
  proof -
    have small: "length ?ws < 2 ^ 16" using assms(3) k(3) by simp
    then have "unat (of_nat (length ?ws) :: u32) = length ?ws"
      by (simp only: unsigned_of_nat) (simp add: take_bit_nat_eq_self)
    then show ?thesis unfolding block_header_length [OF small] by simp
  qed
  have nth: "OSSwap32 (?rom ! length pre) = block_header ?ws" "OSSwap32 (?rom ! (length pre + 1)) = 0"
    "OSSwap32 (?rom ! (length pre + 2)) = 0" by (simp_all add: nth_append)
  have seg: "map (\<lambda>w. quad_bytes (OSSwap32 w)) (take ?k (drop (length pre + 3) ?rom)) = map quad_bytes (text_words txt)"
    by (simp add: comp_def)
  have len: "length ?rom = length pre + 3 + ?k + length post" by simp
  from text_leaf_eq [of ?rom "of_nat (length pre)"] assms(3) k pre hdr nth seg bytes len show ?thesis
    by (simp add: Let_def comp_def)
qed

lemma Build_image:
  assumes "vendor \<noteq> []" and "length vendor \<le> 900"
  shows "ImageNative (cb_Build opts guid caps vendor b) = bib_image (SetGeneration opts 0) guid
    @ (let es = [MakeDirectoryEntry kModuleVendorId kImmediate (ucast (drop_bit 40 guid AND 0xFFFFFF)),
         MakeDirectoryEntry kNodeCapabilities kImmediate caps, MakeDirectoryEntry kTextualDescriptor kLeaf 9]
         @ block_header (text_words vendor) # text_words vendor in block_header es # es)"
  using assms unfolding Build_write_rom write_rom_facts(2)
  by (simp add: rom_image_def Let_def kMaxQuadlets_def)

lemma Build_ok: "cb_ok (cb_Build opts guid caps vendor b)"
  unfolding Build_write_rom by (rule write_rom_facts)

lemma text_word_0: "txt \<noteq> [] \<Longrightarrow> hd txt \<noteq> 0 \<Longrightarrow> text_word txt 0 \<noteq> 0"
proof
  assume "txt \<noteq> []" "hd txt \<noteq> 0" "text_word txt 0 = 0"
  then have "hd (quad_bytes 0) = hd txt" using quad_bytes_text_word [of "txt" 0] by (cases "txt") simp_all
  with \<open>hd txt \<noteq> 0\<close> show False by (simp add: quad_bytes_def)
qed


section \<open>Witnesses\<close>




end
