(* ===== verification/Config_ROM_Stager.thy ===== *)
theory Config_ROM_Stager
  imports Config_ROM_Properties SelfID_Capture
begin

text \<open>
  \<^verbatim>\<open>ConfigROM/Local/ConfigROMStager.cpp\<close> and \<open>StageConfigROM\<close> of
  \<^verbatim>\<open>Controller/ControllerCoreLifecycle.cpp\<close>: the image is copied into a DMA buffer, its first quadlet
  cleared until the next bus reset, and the registers of the controller are written. The answers of
  DriverKit are those of \<open>SelfID_Capture\<close>; what the stager does to the hardware is a trace.
\<close>

section \<open>State and effects\<close>

definition kIOReturnNoSpace :: kern_return where "kIOReturnNoSpace = kIOReturnOther 0xE00002DB"
definition kIOReturnInternalError :: kern_return where "kIOReturnInternalError = kIOReturnOther 0xE00002C9"

datatype RomRegister = RegGUIDHi | RegGUIDLo | RegBusOptions | RegConfigROMHeader | RegConfigROMMap

datatype StagerEvent = CompleteDMA | PrepareForDMA | WriteRegister RomRegister u32 | ClearBibImageValid

record ConfigROMStager =
  sg_buffer :: bool
  sg_map :: "(u64 \<times> u32 list) option"
  sg_dma :: bool
  sg_segmentAddress :: u64
  sg_segmentLength :: u64
  sg_prepared :: bool
  sg_guidWritten :: bool
  sg_savedHeader :: u32
  sg_savedBusOptions :: u32
  sg_trace :: "StagerEvent list"

definition ConfigROMStager0 :: ConfigROMStager where
  "ConfigROMStager0 = \<lparr>sg_buffer = False, sg_map = None, sg_dma = False, sg_segmentAddress = 0,
     sg_segmentLength = 0, sg_prepared = False, sg_guidWritten = False, sg_savedHeader = 0,
     sg_savedBusOptions = 0, sg_trace = []\<rparr>"

definition sg_emit :: "StagerEvent list \<Rightarrow> ConfigROMStager \<Rightarrow> ConfigROMStager" where
  "sg_emit evs s = s\<lparr>sg_trace := sg_trace s @ evs\<rparr>"

text \<open>
  \<open>memset\<close> over the mapped bytes, and \<open>MemoryMapView::Span\<close>: the mapping must be aligned for quadlets
  and hold as many as are asked for.
\<close>

definition ZeroBuffer :: "ConfigROMStager \<Rightarrow> ConfigROMStager" where
  "ZeroBuffer s = s\<lparr>sg_map := map_option (\<lambda>(a, qs). (a, replicate (length qs) 0)) (sg_map s)\<rparr>"

definition view_ok :: "u64 \<times> u32 list \<Rightarrow> nat \<Rightarrow> bool" where
  "view_ok view n \<longleftrightarrow> unat (fst view) mod 4 = 0 \<and> n \<le> length (snd view)"

section \<open>Operations\<close>

definition kRomAlignmentBytes :: u64 where "kRomAlignmentBytes = 1024"

definition sg_Prepare :: "DriverKitAnswers \<Rightarrow> u64 \<Rightarrow> ConfigROMStager \<Rightarrow> kern_return \<times> ConfigROMStager" where
  "sg_Prepare dk romBytes s =
     (if sg_prepared s then (kIOReturnSuccess, s)
      else
        let (kr, descriptor) = dk_create dk in
        if kr \<noteq> kIOReturnSuccess \<or> \<not> descriptor
        then (if kr \<noteq> kIOReturnSuccess then kr else kIOReturnNoMemory, s)
        else
          let s = s\<lparr>sg_buffer := True\<rparr>; (kr, map) = dk_mapping dk in
          if kr \<noteq> kIOReturnSuccess \<or> map = None
          then (if kr \<noteq> kIOReturnSuccess then kr else kIOReturnNoMemory, s\<lparr>sg_buffer := False\<rparr>)
          else
            let s = ZeroBuffer (s\<lparr>sg_map := map\<rparr>) in
            if \<not> dk_dmaCommand dk
            then (kIOReturnNoResources, s\<lparr>sg_map := None, sg_buffer := False\<rparr>)
            else
              let s = sg_emit [PrepareForDMA] (s\<lparr>sg_dma := True\<rparr>);
                  (kr, segCount, address, len) = dk_prepare dk;
                  undo = (\<lambda>s. sg_emit [CompleteDMA] (s\<lparr>sg_dma := False, sg_map := None, sg_buffer := False\<rparr>))
              in if kr \<noteq> kIOReturnSuccess \<or> segCount < 1
                 then (if kr \<noteq> kIOReturnSuccess then kr else kIOReturnNoResources, undo s)
                 else if address AND (kRomAlignmentBytes - 1) \<noteq> 0 then (kIOReturnNotAligned, undo s)
                 else if len < romBytes then (kIOReturnNoResources, undo s)
                 else (kIOReturnSuccess, s\<lparr>sg_segmentAddress := address, sg_segmentLength := len,
                         sg_prepared := True\<rparr>))"

definition EnsurePrepared :: "DriverKitAnswers \<Rightarrow> ConfigROMStager \<Rightarrow> kern_return \<times> ConfigROMStager" where
  "EnsurePrepared dk s = (if sg_prepared s then (kIOReturnSuccess, s) else sg_Prepare dk 1024 s)"

text \<open>The copy into the buffer; the header is kept aside and cleared. It fails on a misaligned map.\<close>

definition stage_copy :: "ConfigROMBuilder \<Rightarrow> u64 \<times> u32 list \<Rightarrow> ConfigROMStager \<Rightarrow> bool \<times> ConfigROMStager" where
  "stage_copy bld view s =
     (let rom = ImageNative bld;
          mem = rom @ replicate (length (snd view) - length rom) 0;
          s = s\<lparr>sg_map := Some (fst view, mem)\<rparr>
      in if \<not> view_ok (fst view, mem) (length rom) then (False, s)
         else
           let s = s\<lparr>sg_savedHeader := mem ! 0, sg_savedBusOptions := BusInfoQuad bld,
                   sg_map := Some (fst view, mem[0 := 0])\<rparr>
           in (True, sg_emit [CompleteDMA, PrepareForDMA] s))"

definition StageImage ::
  "DriverKitAnswers \<Rightarrow> bool \<Rightarrow> ConfigROMBuilder \<Rightarrow> ConfigROMStager \<Rightarrow> kern_return \<times> ConfigROMStager" where
  "StageImage dk access bld s =
     (let (kr, s) = EnsurePrepared dk s in
      if kr \<noteq> kIOReturnSuccess then (kr, s)
      else
        (case sg_map s of
           None \<Rightarrow> (kIOReturnNotReady, s)
         | Some view \<Rightarrow>
             let rom = ImageNative bld in
             if length rom > length (snd view) then (kIOReturnNoSpace, s)
             else
               let s = ZeroBuffer s;
                   (copied, s) = (if length rom > 0 then stage_copy bld view s else (True, s))
               in
               if \<not> copied then (kIOReturnNotAligned, s)
               else if sg_segmentAddress s > 0xFFFFFFFF then (kIOReturnUnsupported, s)
               else if \<not> access then (kIOReturnNotReady, s)
               else
                 let s = (if \<not> sg_guidWritten s
                        then (sg_emit [WriteRegister RegGUIDHi (GuidHiQuad bld),
                                WriteRegister RegGUIDLo (GuidLoQuad bld)] s)\<lparr>sg_guidWritten := True\<rparr>
                        else s)
                 in (kIOReturnSuccess,
                     sg_emit [WriteRegister RegBusOptions (BusInfoQuad bld),
                       WriteRegister RegConfigROMHeader (HeaderQuad bld),
                       WriteRegister RegConfigROMMap (ucast (sg_segmentAddress s))] s)))"

definition sg_RestoreHeaderAfterBusReset :: "ConfigROMStager \<Rightarrow> ConfigROMStager" where
  "sg_RestoreHeaderAfterBusReset s =
     (case sg_map s of
        None \<Rightarrow> s
      | Some view \<Rightarrow>
          if sg_savedHeader s = 0 then s
          else if \<not> view_ok view 1 then s
          else s\<lparr>sg_map := Some (fst view, (snd view)[0 := sg_savedHeader s])\<rparr>)"

definition sg_Teardown :: "bool \<Rightarrow> ConfigROMStager \<Rightarrow> ConfigROMStager" where
  "sg_Teardown access s =
     (let s = (if sg_prepared s
             then sg_emit (ClearBibImageValid # (if access then [WriteRegister RegConfigROMMap 0] else [])) s
             else s);
          s = (if sg_dma s then sg_emit [CompleteDMA] (s\<lparr>sg_dma := False\<rparr>) else s)
      in s\<lparr>sg_map := None, sg_buffer := False, sg_prepared := False, sg_guidWritten := False,
           sg_segmentAddress := 0, sg_segmentLength := 0\<rparr>)"

section \<open>Staging the local ROM\<close>

definition kNodeCapabilitiesBase :: u32 where "kNodeCapabilitiesBase = 0x380"

definition MakeNodeCapabilities :: "bool \<Rightarrow> u32" where
  "MakeNodeCapabilities phyEnhanceEnabled = kNodeCapabilitiesBase OR (if phyEnhanceEnabled then 0x8000 else 0)"

definition StageConfigROM ::
  "DriverKitAnswers \<Rightarrow> bool \<Rightarrow> RoleMode \<Rightarrow> FullBMActivityLevel \<Rightarrow> bool \<Rightarrow> u64 \<Rightarrow> u8 list \<Rightarrow> u32 \<Rightarrow> u32 \<Rightarrow> u32
     \<Rightarrow> ConfigROMBuilder \<Rightarrow> ConfigROMStager \<Rightarrow> kern_return \<times> ConfigROMBuilder \<times> ConfigROMStager" where
  "StageConfigROM dk access roleMode level phyConfigOk localGuid vendorName busOptions guidHi guidLo builder s =
     (let hardwareGuid = push_bit 32 (ucast guidHi) OR ucast guidLo;
          effectiveGuid = (if localGuid \<noteq> 0 then localGuid else hardwareGuid);
          localBusOptions = NormalizeLocalBusOptions busOptions roleMode level;
          builder = cb_Build localBusOptions effectiveGuid (MakeNodeCapabilities phyConfigOk) vendorName builder
      in if cb_quadCount builder < 5 then (kIOReturnInternalError, builder, s)
         else let (kr, s) = StageImage dk access builder s in (kr, builder, s))"

section \<open>What a peer reads\<close>

text \<open>
  DriverKit maps the buffer of 1024 bytes at an aligned address and shows all of it: the
  documented behaviour of \<open>CreateMapping\<close>.
\<close>

definition maps_rom :: "u64 \<times> u32 list \<Rightarrow> bool" where
  "maps_rom view \<longleftrightarrow> unat (fst view) mod 4 = 0 \<and> kMaxQuadlets \<le> length (snd view)"

definition dk_maps_rom :: "DriverKitAnswers \<Rightarrow> bool" where
  "dk_maps_rom dk \<longleftrightarrow> (case snd (dk_mapping dk) of None \<Rightarrow> True | Some view \<Rightarrow> maps_rom view)"

definition sg_ok :: "ConfigROMStager \<Rightarrow> bool" where
  "sg_ok s \<longleftrightarrow> (sg_prepared s \<longrightarrow> sg_dma s \<and> sg_buffer s \<and> sg_segmentAddress s AND (kRomAlignmentBytes - 1) = 0
       \<and> (\<exists>view. sg_map s = Some view \<and> maps_rom view))
     \<and> (\<not> sg_prepared s \<longrightarrow> \<not> sg_dma s \<and> \<not> sg_buffer s \<and> sg_map s = None)"

lemma Prepare_ok:
  assumes "sg_ok s" and "dk_maps_rom dk"
  shows "sg_ok (snd (sg_Prepare dk n s))"
    and "fst (sg_Prepare dk n s) = kIOReturnSuccess \<longleftrightarrow> sg_prepared (snd (sg_Prepare dk n s))"
    and "sg_guidWritten (snd (sg_Prepare dk n s)) = sg_guidWritten s"
  using assms
  by (auto simp: sg_Prepare_def sg_ok_def Let_def sg_emit_def ZeroBuffer_def maps_rom_def dk_maps_rom_def
      split: prod.splits option.splits)

lemma EnsurePrepared_ok:
  assumes "sg_ok s" and "dk_maps_rom dk"
    and "EnsurePrepared dk s = (kIOReturnSuccess, t)"
  obtains view where "sg_map t = Some view" and "maps_rom view" and "sg_ok t" and "sg_prepared t"
proof -
  have "sg_ok t \<and> sg_prepared t"
    using Prepare_ok [OF assms(1,2), where n = 1024] assms(1,3) by (auto simp: EnsurePrepared_def split: if_splits)
  with that show ?thesis by (auto simp: sg_ok_def)
qed

lemma stage_copy_ok:
  assumes "maps_rom view" and "cb_ok b" and "0 < cb_quadCount b"
  shows "stage_copy b view s = (True, sg_emit [CompleteDMA, PrepareForDMA]
    (s\<lparr>sg_savedHeader := HeaderQuad b, sg_savedBusOptions := BusInfoQuad b,
       sg_map := Some (fst view, (ImageNative b @ replicate (length (snd view) - cb_quadCount b) 0)[0 := 0])\<rparr>))"
proof -
  have len: "length (ImageNative b) = cb_quadCount b" by (rule length_ImageNative [OF assms(2)])
  moreover have "cb_quadCount b \<le> kMaxQuadlets" using assms(2) by (simp add: cb_ok_def)
  moreover have "(ImageNative b @ zs) ! 0 = HeaderQuad b" for zs
    using assms(3) len by (simp add: HeaderQuad_def nth_append ImageNative_nth)
  ultimately show ?thesis
    using assms(1) by (simp add: stage_copy_def Let_def view_ok_def maps_rom_def)
qed

text \<open>The stager after the copy, and after the registers of the GUID.\<close>

definition copied :: "ConfigROMBuilder \<Rightarrow> u64 \<times> u32 list \<Rightarrow> ConfigROMStager \<Rightarrow> ConfigROMStager" where
  "copied b view t = sg_emit [CompleteDMA, PrepareForDMA] ((ZeroBuffer t)\<lparr>sg_savedHeader := HeaderQuad b,
     sg_savedBusOptions := BusInfoQuad b,
     sg_map := Some (fst view, (ImageNative b @ replicate (length (snd view) - cb_quadCount b) 0)[0 := 0])\<rparr>)"

definition guid_written :: "ConfigROMBuilder \<Rightarrow> ConfigROMStager \<Rightarrow> ConfigROMStager" where
  "guid_written b s = (if sg_guidWritten s then s
     else (sg_emit [WriteRegister RegGUIDHi (GuidHiQuad b), WriteRegister RegGUIDLo (GuidLoQuad b)] s)\<lparr>sg_guidWritten := True\<rparr>)"

lemma StageImage_prepared:
  assumes "EnsurePrepared dk s = (kIOReturnSuccess, t)" and "sg_map t = Some view" and "maps_rom view"
    and "cb_ok b" and "0 < cb_quadCount b"
  shows "StageImage dk access b s = (if sg_segmentAddress t > 0xFFFFFFFF then (kIOReturnUnsupported, copied b view t)
    else if \<not> access then (kIOReturnNotReady, copied b view t)
    else (kIOReturnSuccess, sg_emit [WriteRegister RegBusOptions (BusInfoQuad b),
      WriteRegister RegConfigROMHeader (HeaderQuad b), WriteRegister RegConfigROMMap (ucast (sg_segmentAddress t))]
      (guid_written b (copied b view t))))"
proof -
  have len: "length (ImageNative b) = cb_quadCount b" by (rule length_ImageNative [OF assms(4)])
  have fits: "\<not> length (snd view) < cb_quadCount b" using assms(3,4) by (simp add: maps_rom_def cb_ok_def)
  have addr: "sg_segmentAddress (copied b view t) = sg_segmentAddress t"
    "sg_segmentAddress (guid_written b (copied b view t)) = sg_segmentAddress t"
    by (simp_all add: copied_def guid_written_def sg_emit_def ZeroBuffer_def)
  show ?thesis
    using fits assms(5) addr
    by (simp add: StageImage_def assms(1,2) len stage_copy_ok [OF assms(3,4,5)] Let_def
        copied_def [of b view t, symmetric]) (simp add: guid_written_def sg_emit_def)
qed

lemma StageImage_success:
  assumes "sg_ok s" and "dk_maps_rom dk"
    and "cb_ok b" and "0 < cb_quadCount b" and "StageImage dk access b s = (kIOReturnSuccess, s')"
  shows "\<exists>a n. sg_map s' = Some (a, (ImageNative b @ replicate n 0)[0 := 0]) \<and> unat a mod 4 = 0"
    and "sg_savedHeader s' = HeaderQuad b" and "sg_savedBusOptions s' = BusInfoQuad b"
    and "\<exists>evs. sg_trace s' = evs @ [WriteRegister RegBusOptions (BusInfoQuad b),
           WriteRegister RegConfigROMHeader (HeaderQuad b), WriteRegister RegConfigROMMap (ucast (sg_segmentAddress s'))]"
    and "sg_ok s'" and "sg_segmentAddress s' \<le> 0xFFFFFFFF"
proof -
  obtain t where e: "EnsurePrepared dk s = (kIOReturnSuccess, t)"
    using assms(5) by (cases "EnsurePrepared dk s") (auto simp: StageImage_def split: if_splits)
  obtain view where v: "sg_map t = Some view" "maps_rom view" "sg_ok t" "sg_prepared t"
    by (rule EnsurePrepared_ok [OF assms(1,2) e])
  let ?d = "guid_written b (copied b view t)"
  let ?mem = "(ImageNative b @ replicate (length (snd view) - cb_quadCount b) 0)[0 := 0]"
  have d: "sg_map ?d = Some (fst view, ?mem)" "sg_savedHeader ?d = HeaderQuad b" "sg_savedBusOptions ?d = BusInfoQuad b"
    "sg_segmentAddress ?d = sg_segmentAddress t" "sg_prepared ?d" "sg_dma ?d" "sg_buffer ?d"
    using v(3,4) by (simp_all add: guid_written_def copied_def sg_emit_def ZeroBuffer_def sg_ok_def)
  have s': "s' = sg_emit [WriteRegister RegBusOptions (BusInfoQuad b), WriteRegister RegConfigROMHeader (HeaderQuad b),
      WriteRegister RegConfigROMMap (ucast (sg_segmentAddress t))] ?d" and addr: "\<not> sg_segmentAddress t > 0xFFFFFFFF"
    using assms(5) unfolding StageImage_prepared [OF e v(1,2) assms(3,4)] by (auto split: if_splits)
  have room: "kMaxQuadlets \<le> length ?mem"
    using v(2) length_ImageNative [OF assms(3)] assms(3) by (simp add: maps_rom_def cb_ok_def)
  show "\<exists>a n. sg_map s' = Some (a, (ImageNative b @ replicate n 0)[0 := 0]) \<and> unat a mod 4 = 0"
    using d(1) v(2) by (auto simp: s' sg_emit_def maps_rom_def)
  show "sg_savedHeader s' = HeaderQuad b" "sg_savedBusOptions s' = BusInfoQuad b" "sg_segmentAddress s' \<le> 0xFFFFFFFF"
    using d addr by (simp_all add: s' sg_emit_def not_less)
  show "\<exists>evs. sg_trace s' = evs @ [WriteRegister RegBusOptions (BusInfoQuad b),
      WriteRegister RegConfigROMHeader (HeaderQuad b), WriteRegister RegConfigROMMap (ucast (sg_segmentAddress s'))]"
    using d(4) by (simp add: s' sg_emit_def)
  show "sg_ok s'"
    using d v(2,3,4) room by (auto simp: s' sg_ok_def sg_emit_def maps_rom_def)
qed

lemma Restore_map:
  assumes "sg_map s = Some (a, mem[0 := 0])" and "unat a mod 4 = 0" and "sg_savedHeader s = mem ! 0" and "mem ! 0 \<noteq> 0"
    and "mem \<noteq> []"
  shows "sg_map (sg_RestoreHeaderAfterBusReset s) = Some (a, mem)"
  using assms by (simp add: sg_RestoreHeaderAfterBusReset_def view_ok_def Suc_le_eq)

lemma header_nonzero: "header_of block \<noteq> 0"
  using header_fields(1) [of block] by auto

text \<open>
  C10: what a peer reads of the local ROM. When staging succeeds, the ROM in memory has header 0 until
  the bus reset; the registers for bus options, header and ROM address are written in this
  order. After the reset, when the header has been restored, a reader finds a bus information block with
  a right checksum, the configured GUID (that of the hardware if none is configured), and the capabilities that the
  driver's role mode allows: a legal combination with generation 0.
\<close>

theorem staged_rom_readable:
  assumes "sg_ok s" and "dk_maps_rom dk"
    and "StageConfigROM dk access roleMode level phyOk localGuid vendor hwOptions guidHi guidLo b s
           = (kIOReturnSuccess, b', s')"
  shows "let opts = SetGeneration (NormalizeLocalBusOptions hwOptions roleMode level) 0;
             guid = (if localGuid \<noteq> 0 then localGuid else push_bit 32 (ucast guidHi) OR ucast guidLo) in
    sg_ok s'
    \<and> (\<exists>a mem evs r. sg_map s' = Some (a, mem[0 := 0])
        \<and> sg_trace s' = evs @ [WriteRegister RegBusOptions opts, WriteRegister RegConfigROMHeader (mem ! 0),
            WriteRegister RegConfigROMMap (ucast (sg_segmentAddress s'))]
        \<and> sg_map (sg_RestoreHeaderAfterBusReset s') = Some (a, mem)
        \<and> ParseBIB (map OSSwap32 mem) = Inr r \<and> bp_crcStatus r = CrcOk
        \<and> options_of (bp_bib r) = DecodeBusOptions opts \<and> bib_guid (bp_bib r) = guid)
    \<and> IsLegalCapabilityCombo opts"
proof -
  let ?opts = "NormalizeLocalBusOptions hwOptions roleMode level"
  let ?guid = "if localGuid \<noteq> 0 then localGuid else push_bit 32 (ucast guidHi) OR ucast guidLo"
  define c where "c = cb_Build ?opts ?guid (MakeNodeCapabilities phyOk) vendor b"
  have ok: "cb_ok c" unfolding c_def by (rule Build_ok)
  obtain rest where img: "ImageNative c = bib_image (SetGeneration ?opts 0) ?guid @ rest"
    unfolding c_def Build_write_rom write_rom_facts(2) rom_image_def by blast
  then have count: "5 \<le> cb_quadCount c" using length_ImageNative [OF ok] by simp
  then have "StageImage dk access c s = (kIOReturnSuccess, s')"
    using assms(3) by (auto simp: StageConfigROM_def Let_def c_def [symmetric] split: prod.splits)
  note S = StageImage_success [OF assms(1,2) ok _ this]
  have pos: "0 < cb_quadCount c" using count by simp
  from S(1) [OF pos] obtain a n where m: "sg_map s' = Some (a, (ImageNative c @ replicate n 0)[0 := 0])" "unat a mod 4 = 0"
    by (elim exE conjE)
  let ?mem = "ImageNative c @ replicate n 0"
  have quads: "?mem ! 0 = HeaderQuad c" "HeaderQuad c \<noteq> 0" "BusInfoQuad c = SetGeneration ?opts 0" "?mem \<noteq> []"
  proof -
    have "HeaderQuad c = ImageNative c ! 0" "BusInfoQuad c = ImageNative c ! 2"
      using count by (simp_all add: HeaderQuad_def BusInfoQuad_def ImageNative_nth)
    then show "?mem ! 0 = HeaderQuad c" "HeaderQuad c \<noteq> 0" "BusInfoQuad c = SetGeneration ?opts 0" "?mem \<noteq> []"
      by (simp_all add: img bib_image_def Let_def header_nonzero)
  qed
  have restored: "sg_map (sg_RestoreHeaderAfterBusReset s') = Some (a, ?mem)"
    using S(2) count quads by (intro Restore_map [OF m]) simp_all
  obtain evs where "sg_trace s' = evs @ [WriteRegister RegBusOptions (SetGeneration ?opts 0),
      WriteRegister RegConfigROMHeader (?mem ! 0), WriteRegister RegConfigROMMap (ucast (sg_segmentAddress s'))]"
    using S(4) count quads by auto
  moreover obtain r where "ParseBIB (map OSSwap32 ?mem) = Inr r" "bp_crcStatus r = CrcOk"
    "options_of (bp_bib r) = DecodeBusOptions (SetGeneration ?opts 0)" "bib_guid (bp_bib r) = ?guid"
    using ParseBIB_image [of "SetGeneration ?opts 0" ?guid "rest @ replicate n 0"] unfolding img by auto
  moreover have "IsLegalCapabilityCombo (SetGeneration ?opts 0)"
  proof -
    have keep: "bit (SetGeneration w 0) 28 = bit w 28" "bit (SetGeneration w 0) 31 = bit w 31" for w
      by (simp_all add: SetGeneration_def bus_options_masks bit_simps)
    show ?thesis
      using NormalizeLocalBusOptions_legal [of hwOptions roleMode level]
      unfolding IsLegalCapabilityCombo_def Let_def cap_bits keep by blast
  qed
  ultimately show ?thesis using m(1) restored S(5) count unfolding Let_def by fastforce
qed

definition sample_dk :: DriverKitAnswers where
  "sample_dk = \<lparr>dk_create = (kIOReturnSuccess, True), dk_mapping = (kIOReturnSuccess, Some (0x4000, replicate 256 0)),
     dk_dmaCommand = True, dk_prepare = (kIOReturnSuccess, 1, 0x2000, 1024)\<rparr>"

theorem staged_rom_readable_witness:
  "\<exists>b' s' a mem r. StageConfigROM sample_dk True LegacyBmcCleared ObserveOnly True 0 [65, 83] 0xF000A002 0x00112233 0x44556677
       cb_Reset ConfigROMStager0 = (kIOReturnSuccess, b', s')
     \<and> sg_map (sg_RestoreHeaderAfterBusReset s') = Some (a, mem) \<and> ParseBIB (map OSSwap32 mem) = Inr r
     \<and> bib_guid (bp_bib r) = 0x0011223344556677"
proof -
  have ok: "sg_ok ConfigROMStager0" by (simp add: sg_ok_def ConfigROMStager0_def)
  have dk: "dk_maps_rom sample_dk" by (simp add: dk_maps_rom_def sample_dk_def maps_rom_def kMaxQuadlets_def)
  have "fst (StageConfigROM sample_dk True LegacyBmcCleared ObserveOnly True 0 [65, 83] 0xF000A002 0x00112233
      0x44556677 cb_Reset ConfigROMStager0) = kIOReturnSuccess"
  proof -
    have "\<exists>t. EnsurePrepared sample_dk ConfigROMStager0 = (kIOReturnSuccess, t)
        \<and> sg_map t = Some (0x4000, replicate 256 0) \<and> sg_segmentAddress t = 0x2000"
      by (simp add: EnsurePrepared_def sg_Prepare_def ConfigROMStager0_def sample_dk_def sg_emit_def ZeroBuffer_def
          kRomAlignmentBytes_def)
    then obtain t where t: "EnsurePrepared sample_dk ConfigROMStager0 = (kIOReturnSuccess, t)"
      "sg_map t = Some (0x4000, replicate 256 0)" "sg_segmentAddress t = 0x2000" by blast
    have view: "maps_rom (0x4000, replicate 256 0)" by (simp add: maps_rom_def kMaxQuadlets_def)
    have five: "5 \<le> cb_quadCount (cb_Build opts guid caps vendor b)" for opts guid caps vendor b
      using Build_ok [of opts guid caps vendor b] write_rom_facts(3) [of opts guid caps _ b]
      by (intro cb_ok_count) (simp_all add: Build_write_rom)
    then have pos: "0 < cb_quadCount (cb_Build opts guid caps vendor b)" "\<not> cb_quadCount (cb_Build opts guid caps vendor b) < 5"
      for opts guid caps vendor b by (simp_all add: Suc_le_eq not_less order_less_le_trans [of 0 5])
    show ?thesis
      by (simp add: StageConfigROM_def Let_def pos StageImage_prepared [OF t(1,2) view Build_ok pos(1)] t(3))
  qed
  then obtain b' s' where st: "StageConfigROM sample_dk True LegacyBmcCleared ObserveOnly True 0 [65, 83] 0xF000A002
      0x00112233 0x44556677 cb_Reset ConfigROMStager0 = (kIOReturnSuccess, b', s')" by (metis prod.collapse)
  have guid: "push_bit 32 (ucast (0x00112233 :: u32)) OR ucast (0x44556677 :: u32) = (0x0011223344556677 :: u64)" by code_simp
  from staged_rom_readable [OF ok dk st] st guid show ?thesis by (auto simp: Let_def)
qed

text \<open>
  A change of the role mode at run time stages the ROM again with the bus options that it reads from
  the register, that is with the options advertised before and not with the hardware's own: a controller that
  is IRM capable and has once been staged as a client is never IRM capable again in the legacy mode.
\<close>

lemma restage_forgets_irmc:
  "NormalizeLocalBusOptions (SetGeneration (NormalizeLocalBusOptions hw ClientOnly l) 0) LegacyBmcCleared l' AND kIRMCMask = 0
   \<and> (NormalizeLocalBusOptions hw LegacyBmcCleared l' AND kIRMCMask = 0 \<longleftrightarrow> hw AND kIRMCMask = 0)"
  unfolding cap_bits by (simp add: NormalizeLocalBusOptions_def SetGeneration_def bus_options_masks bit_simps)

end
