(* ===== verification/Config_ROM_Store.thy ===== *)
theory Config_ROM_Store
  imports Config_ROM_Parser
begin

text \<open>
  \<^verbatim>\<open>ConfigROM/Store/ConfigROMStore.cpp\<close>: the cache of the configuration ROMs of other nodes, indexed by
  generation and node and by GUID. A \<open>std::map\<close> is an association list sorted by key, so that
  iteration has the order of the code. All operations hold the lock, so each is one step.
\<close>

section \<open>Sorted maps\<close>

fun sm_put :: "'k::linorder \<Rightarrow> 'v \<Rightarrow> ('k \<times> 'v) list \<Rightarrow> ('k \<times> 'v) list" where
  "sm_put k v [] = [(k, v)]"
| "sm_put k v ((k', v') # m) =
     (if k < k' then (k, v) # (k', v') # m else if k = k' then (k, v) # m else (k', v') # sm_put k v m)"

definition sm_ok :: "('k::linorder \<times> 'v) list \<Rightarrow> bool" where
  "sm_ok m \<longleftrightarrow> sorted_wrt (<) (map fst m)"

lemma map_of_put [simp]: "map_of (sm_put k v m) = (map_of m)(k \<mapsto> v)"
  by (induction k v m rule: sm_put.induct) auto

lemma keys_put: "set (map fst (sm_put k v m)) = insert k (set (map fst m))"
  by (induction k v m rule: sm_put.induct) auto

lemma sm_ok_put: "sm_ok m \<Longrightarrow> sm_ok (sm_put k v m)"
proof (induction k v m rule: sm_put.induct)
  case (2 k v k' v' m)
  have "fst ` set (sm_put k v m) = insert k (fst ` set m)" using keys_put [of k v m] by simp
  with 2 show ?case by (auto simp: sm_ok_def)
qed (simp add: sm_ok_def)

lemma sm_ok_filter: "sm_ok m \<Longrightarrow> sm_ok (filter P m)"
  by (simp add: sm_ok_def sorted_wrt_map sorted_wrt_filter)

lemma sm_ok_map: "sm_ok m \<Longrightarrow> sm_ok (map (\<lambda>(k, v). (k, f k v)) m)"
  by (simp add: sm_ok_def sorted_wrt_map case_prod_beta)

lemma sm_ok_distinct: "sm_ok m \<Longrightarrow> distinct (map fst m)"
  unfolding sm_ok_def using strict_sorted_iff by blast

lemma map_of_iff: "sm_ok m \<Longrightarrow> map_of m k = Some v \<longleftrightarrow> (k, v) \<in> set m"
  by (simp add: map_of_eq_Some_iff sm_ok_distinct)

lemma map_of_filter: "sm_ok m \<Longrightarrow> map_of (filter P m) k = (case map_of m k of None \<Rightarrow> None
    | Some v \<Rightarrow> if P (k, v) then Some v else None)"
proof -
  assume ok: "sm_ok m"
  have iff: "map_of (filter P m) k = Some v \<longleftrightarrow> map_of m k = Some v \<and> P (k, v)" for v
    using ok sm_ok_filter [OF ok, of P] by (auto simp: map_of_iff)
  show ?thesis
  proof (cases "\<exists>v. map_of m k = Some v \<and> P (k, v)")
    case True
    then obtain v where v: "map_of m k = Some v" "P (k, v)" by blast
    with iff [of v] show ?thesis by simp
  next
    case False
    then have "map_of (filter P m) k \<noteq> Some v" for v using iff [of v] by blast
    then have "map_of (filter P m) k = None" by blast
    with False show ?thesis by (auto split: option.split)
  qed
qed

lemma map_of_map_values: "map_of (map (\<lambda>(k, v). (k, f v)) m) k = map_option f (map_of m k)"
  by (induction m) auto

section \<open>State\<close>

datatype ROMState = RomFresh | RomValidated | RomSuspended | RomInvalid

record UnitDirectory =
  ud_offsetQuadlets :: u32
  ud_unitSpecId :: u32
  ud_unitSwVersion :: u32
  ud_logicalUnitNumber :: "u32 option"
  ud_modelId :: "u32 option"
  ud_modelName :: "u8 list option"
  ud_managementAgentOffset :: "u32 option"
  ud_unitCharacteristics :: "u32 option"
  ud_fastStart :: "u32 option"

record ConfigROM =
  cr_gen :: u32
  cr_nodeId :: u16
  cr_bib :: BusInfoBlock
  cr_rootDirMinimal :: "RomEntry list"
  cr_vendorName :: "u8 list"
  cr_modelName :: "u8 list"
  cr_unitDirectories :: "UnitDirectory list"
  cr_rawQuadlets :: "u32 list"
  cr_state :: ROMState
  cr_firstSeen :: u32
  cr_lastValidated :: u32

record ConfigROMStore =
  cs_byGenNode :: "(u32 \<times> ConfigROM) list"
  cs_byGuid :: "(u64 \<times> ConfigROM) list"

abbreviation cr_guid :: "ConfigROM \<Rightarrow> u64" where
  "cr_guid rom \<equiv> bib_guid (cr_bib rom)"

definition ConfigROMStore0 :: ConfigROMStore where
  "ConfigROMStore0 = \<lparr>cs_byGenNode = [], cs_byGuid = []\<rparr>"

definition kInvalidNodeId :: u16 where "kInvalidNodeId = 0xFFFF"

section \<open>Operations\<close>

definition HasParsedUnitProfile :: "ConfigROM \<Rightarrow> bool" where
  "HasParsedUnitProfile rom \<longleftrightarrow> cr_unitDirectories rom \<noteq> []"

definition TryOperationalNodeId :: "u16 \<Rightarrow> u8 option" where
  "TryOperationalNodeId nodeId = (if nodeId > 0xFF then None else Some (ucast nodeId))"

definition MakeKey :: "u32 \<Rightarrow> u8 \<Rightarrow> u32" where
  "MakeKey gen nodeId = push_bit 8 gen OR ucast nodeId"

text \<open>The copy that \<open>Insert\<close> stores, with the generations it fills in.\<close>

definition stamped :: "ConfigROM \<Rightarrow> ConfigROM" where
  "stamped rom = (let romCopy = (if cr_firstSeen rom = 0 then rom\<lparr>cr_firstSeen := cr_gen rom\<rparr> else rom)
     in if cr_lastValidated romCopy = 0 then romCopy\<lparr>cr_lastValidated := cr_gen rom\<rparr> else romCopy)"

text \<open>The key of a ROM whose node ID is operational, and when an entry gives way to a new ROM.\<close>

definition node_key :: "ConfigROM \<Rightarrow> u32" where
  "node_key rom = MakeKey (cr_gen rom) (ucast (cr_nodeId rom))"

definition shouldUpdateNode :: "ConfigROM \<Rightarrow> ConfigROMStore \<Rightarrow> bool" where
  "shouldUpdateNode rom s \<longleftrightarrow> (case map_of (cs_byGenNode s) (node_key rom) of None \<Rightarrow> True
     | Some old \<Rightarrow> length (cr_rawQuadlets old) \<le> length (cr_rawQuadlets rom)
         \<and> (HasParsedUnitProfile rom \<or> \<not> HasParsedUnitProfile old))"

definition shouldUpdateGuid :: "ConfigROM \<Rightarrow> ConfigROMStore \<Rightarrow> bool" where
  "shouldUpdateGuid rom s \<longleftrightarrow> (case map_of (cs_byGuid s) (cr_guid rom) of None \<Rightarrow> True
     | Some old \<Rightarrow> cr_gen old < cr_gen rom \<and> (HasParsedUnitProfile rom \<or> \<not> HasParsedUnitProfile old)
         \<or> cr_gen old = cr_gen rom \<and> length (cr_rawQuadlets old) \<le> length (cr_rawQuadlets rom))"

definition cs_Insert :: "ConfigROM \<Rightarrow> ConfigROMStore \<Rightarrow> ConfigROMStore" where
  "cs_Insert rom s =
     (if cr_guid rom = 0 then s
      else
        let romCopy = stamped rom in
        (case TryOperationalNodeId (cr_nodeId romCopy) of
           None \<Rightarrow> s
         | Some nodeIdForKey \<Rightarrow>
             let key = MakeKey (cr_gen romCopy) nodeIdForKey;
                 s = (if shouldUpdateNode romCopy s then s\<lparr>cs_byGenNode := sm_put key romCopy (cs_byGenNode s)\<rparr> else s)
             in if shouldUpdateGuid romCopy s
                then s\<lparr>cs_byGuid := sm_put (cr_guid romCopy) romCopy (cs_byGuid s)\<rparr> else s))"

definition FindByNode :: "u32 \<Rightarrow> u8 \<Rightarrow> ConfigROMStore \<Rightarrow> ConfigROM option" where
  "FindByNode gen nodeId s = map_of (cs_byGenNode s) (MakeKey gen nodeId)"

definition FindByNodeAllow :: "u32 \<Rightarrow> u8 \<Rightarrow> bool \<Rightarrow> ConfigROMStore \<Rightarrow> ConfigROM option" where
  "FindByNodeAllow gen nodeId allowSuspended s =
     (case map_of (cs_byGenNode s) (MakeKey gen nodeId) of
        Some rom \<Rightarrow> if \<not> allowSuspended \<and> cr_state rom = RomSuspended then None else Some rom
      | None \<Rightarrow> None)"

text \<open>The two pointers that the loop of \<open>FindLatestForNode\<close> maintains: the latest entry, the latest with units.\<close>

definition latest_step :: "u8 \<Rightarrow> u32 \<times> ConfigROM \<Rightarrow> ConfigROM option \<times> ConfigROM option
    \<Rightarrow> ConfigROM option \<times> ConfigROM option" where
  "latest_step nodeId entry st =
     (let rom = snd entry; (latest, withUnits) = st;
          newer = (\<lambda>old. case old of None \<Rightarrow> True | Some r \<Rightarrow> cr_gen rom > cr_gen r)
      in if cr_nodeId rom \<noteq> ucast nodeId then st
         else (if newer latest then Some rom else latest,
               if HasParsedUnitProfile rom \<and> newer withUnits then Some rom else withUnits))"

definition FindLatestForNode :: "u8 \<Rightarrow> ConfigROMStore \<Rightarrow> ConfigROM option" where
  "FindLatestForNode nodeId s =
     (case fold (latest_step nodeId) (cs_byGenNode s) (None, None) of
        (Some latest, Some withUnits) \<Rightarrow>
          if cr_guid withUnits = cr_guid latest then Some withUnits else Some latest
      | (latest, _) \<Rightarrow> latest)"

definition FindByGuid :: "u64 \<Rightarrow> ConfigROMStore \<Rightarrow> ConfigROM option" where
  "FindByGuid guid s = map_of (cs_byGuid s) guid"

definition cs_Snapshot :: "u32 \<Rightarrow> ConfigROMStore \<Rightarrow> ConfigROM list" where
  "cs_Snapshot gen s = filter (\<lambda>rom. cr_gen rom = gen) (map snd (cs_byGenNode s))"

definition cs_SnapshotByState :: "u32 \<Rightarrow> ROMState \<Rightarrow> ConfigROMStore \<Rightarrow> ConfigROM list" where
  "cs_SnapshotByState gen state s =
     filter (\<lambda>rom. cr_gen rom = gen \<and> cr_state rom = state) (map snd (cs_byGenNode s))"

definition suspend :: "ConfigROM \<Rightarrow> ConfigROM" where
  "suspend rom = (if cr_state rom = RomFresh \<or> cr_state rom = RomValidated then rom\<lparr>cr_state := RomSuspended\<rparr> else rom)"

definition cs_SuspendAll :: "ConfigROMStore \<Rightarrow> ConfigROMStore" where
  "cs_SuspendAll s = s\<lparr>cs_byGenNode := map (\<lambda>(k, rom). (k, suspend rom)) (cs_byGenNode s),
     cs_byGuid := map (\<lambda>(k, rom). (k, suspend rom)) (cs_byGuid s)\<rparr>"

definition ValidateROM :: "u64 \<Rightarrow> u32 \<Rightarrow> u8 \<Rightarrow> ConfigROMStore \<Rightarrow> ConfigROMStore" where
  "ValidateROM guid gen nodeId s =
     (case map_of (cs_byGuid s) guid of
        None \<Rightarrow> s
      | Some rom \<Rightarrow>
          if cr_state rom \<noteq> RomSuspended then s
          else
            let rom = rom\<lparr>cr_nodeId := ucast nodeId, cr_gen := gen, cr_state := RomValidated, cr_lastValidated := gen\<rparr>
            in s\<lparr>cs_byGuid := sm_put guid rom (cs_byGuid s),
                 cs_byGenNode := sm_put (MakeKey gen nodeId) rom (cs_byGenNode s)\<rparr>)"

definition InvalidateROM :: "u64 \<Rightarrow> ConfigROMStore \<Rightarrow> ConfigROMStore" where
  "InvalidateROM guid s =
     (case map_of (cs_byGuid s) guid of
        None \<Rightarrow> s
      | Some rom \<Rightarrow>
          s\<lparr>cs_byGuid := sm_put guid (rom\<lparr>cr_state := RomInvalid, cr_nodeId := kInvalidNodeId\<rparr>) (cs_byGuid s),
            cs_byGenNode := filter (\<lambda>(k, r). cr_guid r \<noteq> guid) (cs_byGenNode s)\<rparr>)"

definition PruneInvalid :: "ConfigROMStore \<Rightarrow> ConfigROMStore" where
  "PruneInvalid s = s\<lparr>cs_byGuid := filter (\<lambda>(k, rom). cr_state rom \<noteq> RomInvalid) (cs_byGuid s),
     cs_byGenNode := filter (\<lambda>(k, rom). cr_state rom \<noteq> RomInvalid) (cs_byGenNode s)\<rparr>"

definition cs_Clear :: "ConfigROMStore \<Rightarrow> ConfigROMStore" where
  "cs_Clear s = s\<lparr>cs_byGenNode := [], cs_byGuid := []\<rparr>"

datatype StoreOp = OpInsert ConfigROM | OpSuspendAll | OpValidate u64 u32 u8 | OpInvalidate u64 | OpPrune | OpClear

primrec store_step :: "StoreOp \<Rightarrow> ConfigROMStore \<Rightarrow> ConfigROMStore" where
  "store_step (OpInsert rom) s = cs_Insert rom s"
| "store_step OpSuspendAll s = cs_SuspendAll s"
| "store_step (OpValidate guid gen nodeId) s = ValidateROM guid gen nodeId s"
| "store_step (OpInvalidate guid) s = InvalidateROM guid s"
| "store_step OpPrune s = PruneInvalid s"
| "store_step OpClear s = cs_Clear s"

section \<open>Consistency of the two indices\<close>

text \<open>
  A ROM is stored under its own GUID, never under 0, and under the key of its generation and node; an
  invalidated ROM is in no node's entry. The key is unambiguous for generations below \<open>2 ^ 24\<close>; the driver's
  are below \<open>2 ^ 16\<close>.
\<close>

definition small_gen :: "u32 \<Rightarrow> bool" where
  "small_gen gen \<longleftrightarrow> unat gen < 2 ^ 24"

definition guid_entry_ok :: "u64 \<times> ConfigROM \<Rightarrow> bool" where
  "guid_entry_ok entry \<longleftrightarrow> cr_guid (snd entry) = fst entry \<and> fst entry \<noteq> 0 \<and> small_gen (cr_gen (snd entry))"

definition node_entry_ok :: "u32 \<times> ConfigROM \<Rightarrow> bool" where
  "node_entry_ok entry \<longleftrightarrow> cr_guid (snd entry) \<noteq> 0 \<and> cr_state (snd entry) \<noteq> RomInvalid \<and> cr_nodeId (snd entry) \<le> 0xFF
     \<and> small_gen (cr_gen (snd entry)) \<and> fst entry = MakeKey (cr_gen (snd entry)) (ucast (cr_nodeId (snd entry)))"

definition cs_ok :: "ConfigROMStore \<Rightarrow> bool" where
  "cs_ok s \<longleftrightarrow> sm_ok (cs_byGenNode s) \<and> sm_ok (cs_byGuid s)
     \<and> list_all guid_entry_ok (cs_byGuid s) \<and> list_all node_entry_ok (cs_byGenNode s)"

lemma set_put: "sm_ok m \<Longrightarrow> set (sm_put k v m) = insert (k, v) {x \<in> set m. fst x \<noteq> k}"
proof -
  assume ok: "sm_ok m"
  have "(k', v') \<in> set (sm_put k v m) \<longleftrightarrow> (k', v') \<in> insert (k, v) {x \<in> set m. fst x \<noteq> k}" for k' v'
    using map_of_iff [OF ok, of k' v'] map_of_iff [OF sm_ok_put [OF ok, of k v], of k' v'] by (auto split: if_splits)
  then show ?thesis by auto
qed

lemma suspend_frame [simp]:
  "cr_guid (suspend rom) = cr_guid rom" "cr_gen (suspend rom) = cr_gen rom" "cr_nodeId (suspend rom) = cr_nodeId rom"
  "cr_unitDirectories (suspend rom) = cr_unitDirectories rom" "cr_rawQuadlets (suspend rom) = cr_rawQuadlets rom"
  "cr_state (suspend rom) = RomInvalid \<longleftrightarrow> cr_state rom = RomInvalid"
  by (simp_all add: suspend_def)

lemma stamped_frame [simp]:
  "cr_guid (stamped rom) = cr_guid rom" "cr_gen (stamped rom) = cr_gen rom" "cr_nodeId (stamped rom) = cr_nodeId rom"
  "cr_unitDirectories (stamped rom) = cr_unitDirectories rom" "cr_rawQuadlets (stamped rom) = cr_rawQuadlets rom"
  "cr_state (stamped rom) = cr_state rom" "HasParsedUnitProfile (stamped rom) = HasParsedUnitProfile rom"
  by (simp_all add: stamped_def Let_def HasParsedUnitProfile_def)

definition storable :: "ConfigROM \<Rightarrow> bool" where
  "storable rom \<longleftrightarrow> cr_guid rom \<noteq> 0 \<and> cr_nodeId rom \<le> 0xFF"

lemma shouldUpdate_frame [simp]:
  "shouldUpdateNode (stamped rom) s = shouldUpdateNode rom s" "shouldUpdateGuid (stamped rom) s = shouldUpdateGuid rom s"
  "shouldUpdateGuid rom (s\<lparr>cs_byGenNode := m\<rparr>) = shouldUpdateGuid rom s"
  by (simp_all add: shouldUpdateNode_def shouldUpdateGuid_def node_key_def cong: option.case_cong)

lemma Insert_eq:
  "cs_Insert rom s = (if \<not> storable rom then s
     else s\<lparr>cs_byGenNode := (if shouldUpdateNode rom s then sm_put (node_key rom) (stamped rom) (cs_byGenNode s) else cs_byGenNode s),
           cs_byGuid := (if shouldUpdateGuid rom s then sm_put (cr_guid rom) (stamped rom) (cs_byGuid s) else cs_byGuid s)\<rparr>)"
proof (cases "storable rom")
  case True
  then have t: "TryOperationalNodeId (cr_nodeId rom) = Some (ucast (cr_nodeId rom))" "cr_guid rom \<noteq> 0"
    by (simp_all add: storable_def TryOperationalNodeId_def not_less)
  then show ?thesis using True by (simp add: cs_Insert_def node_key_def Let_def)
next
  case False
  then show ?thesis by (auto simp: cs_Insert_def storable_def TryOperationalNodeId_def not_le Let_def)
qed

lemma list_all_put: "sm_ok m \<Longrightarrow> list_all P m \<Longrightarrow> P (k, v) \<Longrightarrow> list_all P (sm_put k v m)"
  by (auto simp: list_all_iff set_put)

lemma list_all_found: "list_all P m \<Longrightarrow> map_of m k = Some v \<Longrightarrow> P (k, v)"
  by (auto simp: list_all_iff dest: map_of_SomeD)

primrec good_op :: "StoreOp \<Rightarrow> bool" where
  "good_op (OpInsert rom) \<longleftrightarrow> cr_state rom \<noteq> RomInvalid \<and> small_gen (cr_gen rom)"
| "good_op OpSuspendAll \<longleftrightarrow> True"
| "good_op (OpValidate guid gen nodeId) \<longleftrightarrow> small_gen gen"
| "good_op (OpInvalidate guid) \<longleftrightarrow> True"
| "good_op OpPrune \<longleftrightarrow> True"
| "good_op OpClear \<longleftrightarrow> True"

lemma cs_ok_Insert: "cs_ok s \<Longrightarrow> good_op (OpInsert rom) \<Longrightarrow> cs_ok (cs_Insert rom s)"
  by (auto simp: Insert_eq cs_ok_def sm_ok_put storable_def node_key_def guid_entry_ok_def node_entry_ok_def
      intro!: list_all_put)

lemma cs_ok_Suspend: "cs_ok s \<Longrightarrow> cs_ok (cs_SuspendAll s)"
  by (auto simp: cs_ok_def cs_SuspendAll_def list_all_iff guid_entry_ok_def node_entry_ok_def sm_ok_map)

lemma u16_of_u8: "ucast n \<le> (0xFF :: u16)" "ucast (ucast n :: u16) = n" for n :: u8
proof -
  have "unat n < 2 ^ 8" using unsigned_less [of n] by simp
  moreover from this have "unat (ucast n :: u16) = unat n" by (simp add: unsigned_ucast_eq take_bit_nat_eq_self)
  ultimately show "ucast n \<le> (0xFF :: u16)" by (simp add: word_le_nat_alt)
  show "ucast (ucast n :: u16) = n" by (rule bit_word_eqI) (simp add: bit_simps)
qed

lemma cs_ok_Validate:
  assumes "cs_ok s" and "small_gen gen"
  shows "cs_ok (ValidateROM guid gen nodeId s)"
proof (cases "map_of (cs_byGuid s) guid")
  case (Some rom)
  note node = u16_of_u8 [of nodeId]
  have "guid_entry_ok (guid, rom)" using assms(1) Some by (auto simp: cs_ok_def intro: list_all_found)
  with assms Some node show ?thesis
    by (auto simp: ValidateROM_def Let_def cs_ok_def sm_ok_put guid_entry_ok_def node_entry_ok_def intro!: list_all_put)
qed (use assms in \<open>simp add: ValidateROM_def\<close>)

lemma cs_ok_Invalidate:
  assumes "cs_ok s"
  shows "cs_ok (InvalidateROM guid s)"
proof (cases "map_of (cs_byGuid s) guid")
  case (Some rom)
  have "guid_entry_ok (guid, rom)" using assms Some by (auto simp: cs_ok_def intro: list_all_found)
  moreover have "list_all node_entry_ok (filter P (cs_byGenNode s))" for P
    using assms by (simp add: cs_ok_def list_all_iff)
  ultimately show ?thesis using assms Some
    by (auto simp: InvalidateROM_def cs_ok_def sm_ok_put sm_ok_filter guid_entry_ok_def intro!: list_all_put)
qed (use assms in \<open>simp add: InvalidateROM_def\<close>)

interpretation store: class_invariant cs_ok good_op store_step
proof
  fix s op
  assume "cs_ok s" and "good_op op"
  then show "cs_ok (store_step op s)"
    by (cases op) (simp_all add: cs_ok_Insert cs_ok_Suspend cs_ok_Validate cs_ok_Invalidate,
        simp_all add: cs_ok_def PruneInvalid_def cs_Clear_def sm_ok_filter list_all_iff, simp_all add: sm_ok_def)
qed

section \<open>Properties\<close>

lemma MakeKey_inject:
  assumes "MakeKey g n = MakeKey g' n'" and "small_gen g" and "small_gen g'"
  shows "g = g' \<and> n = n'"
proof -
  have key: "bit (MakeKey g n) k \<longleftrightarrow> k < 32 \<and> (8 \<le> k \<and> bit g (k - 8) \<or> bit n k)" for g n k
    using not_bit_u8 [of k n] by (auto simp: MakeKey_def bit_simps)
  have lo: "\<not> bit n k" if "8 \<le> k" for n :: u8 and k using that by (rule not_bit_u8)
  have hi: "\<not> bit g k" if "small_gen g" "24 \<le> k" for g k
    using that not_bit_if_less [of g 24 k] by (simp add: small_gen_def)
  have bits: "bit (MakeKey g n) k = bit (MakeKey g' n') k" for k by (simp add: assms(1))
  have "n = n'"
  proof (rule bit_word_eqI)
    fix k :: nat
    assume "k < LENGTH(8)"
    then show "bit n k = bit n' k" using bits [of k] by (simp add: key)
  qed
  moreover have "bit g k = bit g' k" for k
  proof (cases "k < 24")
    case True
    then show ?thesis using bits [of "k + 8"] lo [of "k + 8"] by (simp add: key)
  qed (use hi assms(2,3) in auto)
  ultimately show ?thesis by (auto intro: bit_word_eqI)
qed


definition scan_op :: "StoreOp \<Rightarrow> bool" where
  "scan_op op \<longleftrightarrow> (case op of OpInsert rom \<Rightarrow> True | OpSuspendAll \<Rightarrow> True | _ \<Rightarrow> False)"

definition richer :: "ConfigROM option \<Rightarrow> ConfigROM option \<Rightarrow> bool" where
  "richer new old \<longleftrightarrow> (case old of None \<Rightarrow> True | Some o' \<Rightarrow>
     (case new of None \<Rightarrow> False | Some n \<Rightarrow> length (cr_rawQuadlets o') \<le> length (cr_rawQuadlets n)
        \<and> (HasParsedUnitProfile n \<or> \<not> HasParsedUnitProfile o')))"

lemma richer_trans: "richer c b \<Longrightarrow> richer b a \<Longrightarrow> richer c a"
  by (auto simp: richer_def split: option.splits)

lemma richer_Insert: "richer (FindByNode gen nodeId (cs_Insert rom s)) (FindByNode gen nodeId s)"
  by (auto simp: Insert_eq FindByNode_def richer_def shouldUpdateNode_def split: option.splits)

lemma richer_Suspend: "richer (FindByNode gen nodeId (cs_SuspendAll s)) (FindByNode gen nodeId s)"
  by (auto simp: cs_SuspendAll_def FindByNode_def richer_def map_of_map_values HasParsedUnitProfile_def
      split: option.splits)

text \<open>
  C17: a later scan never impoverishes a node's ROM. Whatever ROMs are inserted afterwards, in any order and
  with suspensions in between, the entry of a generation and node that has once been filled stays
  filled, never gets fewer quadlets, and never loses its unit directories.
\<close>

theorem node_rom_never_poorer:
  assumes "list_all scan_op ops"
  shows "richer (FindByNode gen nodeId (fold store_step ops s)) (FindByNode gen nodeId s)"
  using assms
proof (induction ops arbitrary: s)
  case (Cons op ops)
  then have "richer (FindByNode gen nodeId (store_step op s)) (FindByNode gen nodeId s)"
    by (cases op) (simp_all add: scan_op_def richer_Insert richer_Suspend)
  with Cons.IH [of "store_step op s"] Cons.prems show ?case by (auto intro: richer_trans)
qed (simp add: richer_def split: option.split)

text \<open>
  The index by GUID does not keep that promise. Within a generation, a ROM without unit directories that
  has as many quadlets as the cached one replaces it, units and all. And once a device's ROM has been
  invalidated, a device that comes back with a ROM whose units are not yet read stays
  invalid in this index, and the next prune removes it, while the index by node has the new ROM.
\<close>

lemma guid_index_regresses:
  assumes "FindByGuid (cr_guid rom) s = Some old" and "HasParsedUnitProfile old" and "\<not> HasParsedUnitProfile rom"
    and "storable rom" and "cs_ok s" and "cr_state rom \<noteq> RomInvalid"
  shows "(cr_gen rom = cr_gen old \<and> length (cr_rawQuadlets old) \<le> length (cr_rawQuadlets rom) \<longrightarrow>
      FindByGuid (cr_guid rom) (cs_Insert rom s) = Some (stamped rom))
    \<and> (cr_state old = RomInvalid \<and> cr_gen old < cr_gen rom \<and> FindByNode (cr_gen rom) (ucast (cr_nodeId rom)) s = None \<longrightarrow>
      FindByGuid (cr_guid rom) (cs_Insert rom s) = Some old
      \<and> FindByGuid (cr_guid rom) (PruneInvalid (cs_Insert rom s)) = None
      \<and> FindByNode (cr_gen rom) (ucast (cr_nodeId rom)) (PruneInvalid (cs_Insert rom s)) = Some (stamped rom))"
proof -
  have guid: "map_of (cs_byGuid s) (cr_guid rom) = Some old" using assms(1) by (simp add: FindByGuid_def)
  have sorted: "sm_ok (cs_byGenNode s)" "sm_ok (cs_byGuid s)" using assms(5) by (simp_all add: cs_ok_def)
  have ins: "cs_byGuid (cs_Insert rom s) = (if shouldUpdateGuid rom s
      then sm_put (cr_guid rom) (stamped rom) (cs_byGuid s) else cs_byGuid s)"
    "FindByNode (cr_gen rom) (ucast (cr_nodeId rom)) s = None \<Longrightarrow>
       cs_byGenNode (cs_Insert rom s) = sm_put (node_key rom) (stamped rom) (cs_byGenNode s)"
    using assms(4) by (auto simp: Insert_eq shouldUpdateNode_def node_key_def FindByNode_def)
  have upd: "shouldUpdateGuid rom s \<longleftrightarrow> cr_gen old = cr_gen rom \<and> length (cr_rawQuadlets old) \<le> length (cr_rawQuadlets rom)"
    using guid assms(2,3) by (auto simp: shouldUpdateGuid_def)
  show ?thesis
    using guid ins upd sorted assms(6)
    by (auto simp: FindByGuid_def FindByNode_def PruneInvalid_def map_of_filter sm_ok_put node_key_def)
qed

section \<open>Witnesses\<close>

definition sample_rom :: "u32 \<Rightarrow> UnitDirectory list \<Rightarrow> u32 list \<Rightarrow> ConfigROM" where
  "sample_rom gen units quads = \<lparr>cr_gen = gen, cr_nodeId = 2, cr_bib = BusInfoBlock0\<lparr>bib_guid := 7\<rparr>, cr_rootDirMinimal = [],
     cr_vendorName = [], cr_modelName = [], cr_unitDirectories = units, cr_rawQuadlets = quads, cr_state = RomFresh,
     cr_firstSeen = 0, cr_lastValidated = 0\<rparr>"

definition sample_unit :: UnitDirectory where
  "sample_unit = \<lparr>ud_offsetQuadlets = 5, ud_unitSpecId = 0xA02D, ud_unitSwVersion = 0x10001, ud_logicalUnitNumber = None,
     ud_modelId = None, ud_modelName = None, ud_managementAgentOffset = None, ud_unitCharacteristics = None,
     ud_fastStart = None\<rparr>"

definition sample_scans :: "StoreOp list" where
  "sample_scans = [OpInsert (sample_rom 3 [sample_unit] [1, 2, 3]), OpSuspendAll, OpInsert (sample_rom 3 [] [1])]"


theorem node_rom_never_poorer_witness:
  "list_all scan_op (tl sample_scans)
   \<and> richer (FindByNode 3 2 (fold store_step (tl sample_scans) (cs_Insert (sample_rom 3 [sample_unit] [1, 2, 3]) ConfigROMStore0)))
       (FindByNode 3 2 (cs_Insert (sample_rom 3 [sample_unit] [1, 2, 3]) ConfigROMStore0))
   \<and> FindByNode 3 2 (cs_Insert (sample_rom 3 [sample_unit] [1, 2, 3]) ConfigROMStore0) \<noteq> None"
proof -
  have scan: "list_all scan_op (tl sample_scans)" by (simp add: sample_scans_def scan_op_def)
  have "FindByNode 3 2 (cs_Insert (sample_rom 3 [sample_unit] [1, 2, 3]) ConfigROMStore0) \<noteq> None" by code_simp
  with scan node_rom_never_poorer [OF scan] show ?thesis by blast
qed

end
