(* ===== verification/IRM_Client.thy ===== *)
theory IRM_Client
  imports Async_Tracking
begin

text \<open>
  The client of the isochronous resource manager (\<^verbatim>\<open>Bus/IRM/IRMClient.cpp\<close>, \<^verbatim>\<open>Bus/IRM/IRMTypes.hpp\<close>) and the local
  CSR engine it uses when this node is the resource manager (\<^verbatim>\<open>Hardware/HardwareInterface.cpp\<close>).

  The resource manager's registers are the \<open>Ledger\<close>. Every request takes one \<open>BusTurn\<close> of the environment: what
  the other nodes do to the ledger before the request arrives, and what becomes of the request, which can be
  answered, or not be answered although it was executed. The bus calls back exactly once per request, so a
  request is a function from the world to its answer and the new world; the world also records the
  compare-swaps of this client that took effect.
\<close>

section \<open>Types and registers\<close>

type_synonym Ledger = "u32 \<Rightarrow> u32"

datatype AllocationStatus = AllocSuccess | NoResources | ChannelBusy | BandwidthShort | GenerationMismatch
  | AllocTimeout | AllocNotFound | AllocFailed

definition kBandwidthAvailable :: u32 where "kBandwidthAvailable = 0xF0000220"
definition kChannelsAvailable31_0 :: u32 where "kChannelsAvailable31_0 = 0xF0000224"
definition kChannelsAvailable63_32 :: u32 where "kChannelsAvailable63_32 = 0xF0000228"
definition kBusManagerIdAddress :: u32 where "kBusManagerIdAddress = 0xF000021C"

definition kMaxBandwidthUnitsS400 :: u32 where "kMaxBandwidthUnitsS400 = 4915"

definition PacketBandwidthUnits :: "u32 \<Rightarrow> u8 \<Rightarrow> u32" where
  "PacketBandwidthUnits payloadBytes speedCode =
     (let quadlets = (payloadBytes + 3) div 4; unitsAtS1600 = (quadlets + 3) * 16
      in if 4 \<le> speedCode then unitsAtS1600 else drop_bit (unat speedCode) unitsAtS1600)"

definition BandwidthOverheadForGapCount :: "u8 \<Rightarrow> u32" where
  "BandwidthOverheadForGapCount gapCount = (if gapCount < 63 then ucast gapCount * 97 div 10 + 89 else 512)"

definition ChannelToBitMask :: "u8 \<Rightarrow> u32" where
  "ChannelToBitMask channel =
     (if channel < 32 then push_bit (31 - unat channel) 1 else push_bit (63 - unat channel) 1)"

definition ChannelToRegisterAddress :: "u8 \<Rightarrow> u32" where
  "ChannelToRegisterAddress channel = (if channel < 32 then kChannelsAvailable31_0 else kChannelsAvailable63_32)"

record RetryPolicy =
  rp_maxRetries :: u8
  rp_maxTimeoutRetries :: u8

definition RetryPolicy_Default :: RetryPolicy where
  "RetryPolicy_Default = \<lparr>rp_maxRetries = 2, rp_maxTimeoutRetries = 3\<rparr>"

definition RetryPolicy_Aggressive :: RetryPolicy where
  "RetryPolicy_Aggressive = \<lparr>rp_maxRetries = 8, rp_maxTimeoutRetries = 3\<rparr>"

definition RetryPolicy_None :: RetryPolicy where
  "RetryPolicy_None = \<lparr>rp_maxRetries = 0, rp_maxTimeoutRetries = 0\<rparr>"

section \<open>The local CSR engine\<close>

text \<open>
  Writing the control register starts a compare-swap of the selected resource with the contents of the two
  data registers; there is no other access. The driver then polls for the done bit. A poll finds the
  hardware gone, the operation pending, or done. \<open>la_executes\<close> says whether the engine performs an operation
  whose end the driver does not see.
\<close>

datatype CSRSelector = SelBusManagerId | SelBandwidthAvailable | SelChannelsAvailableHi | SelChannelsAvailableLo

datatype LocalCSRStatus = LocalSuccess | LocalTimeout | LocalHardwareUnavailable

datatype PollAnswer = PollGone | PollPending | PollDone

record LocalCSRAnswers =
  la_available :: bool
  la_access :: bool
  la_polls :: "PollAnswer list"
  la_executes :: bool

definition SelectorAddress :: "CSRSelector \<Rightarrow> u32" where
  "SelectorAddress sel = (case sel of SelBusManagerId \<Rightarrow> kBusManagerIdAddress
     | SelBandwidthAvailable \<Rightarrow> kBandwidthAvailable | SelChannelsAvailableHi \<Rightarrow> kChannelsAvailable31_0
     | SelChannelsAvailableLo \<Rightarrow> kChannelsAvailable63_32)"

definition compare_swap :: "u32 \<Rightarrow> u32 \<Rightarrow> u32 \<Rightarrow> Ledger \<Rightarrow> Ledger" where
  "compare_swap addr compare new l = (if l addr = compare then l(addr := new) else l)"

definition kMaxTries :: nat where "kMaxTries = 10000"

primrec poll_done :: "PollAnswer list \<Rightarrow> LocalCSRStatus" where
  "poll_done [] = LocalTimeout"
| "poll_done (p # ps) = (case p of PollGone \<Rightarrow> LocalHardwareUnavailable | PollDone \<Rightarrow> LocalSuccess
     | PollPending \<Rightarrow> poll_done ps)"

definition csr_executes :: "LocalCSRAnswers \<Rightarrow> bool" where
  "csr_executes la \<longleftrightarrow> la_available la \<and> la_access la
     \<and> (poll_done (take kMaxTries (la_polls la)) = LocalSuccess \<or> la_executes la)"

definition csr_control :: "LocalCSRAnswers \<Rightarrow> CSRSelector \<Rightarrow> u32 \<Rightarrow> u32 \<Rightarrow> Ledger \<Rightarrow> LocalCSRStatus \<times> u32 \<times> Ledger" where
  "csr_control la sel compare new l =
     (if \<not> la_available la \<or> \<not> la_access la then (LocalHardwareUnavailable, 0, l)
      else
        let status = poll_done (take kMaxTries (la_polls la));
            l' = (if csr_executes la then compare_swap (SelectorAddress sel) compare new l else l)
        in (status, if status = LocalSuccess then l (SelectorAddress sel) else 0, l'))"

definition ReadLocalIRMResource :: "LocalCSRAnswers \<Rightarrow> CSRSelector \<Rightarrow> Ledger \<Rightarrow> LocalCSRStatus \<times> u32 \<times> Ledger" where
  "ReadLocalIRMResource la sel l = csr_control la sel 0 0 l"

definition CompareSwapLocalIRMResource ::
  "LocalCSRAnswers \<Rightarrow> CSRSelector \<Rightarrow> u32 \<Rightarrow> u32 \<Rightarrow> Ledger \<Rightarrow> LocalCSRStatus \<times> u32 \<times> Ledger" where
  "CompareSwapLocalIRMResource la sel compareValue newValue l = csr_control la sel compareValue newValue l"

section \<open>Requests\<close>

datatype BusReply = Answered | Unanswered AsyncStatus bool

record BusTurn =
  bt_others :: "Ledger \<Rightarrow> Ledger"
  bt_generation :: u32
  bt_localNodeId :: u8
  bt_reply :: BusReply
  bt_local :: LocalCSRAnswers

record IRMWorld =
  iw_ledger :: Ledger
  iw_requests :: nat
  iw_swaps :: "(u32 \<times> u32 \<times> u32) list"
  iw_slept :: "u64 list"

record IRMClient =
  ic_irmNodeId :: u8
  ic_generation :: u32
  ic_lastBusResetNs :: u64
  ic_localRead :: bool
  ic_localCompareSwap :: bool

definition SetIRMNode :: "u8 \<Rightarrow> u32 \<Rightarrow> u64 \<Rightarrow> IRMClient \<Rightarrow> IRMClient" where
  "SetIRMNode irmNodeId generation lastBusResetNs c =
     c\<lparr>ic_irmNodeId := irmNodeId, ic_generation := generation, ic_lastBusResetNs := lastBusResetNs\<rparr>"

definition LocalIRMSelectorForAddress :: "u32 \<Rightarrow> CSRSelector option" where
  "LocalIRMSelectorForAddress addressLo =
     (if addressLo = kBusManagerIdAddress then Some SelBusManagerId
      else if addressLo = kBandwidthAvailable then Some SelBandwidthAvailable
      else if addressLo = kChannelsAvailable31_0 then Some SelChannelsAvailableHi
      else if addressLo = kChannelsAvailable63_32 then Some SelChannelsAvailableLo
      else None)"

definition MapAsyncStatus :: "AsyncStatus \<Rightarrow> AllocationStatus" where
  "MapAsyncStatus status = (case status of kSuccess \<Rightarrow> AllocSuccess | kStaleGeneration \<Rightarrow> GenerationMismatch
     | kTimeout \<Rightarrow> AllocTimeout | _ \<Rightarrow> AllocFailed)"

definition MapLocalCSRStatus :: "LocalCSRStatus \<Rightarrow> AllocationStatus" where
  "MapLocalCSRStatus status = (case status of LocalSuccess \<Rightarrow> AllocSuccess | LocalTimeout \<Rightarrow> AllocTimeout
     | LocalHardwareUnavailable \<Rightarrow> AllocFailed)"

definition IsLocalIRMNode :: "IRMClient \<Rightarrow> u8 \<Rightarrow> bool" where
  "IsLocalIRMNode c localNodeId \<longleftrightarrow> ic_irmNodeId c \<noteq> 0xFF \<and> ic_irmNodeId c AND 0x3F = localNodeId AND 0x3F"

definition quadlet_payload :: "u32 \<Rightarrow> u8 list" where
  "quadlet_payload w = [ucast (drop_bit 24 w), ucast (drop_bit 16 w), ucast (drop_bit 8 w), ucast w]"

definition payload_quadlet :: "u8 list \<Rightarrow> u32" where
  "payload_quadlet bs = push_bit 24 (ucast (bs ! 0)) OR push_bit 16 (ucast (bs ! 1)) OR push_bit 8 (ucast (bs ! 2)) OR ucast (bs ! 3)"

text \<open>The lambda that both requests pass to the bus: status, then size, then the big-endian value.\<close>

definition on_response :: "AsyncStatus \<Rightarrow> u8 list \<Rightarrow> AllocationStatus \<times> u32" where
  "on_response status payload =
     (let mapped = MapAsyncStatus status in
      if mapped \<noteq> AllocSuccess then (mapped, 0)
      else if length payload \<noteq> 4 then (AllocFailed, 0)
      else (AllocSuccess, payload_quadlet payload))"

definition bus_request :: "BusReply \<Rightarrow> u32 \<Rightarrow> AllocationStatus \<times> u32" where
  "bus_request reply value = (case reply of Answered \<Rightarrow> on_response kSuccess (quadlet_payload value)
     | Unanswered status _ \<Rightarrow> on_response status [])"

definition executed :: "BusReply \<Rightarrow> bool" where
  "executed reply \<longleftrightarrow> (case reply of Answered \<Rightarrow> True | Unanswered _ done \<Rightarrow> done)"

definition next_turn :: "(nat \<Rightarrow> BusTurn) \<Rightarrow> IRMWorld \<Rightarrow> BusTurn \<times> IRMWorld" where
  "next_turn env w = (let t = env (iw_requests w)
     in (t, w\<lparr>iw_ledger := bt_others t (iw_ledger w), iw_requests := Suc (iw_requests w)\<rparr>))"

definition note_swap :: "bool \<Rightarrow> u32 \<Rightarrow> u32 \<Rightarrow> u32 \<Rightarrow> IRMWorld \<Rightarrow> IRMWorld" where
  "note_swap done addr expected desired w =
     (if done \<and> iw_ledger w addr = expected then w\<lparr>iw_swaps := iw_swaps w @ [(addr, expected, desired)]\<rparr> else w)"

definition ReadIRMQuadlet ::
  "(nat \<Rightarrow> BusTurn) \<Rightarrow> IRMClient \<Rightarrow> u32 \<Rightarrow> IRMWorld \<Rightarrow> AllocationStatus \<times> u32 \<times> IRMWorld" where
  "ReadIRMQuadlet env c addressLo w =
     (let (t, w) = next_turn env w in
      case (if IsLocalIRMNode c (bt_localNodeId t) then LocalIRMSelectorForAddress addressLo else None) of
        Some selector \<Rightarrow>
          if bt_generation t \<noteq> ic_generation c then (GenerationMismatch, 0, w)
          else if \<not> ic_localRead c then (AllocFailed, 0, w)
          else
            let (status, value, l) = ReadLocalIRMResource (bt_local t) selector (iw_ledger w)
            in (MapLocalCSRStatus status, value, w\<lparr>iw_ledger := l\<rparr>)
      | None \<Rightarrow>
          let (status, value) = bus_request (bt_reply t) (iw_ledger w addressLo) in (status, value, w))"

definition CompareSwapIRMQuadlet ::
  "(nat \<Rightarrow> BusTurn) \<Rightarrow> IRMClient \<Rightarrow> u32 \<Rightarrow> u32 \<Rightarrow> u32 \<Rightarrow> IRMWorld \<Rightarrow> AllocationStatus \<times> u32 \<times> IRMWorld" where
  "CompareSwapIRMQuadlet env c addressLo expected desired w =
     (let (t, w) = next_turn env w in
      case (if IsLocalIRMNode c (bt_localNodeId t) then LocalIRMSelectorForAddress addressLo else None) of
        Some selector \<Rightarrow>
          if bt_generation t \<noteq> ic_generation c then (GenerationMismatch, 0, w)
          else if \<not> ic_localCompareSwap c then (AllocFailed, 0, w)
          else
            let (status, oldValue, l) = CompareSwapLocalIRMResource (bt_local t) selector expected desired (iw_ledger w)
            in (MapLocalCSRStatus status, oldValue,
                (note_swap (csr_executes (bt_local t)) addressLo expected desired w)\<lparr>iw_ledger := l\<rparr>)
      | None \<Rightarrow>
          let (status, oldValue) = bus_request (bt_reply t) (iw_ledger w addressLo);
              l = (if executed (bt_reply t) then compare_swap addressLo expected desired (iw_ledger w) else iw_ledger w)
          in (status, oldValue, (note_swap (executed (bt_reply t)) addressLo expected desired w)\<lparr>iw_ledger := l\<rparr>))"

record ResourceSnapshot =
  rs_bandwidthAvailable :: u32
  rs_channelsAvailable31_0 :: u32
  rs_channelsAvailable63_32 :: u32

definition ResourceSnapshot0 :: ResourceSnapshot where
  "ResourceSnapshot0 = \<lparr>rs_bandwidthAvailable = 0, rs_channelsAvailable31_0 = 0, rs_channelsAvailable63_32 = 0\<rparr>"

definition ReadResourcesSnapshot ::
  "(nat \<Rightarrow> BusTurn) \<Rightarrow> IRMClient \<Rightarrow> IRMWorld \<Rightarrow> AllocationStatus \<times> ResourceSnapshot \<times> IRMWorld" where
  "ReadResourcesSnapshot env c w =
     (if ic_irmNodeId c = 0xFF then (AllocNotFound, ResourceSnapshot0, w)
      else
        let (status, bandwidth, w) = ReadIRMQuadlet env c kBandwidthAvailable w in
        if status \<noteq> AllocSuccess then (status, ResourceSnapshot0, w)
        else
          let (status, hi, w) = ReadIRMQuadlet env c kChannelsAvailable31_0 w in
          if status \<noteq> AllocSuccess then (status, ResourceSnapshot0, w)
          else
            let (status, lo, w) = ReadIRMQuadlet env c kChannelsAvailable63_32 w in
            if status \<noteq> AllocSuccess then (status, ResourceSnapshot0, w)
            else (AllocSuccess, \<lparr>rs_bandwidthAvailable = bandwidth, rs_channelsAvailable31_0 = hi,
                    rs_channelsAvailable63_32 = lo\<rparr>, w))"

text \<open>The two public compare-swaps share their lambda.\<close>

definition swap_result :: "u32 \<Rightarrow> AllocationStatus \<times> u32 \<times> IRMWorld \<Rightarrow> AllocationStatus \<times> u32 \<times> IRMWorld" where
  "swap_result expected r = (case r of (status, oldValue, w) \<Rightarrow>
     if status \<noteq> AllocSuccess then (status, 0, w)
     else (if oldValue = expected then AllocSuccess else NoResources, oldValue, w))"

definition CompareSwapBandwidth ::
  "(nat \<Rightarrow> BusTurn) \<Rightarrow> IRMClient \<Rightarrow> u32 \<Rightarrow> u32 \<Rightarrow> IRMWorld \<Rightarrow> AllocationStatus \<times> u32 \<times> IRMWorld" where
  "CompareSwapBandwidth env c expected desired w =
     swap_result expected (CompareSwapIRMQuadlet env c kBandwidthAvailable expected desired w)"

definition CompareSwapChannel ::
  "(nat \<Rightarrow> BusTurn) \<Rightarrow> IRMClient \<Rightarrow> u8 \<Rightarrow> u32 \<Rightarrow> u32 \<Rightarrow> IRMWorld \<Rightarrow> AllocationStatus \<times> u32 \<times> IRMWorld" where
  "CompareSwapChannel env c channel expected desired w =
     swap_result expected (CompareSwapIRMQuadlet env c (ChannelToRegisterAddress channel) expected desired w)"

section \<open>The lock loops\<close>

text \<open>A step of a lock loop ends with a status for the caller or starts over with a smaller budget.\<close>

datatype 'c LockStep = Finished AllocationStatus | Restart 'c

record ChannelLockState =
  cl_channel :: u8
  cl_addressLo :: u32
  cl_bitMask :: u32
  cl_allocate :: bool
  cl_retriesLeft :: u8
  cl_timeoutRetriesLeft :: u8

record BandwidthLockState =
  bl_units :: u32
  bl_allocate :: bool
  bl_retriesLeft :: u8
  bl_timeoutRetriesLeft :: u8
  bl_unansweredDesired :: "u32 option"

definition ConsumeTimeoutRetry :: "u8 \<Rightarrow> u8 option" where
  "ConsumeTimeoutRetry retriesLeft = (if retriesLeft = 0 then None else Some (retriesLeft - 1))"

definition OnChannelCompareSwap :: "ChannelLockState \<Rightarrow> u32 \<Rightarrow> bool \<Rightarrow> u32 \<Rightarrow> ChannelLockState LockStep" where
  "OnChannelCompareSwap ctx expectedValue success oldValue =
     (if \<not> success then Finished AllocFailed
      else if oldValue = expectedValue then Finished AllocSuccess
      else if cl_retriesLeft ctx = 0 then Finished NoResources
      else Restart (ctx\<lparr>cl_retriesLeft := cl_retriesLeft ctx - 1\<rparr>))"

definition OnChannelRead ::
  "(nat \<Rightarrow> BusTurn) \<Rightarrow> IRMClient \<Rightarrow> ChannelLockState \<Rightarrow> bool \<Rightarrow> u32 \<Rightarrow> IRMWorld \<Rightarrow> ChannelLockState LockStep \<times> IRMWorld" where
  "OnChannelRead env c ctx success currentValue w =
     (if \<not> success then (Finished AllocFailed, w)
      else if cl_allocate ctx \<and> currentValue AND cl_bitMask ctx = 0 then (Finished ChannelBusy, w)
      else
        let newValue = (if cl_allocate ctx then currentValue AND NOT (cl_bitMask ctx)
                        else currentValue OR cl_bitMask ctx);
            (status, oldValue, w) = CompareSwapIRMQuadlet env c (cl_addressLo ctx) currentValue newValue w
        in (case (if status = AllocTimeout then ConsumeTimeoutRetry (cl_timeoutRetriesLeft ctx) else None) of
              Some left \<Rightarrow> (Restart (ctx\<lparr>cl_timeoutRetriesLeft := left\<rparr>), w)
            | None \<Rightarrow>
                if status \<noteq> AllocSuccess then (Finished status, w)
                else (OnChannelCompareSwap ctx currentValue True oldValue, w)))"

definition channel_step ::
  "(nat \<Rightarrow> BusTurn) \<Rightarrow> IRMClient \<Rightarrow> ChannelLockState \<Rightarrow> IRMWorld \<Rightarrow> ChannelLockState LockStep \<times> IRMWorld" where
  "channel_step env c ctx w =
     (let (status, currentValue, w) = ReadIRMQuadlet env c (cl_addressLo ctx) w in
      case (if status = AllocTimeout then ConsumeTimeoutRetry (cl_timeoutRetriesLeft ctx) else None) of
        Some left \<Rightarrow> (Restart (ctx\<lparr>cl_timeoutRetriesLeft := left\<rparr>), w)
      | None \<Rightarrow>
          if status \<noteq> AllocSuccess then (Finished status, w) else OnChannelRead env c ctx True currentValue w)"

definition channel_budget :: "ChannelLockState \<Rightarrow> nat" where
  "channel_budget ctx = unat (cl_retriesLeft ctx) + unat (cl_timeoutRetriesLeft ctx)"

definition OnBandwidthCompareSwap :: "BandwidthLockState \<Rightarrow> u32 \<Rightarrow> bool \<Rightarrow> u32 \<Rightarrow> BandwidthLockState LockStep" where
  "OnBandwidthCompareSwap ctx expectedBandwidth success oldValue =
     (if \<not> success then Finished AllocFailed
      else if oldValue = expectedBandwidth then Finished AllocSuccess
      else if bl_retriesLeft ctx = 0 then Finished NoResources
      else Restart (ctx\<lparr>bl_retriesLeft := bl_retriesLeft ctx - 1\<rparr>))"

definition OnBandwidthRead ::
  "(nat \<Rightarrow> BusTurn) \<Rightarrow> IRMClient \<Rightarrow> BandwidthLockState \<Rightarrow> bool \<Rightarrow> u32 \<Rightarrow> IRMWorld \<Rightarrow> BandwidthLockState LockStep \<times> IRMWorld" where
  "OnBandwidthRead env c ctx success currentBandwidth w =
     (if \<not> success then (Finished AllocFailed, w)
      else if \<not> bl_allocate ctx \<and> bl_unansweredDesired ctx = Some currentBandwidth then (Finished AllocSuccess, w)
      else
        let ctx = ctx\<lparr>bl_unansweredDesired := None\<rparr> in
        if bl_allocate ctx \<and> currentBandwidth < bl_units ctx then (Finished BandwidthShort, w)
        else if \<not> bl_allocate ctx \<and> currentBandwidth + bl_units ctx > kMaxBandwidthUnitsS400 then (Finished AllocSuccess, w)
        else
          let newBandwidth = (if bl_allocate ctx then currentBandwidth - bl_units ctx
                              else currentBandwidth + bl_units ctx);
              (status, oldValue, w) = CompareSwapIRMQuadlet env c kBandwidthAvailable currentBandwidth newBandwidth w
          in (case (if status = AllocTimeout then ConsumeTimeoutRetry (bl_timeoutRetriesLeft ctx) else None) of
                Some left \<Rightarrow> (Restart (ctx\<lparr>bl_timeoutRetriesLeft := left, bl_unansweredDesired := Some newBandwidth\<rparr>), w)
              | None \<Rightarrow>
                  if status \<noteq> AllocSuccess then (Finished status, w)
                  else (OnBandwidthCompareSwap ctx currentBandwidth True oldValue, w)))"

definition bandwidth_step ::
  "(nat \<Rightarrow> BusTurn) \<Rightarrow> IRMClient \<Rightarrow> BandwidthLockState \<Rightarrow> IRMWorld \<Rightarrow> BandwidthLockState LockStep \<times> IRMWorld" where
  "bandwidth_step env c ctx w =
     (let (status, currentBandwidth, w) = ReadIRMQuadlet env c kBandwidthAvailable w in
      case (if status = AllocTimeout then ConsumeTimeoutRetry (bl_timeoutRetriesLeft ctx) else None) of
        Some left \<Rightarrow> (Restart (ctx\<lparr>bl_timeoutRetriesLeft := left\<rparr>), w)
      | None \<Rightarrow>
          if status \<noteq> AllocSuccess then (Finished status, w) else OnBandwidthRead env c ctx True currentBandwidth w)"

definition bandwidth_budget :: "BandwidthLockState \<Rightarrow> nat" where
  "bandwidth_budget ctx = unat (bl_retriesLeft ctx) + unat (bl_timeoutRetriesLeft ctx)"

lemma unat_pred: "n \<noteq> 0 \<Longrightarrow> unat (n - 1 :: 'a::len word) < unat n"
  by (simp add: unat_minus_one unat_gt_0)

lemma ConsumeTimeoutRetry_less: "ConsumeTimeoutRetry n = Some m \<Longrightarrow> unat m < unat n"
  by (auto simp: ConsumeTimeoutRetry_def unat_pred split: if_splits)

lemma channel_step_budget: "channel_step env c ctx w = (Restart ctx', w') \<Longrightarrow> channel_budget ctx' < channel_budget ctx"
  by (auto simp: channel_step_def OnChannelRead_def OnChannelCompareSwap_def channel_budget_def Let_def unat_pred
      split: prod.splits option.splits if_splits dest: ConsumeTimeoutRetry_less)

lemma bandwidth_step_budget: "bandwidth_step env c ctx w = (Restart ctx', w') \<Longrightarrow> bandwidth_budget ctx' < bandwidth_budget ctx"
  by (auto simp: bandwidth_step_def OnBandwidthRead_def OnBandwidthCompareSwap_def bandwidth_budget_def Let_def unat_pred
      split: prod.splits option.splits if_splits dest: ConsumeTimeoutRetry_less)

function StartChannelLock ::
  "(nat \<Rightarrow> BusTurn) \<Rightarrow> IRMClient \<Rightarrow> ChannelLockState \<Rightarrow> IRMWorld \<Rightarrow> AllocationStatus \<times> IRMWorld" where
  "StartChannelLock env c ctx w =
     (case channel_step env c ctx w of
        (Finished status, w) \<Rightarrow> (status, w)
      | (Restart ctx, w) \<Rightarrow> StartChannelLock env c ctx w)"
  by pat_completeness auto
termination
  by (relation "measure (\<lambda>(env, c, ctx, w). channel_budget ctx)") (auto dest!: channel_step_budget [OF sym])

function StartBandwidthLock ::
  "(nat \<Rightarrow> BusTurn) \<Rightarrow> IRMClient \<Rightarrow> BandwidthLockState \<Rightarrow> IRMWorld \<Rightarrow> AllocationStatus \<times> IRMWorld" where
  "StartBandwidthLock env c ctx w =
     (case bandwidth_step env c ctx w of
        (Finished status, w) \<Rightarrow> (status, w)
      | (Restart ctx, w) \<Rightarrow> StartBandwidthLock env c ctx w)"
  by pat_completeness auto
termination
  by (relation "measure (\<lambda>(env, c, ctx, w). bandwidth_budget ctx)") (auto dest!: bandwidth_step_budget [OF sym])

declare StartChannelLock.simps [simp del] StartBandwidthLock.simps [simp del]

section \<open>Allocation and release\<close>

definition PerformChannelLock ::
  "(nat \<Rightarrow> BusTurn) \<Rightarrow> IRMClient \<Rightarrow> u8 \<Rightarrow> bool \<Rightarrow> RetryPolicy \<Rightarrow> IRMWorld \<Rightarrow> AllocationStatus \<times> IRMWorld" where
  "PerformChannelLock env c channel allocate policy w =
     StartChannelLock env c \<lparr>cl_channel = channel, cl_addressLo = ChannelToRegisterAddress channel,
       cl_bitMask = ChannelToBitMask channel, cl_allocate = allocate, cl_retriesLeft = rp_maxRetries policy,
       cl_timeoutRetriesLeft = rp_maxTimeoutRetries policy\<rparr> w"

definition PerformBandwidthLock ::
  "(nat \<Rightarrow> BusTurn) \<Rightarrow> IRMClient \<Rightarrow> u32 \<Rightarrow> bool \<Rightarrow> RetryPolicy \<Rightarrow> IRMWorld \<Rightarrow> AllocationStatus \<times> IRMWorld" where
  "PerformBandwidthLock env c units allocate policy w =
     StartBandwidthLock env c \<lparr>bl_units = units, bl_allocate = allocate, bl_retriesLeft = rp_maxRetries policy,
       bl_timeoutRetriesLeft = rp_maxTimeoutRetries policy, bl_unansweredDesired = None\<rparr> w"

definition AllocateChannel ::
  "(nat \<Rightarrow> BusTurn) \<Rightarrow> IRMClient \<Rightarrow> u8 \<Rightarrow> RetryPolicy \<Rightarrow> IRMWorld \<Rightarrow> AllocationStatus \<times> IRMWorld" where
  "AllocateChannel env c channel policy w =
     (if 64 \<le> channel then (AllocFailed, w)
      else if ic_irmNodeId c = 0xFF then (AllocNotFound, w)
      else PerformChannelLock env c channel True policy w)"

definition ReleaseChannel ::
  "(nat \<Rightarrow> BusTurn) \<Rightarrow> IRMClient \<Rightarrow> u8 \<Rightarrow> RetryPolicy \<Rightarrow> IRMWorld \<Rightarrow> AllocationStatus \<times> IRMWorld" where
  "ReleaseChannel env c channel policy w =
     (if 64 \<le> channel then (AllocFailed, w)
      else if ic_irmNodeId c = 0xFF then (AllocNotFound, w)
      else PerformChannelLock env c channel False policy w)"

definition AllocateBandwidth ::
  "(nat \<Rightarrow> BusTurn) \<Rightarrow> IRMClient \<Rightarrow> u32 \<Rightarrow> RetryPolicy \<Rightarrow> IRMWorld \<Rightarrow> AllocationStatus \<times> IRMWorld" where
  "AllocateBandwidth env c units policy w =
     (if units = 0 then (AllocSuccess, w)
      else if ic_irmNodeId c = 0xFF then (AllocNotFound, w)
      else PerformBandwidthLock env c units True policy w)"

definition ReleaseBandwidth ::
  "(nat \<Rightarrow> BusTurn) \<Rightarrow> IRMClient \<Rightarrow> u32 \<Rightarrow> RetryPolicy \<Rightarrow> IRMWorld \<Rightarrow> AllocationStatus \<times> IRMWorld" where
  "ReleaseBandwidth env c units policy w =
     (if units = 0 then (AllocSuccess, w)
      else if ic_irmNodeId c = 0xFF then (AllocNotFound, w)
      else PerformBandwidthLock env c units False policy w)"

definition DelayForPostResetQuietPeriod :: "u64 \<Rightarrow> IRMClient \<Rightarrow> IRMWorld \<Rightarrow> IRMWorld" where
  "DelayForPostResetQuietPeriod nowNs c w =
     (if ic_lastBusResetNs c = 0 \<or> nowNs \<le> ic_lastBusResetNs c then w
      else
        let elapsedNs = nowNs - ic_lastBusResetNs c in
        if 1000000000 \<le> elapsedNs then w
        else w\<lparr>iw_slept := iw_slept w @ [(1000000000 - elapsedNs + 999999) div 1000000]\<rparr>)"

definition AllocateResources ::
  "(nat \<Rightarrow> BusTurn) \<Rightarrow> u64 \<Rightarrow> IRMClient \<Rightarrow> u8 \<Rightarrow> u32 \<Rightarrow> RetryPolicy \<Rightarrow> IRMWorld \<Rightarrow> AllocationStatus \<times> IRMWorld" where
  "AllocateResources env nowNs c channel bandwidthUnits policy w =
     (if 64 \<le> channel then (AllocFailed, w)
      else if ic_irmNodeId c = 0xFF then (AllocNotFound, w)
      else
        let w = DelayForPostResetQuietPeriod nowNs c w;
            (channelStatus, w) = AllocateChannel env c channel policy w
        in if channelStatus \<noteq> AllocSuccess then (channelStatus, w)
           else
             let (bandwidthStatus, w) = AllocateBandwidth env c bandwidthUnits policy w in
             if bandwidthStatus = AllocSuccess then (AllocSuccess, w)
             else if bandwidthStatus = GenerationMismatch then (bandwidthStatus, w)
             else
               let (releaseStatus, w) = ReleaseChannel env c channel policy w in (bandwidthStatus, w))"

definition irm_ReleaseResources ::
  "(nat \<Rightarrow> BusTurn) \<Rightarrow> IRMClient \<Rightarrow> u8 \<Rightarrow> u32 \<Rightarrow> RetryPolicy \<Rightarrow> IRMWorld \<Rightarrow> AllocationStatus \<times> IRMWorld" where
  "irm_ReleaseResources env c channel bandwidthUnits policy w =
     (let (bandwidthStatus, w) = ReleaseBandwidth env c bandwidthUnits policy w in
      if bandwidthStatus = GenerationMismatch then (bandwidthStatus, w)
      else
        let (channelStatus, w) = ReleaseChannel env c channel policy w
        in (if bandwidthStatus = AllocSuccess then channelStatus else bandwidthStatus, w))"

end
