(* ===== verification/IRM_Client_Properties.thy ===== *)
theory IRM_Client_Properties
  imports IRM_Client
begin

text \<open>
  What the resource manager's client guarantees against any behaviour of the other nodes and of the bus. Both lock
  loops are instances of the locale \<open>retry_loop\<close>: a step that ends or starts over with a smaller budget.
\<close>

section \<open>One request\<close>

lemma payload_quadlet_payload [simp]: "payload_quadlet (quadlet_payload w) = w"
  by (rule u32_eqI) (simp add: payload_quadlet_def quadlet_payload_def upt_32 bit_simps)

lemma bus_request_cases:
  "bus_request Answered v = (AllocSuccess, v)"
  "bus_request (Unanswered st ex) v = (if st = kSuccess then AllocFailed else MapAsyncStatus st, 0)"
  by (cases st; simp add: bus_request_def on_response_def MapAsyncStatus_def Let_def quadlet_payload_def
      payload_quadlet_payload [unfolded quadlet_payload_def])+

lemma bus_request_success: "bus_request r v = (AllocSuccess, x) \<Longrightarrow> r = Answered \<and> x = v"
  by (cases r; auto simp: bus_request_cases MapAsyncStatus_def split: if_splits AsyncStatus.splits)

lemma SelectorAddress_of: "LocalIRMSelectorForAddress a = Some sel \<Longrightarrow> SelectorAddress sel = a"
  by (auto simp: LocalIRMSelectorForAddress_def SelectorAddress_def split: if_splits)

lemma compare_swap_same [simp]: "compare_swap a x x l = l"
  by (auto simp: compare_swap_def)

text \<open>A read, even through the local engine that only knows compare-swaps, leaves the ledger alone.\<close>

lemma ReadLocal_ledger: "ReadLocalIRMResource la sel l = (st, v, l') \<Longrightarrow> l' = l"
  by (auto simp: ReadLocalIRMResource_def csr_control_def Let_def split: if_splits)

lemma Read_world:
  "ReadIRMQuadlet env c a w = (st, v, w') \<Longrightarrow> iw_swaps w' = iw_swaps w \<and> iw_requests w' = Suc (iw_requests w)
     \<and> iw_slept w' = iw_slept w \<and> iw_ledger w' = bt_others (env (iw_requests w)) (iw_ledger w)"
  by (auto simp: ReadIRMQuadlet_def next_turn_def Let_def dest: ReadLocal_ledger split: prod.splits option.splits if_splits)

lemma poll_unfinished: "csr_control la sel e d l = (st, old, l') \<Longrightarrow> st = LocalSuccess \<Longrightarrow>
    csr_executes la \<and> old = l (SelectorAddress sel) \<and> l' = compare_swap (SelectorAddress sel) e d l"
  by (auto simp: csr_control_def csr_executes_def Let_def split: if_splits)

text \<open>
  A turn is honest when no request is executed without being answered: neither the bus nor the local engine
  loses an answer.
\<close>

definition honest :: "BusTurn \<Rightarrow> bool" where
  "honest t \<longleftrightarrow> (executed (bt_reply t) \<longrightarrow> bt_reply t = Answered)
     \<and> (csr_executes (bt_local t) \<longrightarrow> poll_done (take kMaxTries (la_polls (bt_local t))) = LocalSuccess)"

lemma CompareSwap_requests:
  "CompareSwapIRMQuadlet env c a e d w = (st, old, w') \<Longrightarrow> iw_requests w' = Suc (iw_requests w) \<and> iw_slept w' = iw_slept w"
  by (auto simp: CompareSwapIRMQuadlet_def next_turn_def note_swap_def Let_def split: prod.splits option.splits if_splits)

lemma CompareSwap_swaps:
  "CompareSwapIRMQuadlet env c a e d w = (st, old, w') \<Longrightarrow>
     iw_swaps w' = iw_swaps w \<or> iw_swaps w' = iw_swaps w @ [(a, e, d)]"
  by (auto simp: CompareSwapIRMQuadlet_def next_turn_def note_swap_def Let_def split: prod.splits option.splits if_splits)

lemma MapLocal_success [simp]: "MapLocalCSRStatus st = AllocSuccess \<longleftrightarrow> st = LocalSuccess"
  by (cases st) (simp_all add: MapLocalCSRStatus_def)

lemma CompareSwap_success:
  assumes "CompareSwapIRMQuadlet env c a e d w = (st, old, w')" and "st = AllocSuccess"
  shows "iw_swaps w' = iw_swaps w @ (if old = e then [(a, e, d)] else [])"
  using assms SelectorAddress_of [of a]
  by (auto simp: CompareSwapIRMQuadlet_def next_turn_def note_swap_def Let_def executed_def
        CompareSwapLocalIRMResource_def
      dest!: bus_request_success poll_unfinished split: prod.splits option.splits if_splits)

lemma CompareSwap_honest:
  assumes "CompareSwapIRMQuadlet env c a e d w = (st, old, w')" and "honest (env (iw_requests w))" and "st \<noteq> AllocSuccess"
  shows "iw_swaps w' = iw_swaps w"
  using assms
  by (auto simp: CompareSwapIRMQuadlet_def next_turn_def note_swap_def Let_def honest_def bus_request_cases
        CompareSwapLocalIRMResource_def csr_control_def csr_executes_def executed_def
      split: prod.splits option.splits if_splits)

section \<open>Loops with a budget\<close>

text \<open>
  What a step adds to the record of swaps: at most one, of the kind \<open>ok\<close>; none if it does not end with success and
  no answer is lost; and one if it ends with success, where success is \<open>sure\<close> to mean one.
\<close>

definition step_effect ::
  "(u32 \<times> u32 \<times> u32 \<Rightarrow> bool) \<Rightarrow> bool \<Rightarrow> bool \<Rightarrow> 'c LockStep \<Rightarrow> IRMWorld \<Rightarrow> IRMWorld \<Rightarrow> bool" where
  "step_effect ok sure lossless r w w' \<longleftrightarrow> (\<exists>new. iw_swaps w' = iw_swaps w @ new \<and> list_all ok new \<and> length new \<le> 1
     \<and> (lossless \<longrightarrow> r \<noteq> Finished AllocSuccess \<longrightarrow> new = []) \<and> (sure \<longrightarrow> r = Finished AllocSuccess \<longrightarrow> new \<noteq> []))"

definition lock_effect ::
  "(u32 \<times> u32 \<times> u32 \<Rightarrow> bool) \<Rightarrow> bool \<Rightarrow> bool \<Rightarrow> AllocationStatus \<Rightarrow> IRMWorld \<Rightarrow> IRMWorld \<Rightarrow> bool" where
  "lock_effect ok sure lossless s w w' \<longleftrightarrow> (\<exists>new. iw_swaps w' = iw_swaps w @ new \<and> list_all ok new
     \<and> (lossless \<longrightarrow> length new \<le> 1 \<and> (s \<noteq> AllocSuccess \<longrightarrow> new = [])) \<and> (sure \<longrightarrow> s = AllocSuccess \<longrightarrow> new \<noteq> []))"

locale retry_loop =
  fixes step :: "'c \<Rightarrow> IRMWorld \<Rightarrow> 'c LockStep \<times> IRMWorld" and budget :: "'c \<Rightarrow> nat"
    and run :: "'c \<Rightarrow> IRMWorld \<Rightarrow> AllocationStatus \<times> IRMWorld"
  assumes run_eq: "run ctx w = (case step ctx w of (Finished s, w') \<Rightarrow> (s, w') | (Restart ctx', w') \<Rightarrow> run ctx' w')"
    and smaller: "step ctx w = (Restart ctx', w') \<Longrightarrow> budget ctx' < budget ctx"
    and requests: "step ctx w = (r, w') \<Longrightarrow> iw_requests w' \<le> iw_requests w + 2"
begin

lemma run_rule:
  assumes "run ctx w = (s, w')" and "P ctx w"
    and "\<And>ctx w ctx' w'. P ctx w \<Longrightarrow> step ctx w = (Restart ctx', w') \<Longrightarrow> P ctx' w'"
    and "\<And>ctx w s w'. P ctx w \<Longrightarrow> step ctx w = (Finished s, w') \<Longrightarrow> Q s w'"
  shows "Q s w'"
  using assms(1,2)
proof (induction "budget ctx" arbitrary: ctx w rule: less_induct)
  case less
  obtain r w1 where st: "step ctx w = (r, w1)" by (meson surj_pair)
  show ?case
  proof (cases r)
    case (Finished s1)
    with less.prems st assms(4) show ?thesis by (simp add: run_eq [of ctx w])
  next
    case (Restart ctx1)
    with st less.prems have "run ctx1 w1 = (s, w')" "P ctx1 w1"
      using assms(3) by (simp_all add: run_eq [of ctx w])
    with less.hyps st Restart smaller show ?thesis by blast
  qed
qed

lemma run_effect:
  assumes "run ctx w = (s, w')" and "I ctx"
    and step: "\<And>ctx w r w'. I ctx \<Longrightarrow> step ctx w = (r, w') \<Longrightarrow>
      step_effect ok sure lossless r w w' \<and> (\<forall>ctx'. r = Restart ctx' \<longrightarrow> I ctx')"
  shows "lock_effect ok sure lossless s w w'"
proof (rule run_rule [where P = "\<lambda>ctx v. I ctx \<and> (\<exists>new. iw_swaps v = iw_swaps w @ new \<and> list_all ok new
      \<and> (lossless \<longrightarrow> new = []))"
      and Q = "\<lambda>s w'. lock_effect ok sure lossless s w w'", OF assms(1)], goal_cases)
  case (2 ctx v ctx' v')
  with step [of ctx v "Restart ctx'" v'] show ?case by (auto simp: step_effect_def)
next
  case (3 ctx v s v')
  then obtain old where "iw_swaps v = iw_swaps w @ old" "list_all ok old" "lossless \<longrightarrow> old = []" by blast
  moreover from 3 step [of ctx v "Finished s" v'] obtain new where "iw_swaps v' = iw_swaps v @ new"
    "list_all ok new" "length new \<le> 1" "lossless \<longrightarrow> s \<noteq> AllocSuccess \<longrightarrow> new = []"
    "sure \<longrightarrow> s = AllocSuccess \<longrightarrow> new \<noteq> []" by (auto simp: step_effect_def)
  ultimately show ?case unfolding lock_effect_def by (intro exI [of _ "old @ new"]) auto
qed (use assms(2) in simp)

lemma few_requests: "run ctx w = (s, w') \<Longrightarrow> iw_requests w' \<le> iw_requests w + 2 * (budget ctx + 1)"
proof (induction "budget ctx" arbitrary: ctx w rule: less_induct)
  case less
  obtain r w1 where st: "step ctx w = (r, w1)" by (meson surj_pair)
  note n = requests [OF st]
  show ?case
  proof (cases r)
    case (Finished s1)
    with less.prems st n show ?thesis by (simp add: run_eq [of ctx w])
  next
    case (Restart ctx1)
    with st less.prems have "run ctx1 w1 = (s, w')" by (simp add: run_eq [of ctx w])
    moreover have "budget ctx1 < budget ctx" using smaller st Restart by blast
    ultimately show ?thesis using less.hyps [of ctx1 w1] n by simp
  qed
qed

end

interpretation channel_lock: retry_loop "channel_step env c" channel_budget "StartChannelLock env c" for env c
proof
  show "StartChannelLock env c ctx w = (case channel_step env c ctx w of (Finished s, w') \<Rightarrow> (s, w')
      | (Restart ctx', w') \<Rightarrow> StartChannelLock env c ctx' w')" for ctx w by (rule StartChannelLock.simps)
  show "channel_budget ctx' < channel_budget ctx" if "channel_step env c ctx w = (Restart ctx', w')" for ctx w ctx' w'
    using that by (rule channel_step_budget)
  show "iw_requests w' \<le> iw_requests w + 2" if "channel_step env c ctx w = (r, w')" for ctx w r w'
    using that by (auto simp: channel_step_def OnChannelRead_def Let_def dest!: Read_world CompareSwap_requests
        split: prod.splits option.splits if_splits)
qed

interpretation bandwidth_lock: retry_loop "bandwidth_step env c" bandwidth_budget "StartBandwidthLock env c" for env c
proof
  show "StartBandwidthLock env c ctx w = (case bandwidth_step env c ctx w of (Finished s, w') \<Rightarrow> (s, w')
      | (Restart ctx', w') \<Rightarrow> StartBandwidthLock env c ctx' w')" for ctx w by (rule StartBandwidthLock.simps)
  show "bandwidth_budget ctx' < bandwidth_budget ctx" if "bandwidth_step env c ctx w = (Restart ctx', w')" for ctx w ctx' w'
    using that by (rule bandwidth_step_budget)
  show "iw_requests w' \<le> iw_requests w + 2" if "bandwidth_step env c ctx w = (r, w')" for ctx w r w'
    using that by (auto simp: bandwidth_step_def OnBandwidthRead_def Let_def dest!: Read_world CompareSwap_requests
        split: prod.splits option.splits if_splits)
qed

section \<open>What a lock does to the ledger\<close>

definition channel_swap :: "u8 \<Rightarrow> bool \<Rightarrow> u32 \<times> u32 \<times> u32 \<Rightarrow> bool" where
  "channel_swap channel allocate sw \<longleftrightarrow> (case sw of (a, e, d) \<Rightarrow> a = ChannelToRegisterAddress channel \<and>
     (if allocate then e AND ChannelToBitMask channel \<noteq> 0 \<and> d = e AND NOT (ChannelToBitMask channel)
      else d = e OR ChannelToBitMask channel))"

definition bandwidth_swap :: "u32 \<Rightarrow> bool \<Rightarrow> u32 \<times> u32 \<times> u32 \<Rightarrow> bool" where
  "bandwidth_swap units allocate sw \<longleftrightarrow> (case sw of (a, e, d) \<Rightarrow> a = kBandwidthAvailable \<and>
     (if allocate then units \<le> e \<and> d = e - units else d = e + units \<and> d \<le> kMaxBandwidthUnitsS400))"

lemma channel_step_effect:
  assumes "cl_addressLo ctx = ChannelToRegisterAddress channel \<and> cl_bitMask ctx = ChannelToBitMask channel
      \<and> cl_allocate ctx = allocate"
    and "channel_step env c ctx w = (r, w')"
  shows "step_effect (channel_swap channel allocate) True (\<forall>n. honest (env n)) r w w'
    \<and> (\<forall>ctx'. r = Restart ctx' \<longrightarrow> cl_addressLo ctx' = ChannelToRegisterAddress channel
         \<and> cl_bitMask ctx' = ChannelToBitMask channel \<and> cl_allocate ctx' = allocate)"
proof -
  obtain st v w1 where rd: "ReadIRMQuadlet env c (cl_addressLo ctx) w = (st, v, w1)" by (metis prod_cases3)
  let ?new = "if cl_allocate ctx then v AND NOT (cl_bitMask ctx) else v OR cl_bitMask ctx"
  obtain st2 old w2 where cas: "CompareSwapIRMQuadlet env c (cl_addressLo ctx) v ?new w1 = (st2, old, w2)"
    by (metis prod_cases3)
  note C = CompareSwap_swaps [OF cas] CompareSwap_success [OF cas] CompareSwap_honest [OF cas]
  show ?thesis
    using assms rd cas Read_world [OF rd] C
    by (auto simp: channel_step_def OnChannelRead_def OnChannelCompareSwap_def Let_def step_effect_def channel_swap_def
        split: option.splits if_splits)
qed

lemma bandwidth_step_effect:
  assumes "bl_units ctx = units \<and> bl_allocate ctx = allocate" and "bandwidth_step env c ctx w = (r, w')"
  shows "step_effect (bandwidth_swap units allocate) allocate (\<forall>n. honest (env n)) r w w'
    \<and> (\<forall>ctx'. r = Restart ctx' \<longrightarrow> bl_units ctx' = units \<and> bl_allocate ctx' = allocate)"
proof -
  obtain st v w1 where rd: "ReadIRMQuadlet env c kBandwidthAvailable w = (st, v, w1)" by (metis prod_cases3)
  let ?new = "if allocate then v - units else v + units"
  obtain st2 old w2 where cas: "CompareSwapIRMQuadlet env c kBandwidthAvailable v ?new w1 = (st2, old, w2)"
    by (metis prod_cases3)
  note C = CompareSwap_swaps [OF cas] CompareSwap_success [OF cas] CompareSwap_honest [OF cas]
  show ?thesis
    using assms rd cas Read_world [OF rd] C
    by (auto simp: bandwidth_step_def OnBandwidthRead_def OnBandwidthCompareSwap_def Let_def step_effect_def
        bandwidth_swap_def not_less not_le split: option.splits if_splits)
qed

lemma channel_lock_effect:
  assumes "PerformChannelLock env c channel allocate policy w = (s, w')"
  shows "lock_effect (channel_swap channel allocate) True (\<forall>n. honest (env n)) s w w'"
  using assms unfolding PerformChannelLock_def
  by (rule channel_lock.run_effect [where I = "\<lambda>ctx. cl_addressLo ctx = ChannelToRegisterAddress channel
        \<and> cl_bitMask ctx = ChannelToBitMask channel \<and> cl_allocate ctx = allocate"])
     (simp, rule channel_step_effect)

lemma bandwidth_lock_effect:
  assumes "PerformBandwidthLock env c units allocate policy w = (s, w')"
  shows "lock_effect (bandwidth_swap units allocate) allocate (\<forall>n. honest (env n)) s w w'"
  using assms unfolding PerformBandwidthLock_def
  by (rule bandwidth_lock.run_effect [where I = "\<lambda>ctx. bl_units ctx = units \<and> bl_allocate ctx = allocate"])
     (simp, rule bandwidth_step_effect)

section \<open>Properties\<close>

lemma bit_u32_less: "bit (w :: u32) n \<Longrightarrow> n < 32"
  using bit_imp_le_length [of w n] by simp

lemma bit_ChannelToBitMask: "channel < 64 \<Longrightarrow> bit (ChannelToBitMask channel) n \<longleftrightarrow> n = 31 - unat channel mod 32"
proof -
  assume "channel < 64"
  then have "unat channel < 64" by (simp add: word_less_nat_alt)
  moreover have "channel < 32 \<longleftrightarrow> unat channel < 32" by (simp add: word_less_nat_alt)
  moreover have "unat channel mod 32 = unat channel - 32" if "32 \<le> unat channel" "unat channel < 64"
    using that by (simp add: mod_if)
  ultimately show ?thesis by (auto simp: ChannelToBitMask_def bit_simps)
qed

lemma mask_bit: "channel < 64 \<Longrightarrow> e AND ChannelToBitMask channel \<noteq> 0 \<longleftrightarrow> bit e (31 - unat channel mod 32)"
proof
  assume c: "channel < 64" and "e AND ChannelToBitMask channel \<noteq> 0"
  then obtain n where "bit (e AND ChannelToBitMask channel) n" by (metis bit_eqI bit_0_eq bot_apply bot_bool_def)
  with c show "bit e (31 - unat channel mod 32)" by (auto simp: bit_simps bit_ChannelToBitMask)
next
  assume c: "channel < 64" and "bit e (31 - unat channel mod 32)"
  then have "bit (e AND ChannelToBitMask channel) (31 - unat channel mod 32)" by (simp add: bit_simps bit_ChannelToBitMask)
  then show "e AND ChannelToBitMask channel \<noteq> 0" by auto
qed

text \<open>
  C19: a channel is taken only when it is free. Whatever the other nodes do to the ledger at any moment and
  whatever becomes of the requests, each compare-swap of a channel allocation that takes effect finds the
  channel's bit set, clears it, and touches no other bit; a release sets that bit and touches no other.
  Success means that one took effect. If no answer is lost, it was exactly one, and any other
  status means none. The caller is told after at most two requests per try and a bounded number of tries.
\<close>

theorem channel_lock_exact:
  assumes "PerformChannelLock env c channel allocate policy w = (s, w')" and "channel < 64"
  shows "(\<exists>new. iw_swaps w' = iw_swaps w @ new
      \<and> list_all (\<lambda>(a, e, d). a = ChannelToRegisterAddress channel \<and> (allocate \<longrightarrow> bit e (31 - unat channel mod 32))
          \<and> (\<forall>n. bit d n \<longleftrightarrow> (if n = 31 - unat channel mod 32 then \<not> allocate else bit e n))) new
      \<and> (s = AllocSuccess \<longrightarrow> new \<noteq> [])
      \<and> ((\<forall>n. honest (env n)) \<longrightarrow> length new = (if s = AllocSuccess then 1 else 0)))
    \<and> iw_requests w' \<le> iw_requests w + 2 * (unat (rp_maxRetries policy) + unat (rp_maxTimeoutRetries policy) + 1)"
proof (intro conjI)
  have kind: "case sw of (a, e, d) \<Rightarrow> a = ChannelToRegisterAddress channel \<and> (allocate \<longrightarrow> bit e (31 - unat channel mod 32))
      \<and> (\<forall>n. bit d n \<longleftrightarrow> (if n = 31 - unat channel mod 32 then \<not> allocate else bit e n))"
    if "channel_swap channel allocate sw" for sw
    using that assms(2)
    by (cases allocate)
       (auto simp: channel_swap_def mask_bit bit_simps bit_ChannelToBitMask dest: bit_u32_less)
  from channel_lock_effect [OF assms(1)] obtain new where "iw_swaps w' = iw_swaps w @ new"
    "list_all (channel_swap channel allocate) new" "s = AllocSuccess \<longrightarrow> new \<noteq> []"
    "(\<forall>n. honest (env n)) \<longrightarrow> length new \<le> 1 \<and> (s \<noteq> AllocSuccess \<longrightarrow> new = [])"
    by (auto simp: lock_effect_def)
  then show "\<exists>new. iw_swaps w' = iw_swaps w @ new
      \<and> list_all (\<lambda>(a, e, d). a = ChannelToRegisterAddress channel \<and> (allocate \<longrightarrow> bit e (31 - unat channel mod 32))
          \<and> (\<forall>n. bit d n \<longleftrightarrow> (if n = 31 - unat channel mod 32 then \<not> allocate else bit e n))) new
      \<and> (s = AllocSuccess \<longrightarrow> new \<noteq> [])
      \<and> ((\<forall>n. honest (env n)) \<longrightarrow> length new = (if s = AllocSuccess then 1 else 0))"
    using kind by (intro exI [of _ new]) (auto simp: list_all_iff le_Suc_eq)
  show "iw_requests w' \<le> iw_requests w + 2 * (unat (rp_maxRetries policy) + unat (rp_maxTimeoutRetries policy) + 1)"
    using channel_lock.few_requests [OF assms(1) [unfolded PerformChannelLock_def]] by (simp add: channel_budget_def)
qed

text \<open>
  C20: bandwidth is taken only when there is enough, against any behaviour of the other nodes and the bus.
  Each compare-swap of an allocation that takes effect finds at least the units it needs and leaves exactly
  that many fewer; one of a release adds the units and never leaves more than 4915. If no answer is lost, at most
  one takes effect, and none unless the caller is told success; a successful allocation took one.
\<close>

theorem bandwidth_lock_exact:
  assumes "PerformBandwidthLock env c units allocate policy w = (s, w')"
  shows "(\<exists>new. iw_swaps w' = iw_swaps w @ new
      \<and> list_all (\<lambda>(a, e, d). a = kBandwidthAvailable \<and>
          (if allocate then unat units \<le> unat e \<and> unat d = unat e - unat units
           else d = e + units \<and> d \<le> 4915)) new
      \<and> (allocate \<and> s = AllocSuccess \<longrightarrow> new \<noteq> [])
      \<and> ((\<forall>n. honest (env n)) \<longrightarrow> length new \<le> (if s = AllocSuccess then 1 else 0)))
    \<and> iw_requests w' \<le> iw_requests w + 2 * (unat (rp_maxRetries policy) + unat (rp_maxTimeoutRetries policy) + 1)"
proof (intro conjI)
  have kind: "case sw of (a, e, d) \<Rightarrow> a = kBandwidthAvailable \<and>
      (if allocate then unat units \<le> unat e \<and> unat d = unat e - unat units else d = e + units \<and> d \<le> 4915)"
    if "bandwidth_swap units allocate sw" for sw
    using that by (auto simp: bandwidth_swap_def kMaxBandwidthUnitsS400_def word_le_nat_alt unat_sub)
  from bandwidth_lock_effect [OF assms(1)] obtain new where "iw_swaps w' = iw_swaps w @ new"
    "list_all (bandwidth_swap units allocate) new" "allocate \<longrightarrow> s = AllocSuccess \<longrightarrow> new \<noteq> []"
    "(\<forall>n. honest (env n)) \<longrightarrow> length new \<le> 1 \<and> (s \<noteq> AllocSuccess \<longrightarrow> new = [])"
    by (auto simp: lock_effect_def)
  then show "\<exists>new. iw_swaps w' = iw_swaps w @ new
      \<and> list_all (\<lambda>(a, e, d). a = kBandwidthAvailable \<and>
          (if allocate then unat units \<le> unat e \<and> unat d = unat e - unat units
           else d = e + units \<and> d \<le> 4915)) new
      \<and> (allocate \<and> s = AllocSuccess \<longrightarrow> new \<noteq> [])
      \<and> ((\<forall>n. honest (env n)) \<longrightarrow> length new \<le> (if s = AllocSuccess then 1 else 0))"
    using kind by (intro exI [of _ new]) (auto simp: list_all_iff)
  show "iw_requests w' \<le> iw_requests w + 2 * (unat (rp_maxRetries policy) + unat (rp_maxTimeoutRetries policy) + 1)"
    using bandwidth_lock.few_requests [OF assms(1) [unfolded PerformBandwidthLock_def]] by (simp add: bandwidth_budget_def)
qed

lemma two_phase_cases:
  assumes "AllocateResources env now c channel units policy w = (s, w')" and "channel < 64" and "ic_irmNodeId c \<noteq> 0xFF"
  obtains w0 s1 w1 where "iw_swaps w0 = iw_swaps w" and "PerformChannelLock env c channel True policy w0 = (s1, w1)"
    and "s1 \<noteq> AllocSuccess \<Longrightarrow> s = s1 \<and> w' = w1"
    and "s1 = AllocSuccess \<Longrightarrow> \<exists>s2 w2. AllocateBandwidth env c units policy w1 = (s2, w2) \<and> s = s2
      \<and> (if s2 = AllocSuccess \<or> s2 = GenerationMismatch then w' = w2
         else \<exists>s3. PerformChannelLock env c channel False policy w2 = (s3, w'))"
proof -
  let ?w0 = "DelayForPostResetQuietPeriod now c w"
  have "iw_swaps ?w0 = iw_swaps w" by (simp add: DelayForPostResetQuietPeriod_def Let_def)
  moreover obtain s1 w1 where "PerformChannelLock env c channel True policy ?w0 = (s1, w1)" by (meson surj_pair)
  moreover obtain s2 w2 where "AllocateBandwidth env c units policy w1 = (s2, w2)" by (meson surj_pair)
  moreover obtain s3 w3 where "PerformChannelLock env c channel False policy w2 = (s3, w3)" by (meson surj_pair)
  ultimately show thesis
    using assms that [of ?w0 s1 w1]
    by (auto simp: AllocateResources_def AllocateChannel_def ReleaseChannel_def not_le [symmetric] Let_def
        split: if_splits)
qed

text \<open>
  C18: allocation of channel and bandwidth is all or nothing. If no answer is lost, then success means that exactly
  the channel and then exactly the units were taken. On any other status nothing is held, because nothing was
  taken or the channel was given back, unless the bus was reset in between, which frees everything, or
  the release of the channel failed as well.
\<close>

theorem allocate_resources_atomic:
  assumes "AllocateResources env now c channel units policy w = (s, w')" and "channel < 64" and "ic_irmNodeId c \<noteq> 0xFF"
    and "\<forall>n. honest (env n)"
  shows "\<exists>new. iw_swaps w' = iw_swaps w @ new \<and>
    (if s = AllocSuccess
     then list_all2 (\<lambda>ok sw. ok sw) (channel_swap channel True # (if units = 0 then [] else [bandwidth_swap units True])) new
     else new = [] \<or> list_all2 (\<lambda>ok sw. ok sw) [channel_swap channel True, channel_swap channel False] new
       \<or> list_all2 (\<lambda>ok sw. ok sw) [channel_swap channel True] new
         \<and> (s = GenerationMismatch \<or> (\<exists>w2 s3. ReleaseChannel env c channel policy w2 = (s3, w') \<and> s3 \<noteq> AllocSuccess)))"
proof -
  from two_phase_cases [OF assms(1-3)] obtain w0 s1 w1 where w0: "iw_swaps w0 = iw_swaps w"
    and ch: "PerformChannelLock env c channel True policy w0 = (s1, w1)"
    and fail: "s1 \<noteq> AllocSuccess \<Longrightarrow> s = s1 \<and> w' = w1"
    and next1: "s1 = AllocSuccess \<Longrightarrow> \<exists>s2 w2. AllocateBandwidth env c units policy w1 = (s2, w2) \<and> s = s2
      \<and> (if s2 = AllocSuccess \<or> s2 = GenerationMismatch then w' = w2
         else \<exists>s3. PerformChannelLock env c channel False policy w2 = (s3, w'))" by metis
  from channel_lock_effect [OF ch] assms(4) w0 obtain n1 where n1: "iw_swaps w1 = iw_swaps w @ n1"
    "list_all (channel_swap channel True) n1" "length n1 \<le> 1" "s1 = AllocSuccess \<longleftrightarrow> n1 \<noteq> []"
    by (auto simp: lock_effect_def)
  show ?thesis
  proof (cases "s1 = AllocSuccess")
    case False
    with n1 fail show ?thesis by (intro exI [of _ "[]"]) simp
  next
    case True
    then obtain x where x: "n1 = [x]" "channel_swap channel True x" using n1 by (cases n1) auto
    from next1 [OF True] obtain w2 where bw: "AllocateBandwidth env c units policy w1 = (s, w2)"
      and rel: "if s = AllocSuccess \<or> s = GenerationMismatch then w' = w2
         else \<exists>s3. PerformChannelLock env c channel False policy w2 = (s3, w')" by blast
    have "\<exists>n2. iw_swaps w2 = iw_swaps w1 @ n2 \<and> list_all (bandwidth_swap units True) n2
        \<and> length n2 = (if s = AllocSuccess \<and> units \<noteq> 0 then 1 else 0)"
    proof (cases "units = 0")
      case False
      with bw assms(3) have "PerformBandwidthLock env c units True policy w1 = (s, w2)" by (simp add: AllocateBandwidth_def)
      from bandwidth_lock_effect [OF this] assms(4) False show ?thesis by (auto simp: lock_effect_def le_Suc_eq)
    qed (use bw in \<open>simp add: AllocateBandwidth_def\<close>)
    then obtain n2 where n2: "iw_swaps w2 = iw_swaps w1 @ n2" "list_all (bandwidth_swap units True) n2"
      "length n2 = (if s = AllocSuccess \<and> units \<noteq> 0 then 1 else 0)" by blast
    show ?thesis
    proof (cases "s = AllocSuccess \<or> s = GenerationMismatch")
      case True
      with rel n1 n2 x show ?thesis by (intro exI [of _ "n1 @ n2"]) (auto simp: length_Suc_conv split: if_splits)
    next
      case False
      with rel obtain s3 where r: "PerformChannelLock env c channel False policy w2 = (s3, w')" by auto
      then have "ReleaseChannel env c channel policy w2 = (s3, w')" using assms(2,3) by (auto simp: ReleaseChannel_def not_le [symmetric])
      moreover from channel_lock_effect [OF r] assms(4) obtain n3 where n3: "iw_swaps w' = iw_swaps w2 @ n3"
        "list_all (channel_swap channel False) n3" "length n3 \<le> 1" "s3 = AllocSuccess \<longleftrightarrow> n3 \<noteq> []"
        by (auto simp: lock_effect_def)
      ultimately show ?thesis using False n1 n2 x by (intro exI [of _ "n1 @ n3"]) (auto simp: le_Suc_eq length_Suc_conv)
    qed
  qed
qed

section \<open>A lost answer\<close>

lemma remote_read:
  assumes "\<not> IsLocalIRMNode c (bt_localNodeId (env (iw_requests w)))" and "bt_reply (env (iw_requests w)) = Answered"
  shows "ReadIRMQuadlet env c a w = (AllocSuccess, bt_others (env (iw_requests w)) (iw_ledger w) a,
    w\<lparr>iw_ledger := bt_others (env (iw_requests w)) (iw_ledger w), iw_requests := Suc (iw_requests w)\<rparr>)"
  using assms by (simp add: ReadIRMQuadlet_def next_turn_def bus_request_cases Let_def)

lemma remote_swap:
  assumes "\<not> IsLocalIRMNode c (bt_localNodeId (env (iw_requests w)))" and "executed (bt_reply (env (iw_requests w)))"
    and "bt_others (env (iw_requests w)) (iw_ledger w) = iw_ledger w" and "iw_ledger w a = e"
  shows "CompareSwapIRMQuadlet env c a e d w =
    (if bt_reply (env (iw_requests w)) = Answered then (AllocSuccess, e, w\<lparr>iw_ledger := (iw_ledger w)(a := d),
        iw_requests := Suc (iw_requests w), iw_swaps := iw_swaps w @ [(a, e, d)]\<rparr>)
     else (fst (bus_request (bt_reply (env (iw_requests w))) e), 0, w\<lparr>iw_ledger := (iw_ledger w)(a := d),
        iw_requests := Suc (iw_requests w), iw_swaps := iw_swaps w @ [(a, e, d)]\<rparr>))"
  using assms by (cases "bt_reply (env (iw_requests w))")
    (simp_all add: CompareSwapIRMQuadlet_def next_turn_def bus_request_cases Let_def note_swap_def compare_swap_def executed_def)

text \<open>
  C39: what one lost answer does. The first lock is executed but its answer is lost. A channel allocation then reads
  that the channel is taken, by itself, and reports it as busy: it is held by nobody until the next bus reset. A
  bandwidth release during which another node allocates some units does not recognise its own write
  and credits the units twice.
\<close>

theorem lost_answer:
  assumes "\<forall>n. \<not> IsLocalIRMNode c (bt_localNodeId (env n))" and "bt_reply (env 1) = Unanswered kTimeout True"
    and "\<forall>n. n \<noteq> 1 \<longrightarrow> bt_reply (env n) = Answered"
    and "\<forall>n l. n \<noteq> 2 \<longrightarrow> bt_others (env n) l = l" and "\<forall>l. bt_others (env 2) l = l(kBandwidthAvailable := l kBandwidthAvailable - k)"
    and "iw_requests w = 0" and "rp_maxTimeoutRetries policy \<noteq> 0" and "k \<noteq> 0" and "channel < 64"
    and "iw_ledger w (ChannelToRegisterAddress channel) AND ChannelToBitMask channel \<noteq> 0"
    and "iw_ledger w kBandwidthAvailable + units \<le> 4915" and "iw_ledger w kBandwidthAvailable + units - k + units \<le> 4915"
  shows "(let (s, w') = PerformChannelLock env c channel True policy w
          in s = ChannelBusy \<and> iw_ledger w' (ChannelToRegisterAddress channel) AND ChannelToBitMask channel = 0)
    \<and> (let (s, w') = PerformBandwidthLock env c units False policy w
       in s = AllocSuccess \<and> iw_ledger w' kBandwidthAvailable = iw_ledger w kBandwidthAvailable - k + 2 * units)"
proof -
  have regs: "ChannelToRegisterAddress channel \<noteq> kBandwidthAvailable"
    by (simp add: ChannelToRegisterAddress_def kChannelsAvailable31_0_def kChannelsAvailable63_32_def kBandwidthAvailable_def)
  have less: "\<not> 4915 < iw_ledger w kBandwidthAvailable + units" "\<not> 4915 < iw_ledger w kBandwidthAvailable + units - k + units"
    using assms(11,12) by (simp_all add: not_less)
  have off: "iw_ledger w kBandwidthAvailable + units - k \<noteq> iw_ledger w kBandwidthAvailable + units"
    using assms(8) by simp
  have mask: "(x AND NOT m) AND m = 0" for x m :: u32 by (simp add: bit_eq_iff bit_simps)
  have turns: "bt_reply (env 0) = Answered" "bt_reply (env (Suc 0)) = Unanswered kTimeout True"
    "bt_reply (env (Suc (Suc 0))) = Answered" "bt_reply (env (Suc (Suc (Suc 0)))) = Answered"
    "bt_others (env 0) l = l" "bt_others (env (Suc 0)) l = l" "bt_others (env (Suc (Suc (Suc 0)))) l = l"
    "bt_others (env (Suc (Suc 0))) l = l(kBandwidthAvailable := l kBandwidthAvailable - k)" for l
    using assms(2-5) by (simp_all add: numeral_2_eq_2)
  note env = turns assms(1,6-8) remote_read remote_swap executed_def bus_request_cases MapAsyncStatus_def ConsumeTimeoutRetry_def
  have "fst (PerformChannelLock env c channel True policy w) = ChannelBusy \<and>
     iw_ledger (snd (PerformChannelLock env c channel True policy w)) (ChannelToRegisterAddress channel) AND ChannelToBitMask channel = 0"
    using assms(10) regs
    by (simp add: PerformChannelLock_def StartChannelLock.simps channel_step_def OnChannelRead_def Let_def env mask)
  moreover have "fst (PerformBandwidthLock env c units False policy w) = AllocSuccess \<and>
     iw_ledger (snd (PerformBandwidthLock env c units False policy w)) kBandwidthAvailable
       = iw_ledger w kBandwidthAvailable - k + 2 * units"
    using less off
    by (simp add: PerformBandwidthLock_def StartBandwidthLock.simps bandwidth_step_def OnBandwidthRead_def
        OnBandwidthCompareSwap_def Let_def env kMaxBandwidthUnitsS400_def)
  ultimately show ?thesis by (auto simp: Let_def split: prod.splits)
qed

section \<open>Concrete runs\<close>

definition sample_turn :: BusTurn where
  "sample_turn = \<lparr>bt_others = (\<lambda>l. l), bt_generation = 3, bt_localNodeId = 0, bt_reply = Answered,
     bt_local = \<lparr>la_available = True, la_access = True, la_polls = [PollPending, PollDone], la_executes = False\<rparr>\<rparr>"

definition sample_client :: "u8 \<Rightarrow> IRMClient" where
  "sample_client irm = \<lparr>ic_irmNodeId = irm, ic_generation = 3, ic_lastBusResetNs = 0, ic_localRead = True, ic_localCompareSwap = True\<rparr>"

definition sample_world :: IRMWorld where
  "sample_world = \<lparr>iw_ledger = (\<lambda>a. if a = kBandwidthAvailable then 4000 else 0xFFFFFFFE), iw_requests = 0,
     iw_swaps = [], iw_slept = []\<rparr>"

definition losing_env :: "nat \<Rightarrow> BusTurn" where
  "losing_env n = (if n = 1 then sample_turn\<lparr>bt_reply := Unanswered kTimeout True\<rparr>
     else if n = 2 then sample_turn\<lparr>bt_others := (\<lambda>l. l(kBandwidthAvailable := l kBandwidthAvailable - 7))\<rparr> else sample_turn)"

lemmas sample_simps = sample_turn_def sample_client_def sample_world_def kBandwidthAvailable_def kChannelsAvailable31_0_def
  kChannelsAvailable63_32_def kBusManagerIdAddress_def ChannelToRegisterAddress_def ChannelToBitMask_def RetryPolicy_Default_def

lemmas run_simps = sample_simps PerformChannelLock_def PerformBandwidthLock_def StartChannelLock.simps StartBandwidthLock.simps
  channel_step_def OnChannelRead_def OnChannelCompareSwap_def bandwidth_step_def OnBandwidthRead_def OnBandwidthCompareSwap_def
  ReadIRMQuadlet_def CompareSwapIRMQuadlet_def next_turn_def Let_def IsLocalIRMNode_def LocalIRMSelectorForAddress_def
  ReadLocalIRMResource_def CompareSwapLocalIRMResource_def csr_control_def csr_executes_def kMaxTries_def SelectorAddress_def
  compare_swap_def note_swap_def MapLocalCSRStatus_def bus_request_cases executed_def

lemma honest_sample: "honest sample_turn"
  by (simp add: honest_def sample_turn_def kMaxTries_def)

theorem channel_lock_exact_witness:
  "let (s, w') = PerformChannelLock (\<lambda>n. sample_turn) (sample_client 0) 5 True RetryPolicy_Default sample_world
   in s = AllocSuccess \<and> (\<exists>e d. iw_swaps w' = [(kChannelsAvailable31_0, e, d)] \<and> bit e 26 \<and> \<not> bit d 26)"
proof -
  obtain s w' where r: "PerformChannelLock (\<lambda>n. sample_turn) (sample_client 0) 5 True RetryPolicy_Default sample_world = (s, w')"
    by (meson surj_pair)
  then have "s = AllocSuccess" by (simp add: run_simps)
  then show ?thesis
    using channel_lock_exact [OF r] honest_sample r
    by (auto simp: length_Suc_conv sample_world_def ChannelToRegisterAddress_def)
qed

theorem bandwidth_lock_exact_witness:
  "let (s, w') = PerformBandwidthLock (\<lambda>n. sample_turn) (sample_client 5) 100 True RetryPolicy_Default sample_world
   in s = AllocSuccess \<and> (\<exists>e d. iw_swaps w' = [(kBandwidthAvailable, e, d)] \<and> unat d = unat e - 100)"
proof -
  obtain s w' where r: "PerformBandwidthLock (\<lambda>n. sample_turn) (sample_client 5) 100 True RetryPolicy_Default sample_world = (s, w')"
    by (meson surj_pair)
  then have "s = AllocSuccess" by (simp add: run_simps)
  then show ?thesis
    using bandwidth_lock_exact [OF r] honest_sample r by (auto simp: le_Suc_eq length_Suc_conv sample_world_def)
qed

theorem allocate_resources_atomic_witness:
  "let (s, w') = AllocateResources (\<lambda>n. sample_turn) 9 (sample_client 5) 5 5000 RetryPolicy_Default sample_world
   in s = BandwidthShort \<and> (iw_swaps w' = [] \<or> length (iw_swaps w') \<le> 2)"
proof -
  obtain s w' where r: "AllocateResources (\<lambda>n. sample_turn) 9 (sample_client 5) 5 5000 RetryPolicy_Default sample_world = (s, w')"
    by (meson surj_pair)
  then have "s = BandwidthShort"
    by (simp add: AllocateResources_def AllocateChannel_def AllocateBandwidth_def DelayForPostResetQuietPeriod_def run_simps
        split: prod.splits)
  then show ?thesis
    using allocate_resources_atomic [OF r] honest_sample r
    by (auto simp: sample_client_def sample_world_def dest!: list_all2_lengthD)
qed

theorem lost_answer_witness:
  "fst (PerformChannelLock losing_env (sample_client 5) 5 True RetryPolicy_Default sample_world) = ChannelBusy
   \<and> iw_ledger (snd (PerformBandwidthLock losing_env (sample_client 5) 100 False RetryPolicy_Default sample_world)) kBandwidthAvailable = 4193"
proof -
  have "\<forall>n. \<not> IsLocalIRMNode (sample_client 5) (bt_localNodeId (losing_env n))"
    by (simp add: losing_env_def sample_turn_def sample_client_def IsLocalIRMNode_def)
  moreover have "bt_reply (losing_env 1) = Unanswered kTimeout True" "\<forall>n. n \<noteq> 1 \<longrightarrow> bt_reply (losing_env n) = Answered"
    "\<forall>n l. n \<noteq> 2 \<longrightarrow> bt_others (losing_env n) l = l"
    "\<forall>l. bt_others (losing_env 2) l = l(kBandwidthAvailable := l kBandwidthAvailable - 7)"
    by (simp_all add: losing_env_def sample_turn_def)
  ultimately show ?thesis
    using lost_answer [of "sample_client 5" losing_env 7 sample_world RetryPolicy_Default 5 100]
    by (simp add: sample_simps split: prod.splits)
qed

end
