(* ===== verification/IRM_Manager.thy ===== *)
theory IRM_Manager
  imports IRM_Client "HOL-Library.Multiset"
begin

text \<open>
  The allocation manager (\<^verbatim>\<open>Bus/IRM/IRMAllocationManager.cpp\<close>), which keeps one allocation of channel and bandwidth
  across bus resets. Its calls of the client are asynchronous: a call is pending with the continuation that the code
  passes as a lambda, and completes later with a status. The lists \<open>sy_held\<close> and \<open>sy_failed\<close> are no members of the
  class: they record what the resource manager has reserved for it in the current generation, and for which of
  these a release was refused.
\<close>

section \<open>The manager and its calls\<close>

datatype MgrCont = UpdateAllocationState u8 u32 | ThenAllocate u8 u32 | ForwardStatus | AfterReallocation u32 u8 u32

record ClientCall =
  cc_allocate :: bool
  cc_channel :: u8
  cc_units :: u32
  cc_cont :: MgrCont
  cc_generation :: u32

record IRMAllocationManager =
  am_isAllocated :: bool
  am_channel :: u8
  am_bandwidthUnits :: u32
  am_allocationGeneration :: u32
  am_hasLostCallback :: bool

record MgrSystem =
  sy_mgr :: IRMAllocationManager
  sy_pending :: "ClientCall list"
  sy_told :: "AllocationStatus list"
  sy_lost :: "(u8 \<times> u32) list"
  sy_generation :: u32
  sy_held :: "(u8 \<times> u32) list"
  sy_failed :: "(u8 \<times> u32) list"

definition no_allocation :: "IRMAllocationManager \<Rightarrow> IRMAllocationManager" where
  "no_allocation m = m\<lparr>am_isAllocated := False, am_channel := 0xFF, am_bandwidthUnits := 0, am_allocationGeneration := 0\<rparr>"

definition MgrSystem0 :: "bool \<Rightarrow> u32 \<Rightarrow> MgrSystem" where
  "MgrSystem0 hasLost g = \<lparr>sy_mgr = \<lparr>am_isAllocated = False, am_channel = 0xFF, am_bandwidthUnits = 0,
     am_allocationGeneration = 0, am_hasLostCallback = hasLost\<rparr>, sy_pending = [], sy_told = [], sy_lost = [],
     sy_generation = g, sy_held = [], sy_failed = []\<rparr>"

definition SetAllocationLostCallback :: "bool \<Rightarrow> MgrSystem \<Rightarrow> MgrSystem" where
  "SetAllocationLostCallback has s = s\<lparr>sy_mgr := (sy_mgr s)\<lparr>am_hasLostCallback := has\<rparr>\<rparr>"

definition client_call :: "bool \<Rightarrow> u8 \<Rightarrow> u32 \<Rightarrow> MgrCont \<Rightarrow> MgrSystem \<Rightarrow> MgrSystem" where
  "client_call allocate channel units k s = s\<lparr>sy_pending := sy_pending s @ [\<lparr>cc_allocate = allocate,
     cc_channel = channel, cc_units = units, cc_cont = k, cc_generation = sy_generation s\<rparr>]\<rparr>"

definition tell :: "AllocationStatus \<Rightarrow> MgrSystem \<Rightarrow> MgrSystem" where
  "tell status s = s\<lparr>sy_told := sy_told s @ [status]\<rparr>"

definition am_Release :: "MgrCont \<Rightarrow> MgrSystem \<Rightarrow> MgrSystem" where
  "am_Release k s =
     (let m = sy_mgr s in
      if \<not> am_isAllocated m then tell AllocSuccess s
      else client_call False (am_channel m) (am_bandwidthUnits m) k (s\<lparr>sy_mgr := no_allocation m\<rparr>))"

definition am_Allocate :: "u8 \<Rightarrow> u32 \<Rightarrow> MgrSystem \<Rightarrow> MgrSystem" where
  "am_Allocate channel units s =
     (if am_isAllocated (sy_mgr s) then am_Release (ThenAllocate channel units) s
      else client_call True channel units (UpdateAllocationState channel units) s)"

definition AttemptReallocation :: "u32 \<Rightarrow> MgrSystem \<Rightarrow> MgrSystem" where
  "AttemptReallocation newGeneration s =
     (let m = sy_mgr s in
      if \<not> am_isAllocated m then s
      else client_call True (am_channel m) (am_bandwidthUnits m)
             (AfterReallocation newGeneration (am_channel m) (am_bandwidthUnits m)) s)"

definition am_OnBusReset :: "u32 \<Rightarrow> MgrSystem \<Rightarrow> MgrSystem" where
  "am_OnBusReset newGeneration s =
     (if \<not> am_isAllocated (sy_mgr s) then s
      else if am_allocationGeneration (sy_mgr s) = newGeneration then s
      else AttemptReallocation newGeneration s)"

definition OnReallocationFailed :: "MgrSystem \<Rightarrow> MgrSystem" where
  "OnReallocationFailed s =
     (let m = sy_mgr s;
          s = s\<lparr>sy_mgr := no_allocation m\<rparr>
      in if am_hasLostCallback m then s\<lparr>sy_lost := sy_lost s @ [(am_channel m, am_bandwidthUnits m)]\<rparr> else s)"

fun continue :: "MgrCont \<Rightarrow> AllocationStatus \<Rightarrow> MgrSystem \<Rightarrow> MgrSystem" where
  "continue (UpdateAllocationState channel units) status s =
     tell status (if status = AllocSuccess
       then s\<lparr>sy_mgr := (sy_mgr s)\<lparr>am_isAllocated := True, am_channel := channel, am_bandwidthUnits := units,
                am_allocationGeneration := sy_generation s\<rparr>\<rparr>
       else s)"
| "continue (ThenAllocate channel units) status s =
     client_call True channel units (UpdateAllocationState channel units) s"
| "continue ForwardStatus status s = tell status s"
| "continue (AfterReallocation newGeneration channel units) status s =
     (if status = AllocSuccess then s\<lparr>sy_mgr := (sy_mgr s)\<lparr>am_allocationGeneration := newGeneration\<rparr>\<rparr>
      else if status = GenerationMismatch then s
      else OnReallocationFailed s)"

text \<open>The resource manager's side of a completed call, and the bus reset, after which it holds nothing.\<close>

definition ledger_effect :: "ClientCall \<Rightarrow> AllocationStatus \<Rightarrow> MgrSystem \<Rightarrow> MgrSystem" where
  "ledger_effect c status s =
     (let r = (cc_channel c, cc_units c) in
      if cc_generation c \<noteq> sy_generation s then s
      else if cc_allocate c then (if status = AllocSuccess then s\<lparr>sy_held := sy_held s @ [r]\<rparr> else s)
      else if status = AllocSuccess then s\<lparr>sy_held := remove1 r (sy_held s)\<rparr>
      else s\<lparr>sy_failed := sy_failed s @ [r]\<rparr>)"

definition complete :: "nat \<Rightarrow> AllocationStatus \<Rightarrow> MgrSystem \<Rightarrow> MgrSystem" where
  "complete i status s =
     (let c = sy_pending s ! i
      in continue (cc_cont c) status
           (ledger_effect c status (s\<lparr>sy_pending := take i (sy_pending s) @ drop (Suc i) (sy_pending s)\<rparr>)))"

definition bus_reset :: "u32 \<Rightarrow> MgrSystem \<Rightarrow> MgrSystem" where
  "bus_reset newGeneration s =
     am_OnBusReset newGeneration (s\<lparr>sy_generation := newGeneration, sy_held := [], sy_failed := []\<rparr>)"

section \<open>Runs of a client that waits for its calls\<close>

text \<open>
  A caller starts an operation only when no call is pending; bus resets come at any time, with growing
  generations; a call completes with \<open>GenerationMismatch\<close> if a reset has overtaken it, and otherwise with any other
  status.
\<close>

inductive mgr_step :: "MgrSystem \<Rightarrow> MgrSystem \<Rightarrow> bool" where
  allocate: "sy_pending s = [] \<Longrightarrow> mgr_step s (am_Allocate channel units s)"
| release: "sy_pending s = [] \<Longrightarrow> mgr_step s (am_Release ForwardStatus s)"
| reset: "sy_generation s < g \<Longrightarrow> mgr_step s (bus_reset g s)"
| completion: "i < length (sy_pending s) \<Longrightarrow>
    cc_generation (sy_pending s ! i) \<noteq> sy_generation s \<longleftrightarrow> status = GenerationMismatch \<Longrightarrow> mgr_step s (complete i status s)"

inductive mgr_reachable :: "MgrSystem \<Rightarrow> bool" where
  start: "mgr_reachable (MgrSystem0 hasLost g)"
| step: "mgr_reachable s \<Longrightarrow> mgr_step s s' \<Longrightarrow> mgr_reachable s'"

definition live :: "u32 \<Rightarrow> ClientCall \<Rightarrow> bool" where
  "live g c \<longleftrightarrow> cc_generation c = g \<or> (case cc_cont c of ThenAllocate _ _ \<Rightarrow> True | _ \<Rightarrow> False)"

definition call_ok :: "u32 \<Rightarrow> IRMAllocationManager \<Rightarrow> ClientCall \<Rightarrow> bool" where
  "call_ok g m c \<longleftrightarrow> cc_generation c \<le> g \<and> (live g c \<longrightarrow> (case cc_cont c of
     UpdateAllocationState ch u \<Rightarrow> cc_allocate c \<and> cc_channel c = ch \<and> cc_units c = u \<and> \<not> am_isAllocated m
   | ThenAllocate ch u \<Rightarrow> \<not> cc_allocate c \<and> \<not> am_isAllocated m
   | ForwardStatus \<Rightarrow> \<not> cc_allocate c \<and> \<not> am_isAllocated m
   | AfterReallocation g' ch u \<Rightarrow> cc_allocate c \<and> g' = g \<and> cc_channel c = ch \<and> cc_units c = u
       \<and> am_isAllocated m \<and> am_channel m = ch \<and> am_bandwidthUnits m = u \<and> am_allocationGeneration m \<noteq> g))"

definition releasing :: "MgrSystem \<Rightarrow> (u8 \<times> u32) list" where
  "releasing s = map (\<lambda>c. (cc_channel c, cc_units c))
     (filter (\<lambda>c. cc_generation c = sy_generation s \<and> \<not> cc_allocate c) (sy_pending s))"

definition recorded :: "MgrSystem \<Rightarrow> (u8 \<times> u32) list" where
  "recorded s = (let m = sy_mgr s in
     if am_isAllocated m \<and> am_allocationGeneration m = sy_generation s then [(am_channel m, am_bandwidthUnits m)] else [])"

definition mgr_inv :: "MgrSystem \<Rightarrow> bool" where
  "mgr_inv s \<longleftrightarrow> list_all (call_ok (sy_generation s) (sy_mgr s)) (sy_pending s)
     \<and> length (filter (live (sy_generation s)) (sy_pending s)) \<le> 1
     \<and> (am_isAllocated (sy_mgr s) \<longrightarrow> am_allocationGeneration (sy_mgr s) \<le> sy_generation s)
     \<and> (am_isAllocated (sy_mgr s) \<longrightarrow> am_allocationGeneration (sy_mgr s) = sy_generation s
          \<or> list_ex (live (sy_generation s)) (sy_pending s))
     \<and> mset (sy_held s) = mset (sy_failed s) + mset (releasing s) + mset (recorded s)"

lemmas mgr_defs = am_Allocate_def am_Release_def client_call_def tell_def no_allocation_def am_OnBusReset_def
  AttemptReallocation_def OnReallocationFailed_def Let_def

lemma mgr_inv_start: "mgr_inv (MgrSystem0 hasLost g)"
  by (simp add: mgr_inv_def MgrSystem0_def releasing_def recorded_def)

lemma mgr_inv_user:
  assumes "mgr_inv s" and "sy_pending s = []"
  shows "mgr_inv (am_Allocate channel units s)" and "mgr_inv (am_Release ForwardStatus s)"
  using assms
  by (auto simp: mgr_inv_def mgr_defs releasing_def recorded_def call_ok_def live_def split: if_splits)

lemma mgr_inv_reset:
  assumes "mgr_inv s" and "sy_generation s < g"
  shows "mgr_inv (bus_reset g s)"
proof -
  let ?m = "sy_mgr s" and ?ps = "sy_pending s"
  have stale: "cc_generation c < g" if "c \<in> set ?ps" for c
    using assms that by (fastforce simp: mgr_inv_def list_all_iff call_ok_def)
  have dead: "live (sy_generation s) c \<and> \<not> am_isAllocated ?m" if "c \<in> set ?ps" "live g c" for c
  proof -
    have "call_ok (sy_generation s) ?m c" using assms(1) that(1) by (auto simp: mgr_inv_def list_all_iff)
    with stale [OF that(1)] that(2) show ?thesis by (cases "cc_cont c") (auto simp: live_def call_ok_def)
  qed
  have one: "length (filter (live g) ?ps) \<le> 1"
  proof -
    have "filter (live g) ?ps = filter (live g) (filter (live (sy_generation s)) ?ps)" using dead by (auto intro: filter_cong)
    then have "length (filter (live g) ?ps) \<le> length (filter (live (sy_generation s)) ?ps)" by (metis length_filter_le)
    then show ?thesis using assms(1) by (simp add: mgr_inv_def)
  qed
  have none: "filter (live g) ?ps = []" if "am_isAllocated ?m" using dead that by (auto simp: filter_empty_conv)
  have ok: "list_all (call_ok g ?m) ?ps"
  proof -
    have "call_ok g ?m c" if "c \<in> set ?ps" for c
    proof -
      have "call_ok (sy_generation s) ?m c" using assms(1) that by (auto simp: mgr_inv_def list_all_iff)
      with stale [OF that] dead [OF that] show ?thesis by (cases "cc_cont c") (auto simp: live_def call_ok_def)
    qed
    then show ?thesis by (simp add: list_all_iff)
  qed
  have "am_isAllocated ?m \<longrightarrow> am_allocationGeneration ?m < g" using assms by (auto simp: mgr_inv_def)
  moreover have "\<forall>c\<in>set ?ps. cc_generation c \<noteq> g" using stale by auto
  ultimately show ?thesis
    using one none ok
    by (auto simp: mgr_inv_def bus_reset_def mgr_defs releasing_def recorded_def call_ok_def live_def)
qed

text \<open>Taking a live call off the list leaves no live call, and taking a stale one changes nothing else.\<close>

lemma mgr_inv_split:
  assumes "mgr_inv s" and "sy_pending s = xs @ c # ys"
  shows "call_ok (sy_generation s) (sy_mgr s) c" and "list_all (call_ok (sy_generation s) (sy_mgr s)) (xs @ ys)"
    and "live (sy_generation s) c \<Longrightarrow> \<forall>x\<in>set (xs @ ys). \<not> live (sy_generation s) x"
  using assms by (auto simp: mgr_inv_def filter_empty_conv)

lemma call_ok_dead: "call_ok g m c \<Longrightarrow> \<not> live g c \<Longrightarrow> call_ok g m' c"
  by (simp add: call_ok_def)

lemma mgr_inv_complete_stale:
  assumes "mgr_inv s" and "sy_pending s = xs @ c # ys" and "cc_generation c \<noteq> sy_generation s"
  shows "mgr_inv (continue (cc_cont c) GenerationMismatch (ledger_effect c GenerationMismatch (s\<lparr>sy_pending := xs @ ys\<rparr>)))"
proof (cases "cc_cont c")
  case (ThenAllocate channel units)
  then have "live (sy_generation s) c" by (simp add: live_def)
  with mgr_inv_split [OF assms(1,2)] have "\<forall>x\<in>set (xs @ ys). \<not> live (sy_generation s) x" "\<not> am_isAllocated (sy_mgr s)"
    using ThenAllocate by (auto simp: call_ok_def)
  with assms mgr_inv_split(2) [OF assms(1,2)] ThenAllocate show ?thesis
    by (auto simp: mgr_inv_def mgr_defs ledger_effect_def releasing_def recorded_def call_ok_def live_def)
qed (use assms in \<open>auto simp: mgr_inv_def mgr_defs ledger_effect_def releasing_def recorded_def live_def\<close>)

lemma mgr_inv_complete_live:
  assumes "mgr_inv s" and "sy_pending s = xs @ c # ys" and "cc_generation c = sy_generation s" and "status \<noteq> GenerationMismatch"
  shows "mgr_inv (continue (cc_cont c) status (ledger_effect c status (s\<lparr>sy_pending := xs @ ys\<rparr>)))"
proof -
  have live: "live (sy_generation s) c" using assms(3) by (simp add: live_def)
  note sp = mgr_inv_split [OF assms(1,2)]
  have dead: "\<forall>x\<in>set xs \<union> set ys. \<not> live (sy_generation s) x" using sp(3) [OF live] by simp
  have ok: "\<And>m. list_all (call_ok (sy_generation s) m) (xs @ ys)"
    using sp(2) dead by (auto simp: list_all_iff intro: call_ok_dead)
  have old: "\<forall>x\<in>set xs \<union> set ys. cc_generation x \<noteq> sy_generation s" using dead by (auto simp: live_def)
  have c: "call_ok (sy_generation s) (sy_mgr s) c" by (rule sp(1))
  have held: "mset (sy_held s) = mset (sy_failed s)
      + (if cc_allocate c then {#} else {#(cc_channel c, cc_units c)#}) + mset (recorded s)"
    using assms(1-3) old by (auto simp: mgr_inv_def releasing_def filter_empty_conv)
  have none: "filter (live (sy_generation s)) xs = []" "filter (live (sy_generation s)) ys = []"
    using dead by (auto simp: filter_empty_conv)
  show ?thesis
    using c live held none old ok assms(1,3,4)
    by (cases "cc_cont c"; cases "status = AllocSuccess")
       (auto simp: mgr_inv_def mgr_defs ledger_effect_def releasing_def recorded_def call_ok_def live_def)
qed

lemma mgr_inv_complete:
  assumes "mgr_inv s" and "i < length (sy_pending s)"
    and "cc_generation (sy_pending s ! i) \<noteq> sy_generation s \<longleftrightarrow> status = GenerationMismatch"
  shows "mgr_inv (complete i status s)"
  using assms mgr_inv_complete_stale [OF assms(1) id_take_nth_drop [OF assms(2)]]
    mgr_inv_complete_live [OF assms(1) id_take_nth_drop [OF assms(2)]]
  by (cases "status = GenerationMismatch") (auto simp: complete_def Let_def)

lemma mgr_inv_reachable: "mgr_reachable s \<Longrightarrow> mgr_inv s"
proof (induction rule: mgr_reachable.induct)
  case (step s s')
  from step(2,3) show ?case
    by (cases rule: mgr_step.cases) (simp_all add: mgr_inv_user mgr_inv_reset mgr_inv_complete)
qed (rule mgr_inv_start)

section \<open>Properties\<close>


text \<open>
  A bus reset that interrupts a reallocation loses the allocation. The transaction layer ends the interrupted
  requests with \<open>kAborted\<close>, which the client reports as a failure and not as a change of generation: the
  manager tells its owner that the allocation is lost and forgets it, while the reallocation it has
  started for the new generation succeeds and stays reserved.
\<close>

lemma interrupted_reallocation:
  assumes "sy_pending s = []" and "am_isAllocated (sy_mgr s)" and "am_hasLostCallback (sy_mgr s)"
    and "am_allocationGeneration (sy_mgr s) < g1" and "g1 < g2"
  shows "let r = (am_channel (sy_mgr s), am_bandwidthUnits (sy_mgr s));
             s' = complete 0 AllocSuccess (complete 0 (MapAsyncStatus (status_of kIOReturnAborted)) (bus_reset g2 (bus_reset g1 s)))
         in sy_held s' = [r] \<and> \<not> am_isAllocated (sy_mgr s') \<and> sy_pending s' = [] \<and> sy_lost s' = sy_lost s @ [r]"
proof -
  have ne: "am_allocationGeneration (sy_mgr s) \<noteq> g1" "am_allocationGeneration (sy_mgr s) \<noteq> g2" "g1 \<noteq> g2" using assms(4,5) by auto
  then show ?thesis
    using assms(1-3)
    by (simp add: bus_reset_def mgr_defs complete_def ledger_effect_def MapAsyncStatus_def status_of_def)
qed


end
