(* ===== verification/BM_Election.thy ===== *)
theory BM_Election
  imports Topology_Manager Post_Reset_Timing Bus_Options IRM_Client
begin

text \<open>
  The election of the bus manager (\<^verbatim>\<open>Bus/BusManager/BusManagerElection.cpp\<close>, \<^verbatim>\<open>BusManagerElectionDriver.cpp\<close>): a node
  that may contend waits for the timing gate of its class and then tries to write its own ID into the
  resource manager's \<open>BUS_MANAGER_ID\<close> register with one compare-swap. What a call reads from its surroundings (the
  clock, the current bus generation, the timing gates, the local CSR engine) is its environment; what it does is a
  trace. Deferred contentions and unanswered compare-swaps are lists, from which the scheduler and the bus
  take in any order.
\<close>

section \<open>The election\<close>

datatype BmOwner = OwnerNone | OwnerLocal | OwnerRemote | OwnerUnknown

datatype DecisionAction = DoNotContend | ContendImmediately | ContendAfterGrace

datatype ElectionOutcome = WonBM | IncumbentReestablished | RemoteBM | ElectionFailed

record BmElectionInputs =
  ei_mode :: RoleMode
  ei_activityLevel :: FullBMActivityLevel
  ei_generation :: u32
  ei_irmId :: "nat option"
  ei_wasIncumbent :: bool
  ei_abdicateObserved :: bool

record BusManagerElection =
  el_owner :: BmOwner
  el_ownerId :: "nat option"
  el_lastElectionGen :: u32
  el_staleAbortCount :: u32
  el_lastOldValue :: u32

definition BusManagerElection0 :: BusManagerElection where
  "BusManagerElection0 = \<lparr>el_owner = OwnerNone, el_ownerId = None, el_lastElectionGen = 0, el_staleAbortCount = 0,
     el_lastOldValue = 0x3F\<rparr>"

definition kNoBusManagerId :: u32 where "kNoBusManagerId = 0x3F"

definition Decide :: "BmElectionInputs \<Rightarrow> BusManagerElection \<Rightarrow> DecisionAction \<times> BusManagerElection" where
  "Decide inputs f =
     (if ei_mode inputs \<noteq> FullBusManager then (DoNotContend, f)
      else if ei_activityLevel inputs < ElectionOnly then (DoNotContend, f)
      else if ei_irmId inputs = None then (DoNotContend, f)
      else
        let f = f\<lparr>el_lastElectionGen := ei_generation inputs\<rparr> in
        if ei_wasIncumbent inputs \<and> \<not> ei_abdicateObserved inputs then (ContendImmediately, f)
        else (ContendAfterGrace, f))"

definition InterpretOldValue :: "u32 \<Rightarrow> nat \<Rightarrow> BusManagerElection \<Rightarrow> ElectionOutcome \<times> BusManagerElection" where
  "InterpretOldValue oldValue localId f =
     (let f = f\<lparr>el_lastOldValue := oldValue\<rparr> in
      if oldValue AND NOT 0x3F \<noteq> 0 then (ElectionFailed, f\<lparr>el_owner := OwnerUnknown, el_ownerId := None\<rparr>)
      else if oldValue = 0x3F then (WonBM, f\<lparr>el_owner := OwnerLocal, el_ownerId := Some localId\<rparr>)
      else if unat oldValue = localId
      then (IncumbentReestablished, f\<lparr>el_owner := OwnerLocal, el_ownerId := Some localId\<rparr>)
      else (RemoteBM, f\<lparr>el_owner := OwnerRemote, el_ownerId := Some (unat (oldValue AND 0x3F))\<rparr>))"

definition el_Reset :: "BusManagerElection \<Rightarrow> BusManagerElection" where
  "el_Reset f = f\<lparr>el_owner := OwnerNone, el_ownerId := None, el_lastOldValue := 0x3F\<rparr>"

section \<open>The driver\<close>

datatype BmEvent =
    BmContend u32 nat BMCandidateClass u64 PostResetTimingState
  | BmWonEvent u32 nat
  | BmRemoteEvent u32 nat
  | BmFailedEvent u32 AsyncStatus
  | BmCancel

record BmTimer =
  btm_delayNs :: u64
  btm_generation :: u32
  btm_localNodeId :: nat
  btm_irmNodeId :: nat
  btm_class :: BMCandidateClass

record BmRequest =
  bq_generation :: u32
  bq_localNodeId :: nat

record BmEnv =
  be_nowNs :: u64
  be_generation16 :: u32
  be_timing :: PostResetTimingState
  be_localStatus :: LocalCSRStatus
  be_localOld :: u32

record YieldTopologyKey =
  yk_localNodeId :: nat
  yk_rootNodeId :: nat
  yk_irmNodeId :: nat
  yk_nodeCount :: nat

record ElectionDeps =
  xd_asyncController :: bool
  xd_scheduler :: bool
  xd_csrResponder :: bool
  xd_localCsr :: bool
  xd_timing :: bool
  xd_monotonicNowNs :: bool

record BusManagerElectionDriver =
  ed_deps :: ElectionDeps
  ed_roleMode :: RoleMode
  ed_activityLevel :: FullBMActivityLevel
  ed_fsm :: BusManagerElection
  ed_observer :: bool
  ed_inFlightHandle :: bool
  ed_wasIncumbent :: bool
  ed_inFlight :: bool
  ed_inFlightGen :: u32
  ed_attemptedGeneration :: u32
  ed_attemptsThisGeneration :: u8
  ed_localNodeId :: nat
  ed_irmNodeId :: nat
  ed_lastElectionPath :: nat
  ed_lastAction :: nat
  ed_active :: bool
  ed_lastLocalBMWinNs :: u64
  ed_stormYieldPending :: bool
  ed_stormYieldActive :: bool
  ed_stormYieldKey :: YieldTopologyKey
  ed_abdicate :: bool
  ed_timers :: "BmTimer list"
  ed_requests :: "BmRequest list"
  ed_trace :: "BmEvent list"

definition BusManagerElectionDriver0 :: "ElectionDeps \<Rightarrow> RoleMode \<Rightarrow> FullBMActivityLevel \<Rightarrow> BusManagerElectionDriver" where
  "BusManagerElectionDriver0 deps mode level = \<lparr>ed_deps = deps, ed_roleMode = mode, ed_activityLevel = level,
     ed_fsm = BusManagerElection0, ed_observer = False, ed_inFlightHandle = False, ed_wasIncumbent = False,
     ed_inFlight = False, ed_inFlightGen = 0, ed_attemptedGeneration = 0, ed_attemptsThisGeneration = 0,
     ed_localNodeId = 0xFF, ed_irmNodeId = 0xFF, ed_lastElectionPath = 0, ed_lastAction = 0, ed_active = True,
     ed_lastLocalBMWinNs = 0, ed_stormYieldPending = False, ed_stormYieldActive = False,
     ed_stormYieldKey = \<lparr>yk_localNodeId = 0xFF, yk_rootNodeId = 0xFF, yk_irmNodeId = 0xFF, yk_nodeCount = 0\<rparr>,
     ed_abdicate = False, ed_timers = [], ed_requests = [], ed_trace = []\<rparr>"

definition ed_emit :: "BmEvent \<Rightarrow> BusManagerElectionDriver \<Rightarrow> BusManagerElectionDriver" where
  "ed_emit e d = d\<lparr>ed_trace := ed_trace d @ [e]\<rparr>"

definition notify :: "BmEvent \<Rightarrow> BusManagerElectionDriver \<Rightarrow> BusManagerElectionDriver" where
  "notify e d = (if ed_observer d then ed_emit e d else d)"

definition ElectionStillAllowed :: "BusManagerElectionDriver \<Rightarrow> bool" where
  "ElectionStillAllowed d \<longleftrightarrow> ed_active d \<and> ed_roleMode d = FullBusManager \<and> ElectionOnly \<le> ed_activityLevel d"

definition yield_key :: "TopologySnapshot \<Rightarrow> YieldTopologyKey" where
  "yield_key snap = \<lparr>yk_localNodeId = ts_localNodeId snap, yk_rootNodeId = ts_rootNodeId snap,
     yk_irmNodeId = ts_irmNodeId snap, yk_nodeCount = ts_nodeCount snap\<rparr>"

definition ShouldYieldForStableRemoteIRM ::
  "TopologySnapshot \<Rightarrow> BusManagerElectionDriver \<Rightarrow> bool \<times> BusManagerElectionDriver" where
  "ShouldYieldForStableRemoteIRM snap d =
     (let d = (if ed_stormYieldPending d
               then
                 let active = ts_localNodeId snap \<noteq> 0xFF \<and> ts_rootNodeId snap \<noteq> 0xFF \<and> ts_irmNodeId snap \<noteq> 0xFF
                        \<and> ts_localNodeId snap \<noteq> ts_rootNodeId snap \<and> ts_rootNodeId snap = ts_irmNodeId snap;
                     d = d\<lparr>ed_stormYieldPending := False, ed_stormYieldActive := active\<rparr>
                 in if active then d\<lparr>ed_stormYieldKey := yield_key snap\<rparr> else d
               else d)
      in if \<not> ed_stormYieldActive d then (False, d)
         else if yield_key snap \<noteq> ed_stormYieldKey d then (False, d\<lparr>ed_stormYieldActive := False\<rparr>)
         else (True, d\<lparr>ed_lastAction := 3, ed_lastElectionPath := 0, ed_inFlight := False\<rparr>))"

definition HandleCompareSwapResult ::
  "BmEnv \<Rightarrow> u32 \<Rightarrow> nat \<Rightarrow> AsyncStatus \<Rightarrow> u32 \<Rightarrow> BusManagerElectionDriver \<Rightarrow> BusManagerElectionDriver" where
  "HandleCompareSwapResult e generation localNodeId status oldValue d =
     (if \<not> ed_active d then d
      else
        let d = d\<lparr>ed_inFlight := False\<rparr> in
        if xd_asyncController (ed_deps d) \<and> be_generation16 e \<noteq> generation
        then d\<lparr>ed_fsm := (ed_fsm d)\<lparr>el_staleAbortCount := el_staleAbortCount (ed_fsm d) + 1\<rparr>\<rparr>
        else if status \<noteq> kSuccess then notify (BmFailedEvent generation status) d
        else
          let (outcome, fsm) = InterpretOldValue oldValue localNodeId (ed_fsm d);
              d = d\<lparr>ed_fsm := fsm\<rparr>;
              won = (if xd_monotonicNowNs (ed_deps d) then d\<lparr>ed_lastLocalBMWinNs := be_nowNs e\<rparr> else d)
          in (case outcome of
                WonBM \<Rightarrow> notify (BmWonEvent generation localNodeId) won
              | IncumbentReestablished \<Rightarrow> notify (BmWonEvent generation localNodeId) won
              | RemoteBM \<Rightarrow> notify (BmRemoteEvent generation (case el_ownerId fsm of Some i \<Rightarrow> i | None \<Rightarrow> 0xFF)) d
              | ElectionFailed \<Rightarrow> notify (BmFailedEvent generation kLockCompareFail) d))"

text \<open>The compare-swap of the local engine runs inside the call; that of a remote node is answered later.\<close>

definition Contend ::
  "BmEnv \<Rightarrow> u64 \<Rightarrow> BMCandidateClass \<Rightarrow> u32 \<Rightarrow> nat \<Rightarrow> nat \<Rightarrow> BusManagerElectionDriver \<Rightarrow> BusManagerElectionDriver" where
  "Contend e nowNs cls generation localNodeId irmNodeId d =
     (if \<not> ElectionStillAllowed d \<or> \<not> xd_asyncController (ed_deps d) then d\<lparr>ed_inFlight := False\<rparr>
      else if be_generation16 e \<noteq> generation then d\<lparr>ed_inFlight := False\<rparr>
      else if irmNodeId = localNodeId
      then
        let d = d\<lparr>ed_lastElectionPath := 1\<rparr> in
        if \<not> xd_localCsr (ed_deps d)
        then notify (BmFailedEvent generation kHardwareError) (d\<lparr>ed_inFlight := False\<rparr>)
        else
          let d = ed_emit (BmContend generation irmNodeId cls nowNs (be_timing e)) d in
          if be_localStatus e \<noteq> LocalSuccess
          then notify (BmFailedEvent generation kHardwareError) (d\<lparr>ed_inFlight := False\<rparr>)
          else HandleCompareSwapResult e generation localNodeId kSuccess (be_localOld e) d
      else
        (ed_emit (BmContend generation irmNodeId cls nowNs (be_timing e)) (d\<lparr>ed_lastElectionPath := 2\<rparr>))
          \<lparr>ed_inFlightHandle := True, ed_requests := ed_requests d @ [\<lparr>bq_generation = generation, bq_localNodeId = localNodeId\<rparr>]\<rparr>)"

definition gate_or_timer ::
  "BmEnv \<Rightarrow> TopologySnapshot \<Rightarrow> u64 \<Rightarrow> BMCandidateClass \<Rightarrow> BusManagerElectionDriver \<Rightarrow> BusManagerElectionDriver" where
  "gate_or_timer e snap nowNs cls d =
     (let localNodeId = ts_localNodeId snap; irmNodeId = ts_irmNodeId snap; generation = ts_generation snap in
      if \<not> xd_timing (ed_deps d) then d
      else
        let gate = CheckBMGate generation cls nowNs (be_timing e) in
        if tg_state gate = ExpiredGeneration then d
        else if tg_allowed gate
        then Contend e nowNs cls generation localNodeId irmNodeId
               (d\<lparr>ed_inFlight := True, ed_inFlightGen := generation, ed_attemptedGeneration := generation,
                  ed_attemptsThisGeneration := ed_attemptsThisGeneration d + 1\<rparr>)
        else if tg_state gate = GateClosed \<and> xd_scheduler (ed_deps d)
        then d\<lparr>ed_inFlight := True, ed_inFlightGen := generation,
               ed_timers := ed_timers d @ [\<lparr>btm_delayNs = tg_remainingNs gate, btm_generation = generation,
                 btm_localNodeId = localNodeId, btm_irmNodeId = irmNodeId, btm_class = cls\<rparr>]\<rparr>
        else d)"

definition decide_and_contend ::
  "BmEnv \<Rightarrow> TopologySnapshot \<Rightarrow> u64 \<Rightarrow> BusManagerElectionDriver \<Rightarrow> BusManagerElectionDriver" where
  "decide_and_contend e snap nowNs d =
     (let abdicateObserved = (xd_csrResponder (ed_deps d) \<and> ed_abdicate d);
          d = (if xd_csrResponder (ed_deps d) then d\<lparr>ed_abdicate := False\<rparr> else d);
          (action, fsm) = Decide \<lparr>ei_mode = ed_roleMode d, ei_activityLevel = ed_activityLevel d,
             ei_generation = ts_generation snap, ei_irmId = Some (ts_irmNodeId snap), ei_wasIncumbent = ed_wasIncumbent d,
             ei_abdicateObserved = abdicateObserved\<rparr> (ed_fsm d);
          d = d\<lparr>ed_fsm := fsm\<rparr>
      in if action = DoNotContend then d\<lparr>ed_lastAction := 0\<rparr>
         else gate_or_timer e snap nowNs (if action = ContendImmediately then Incumbent else NonIncumbent)
                (d\<lparr>ed_lastAction := (if action = ContendImmediately then 1 else 2)\<rparr>))"

definition ed_OnTopologyReady :: "BmEnv \<Rightarrow> TopologySnapshot \<Rightarrow> u64 \<Rightarrow> BusManagerElectionDriver \<Rightarrow> BusManagerElectionDriver" where
  "ed_OnTopologyReady e snap nowNs d =
     (if \<not> ed_active d then d
      else if \<not> ElectionStillAllowed d then d
      else if ts_localNodeId snap = 0xFF \<or> ts_irmNodeId snap = 0xFF then d
      else
        let d = d\<lparr>ed_localNodeId := ts_localNodeId snap, ed_irmNodeId := ts_irmNodeId snap\<rparr>;
            (yields, d) = ShouldYieldForStableRemoteIRM snap d
        in
        if yields then d
        else if ed_attemptedGeneration d = ts_generation snap \<and> 1 \<le> ed_attemptsThisGeneration d then d
        else if ed_inFlight d \<and> ts_generation snap \<le> ed_inFlightGen d then d
        else decide_and_contend e snap nowNs d)"

text \<open>The block that a closed gate schedules.\<close>

definition deferred_contention :: "BmEnv \<Rightarrow> BmTimer \<Rightarrow> BusManagerElectionDriver \<Rightarrow> BusManagerElectionDriver" where
  "deferred_contention e t d =
     (if \<not> ed_active d then d
      else if \<not> ElectionStillAllowed d then d\<lparr>ed_inFlight := False\<rparr>
      else if xd_asyncController (ed_deps d) \<and> be_generation16 e \<noteq> btm_generation t then d\<lparr>ed_inFlight := False\<rparr>
      else if xd_timing (ed_deps d) \<and> xd_monotonicNowNs (ed_deps d)
              \<and> \<not> tg_allowed (CheckBMGate (btm_generation t) (btm_class t) (be_nowNs e) (be_timing e))
      then d\<lparr>ed_inFlight := False\<rparr>
      else Contend e (be_nowNs e) (btm_class t) (btm_generation t) (btm_localNodeId t) (btm_irmNodeId t)
             (d\<lparr>ed_attemptedGeneration := btm_generation t,
                ed_attemptsThisGeneration := ed_attemptsThisGeneration d + 1\<rparr>))"

definition timer_fires :: "BmEnv \<Rightarrow> nat \<Rightarrow> BusManagerElectionDriver \<Rightarrow> BusManagerElectionDriver" where
  "timer_fires e i d = deferred_contention e (ed_timers d ! i)
     (d\<lparr>ed_timers := take i (ed_timers d) @ drop (Suc i) (ed_timers d)\<rparr>)"

definition swap_answered :: "BmEnv \<Rightarrow> nat \<Rightarrow> AsyncStatus \<Rightarrow> u32 \<Rightarrow> BusManagerElectionDriver \<Rightarrow> BusManagerElectionDriver" where
  "swap_answered e i status oldValue d =
     (let q = ed_requests d ! i
      in HandleCompareSwapResult e (bq_generation q) (bq_localNodeId q) status oldValue
           (d\<lparr>ed_requests := take i (ed_requests d) @ drop (Suc i) (ed_requests d), ed_inFlightHandle := False\<rparr>))"

definition kFastResetAfterBMWinNs :: u64 where "kFastResetAfterBMWinNs = 500000000"

definition cancel_in_flight :: "BusManagerElectionDriver \<Rightarrow> BusManagerElectionDriver" where
  "cancel_in_flight d =
     (if ed_inFlightHandle d
      then (if xd_asyncController (ed_deps d) then ed_emit BmCancel d else d)\<lparr>ed_inFlightHandle := False\<rparr>
      else d)"

definition ed_OnBusReset :: "BmEnv \<Rightarrow> BusManagerElectionDriver \<Rightarrow> BusManagerElectionDriver" where
  "ed_OnBusReset e d =
     (let localWasBM = (el_owner (ed_fsm d) = OwnerLocal);
          d = (if localWasBM \<and> xd_monotonicNowNs (ed_deps d) \<and> ed_lastLocalBMWinNs d \<noteq> 0
                  \<and> ed_lastLocalBMWinNs d \<le> be_nowNs e
                  \<and> be_nowNs e - ed_lastLocalBMWinNs d \<le> kFastResetAfterBMWinNs
               then d\<lparr>ed_stormYieldPending := True\<rparr> else d)
      in cancel_in_flight (d\<lparr>ed_wasIncumbent := localWasBM, ed_fsm := el_Reset (ed_fsm d), ed_inFlight := False,
           ed_inFlightGen := 0, ed_attemptsThisGeneration := 0, ed_lastElectionPath := 0, ed_lastAction := 0\<rparr>))"

definition ed_Stop :: "BusManagerElectionDriver \<Rightarrow> BusManagerElectionDriver" where
  "ed_Stop d = cancel_in_flight (d\<lparr>ed_active := False, ed_inFlight := False\<rparr>)"

definition ed_SetRolePolicy :: "RoleMode \<Rightarrow> FullBMActivityLevel \<Rightarrow> BusManagerElectionDriver \<Rightarrow> BusManagerElectionDriver" where
  "ed_SetRolePolicy mode level d = d\<lparr>ed_roleMode := mode, ed_activityLevel := level\<rparr>"

section \<open>What an operation adds to the contentions\<close>

primrec is_contend :: "BmEvent \<Rightarrow> bool" where
  "is_contend (BmContend g irm cls t s) = True"
| "is_contend (BmWonEvent g i) = False"
| "is_contend (BmRemoteEvent g i) = False"
| "is_contend (BmFailedEvent g st) = False"
| "is_contend BmCancel = False"

definition contends :: "BusManagerElectionDriver \<Rightarrow> BmEvent list" where
  "contends d = filter is_contend (ed_trace d)"

text \<open>The members that the argument is about, and the operations that leave them alone.\<close>

definition same_core :: "BusManagerElectionDriver \<Rightarrow> BusManagerElectionDriver \<Rightarrow> bool" where
  "same_core d' d \<longleftrightarrow> contends d' = contends d \<and> ed_timers d' = ed_timers d \<and> ed_deps d' = ed_deps d
     \<and> ElectionStillAllowed d' = ElectionStillAllowed d"

lemma same_core_notify: "\<not> is_contend ev \<Longrightarrow> same_core (notify ev d) d"
  by (simp add: same_core_def notify_def ed_emit_def contends_def ElectionStillAllowed_def)

lemma same_core_trans: "same_core a b \<Longrightarrow> same_core b c \<Longrightarrow> same_core a c"
  by (simp add: same_core_def)

lemma same_core_HandleCompareSwapResult: "same_core (HandleCompareSwapResult e g l st old d) d"
  by (auto simp: HandleCompareSwapResult_def Let_def same_core_def notify_def ed_emit_def contends_def ElectionStillAllowed_def
      split: prod.splits ElectionOutcome.splits)

lemma same_core_yield: "ShouldYieldForStableRemoteIRM snap d = (y, d') \<Longrightarrow> same_core d' d"
  by (auto simp: ShouldYieldForStableRemoteIRM_def Let_def same_core_def contends_def ElectionStillAllowed_def split: if_splits)

lemma same_core_cancel: "contends (cancel_in_flight d) = contends d" "ed_timers (cancel_in_flight d) = ed_timers d"
    "ed_deps (cancel_in_flight d) = ed_deps d"
  by (simp_all add: cancel_in_flight_def contends_def ed_emit_def)

lemma Contend_core:
  "contends (Contend e t cls g l irm d) = contends d @
     (if ElectionStillAllowed d \<and> xd_asyncController (ed_deps d) \<and> be_generation16 e = g \<and> (irm = l \<longrightarrow> xd_localCsr (ed_deps d))
      then [BmContend g irm cls t (be_timing e)] else [])
   \<and> ed_timers (Contend e t cls g l irm d) = ed_timers d \<and> ed_deps (Contend e t cls g l irm d) = ed_deps d"
  using same_core_HandleCompareSwapResult [of e g l kSuccess "be_localOld e"]
  by (auto simp: Contend_def Let_def same_core_def notify_def ed_emit_def contends_def)

definition gate_open :: "u32 \<Rightarrow> BMCandidateClass \<Rightarrow> u64 \<Rightarrow> PostResetTimingState \<Rightarrow> bool" where
  "gate_open g cls t s \<longleftrightarrow> pt_valid s \<and> pt_selfIdComplete s \<and> pt_generation s = g
     \<and> (case cls of Incumbent \<Rightarrow> pt_bmIncumbentAllowedNs s \<le> t | NonIncumbent \<Rightarrow> pt_bmNonIncumbentAllowedNs s \<le> t
        | NotCandidate \<Rightarrow> False)"

lemma CheckBMGate_open: "tg_allowed (CheckBMGate g cls t s) \<longleftrightarrow> gate_open g cls t s"
  by (cases cls) (auto simp: CheckBMGate_def CheckGate_def MakeMissingStateResult_def MakeGateResult_def TimingGateResult0_def
      gate_open_def Let_def)

text \<open>A topology leads to at most one contention, with an open gate, or one timer, both for its own generation.\<close>

definition topology_effect ::
  "BmEnv \<Rightarrow> TopologySnapshot \<Rightarrow> u64 \<Rightarrow> BusManagerElectionDriver \<Rightarrow> BusManagerElectionDriver \<Rightarrow> bool" where
  "topology_effect e snap t d d' \<longleftrightarrow> ed_deps d' = ed_deps d \<and>
     (contends d' = contends d \<and> ed_timers d' = ed_timers d
      \<or> (\<exists>irm cls. contends d' = contends d @ [BmContend (ts_generation snap) irm cls t (be_timing e)]
           \<and> gate_open (ts_generation snap) cls t (be_timing e) \<and> ed_timers d' = ed_timers d)
      \<or> contends d' = contends d \<and> (\<exists>tm. ed_timers d' = ed_timers d @ [tm] \<and> btm_generation tm = ts_generation snap))"

lemma gate_or_timer_effect: "topology_effect e snap t d (gate_or_timer e snap t cls d)"
proof (cases "tg_allowed (CheckBMGate (ts_generation snap) cls t (be_timing e))")
  case True
  let ?d = "d\<lparr>ed_inFlight := True, ed_inFlightGen := ts_generation snap, ed_attemptedGeneration := ts_generation snap,
      ed_attemptsThisGeneration := ed_attemptsThisGeneration d + 1\<rparr>"
  have "topology_effect e snap t d (Contend e t cls (ts_generation snap) (ts_localNodeId snap) (ts_irmNodeId snap) ?d)"
    using Contend_core [of e t cls "ts_generation snap" "ts_localNodeId snap" "ts_irmNodeId snap" ?d] True
    by (auto simp: topology_effect_def contends_def CheckBMGate_open)
  then show ?thesis using True by (simp add: gate_or_timer_def Let_def) (simp add: topology_effect_def)
qed (simp add: gate_or_timer_def Let_def topology_effect_def contends_def)

lemma topology_effect_cong:
  "topology_effect e snap t d d' \<Longrightarrow> contends d = contends d0 \<Longrightarrow> ed_timers d = ed_timers d0 \<Longrightarrow> ed_deps d = ed_deps d0
     \<Longrightarrow> topology_effect e snap t d0 d'"
  by (simp add: topology_effect_def)

lemma idle_effect:
  "contends d' = contends d \<Longrightarrow> ed_timers d' = ed_timers d \<Longrightarrow> ed_deps d' = ed_deps d \<Longrightarrow> topology_effect e snap t d d'"
  by (simp add: topology_effect_def)

lemma decide_and_contend_effect: "topology_effect e snap t d (decide_and_contend e snap t d)"
proof -
  define d1 where "d1 = (if xd_csrResponder (ed_deps d) then d\<lparr>ed_abdicate := False\<rparr> else d)"
  have core: "contends d1 = contends d" "ed_timers d1 = ed_timers d" "ed_deps d1 = ed_deps d"
    by (simp_all add: d1_def contends_def)
  obtain action fsm where D: "Decide \<lparr>ei_mode = ed_roleMode d1, ei_activityLevel = ed_activityLevel d1,
       ei_generation = ts_generation snap, ei_irmId = Some (ts_irmNodeId snap), ei_wasIncumbent = ed_wasIncumbent d1,
       ei_abdicateObserved = xd_csrResponder (ed_deps d) \<and> ed_abdicate d\<rparr> (ed_fsm d1) = (action, fsm)"
    by (meson surj_pair)
  define d2 where "d2 = d1\<lparr>ed_fsm := fsm, ed_lastAction := (if action = ContendImmediately then 1 else 2)\<rparr>"
  have core2: "contends d2 = contends d" "ed_timers d2 = ed_timers d" "ed_deps d2 = ed_deps d"
    using core by (simp_all add: d2_def contends_def)
  have idle: "topology_effect e snap t d (d1\<lparr>ed_fsm := fsm, ed_lastAction := 0\<rparr>)"
    using core by (intro idle_effect) (simp_all add: contends_def)
  have go: "topology_effect e snap t d (gate_or_timer e snap t cls d2)" for cls
    by (rule topology_effect_cong [OF gate_or_timer_effect]) (rule core2)+
  have "decide_and_contend e snap t d = (if action = DoNotContend then d1\<lparr>ed_fsm := fsm, ed_lastAction := 0\<rparr>
      else gate_or_timer e snap t (if action = ContendImmediately then Incumbent else NonIncumbent) d2)"
    unfolding decide_and_contend_def Let_def d1_def [symmetric] D by (simp add: d2_def)
  with idle go show ?thesis by simp
qed

lemma OnTopologyReady_effect: "topology_effect e snap t d (ed_OnTopologyReady e snap t d)"
proof -
  obtain y d1 where y: "ShouldYieldForStableRemoteIRM snap (d\<lparr>ed_localNodeId := ts_localNodeId snap, ed_irmNodeId := ts_irmNodeId snap\<rparr>) = (y, d1)"
    by (meson surj_pair)
  from same_core_yield [OF y] have core: "contends d1 = contends d" "ed_timers d1 = ed_timers d" "ed_deps d1 = ed_deps d"
    by (simp_all add: same_core_def contends_def)
  have idle: "topology_effect e snap t d d" "topology_effect e snap t d d1" using core by (simp_all add: topology_effect_def)
  have "topology_effect e snap t d (decide_and_contend e snap t d1)"
    by (rule topology_effect_cong [OF decide_and_contend_effect]) (rule core)+
  with idle show ?thesis unfolding ed_OnTopologyReady_def Let_def y by simp
qed

lemma timer_fires_effect:
  assumes "i < length (ed_timers d)" and "xd_timing (ed_deps d)" and "xd_monotonicNowNs (ed_deps d)"
  shows "ed_deps (timer_fires e i d) = ed_deps d
    \<and> ed_timers (timer_fires e i d) = take i (ed_timers d) @ drop (Suc i) (ed_timers d)
    \<and> (contends (timer_fires e i d) = contends d \<or>
        (\<exists>irm cls. contends (timer_fires e i d) = contends d @ [BmContend (btm_generation (ed_timers d ! i)) irm cls (be_nowNs e) (be_timing e)]
           \<and> gate_open (btm_generation (ed_timers d ! i)) cls (be_nowNs e) (be_timing e)))"
  using assms Contend_core
  by (auto simp: timer_fires_def deferred_contention_def CheckBMGate_open contends_def)

section \<open>Runs of the driver\<close>

text \<open>
  The bus generation \<open>g\<close> grows with every reset; in each generation the topology is reported at most once
  (\<open>seen\<close>); timers fire and compare-swaps are answered at any time and in any order, also in later generations.
\<close>

definition wired :: "ElectionDeps \<Rightarrow> bool" where
  "wired x \<longleftrightarrow> xd_timing x \<and> xd_monotonicNowNs x"

inductive bm_reach :: "bool \<Rightarrow> u32 \<Rightarrow> BusManagerElectionDriver \<Rightarrow> bool" where
  start: "wired deps \<Longrightarrow> bm_reach False g ((BusManagerElectionDriver0 deps mode level)\<lparr>ed_observer := obs\<rparr>)"
| topology: "bm_reach False g d \<Longrightarrow> ts_generation snap = g \<Longrightarrow> be_generation16 e = g \<Longrightarrow>
    bm_reach True g (ed_OnTopologyReady e snap t d)"
| timer: "bm_reach seen g d \<Longrightarrow> i < length (ed_timers d) \<Longrightarrow> be_generation16 e = g \<Longrightarrow> bm_reach seen g (timer_fires e i d)"
| answer: "bm_reach seen g d \<Longrightarrow> i < length (ed_requests d) \<Longrightarrow> be_generation16 e = g \<Longrightarrow>
    bm_reach seen g (swap_answered e i status old d)"
| reset: "bm_reach seen g d \<Longrightarrow> g < g' \<Longrightarrow> bm_reach False g' (ed_OnBusReset e d)"
| stop: "bm_reach seen g d \<Longrightarrow> bm_reach seen g (ed_Stop d)"
| policy: "bm_reach seen g d \<Longrightarrow> bm_reach seen g (ed_SetRolePolicy mode level d)"
| abdicate: "bm_reach seen g d \<Longrightarrow> bm_reach seen g (d\<lparr>ed_abdicate := a\<rparr>)"

primrec contend_generation :: "BmEvent \<Rightarrow> u32 option" where
  "contend_generation (BmContend g irm cls t s) = Some g"
| "contend_generation (BmWonEvent g i) = None"
| "contend_generation (BmRemoteEvent g i) = None"
| "contend_generation (BmFailedEvent g st) = None"
| "contend_generation BmCancel = None"

primrec contend_ok :: "BmEvent \<Rightarrow> bool" where
  "contend_ok (BmContend g irm cls t s) = gate_open g cls t s"
| "contend_ok (BmWonEvent g i) = True"
| "contend_ok (BmRemoteEvent g i) = True"
| "contend_ok (BmFailedEvent g st) = True"
| "contend_ok BmCancel = True"

definition attempts :: "u32 \<Rightarrow> BusManagerElectionDriver \<Rightarrow> nat" where
  "attempts g d = length (filter (\<lambda>ev. contend_generation ev = Some g) (contends d))"

definition waiting :: "u32 \<Rightarrow> BusManagerElectionDriver \<Rightarrow> nat" where
  "waiting g d = length (filter (\<lambda>tm. btm_generation tm = g) (ed_timers d))"

definition bm_inv :: "bool \<Rightarrow> u32 \<Rightarrow> BusManagerElectionDriver \<Rightarrow> bool" where
  "bm_inv seen g d \<longleftrightarrow> wired (ed_deps d) \<and> list_all contend_ok (contends d)
     \<and> (\<forall>h. g < h \<longrightarrow> attempts h d + waiting h d = 0) \<and> (\<forall>h. attempts h d + waiting h d \<le> 1)
     \<and> (seen \<or> attempts g d + waiting g d = 0)"

lemma bm_inv_same:
  assumes "bm_inv seen g d" and "contends d' = contends d" and "ed_timers d' = ed_timers d" and "ed_deps d' = ed_deps d"
  shows "bm_inv seen g d'"
  using assms by (simp add: bm_inv_def attempts_def waiting_def)

lemma bm_inv_topology:
  assumes "bm_inv False g d" and "ts_generation snap = g"
  shows "bm_inv True g (ed_OnTopologyReady e snap t d)"
  using assms OnTopologyReady_effect [of e snap t d]
  by (auto simp: topology_effect_def bm_inv_def attempts_def waiting_def)

lemma filter_without:
  assumes "i < length xs"
  shows "length (filter P xs) = length (filter P (take i xs @ drop (Suc i) xs)) + (if P (xs ! i) then 1 else 0)"
  by (subst id_take_nth_drop [OF assms]) simp

lemma bm_inv_timer:
  assumes "bm_inv seen g d" and "i < length (ed_timers d)"
  shows "bm_inv seen g (timer_fires e i d)"
proof -
  let ?tm = "ed_timers d ! i" and ?d = "timer_fires e i d"
  have w: "xd_timing (ed_deps d)" "xd_monotonicNowNs (ed_deps d)" using assms(1) by (auto simp: bm_inv_def wired_def)
  note E = timer_fires_effect [OF assms(2) w, of e]
  have wait: "waiting h d = waiting h ?d + (if btm_generation ?tm = h then 1 else 0)" for h
    using E filter_without [OF assms(2), of "\<lambda>tm. btm_generation tm = h"] by (simp add: waiting_def)
  have att: "attempts h ?d \<le> attempts h d + (if btm_generation ?tm = h then 1 else 0)" for h
    using E by (auto simp: attempts_def)
  have sum: "attempts h ?d + waiting h ?d \<le> attempts h d + waiting h d" for h
    using att [of h] wait [of h] by (auto split: if_splits)
  have ok: "list_all contend_ok (contends ?d)" "wired (ed_deps ?d)" using E assms(1) by (auto simp: bm_inv_def)
  have "attempts h ?d + waiting h ?d = 0" if "g < h" for h
    using sum [of h] that assms(1) by (simp add: bm_inv_def)
  moreover have "attempts h ?d + waiting h ?d \<le> 1" for h
  proof -
    have "attempts h d + waiting h d \<le> 1" using assms(1) by (simp add: bm_inv_def)
    with sum [of h] show ?thesis by linarith
  qed
  moreover have "seen \<or> attempts g ?d + waiting g ?d = 0" using sum [of g] assms(1) by (auto simp: bm_inv_def)
  ultimately show ?thesis using ok by (simp add: bm_inv_def)
qed

lemma bm_inv_reset: "bm_inv seen g d \<Longrightarrow> g < g' \<Longrightarrow> bm_inv False g' (ed_OnBusReset e d)"
  by (auto simp: bm_inv_def attempts_def waiting_def ed_OnBusReset_def Let_def same_core_cancel, auto simp: contends_def)

lemma bm_inv_reach: "bm_reach seen g d \<Longrightarrow> bm_inv seen g d"
proof (induction rule: bm_reach.induct)
  case (start deps g mode level obs)
  then show ?case by (simp add: bm_inv_def attempts_def waiting_def contends_def BusManagerElectionDriver0_def)
next
  case (answer seen g d i e status old)
  then show ?case
    using same_core_HandleCompareSwapResult
    by (intro bm_inv_same [OF answer.IH]) (auto simp: swap_answered_def Let_def same_core_def contends_def)
next
  case (stop seen g d)
  then show ?case by (intro bm_inv_same [OF stop.IH]) (simp_all add: ed_Stop_def same_core_cancel, simp add: contends_def)
next
  case (policy seen g d mode level)
  then show ?case by (intro bm_inv_same [OF policy.IH]) (simp_all add: ed_SetRolePolicy_def contends_def)
next
  case (abdicate seen g d a)
  then show ?case by (intro bm_inv_same [OF abdicate.IH]) (simp_all add: contends_def)
qed (simp_all add: bm_inv_topology bm_inv_timer bm_inv_reset)

section \<open>Properties\<close>


text \<open>
  The contentions of one generation meet in the resource manager's register, which the reset has set to \<open>0x3F\<close>: each
  is one compare-swap, and the contender interprets the value it gets back.
\<close>

primrec contend_all :: "nat list \<Rightarrow> Ledger \<Rightarrow> (nat \<times> ElectionOutcome \<times> BusManagerElection) list" where
  "contend_all [] l = []"
| "contend_all (i # is) l = (i, InterpretOldValue (l kBusManagerIdAddress) i BusManagerElection0)
     # contend_all is (compare_swap kBusManagerIdAddress kNoBusManagerId (of_nat i) l)"

lemma unat_small: "n < 63 \<Longrightarrow> unat (of_nat n :: u32) = n"
  by (simp add: unsigned_of_nat take_bit_nat_eq_self)

lemma no_upper_bits: "n < 63 \<Longrightarrow> (of_nat n :: u32) AND NOT 0x3F = 0 \<and> (of_nat n :: u32) AND 0x3F = of_nat n"
proof -
  assume n: "n < 63"
  have m: "(0x3F :: u32) = mask 6" by (simp add: mask_eq_exp_minus_1)
  have "unat (take_bit 6 (of_nat n :: u32)) = unat (of_nat n :: u32)"
    using n by (simp add: unsigned_take_bit_eq unat_small take_bit_nat_eq_self)
  then have keep: "(of_nat n :: u32) AND 0x3F = of_nat n" by (simp add: m take_bit_eq_mask word_unat_eq_iff)
  then have "(of_nat n :: u32) AND NOT 0x3F = (of_nat n AND 0x3F) AND NOT 0x3F" by simp
  also have "\<dots> = 0" by (simp add: bit_eq_iff bit_simps)
  finally show ?thesis using keep by simp
qed

lemma contend_all_taken:
  assumes "l kBusManagerIdAddress = of_nat m" and "m < 63" and "list_all (\<lambda>i. i < 63) is"
  shows "contend_all is l = map (\<lambda>i. (i, InterpretOldValue (of_nat m) i BusManagerElection0)) is"
  using assms(3)
proof (induction "is")
  case (Cons i "is")
  have "(of_nat m :: u32) \<noteq> 0x3F" using assms(2) unat_small [of m] by auto
  then have "compare_swap kBusManagerIdAddress kNoBusManagerId (of_nat i) l = l"
    using assms(1) by (simp add: compare_swap_def kNoBusManagerId_def)
  with Cons assms(1) show ?case by simp
qed simp


definition sample_deps :: ElectionDeps where
  "sample_deps = \<lparr>xd_asyncController = True, xd_scheduler = True, xd_csrResponder = True, xd_localCsr = True,
     xd_timing = True, xd_monotonicNowNs = True\<rparr>"

definition sample_env :: "u64 \<Rightarrow> BmEnv" where
  "sample_env t = \<lparr>be_nowNs = t, be_generation16 = 3, be_timing = prt_OnSelfIDComplete 3 1000, be_localStatus = LocalSuccess,
     be_localOld = 0x3F\<rparr>"



end
