(* ===== verification/CSR_Responder.thy ===== *)
theory CSR_Responder
  imports Topology_Manager Config_ROM_Builder
begin

text \<open>
  The registers that the driver itself answers for the local node: the topology map
  (\<^verbatim>\<open>Bus/CSR/TopologyMapBuilder.cpp\<close>, \<^verbatim>\<open>TopologyMapService.cpp\<close>), the broadcast channel
  (\<^verbatim>\<open>BroadcastChannelCSR.hpp\<close>) and the responder in front of them (\<^verbatim>\<open>CSRResponder.cpp\<close>). Outcomes of the DMA
  allocation and of register reads are parameters; the provider of the obsolete speed map is a function.
\<close>

section \<open>The topology map\<close>

definition BuildTopologyMap :: "TopologySnapshot \<Rightarrow> u32 \<Rightarrow> u32 \<times> u32 list" where
  "BuildTopologyMap snapshot topologyMapGeneration =
     (let rawQuads = ts_rawSelfIdQuadlets snapshot;
          selfIdCount = (if length rawQuads > 1 then length rawQuads - 1 else 0);
          selfIdCount = (if selfIdCount > 253 then 253 else selfIdCount);
          out = replicate 256 0;
          out = out[0 := push_bit 16 (of_nat selfIdCount + 2)];
          out = out[1 := topologyMapGeneration];
          out = out[2 := push_bit 16 (of_nat (ts_nodeCount snapshot)) OR of_nat selfIdCount];
          out = fold (\<lambda>i out. out[i + 3 := rawQuads ! (i + 1)]) [0..<selfIdCount] out;
          crc = ComputeBlockCRC16 (take (2 + selfIdCount) (drop 1 out));
          out = out[0 := out ! 0 OR ucast crc]
      in (3 + of_nat selfIdCount, out))"

datatype TopologyMapPublishStatus = MapInvalid | MapValid | ZeroLengthDueToTopologyError | MapStaleGeneration

record TopologyMapService =
  tp_hardware :: bool
  tp_generation :: u32
  tp_publishStatus :: TopologyMapPublishStatus
  tp_hostMap :: "u32 list"
  tp_dma :: "u64 option"
  tp_dmaMap :: "u32 list option"
  tp_started :: bool

definition TopologyMapService0 :: "bool \<Rightarrow> TopologySnapshot \<Rightarrow> TopologyMapService" where
  "TopologyMapService0 hw emptySnap = \<lparr>tp_hardware = hw, tp_generation = 0, tp_publishStatus = MapInvalid,
     tp_hostMap = snd (BuildTopologyMap (emptySnap\<lparr>ts_nodeCount := 0, ts_generation := 0, ts_rawSelfIdQuadlets := []\<rparr>) 0),
     tp_dma = None, tp_dmaMap = None, tp_started = False\<rparr>"

definition tp_InvalidateLocked :: "TopologyMapService \<Rightarrow> TopologyMapService" where
  "tp_InvalidateLocked s = s\<lparr>tp_hostMap := (tp_hostMap s)[0 := 0], tp_publishStatus := MapInvalid,
     tp_dmaMap := map_option (\<lambda>mem. mem[0 := 0]) (tp_dmaMap s)\<rparr>"

text \<open>
  What the two DriverKit calls of \<open>StartLocked\<close> answer: the device address of a buffer, and whether its
  mapping succeeds.
\<close>

record MapDmaAnswers =
  da_allocate :: "u64 option"
  da_mapping :: bool

definition tp_StartLocked :: "MapDmaAnswers \<Rightarrow> TopologyMapService \<Rightarrow> bool \<times> TopologyMapService" where
  "tp_StartLocked a s =
     (if tp_started s then (True, s)
      else if \<not> tp_hardware s then (False, tp_InvalidateLocked s)
      else
        (case da_allocate a of
           None \<Rightarrow> (False, tp_InvalidateLocked s)
         | Some address \<Rightarrow>
             if \<not> da_mapping a then (False, tp_InvalidateLocked (s\<lparr>tp_dma := None\<rparr>))
             else (True, s\<lparr>tp_dma := Some address, tp_started := True,
                     tp_dmaMap := Some (map OSSwap32 (tp_hostMap s))\<rparr>)))"

definition tp_Stop :: "TopologyMapService \<Rightarrow> TopologyMapService" where
  "tp_Stop s = (if \<not> tp_started s then s
     else (tp_InvalidateLocked s)\<lparr>tp_dmaMap := None, tp_dma := None, tp_started := False\<rparr>)"

text \<open>
  The writes of \<open>Rebuild\<close> to the memory that remote block reads are served from, in order: the header is
  cleared first and written last.
\<close>

definition rebuild_writes :: "u32 list \<Rightarrow> (nat \<times> u32) list" where
  "rebuild_writes hostMap = (0, 0) # map (\<lambda>i. (i, OSSwap32 (hostMap ! i))) [1..<256] @ [(0, OSSwap32 (hostMap ! 0))]"

definition dma_write :: "nat \<times> u32 \<Rightarrow> u32 list \<Rightarrow> u32 list" where
  "dma_write wr mem = mem[fst wr := snd wr]"

definition tp_Rebuild :: "MapDmaAnswers \<Rightarrow> TopologySnapshot \<Rightarrow> TopologyMapService \<Rightarrow> TopologyMapService" where
  "tp_Rebuild a snapshot s =
     (let (ok, s) = tp_StartLocked a s in
      if \<not> ok then s
      else
        let s = s\<lparr>tp_generation := ts_generation snapshot\<rparr>;
            hostMap = snd (BuildTopologyMap snapshot (tp_generation s))
        in s\<lparr>tp_hostMap := hostMap, tp_publishStatus := MapValid,
             tp_dmaMap := map_option (fold dma_write (rebuild_writes hostMap)) (tp_dmaMap s)\<rparr>)"

definition PublishZeroLength :: "MapDmaAnswers \<Rightarrow> u32 \<Rightarrow> TopologyMapService \<Rightarrow> TopologyMapService" where
  "PublishZeroLength a generation s =
     (let (ok, s) = tp_StartLocked a s in
      if \<not> ok then s
      else
        let hostMap = (replicate 256 0)[0 := generation AND 0xFFFF]
        in s\<lparr>tp_generation := generation, tp_publishStatus := ZeroLengthDueToTopologyError, tp_hostMap := hostMap,
             tp_dmaMap := map_option (\<lambda>mem. mem[0 := OSSwap32 (hostMap ! 0)]) (tp_dmaMap s)\<rparr>)"

definition tp_ReadQuadlet :: "u32 \<Rightarrow> TopologyMapService \<Rightarrow> u32 option" where
  "tp_ReadQuadlet regionByteOffset s =
     (if regionByteOffset mod 4 \<noteq> 0 \<or> 1024 \<le> regionByteOffset then None
      else Some (tp_hostMap s ! (unat regionByteOffset div 4)))"

definition ResolveBlockRead :: "u32 \<Rightarrow> u32 \<Rightarrow> TopologyMapService \<Rightarrow> (u64 \<times> u32) option" where
  "ResolveBlockRead regionByteOffset requestedLength s =
     (case tp_dma s of
        None \<Rightarrow> None
      | Some address \<Rightarrow>
          if \<not> tp_started s then None
          else if regionByteOffset mod 4 \<noteq> 0 \<or> requestedLength mod 4 \<noteq> 0 then None
          else if regionByteOffset + requestedLength > 1024 then None
          else Some (address + ucast regionByteOffset, requestedLength))"

section \<open>The broadcast channel\<close>

definition kBroadcastChannelImplementedInvalid :: u32 where "kBroadcastChannelImplementedInvalid = 0x8000001F"
definition kBroadcastChannelImplementedValid :: u32 where "kBroadcastChannelImplementedValid = 0xC000001F"

definition bc_Sanitize :: "u32 \<Rightarrow> u32" where
  "bc_Sanitize incoming = 0x80000000 OR (incoming AND 0x40000000) OR 0x0000001F"

section \<open>The responder\<close>

datatype ResponseCode = RcComplete | RcBusy | RcConflictError | RcDataError | RcTypeError | RcAddressError | RcNoResponse

definition kCSR_StateClear :: u32 where "kCSR_StateClear = 0xF0000000"
definition kCSR_StateSet :: u32 where "kCSR_StateSet = 0xF0000004"
definition kCSR_ResetStart :: u32 where "kCSR_ResetStart = 0xF000000C"
definition kCSR_BusManagerID :: u32 where "kCSR_BusManagerID = 0xF000021C"
definition kCSR_BandwidthAvailable :: u32 where "kCSR_BandwidthAvailable = 0xF0000220"
definition kCSR_ChannelsAvailableHi :: u32 where "kCSR_ChannelsAvailableHi = 0xF0000224"
definition kCSR_ChannelsAvailableLo :: u32 where "kCSR_ChannelsAvailableLo = 0xF0000228"
definition kCSR_BroadcastChannel :: u32 where "kCSR_BroadcastChannel = 0xF0000234"
definition kCSR_TopologyMapBase :: u32 where "kCSR_TopologyMapBase = 0xF0001000"
definition kCSR_TopologyMapEnd :: u32 where "kCSR_TopologyMapEnd = 0xF00013FF"
definition kCSR_SpeedMapBase :: u32 where "kCSR_SpeedMapBase = 0xF0002000"
definition kCSR_SpeedMapEnd :: u32 where "kCSR_SpeedMapEnd = 0xF00023FF"
definition kBroadcastChannelInitial :: u32 where "kBroadcastChannelInitial = 0x8000001F"
definition kCSRStateBitCMSTR :: u32 where "kCSRStateBitCMSTR = 0x100"
definition kCSRStateBitABDICATE :: u32 where "kCSRStateBitABDICATE = 0x400"

text \<open>
  The members of the responder and of the objects behind its interfaces: \<open>cr_root\<close> is what the NodeID register
  says (\<open>None\<close> without the interface), \<open>cr_cycleMaster\<close> the link's cycle master bit.
\<close>

record CSRResponder =
  cr_root :: "bool option"
  cr_cycleMaster :: "bool option"
  cr_topologyMap :: "TopologyMapService option"
  cr_speedMap :: "(u32 \<Rightarrow> u32 option) option"
  cr_broadcastChannel :: "u32 option"
  cr_abdicate :: bool
  cr_unexpectedResourceCsrSoftwareCount :: u32

record CSRResult =
  re_mine :: bool
  re_rcode :: ResponseCode
  re_readValue :: u32
  re_readBlockDeviceAddress :: u64
  re_readBlockLength :: u32

definition CSRResult0 :: CSRResult where
  "CSRResult0 = \<lparr>re_mine = False, re_rcode = RcAddressError, re_readValue = 0, re_readBlockDeviceAddress = 0, re_readBlockLength = 0\<rparr>"

definition csr_result :: "ResponseCode \<Rightarrow> u32 \<Rightarrow> CSRResult" where
  "csr_result rcode v = CSRResult0\<lparr>re_mine := True, re_rcode := rcode, re_readValue := v\<rparr>"

definition InTopologyRegion :: "u32 \<Rightarrow> bool" where
  "InTopologyRegion off \<longleftrightarrow> kCSR_TopologyMapBase \<le> off \<and> off \<le> kCSR_TopologyMapEnd"

definition InSpeedMapRegion :: "u32 \<Rightarrow> bool" where
  "InSpeedMapRegion off \<longleftrightarrow> kCSR_SpeedMapBase \<le> off \<and> off \<le> kCSR_SpeedMapEnd"

definition IsIrmResourceCsr :: "u32 \<Rightarrow> bool" where
  "IsIrmResourceCsr off \<longleftrightarrow> off = kCSR_BusManagerID \<or> off = kCSR_BandwidthAvailable
     \<or> off = kCSR_ChannelsAvailableHi \<or> off = kCSR_ChannelsAvailableLo"

definition BroadcastChannel :: "CSRResponder \<Rightarrow> u32" where
  "BroadcastChannel c = (case cr_broadcastChannel c of Some v \<Rightarrow> v | None \<Rightarrow> kBroadcastChannelInitial)"

definition HandleStateWrite :: "bool \<Rightarrow> u32 \<Rightarrow> CSRResponder \<Rightarrow> CSRResult \<times> CSRResponder" where
  "HandleStateWrite isSet v c =
     (let c = (if v AND kCSRStateBitCMSTR \<noteq> 0 \<and> cr_root c = Some True \<and> cr_cycleMaster c \<noteq> None
               then c\<lparr>cr_cycleMaster := Some isSet\<rparr> else c);
          c = (if v AND kCSRStateBitABDICATE \<noteq> 0 then c\<lparr>cr_abdicate := isSet\<rparr> else c)
      in (csr_result RcComplete 0, c))"

definition HandleStateRead :: "CSRResponder \<Rightarrow> CSRResult" where
  "HandleStateRead c =
     csr_result RcComplete ((if cr_root c = Some True \<and> cr_cycleMaster c = Some True then kCSRStateBitCMSTR else 0)
       OR (if cr_abdicate c then kCSRStateBitABDICATE else 0))"

definition csr_unexpected :: "CSRResponder \<Rightarrow> CSRResponder" where
  "csr_unexpected c = c\<lparr>cr_unexpectedResourceCsrSoftwareCount := cr_unexpectedResourceCsrSoftwareCount c + 1\<rparr>"

definition csr_WriteQuadlet :: "u32 \<Rightarrow> u32 \<Rightarrow> CSRResponder \<Rightarrow> CSRResult \<times> CSRResponder" where
  "csr_WriteQuadlet off v c =
     (if InSpeedMapRegion off then (csr_result RcTypeError 0, c)
      else if off = kCSR_StateSet then HandleStateWrite True v c
      else if off = kCSR_StateClear then HandleStateWrite False v c
      else if off = kCSR_ResetStart then HandleStateWrite False kCSRStateBitABDICATE c
      else if off = kCSR_BroadcastChannel
      then (csr_result RcComplete 0, c\<lparr>cr_broadcastChannel := map_option (\<lambda>_. bc_Sanitize v) (cr_broadcastChannel c)\<rparr>)
      else if IsIrmResourceCsr off then (CSRResult0, csr_unexpected c)
      else if InTopologyRegion off then (csr_result RcTypeError 0, c)
      else (CSRResult0, c))"

text \<open>The two map regions are read alike.\<close>

definition map_read :: "u32 \<Rightarrow> u32 \<Rightarrow> (u32 \<Rightarrow> u32 option) option \<Rightarrow> CSRResult" where
  "map_read off base provider =
     (if off AND 3 \<noteq> 0 then csr_result RcAddressError 0
      else
        (case provider of
           None \<Rightarrow> CSRResult0
         | Some read \<Rightarrow>
             (case read (off - base) of Some v \<Rightarrow> csr_result RcComplete v | None \<Rightarrow> csr_result RcAddressError 0)))"

definition csr_ReadQuadlet :: "u32 \<Rightarrow> CSRResponder \<Rightarrow> CSRResult \<times> CSRResponder" where
  "csr_ReadQuadlet off c =
     (if off = kCSR_StateSet \<or> off = kCSR_StateClear then (HandleStateRead c, c)
      else if off = kCSR_BroadcastChannel then (csr_result RcComplete (BroadcastChannel c), c)
      else if off = kCSR_ResetStart then (csr_result RcTypeError 0, c)
      else if IsIrmResourceCsr off then (CSRResult0, csr_unexpected c)
      else if InTopologyRegion off
      then (map_read off kCSR_TopologyMapBase (map_option (\<lambda>t o'. tp_ReadQuadlet o' t) (cr_topologyMap c)), c)
      else if InSpeedMapRegion off then (map_read off kCSR_SpeedMapBase (cr_speedMap c), c)
      else (CSRResult0, c))"

definition BlockReadClaim :: "u32 \<Rightarrow> u32 \<Rightarrow> CSRResponder \<Rightarrow> CSRResult" where
  "BlockReadClaim off len c =
     (if InSpeedMapRegion off then csr_result RcTypeError 0
      else if \<not> InTopologyRegion off then CSRResult0
      else
        (case cr_topologyMap c of
           None \<Rightarrow> CSRResult0
         | Some t \<Rightarrow>
             (case ResolveBlockRead (off - kCSR_TopologyMapBase) len t of
                Some (addr, n) \<Rightarrow> (csr_result RcComplete 0)\<lparr>re_readBlockDeviceAddress := addr, re_readBlockLength := n\<rparr>
              | None \<Rightarrow> csr_result RcAddressError 0)))"

definition ConsumeAbdicate :: "CSRResponder \<Rightarrow> bool \<times> CSRResponder" where
  "ConsumeAbdicate c = (cr_abdicate c, c\<lparr>cr_abdicate := False\<rparr>)"

section \<open>The image of the map\<close>

definition map_body :: "TopologySnapshot \<Rightarrow> u32 list" where
  "map_body snap = (let raw = ts_rawSelfIdQuadlets snap; n = min 253 (length raw - 1)
     in ts_generation snap # (push_bit 16 (of_nat (ts_nodeCount snap)) OR of_nat n) # take n (tl raw))"

definition map_image :: "TopologySnapshot \<Rightarrow> u32 list" where
  "map_image snap = (let body = map_body snap
     in (push_bit 16 (of_nat (length body)) OR ucast (ComputeBlockCRC16 body)) # body @ replicate (255 - length body) 0)"

lemma copy_self_ids:
  fixes raw :: "u32 list"
  assumes "n \<le> 253"
  shows "fold (\<lambda>i out. out[i + 3 := raw ! (i + 1)]) [0..<n] (a # b # c # replicate 253 0)
    = a # b # c # map (\<lambda>i. raw ! (i + 1)) [0..<n] @ replicate (253 - n) 0"
  using assms
proof (induction n)
  case (Suc n)
  then have "replicate (253 - n) 0 = (0 :: u32) # replicate (253 - Suc n) 0" by (simp add: Suc_diff_Suc [symmetric])
  with Suc show ?case by (simp add: numeral_3_eq_3 list_update_append)
qed simp

lemma length_map_body: "length (map_body snap) \<le> 255 \<and> 2 \<le> length (map_body snap)"
  by (simp add: map_body_def Let_def)

lemma length_map_image [simp]: "length (map_image snap) = 256"
  using length_map_body [of snap] by (simp add: map_image_def Let_def)

lemma BuildTopologyMap_image: "snd (BuildTopologyMap snap (ts_generation snap)) = map_image snap"
proof -
  let ?raw = "ts_rawSelfIdQuadlets snap"
  let ?n = "min 253 (length ?raw - 1)"
  have n: "(if (if length ?raw > 1 then length ?raw - 1 else 0) > 253 then 253 else (if length ?raw > 1 then length ?raw - 1 else 0)) = ?n"
    by auto
  have rep: "replicate 256 0 = (0 :: u32) # 0 # 0 # replicate 253 0" by (simp add: numeral_eq_Suc)
  have ids: "map (\<lambda>i. ?raw ! Suc i) [0..<min 253 (length ?raw - Suc 0)] = take (min 253 (length ?raw - Suc 0)) (tl ?raw)"
    by (rule nth_equalityI) (auto simp: nth_tl)
  have body: "ts_generation snap # (push_bit 16 (of_nat (ts_nodeCount snap)) OR of_nat ?n) # take ?n (tl ?raw) = map_body snap"
    by (simp add: map_body_def Let_def)
  have len: "length (map_body snap) = 2 + ?n" by (simp add: map_body_def Let_def)
  show ?thesis
    unfolding BuildTopologyMap_def Let_def n rep
    using copy_self_ids [of ?n ?raw] len
    by (simp add: ids map_image_def Let_def body [symmetric] add.commute)
qed

section \<open>The service\<close>

definition tp_ok :: "TopologyMapService \<Rightarrow> bool" where
  "tp_ok s \<longleftrightarrow> length (tp_hostMap s) = 256 \<and> (tp_started s \<longleftrightarrow> tp_dma s \<noteq> None) \<and> (tp_started s \<longleftrightarrow> tp_dmaMap s \<noteq> None)
     \<and> (case tp_dmaMap s of None \<Rightarrow> True | Some mem \<Rightarrow> length mem = 256)"

datatype MapOp = MapStart MapDmaAnswers | MapStop | MapRebuild MapDmaAnswers TopologySnapshot
  | MapZeroLength MapDmaAnswers u32 | MapInvalidate

primrec map_step :: "MapOp \<Rightarrow> TopologyMapService \<Rightarrow> TopologyMapService" where
  "map_step (MapStart a) s = snd (tp_StartLocked a s)"
| "map_step MapStop s = tp_Stop s"
| "map_step (MapRebuild a snap) s = tp_Rebuild a snap s"
| "map_step (MapZeroLength a g) s = PublishZeroLength a g s"
| "map_step MapInvalidate s = tp_InvalidateLocked s"

lemma length_dma_writes [simp]: "length (fold dma_write ws mem) = length mem"
  by (induction ws arbitrary: mem) (simp_all add: dma_write_def)

lemma tp_ok_Invalidate: "tp_ok s \<Longrightarrow> tp_ok (tp_InvalidateLocked s)"
  by (auto simp: tp_ok_def tp_InvalidateLocked_def split: option.splits)

lemma tp_ok_Start: "tp_ok s \<Longrightarrow> tp_ok (snd (tp_StartLocked a s)) \<and> (fst (tp_StartLocked a s) \<longleftrightarrow> tp_started (snd (tp_StartLocked a s)))"
  by (auto simp: tp_StartLocked_def tp_ok_def tp_InvalidateLocked_def split: option.splits)

lemma tp_ok_Rebuild: "tp_ok s \<Longrightarrow> tp_ok (tp_Rebuild a snap s)"
  using tp_ok_Start [of s a]
  by (cases "tp_StartLocked a s") (auto simp: tp_Rebuild_def Let_def tp_ok_def BuildTopologyMap_image split: option.splits)

lemma tp_ok_ZeroLength: "tp_ok s \<Longrightarrow> tp_ok (PublishZeroLength a g s)"
  using tp_ok_Start [of s a]
  by (cases "tp_StartLocked a s") (auto simp: PublishZeroLength_def Let_def tp_ok_def split: option.splits)

lemma tp_ok_Stop: "tp_ok s \<Longrightarrow> tp_ok (tp_Stop s)"
  using tp_ok_Invalidate [of s] by (auto simp: tp_Stop_def tp_ok_def tp_InvalidateLocked_def)

interpretation topology_map: class_invariant tp_ok "\<lambda>_. True" map_step
proof
  fix s op
  assume s: "tp_ok s"
  then show "tp_ok (map_step op s)"
    by (cases op) (simp_all add: tp_ok_Start tp_ok_Stop tp_ok_Rebuild tp_ok_ZeroLength tp_ok_Invalidate)
qed

section \<open>The order of the writes\<close>

lemma body_writes:
  "k \<le> 255 \<Longrightarrow> length mem = 256 \<Longrightarrow>
    fold dma_write (map (\<lambda>i. (i, f i)) [1..<Suc k]) mem = take 1 mem @ map f [1..<Suc k] @ drop (Suc k) mem"
proof (induction k)
  case 0
  then show ?case by (cases mem) simp_all
next
  case (Suc k)
  then have ih: "fold dma_write (map (\<lambda>i. (i, f i)) [1..<Suc k]) mem = take 1 mem @ map f [1..<Suc k] @ drop (Suc k) mem"
    by simp
  have "drop (Suc k) mem = mem ! Suc k # drop (Suc (Suc k)) mem" using Suc.prems by (simp add: Cons_nth_drop_Suc)
  moreover have "[1..<Suc (Suc k)] = [1..<Suc k] @ [Suc k]" by simp
  moreover have "length (take 1 mem) = 1" using Suc.prems by simp
  moreover have "dma_write (i, x) m = m[i := x]" for i x m by (simp add: dma_write_def)
  ultimately show ?case using ih Suc.prems
    by (simp add: list_update_append del: upt_Suc)
qed

lemma image_split: "length xs = 256 \<Longrightarrow> xs = xs ! 0 # map (\<lambda>i. xs ! i) [1..<256]"
proof -
  assume len: "length xs = 256"
  have "xs = map (\<lambda>i. xs ! i) [0..<256]" using map_nth [of xs] len by simp
  moreover have "[0..<256] = 0 # [1..<256]" by (simp add: upt_conv_Cons)
  ultimately show ?thesis by (metis list.simps(9))
qed

lemma rebuild_writes_all:
  assumes "length mem = 256" "length img = 256"
  shows "fold dma_write (rebuild_writes img) mem = map OSSwap32 img"
proof -
  have "fold dma_write (map (\<lambda>i. (i, OSSwap32 (img ! i))) [1..<256]) (mem[0 := 0])
      = take 1 (mem[0 := 0]) @ map (\<lambda>i. OSSwap32 (img ! i)) [1..<256]"
    using body_writes [of 255 "mem[0 := 0]" "\<lambda>i. OSSwap32 (img ! i)"] assms by (simp del: upt_Suc)
  moreover have "take 1 (mem[0 := 0]) = [0]" using assms by (cases mem) auto
  moreover have "map OSSwap32 img = OSSwap32 (img ! 0) # map (\<lambda>i. OSSwap32 (img ! i)) [1..<256]"
    using arg_cong [OF image_split [OF assms(2)], of "map OSSwap32"] by (simp del: upt_Suc add: comp_def)
  ultimately show ?thesis by (simp add: rebuild_writes_def dma_write_def)
qed

lemma writes_keep_header:
  "\<forall>w \<in> set ws. fst w \<noteq> 0 \<Longrightarrow> fold dma_write ws mem ! 0 = mem ! 0"
  by (induction ws arbitrary: mem) (auto simp: dma_write_def)

lemma rebuild_writes_prefix:
  assumes "length mem = 256" "length img = 256"
  shows "fold dma_write (take k (rebuild_writes img)) mem \<in> {mem, map OSSwap32 img}
    \<or> fold dma_write (take k (rebuild_writes img)) mem ! 0 = 0"
proof -
  let ?body = "map (\<lambda>i. (i, OSSwap32 (img ! i))) [1..<256]"
  obtain j where j: "k = 0 \<or> k = Suc j" by (cases k) auto
  have len: "length ?body = 255" by simp
  consider "k = 0" | "k = Suc j" "j \<le> 255" | "k > 256" using j by linarith
  then show ?thesis
  proof cases
    case 2
    with len have "fold dma_write (take k (rebuild_writes img)) mem = fold dma_write (take j ?body) (mem[0 := 0])"
      by (simp add: rebuild_writes_def dma_write_def)
    moreover have "fst w \<noteq> 0" if "w \<in> set (take j ?body)" for w
      using in_set_takeD [OF that] by auto
    ultimately show ?thesis using writes_keep_header [of "take j ?body" "mem[0 := 0]"] assms by simp
  next
    case 3
    then have "take k (rebuild_writes img) = rebuild_writes img" by (simp add: rebuild_writes_def)
    then show ?thesis using rebuild_writes_all [OF assms] by simp
  qed simp
qed

section \<open>The map as it is served\<close>

lemma and_3: "(w :: u32) AND 3 = w mod 4"
  using take_bit_eq_mask [of 2 w] take_bit_eq_mod [of 2 w] by (simp add: mask_eq_exp_minus_1)

lemma map_offset:
  fixes i :: nat
  assumes "i < 256"
  shows "unat (4 * of_nat i :: u32) = 4 * i" and "(4 * of_nat i :: u32) AND 3 = 0" and "(4 * of_nat i :: u32) mod 4 = 0"
proof -
  have "unat (of_nat (4 * i) :: u32) = 4 * i" using assms by (simp add: unsigned_of_nat take_bit_nat_eq_self del: of_nat_mult)
  then show u: "unat (4 * of_nat i :: u32) = 4 * i" by simp
  show m: "(4 * of_nat i :: u32) mod 4 = 0"
    by (rule word_unat_eq_iff [THEN iffD2]) (simp add: unat_mod_distrib u)
  then show "(4 * of_nat i :: u32) AND 3 = 0" by (simp add: and_3)
qed

lemma in_map:
  assumes "i < 256"
  shows "unat (kCSR_TopologyMapBase + 4 * of_nat i) = 0xF0001000 + 4 * i"
  using map_offset(1) [OF assms] assms
  by (simp add: kCSR_TopologyMapBase_def unat_word_ariths)

lemma map_address:
  assumes "i < 256"
  shows "InTopologyRegion (kCSR_TopologyMapBase + 4 * of_nat i)"
    and "kCSR_TopologyMapBase + 4 * of_nat i \<notin> {kCSR_StateSet, kCSR_StateClear, kCSR_BroadcastChannel, kCSR_ResetStart}"
    and "\<not> IsIrmResourceCsr (kCSR_TopologyMapBase + 4 * of_nat i)"
    and "\<not> InSpeedMapRegion (kCSR_TopologyMapBase + 4 * of_nat i)"
    and "(kCSR_TopologyMapBase + 4 * of_nat i) AND 3 = 0"
proof -
  note u = in_map [OF assms]
  have "unat (kCSR_TopologyMapEnd :: u32) = 0xF00013FF" "unat (kCSR_TopologyMapBase :: u32) = 0xF0001000"
    by (simp_all add: kCSR_TopologyMapEnd_def kCSR_TopologyMapBase_def)
  then show "InTopologyRegion (kCSR_TopologyMapBase + 4 * of_nat i)"
    using u assms by (simp add: InTopologyRegion_def word_le_nat_alt)
  have lt: "x \<noteq> kCSR_TopologyMapBase + 4 * of_nat i" if "x < 0xF0001000" for x :: u32
    using that u by (auto simp: word_less_nat_alt)
  show "kCSR_TopologyMapBase + 4 * of_nat i \<notin> {kCSR_StateSet, kCSR_StateClear, kCSR_BroadcastChannel, kCSR_ResetStart}"
    using lt [of kCSR_StateSet] lt [of kCSR_StateClear] lt [of kCSR_BroadcastChannel] lt [of kCSR_ResetStart]
    by (auto simp: kCSR_StateSet_def kCSR_StateClear_def kCSR_BroadcastChannel_def kCSR_ResetStart_def)
  show "\<not> IsIrmResourceCsr (kCSR_TopologyMapBase + 4 * of_nat i)"
    using lt [of kCSR_BusManagerID] lt [of kCSR_BandwidthAvailable] lt [of kCSR_ChannelsAvailableHi] lt [of kCSR_ChannelsAvailableLo]
    by (auto simp: IsIrmResourceCsr_def kCSR_BusManagerID_def kCSR_BandwidthAvailable_def kCSR_ChannelsAvailableHi_def
        kCSR_ChannelsAvailableLo_def)
  have "unat (kCSR_SpeedMapBase :: u32) = 0xF0002000" by (simp add: kCSR_SpeedMapBase_def)
  then show "\<not> InSpeedMapRegion (kCSR_TopologyMapBase + 4 * of_nat i)"
    using u assms by (simp add: InSpeedMapRegion_def word_le_nat_alt)
  have "(kCSR_TopologyMapBase + 4 * of_nat i) AND 3 = (kCSR_TopologyMapBase + 4 * of_nat i) mod 4"
    by (rule and_3)
  also have "\<dots> = 0"
    using u by (simp add: word_unat_eq_iff unat_mod_distrib mod_add_eq [symmetric, of 0xF0001000])
  finally show "(kCSR_TopologyMapBase + 4 * of_nat i) AND 3 = 0" .
qed

lemma rebuilt_map:
  assumes "tp_ok s" "t = tp_Rebuild a snap s" "tp_started t"
  shows "tp_hostMap t = map_image snap \<and> tp_dmaMap t = Some (map OSSwap32 (map_image snap)) \<and> tp_dma t \<noteq> None"
  using assms tp_ok_Start [of s a]
  by (cases "tp_StartLocked a s")
    (auto simp: tp_Rebuild_def Let_def tp_ok_def BuildTopologyMap_image rebuild_writes_all split: option.splits if_splits)

lemma tp_ok_initial: "tp_ok (TopologyMapService0 hw e)"
proof -
  let ?e = "e\<lparr>ts_nodeCount := 0, ts_generation := 0, ts_rawSelfIdQuadlets := []\<rparr>"
  have "snd (BuildTopologyMap ?e 0) = map_image ?e" using BuildTopologyMap_image [of ?e] by simp
  then show ?thesis by (simp add: tp_ok_def TopologyMapService0_def)
qed

text \<open>C24: After any sequence of operations on the topology map service that ends with a successful rebuild, a remote
  node that reads quadlet \<open>i\<close> of the topology map region is answered with quadlet \<open>i\<close> of the image of the
  snapshot: the length and the CRC-16 of the body, the generation, the node and Self-ID counts, the Self-ID quadlets
  as received, then zeros. A block read within the region is pointed at the DMA memory, which holds the same image in
  bus byte order. While the rebuild is writing that memory, after any number of its writes, the memory is the old
  one, the new image, or has a zero header, so no reader finds a header over a body that is half written.\<close>

theorem topology_map_served:
  assumes "t = tp_Rebuild a snap (fold map_step ops (TopologyMapService0 hw e))" "tp_started t"
    and "cr_topologyMap c = Some t" "i < 256" "n \<le> 256 - i" "length mem = 256"
  shows "csr_ReadQuadlet (kCSR_TopologyMapBase + 4 * of_nat i) c = (csr_result RcComplete (map_image snap ! i), c)
    \<and> (\<exists>address. tp_dma t = Some address
         \<and> BlockReadClaim (kCSR_TopologyMapBase + 4 * of_nat i) (4 * of_nat n) c
           = (csr_result RcComplete 0)\<lparr>re_readBlockDeviceAddress := address + 4 * of_nat i, re_readBlockLength := 4 * of_nat n\<rparr>)
    \<and> tp_dmaMap t = Some (map OSSwap32 (map_image snap))
    \<and> (fold dma_write (take k (rebuild_writes (map_image snap))) mem \<in> {mem, map OSSwap32 (map_image snap)}
       \<or> fold dma_write (take k (rebuild_writes (map_image snap))) mem ! 0 = 0)"
proof -
  have "tp_ok (fold map_step ops (TopologyMapService0 hw e))"
    by (rule topology_map.after_ops [OF tp_ok_initial]) (simp add: list_all_iff)
  from rebuilt_map [OF this assms(1,2)] obtain address where
    t: "tp_hostMap t = map_image snap" "tp_dmaMap t = Some (map OSSwap32 (map_image snap))" "tp_dma t = Some address"
    by auto
  have off: "kCSR_TopologyMapBase + 4 * of_nat i - kCSR_TopologyMapBase = 4 * of_nat i" by simp
  have small: "\<not> 1024 \<le> (4 * of_nat i :: u32)" using map_offset(1) [OF assms(4)] assms(4) by (simp add: word_le_nat_alt)
  have "tp_ReadQuadlet (4 * of_nat i) t = Some (map_image snap ! i)"
    using t small map_offset [OF assms(4)] by (simp add: tp_ReadQuadlet_def)
  then have r: "csr_ReadQuadlet (kCSR_TopologyMapBase + 4 * of_nat i) c = (csr_result RcComplete (map_image snap ! i), c)"
    using map_address [OF assms(4)] assms(3) by (simp add: csr_ReadQuadlet_def map_read_def)
  have "(of_nat (4 * i + 4 * n) :: u32) \<le> 1024" using assms(4,5)
    by (simp add: word_le_nat_alt unsigned_of_nat take_bit_nat_eq_self del: of_nat_mult of_nat_add)
  then have sum: "4 * of_nat i + 4 * of_nat n \<le> (1024 :: u32)" by simp
  have m4: "(4 * of_nat n :: u32) mod 4 = 0"
    using map_offset(3) [of n] assms(4,5) by (cases "n = 256") auto
  have ext: "ucast (4 * of_nat i :: u32) = (4 * of_nat i :: u64)"
    using assms(4) map_offset(1) [OF assms(4)]
    by (intro word_unat_eq_iff [THEN iffD2])
      (simp only: unsigned_ucast_eq, simp add: unat_word_ariths unsigned_of_nat take_bit_nat_eq_self)
  have "ResolveBlockRead (4 * of_nat i) (4 * of_nat n) t = Some (address + 4 * of_nat i, 4 * of_nat n)"
    using t assms(2) sum m4 ext map_offset(3) [OF assms(4)] by (simp add: ResolveBlockRead_def not_less)
  then have "BlockReadClaim (kCSR_TopologyMapBase + 4 * of_nat i) (4 * of_nat n) c
      = (csr_result RcComplete 0)\<lparr>re_readBlockDeviceAddress := address + 4 * of_nat i, re_readBlockLength := 4 * of_nat n\<rparr>"
    using map_address [OF assms(4)] assms(3) by (simp add: BlockReadClaim_def)
  then show ?thesis using r t rebuild_writes_prefix [OF assms(6), of "map_image snap" k] by simp
qed

definition sample_dma :: MapDmaAnswers where
  "sample_dma = \<lparr>da_allocate = Some 0x40000400, da_mapping = True\<rparr>"

definition sample_responder :: "TopologyMapService \<Rightarrow> CSRResponder" where
  "sample_responder t = \<lparr>cr_root = Some True, cr_cycleMaster = Some False, cr_topologyMap = Some t, cr_speedMap = None,
     cr_broadcastChannel = Some kBroadcastChannelImplementedInvalid, cr_abdicate = False, cr_unexpectedResourceCsrSoftwareCount = 0\<rparr>"

theorem topology_map_served_witness:
  "\<exists>(snap :: TopologySnapshot) t. ts_rawSelfIdQuadlets snap = [0x01000002, 0x807F8C40, 0x817F8C40] \<and> tp_publishStatus t = MapValid
     \<and> csr_ReadQuadlet (kCSR_TopologyMapBase + 4 * of_nat 3) (sample_responder t) = (csr_result RcComplete 0x807F8C40, sample_responder t)"
proof -
  obtain snap :: TopologySnapshot where snap: "ts_rawSelfIdQuadlets snap = [0x01000002, 0x807F8C40, 0x817F8C40]"
    by (metis TopologySnapshot.select_convs(16))
  let ?t = "tp_Rebuild sample_dma snap (fold map_step [MapStart sample_dma, MapZeroLength sample_dma 7] (TopologyMapService0 True snap))"
  have t: "tp_started ?t" "tp_publishStatus ?t = MapValid"
    by (simp_all add: tp_Rebuild_def PublishZeroLength_def tp_StartLocked_def sample_dma_def TopologyMapService0_def Let_def)
  have image: "map_image snap ! 3 = 0x807F8C40" by (simp add: map_image_def map_body_def Let_def snap)
  have c: "cr_topologyMap (sample_responder ?t) = Some ?t" by (simp only: sample_responder_def CSRResponder.select_convs)
  have "csr_ReadQuadlet (kCSR_TopologyMapBase + 4 * of_nat 3) (sample_responder ?t) = (csr_result RcComplete 0x807F8C40, sample_responder ?t)"
    using topology_map_served [OF refl t(1) c, of 3 1 "replicate 256 0" 5] image by simp
  with snap t(2) show ?thesis by blast
qed

end
