(* ===== verification/Spec2Isabelle.thy ===== *)
theory Spec2Isabelle
  imports Bus_Reset_Cycle Async_Tracking_Properties Tx_Stream Rx_Replay Config_ROM_Stager Config_ROM_Store
    IRM_Client_Properties IRM_Manager BM_Election CSR_Responder
begin

text \<open>
  A verification development for the ASFireWire driver (\<^verbatim>\<open>src/ASFWDriver\<close>), a DriverKit driver for IEEE 1394
  (FireWire) host controllers and the audio devices behind them. Paths below are relative to
  \<^verbatim>\<open>src/ASFWDriver\<close>.

  \<^bold>\<open>The program's parts.\<close> After a bus reset the controller leaves a Self-ID capture in memory; the driver
  decodes it (\<^verbatim>\<open>Bus/SelfIDCapture.cpp\<close>), parses it into one record per node
  (\<^verbatim>\<open>Bus/SelfIDStreamParser.cpp\<close>), builds the tree of nodes (\<^verbatim>\<open>Bus/SelfIDTopologyNormalizer.cpp\<close>) and keeps the
  latest snapshot (\<^verbatim>\<open>Bus/TopologyManager.cpp\<close>). The bus reset coordinator
  (\<^verbatim>\<open>Bus/BusResetCoordinator*.cpp\<close>) runs that work as a state machine that interrupts can restart at any point,
  quiesces and re-arms the transmit contexts around it, and issues the resets that the bus manager asks for. The
  bus manager (\<^verbatim>\<open>Bus/BusManager.cpp\<close>, \<^verbatim>\<open>Bus/BusManager/GapPolicyCoordinator.cpp\<close>,
  \<^verbatim>\<open>Bus/GapCountOptimizer.cpp\<close>) reads the snapshot to choose cycle master and gap count and sends PHY packets
  (\<^verbatim>\<open>Phy/PhyPackets.hpp\<close>); timing gates keep it from contending too early
  (\<^verbatim>\<open>Bus/Timing/PostResetTimingCoordinator.cpp\<close>), and who becomes bus manager is settled by an election
  (\<^verbatim>\<open>Bus/BusManager/BusManagerElection*.cpp\<close>) on a register of the isochronous resource manager. From that node
  the driver reserves channels and bandwidth by compare-swap (\<^verbatim>\<open>Bus/IRM/IRMClient.cpp\<close>) and keeps a reservation
  across resets (\<^verbatim>\<open>Bus/IRM/IRMAllocationManager.cpp\<close>); to other nodes it answers for its own registers and the topology
  map (\<^verbatim>\<open>Bus/CSR\<close>). The local configuration ROM, which advertises the node by its bus
  options (\<^verbatim>\<open>Common/CSRSpace.hpp\<close>), is built and staged into DMA memory (\<^verbatim>\<open>ConfigROM/Local\<close>); those of other
  nodes are parsed (\<^verbatim>\<open>ConfigROM/Parse\<close>) and cached across bus generations (\<^verbatim>\<open>ConfigROM/Store\<close>). Asynchronous requests get a label, a transaction and a deadline
  (\<^verbatim>\<open>Async/Track\<close>, \<^verbatim>\<open>Async/Core\<close>) and end in exactly one callback. An audio stream turns frames into one
  isochronous packet per cycle (\<^verbatim>\<open>Audio/Wire\<close>): a cadence decides how many frames a cycle carries, a
  packetizer writes header and payload and publishes the packet on a timeline that the audio thread writes
  samples into, and a replay ring carries the timing of received packets to the transmitter.

  \<^bold>\<open>Theories.\<close>
  \<^item> \<open>ASFW_Prelude\<close>: fixed-width types, the error monad of \<open>std::expected\<close>, generic lemmas, the named
    theorem lists and the locale of class invariants.
  \<^item> \<open>SelfID_Wire\<close>, \<open>SelfID_Capture\<close>, \<open>SelfID_Parser\<close>: wire format, buffer management and decoding of the
    capture, and the parser: which inputs are accepted and what they mean, and that every resource is accounted
    for on every failure path.
  \<^item> \<open>Topology_Graph\<close> (definitions), \<open>Tree_Metric\<close> (distances in a tree given by parents, as the locale
    \<open>up_tree\<close>), \<open>Topology_Tree\<close>, \<open>Topology_Diameter\<close>, \<open>Topology_Normalize\<close>, \<open>Topology_Properties\<close>: the graph
    builder accepts exactly the report lists that describe a tree, the double breadth-first search computes the
    diameter, normalisation relabels every link. The breadth-first loops carry as fuel the number of
    nodes, since each round takes one node off the frontier and no node enters twice; the theorems state that
    the result is not \<open>None\<close>.
  \<^item> \<open>Topology_Manager\<close>: snapshots and path speed. \<open>UpdateFromSelfID\<close> always answers on a decoded capture.
  \<^item> \<open>Bus_Options\<close>, \<open>Phy_Packets\<close>, \<open>Gap_Policy\<close>: the bus-options quadlet, PHY packets, and gap count computation
    with its coordinator, which requests at most a configured number of resets per stable topology.
  \<^item> \<open>Config_ROM_CRC\<close>, \<open>Config_ROM_Builder\<close>, \<open>Config_ROM_Parser\<close>, \<open>Config_ROM_Properties\<close>, \<open>Config_ROM_Stager\<close>,
    \<open>Config_ROM_Store\<close>: the checksum detects every burst of sixteen bits, the builder's image is the specified one
    whatever is added in whatever order, the parser reads back what the builder writes and never reads outside the
    ROM, a staged ROM is readable after the reset, and lookups in the store are consistent. Builder and store are
    instances of the prelude's locale \<open>class_invariant\<close>: an invariant kept by each operation holds after every
    sequence of them.
  \<^item> \<open>Bus_Manager\<close>, \<open>Post_Reset_Timing\<close>: the cycle master and gap decisions and the PHY packets they give, and
    the timing gates after a reset, which open exactly at their deadlines of the current generation.
  \<^item> \<open>IRM_Client\<close>, \<open>IRM_Client_Properties\<close>: reading and compare-swapping the registers of the resource manager, locally
    or over the bus, and the two locks that retry. What other nodes do to the registers between two requests and
    what becomes of each request are arguments. The locale \<open>retry_loop\<close>, interpreted for the channel and for the
    bandwidth lock, bounds the requests and accounts for every swap that takes effect. \<open>IRM_Manager\<close>: the owner of one
    reservation, its outstanding calls and bus resets as a step relation.
  \<^item> \<open>BM_Election\<close>: the election and its driver, with timers, answers and policy changes in any order.
  \<^item> \<open>CSR_Responder\<close>: the registers that software answers, and the topology map with the order of the writes to
    its DMA copy.
  \<^item> \<open>Bus_Reset\<close> (state, effects, environment), \<open>Bus_Reset_Actions\<close> (the actions and guards), \<open>Bus_Reset_FSM\<close>
    (the steps, the loop, the work queue and the reachable states), \<open>Bus_Reset_Frames\<close> (which members an
    operation leaves alone), \<open>Bus_Reset_Safety\<close>, \<open>Bus_Reset_Invariants\<close>, \<open>Bus_Reset_Properties\<close>,
    \<open>Bus_Reset_Requests\<close>, \<open>Bus_Reset_Cycle\<close>: the bus reset coordinator. What a turn reads (clock, registers, DMA
    memory, answers of other components, an interrupt that arrives before it) is its environment, one
    per turn; what it does to the hardware and to other components is a trace of effects in program order. The
    invariants are locales over one turn (\<open>reset_step_invariant\<close>) and over all actions (\<open>reset_invariant\<close>). The loop
    has the code's own limit of twelve turns; the theorems include that a run ends before it. Shown are the exact
    course of an undisturbed cycle, the reset holdoff and the order of clearing the event, that no
    wake-up is lost, and how requests are merged and delegation is limited.
  \<^item> \<open>Async_Labels\<close>: the 64-bit label bitmap with its compare-exchange loop (what other threads do in between is
    a parameter), the pool of labels as the locale \<open>label_pool\<close>, and the extended bus generation.
  \<^item> \<open>Async_Transaction\<close>, \<open>Async_Tracking\<close>, \<open>Async_Tracking_Inv\<close>, \<open>Async_Tracking_Account\<close>,
    \<open>Async_Tracking_Properties\<close>: transactions, their manager and the tracking actor. What a client's callback
    may do to the tracker is the locale \<open>tracking_client\<close>, interpreted for a quiet client and for one that
    submits again; callbacks are invoked exactly once and every transaction ends.
  \<^item> \<open>Wire_Cadence\<close>: the interface of a cadence is the locale \<open>amdtp_cadence\<close>, interpreted for the blocking and the
    non-blocking cadence; the deadline counter equals the accumulator it replaced.
  \<^item> \<open>Wire_Timing\<close>, \<open>Wire_Cip\<close>: cycle timer and time stamp arithmetic, CIP headers, sample quadlets, rate table.
  \<^item> \<open>Tx_Timeline\<close>: the ring of transmit packets refines a map from packet indices; \<open>Tx_Seqlock\<close>: its per-slot
    seqlock, every memory access a step of a relation in which pump and reader interleave.
  \<^item> \<open>Tx_Packetizer\<close>, \<open>Tx_Image\<close>, \<open>Tx_Stream\<close>: the packetizer with its packet images as memory; failures change
    nothing, no byte outside the packet is written, counters and frames have no gap, and a configured blocking
    stream sends the sample rate.
  \<^item> \<open>Rx_Replay\<close>: the replay ring, with a read at any point of a publication.
  \<^item> This theory composes them: from a decoded capture to the stored topology.

  \<^bold>\<open>Conventions.\<close> A class is a record, an operation a function that returns the new state; \<open>std::optional\<close> is
  \<open>option\<close> and \<open>std::expected\<close> a sum with the error on the left. Integers keep their width (words, or numbers
  with the wrap-around written out) wherever the code's arithmetic could leave the range. Log lines, counters
  read only by diagnostics and the memory orders of atomics are left out; where threads meet, their accesses
  interleave in program order. Code outside the repository (DriverKit, the clock, interrupts) appears as
  parameters: the outcomes of DriverKit calls in \<open>SelfID_Capture\<close> and
  \<open>Config_ROM_Stager\<close>, the time in \<open>Async_Tracking\<close>.

  \<^bold>\<open>Not modelled.\<close> The DriverKit shell, interrupt handling and register access (\<^verbatim>\<open>Hardware\<close>, \<^verbatim>\<open>Service\<close>,
  \<^verbatim>\<open>ASFWDriver.cpp\<close>), user client, logging and diagnostics: I/O without a computation to state a property
  about. The DMA rings of \<^verbatim>\<open>Async/Contexts\<close>, \<^verbatim>\<open>Isoch\<close> and \<^verbatim>\<open>Shared\<close>, the scanning of remote configuration ROMs, the
  local resource controller and its fallback, the coordinators for root selection, cycle start and power, device discovery, the AV/C, DICE, SBP-2 and
  MOTU protocols, and the float32 sample path: not yet modelled. The Swift application, the tools and the tests
  are outside the driver.
\<close>

section \<open>From the interrupt to the topology\<close>

text \<open>
  C26: from the interrupt to the topology. Whenever the capture decodes, the topology manager answers: it
  refuses and keeps its last topology, or stores a snapshot of the generation that the controller's Self-ID
  count register named, whose links form a tree of at most 63 nodes rooted at the largest physical ID and
  whose local node is one of them.
\<close>

theorem capture_to_topology:
  assumes "Decode reg reg2 c = Inr r"
  shows "case UpdateFromSelfID r t nodeIDReg m of
      None \<Rightarrow> False
    | Some (Inl e, m') \<Rightarrow> m' = m
    | Some (Inr s, m') \<Rightarrow> m' = m\<lparr>tm_latest := Some s\<rparr> \<and> ts_graphStatus s = GraphValid
        \<and> ts_generation s = drop_bit 16 (reg AND kGenerationMask)
        \<and> ts_nodeCount s \<le> 63 \<and> ts_rootNodeId s = ts_nodeCount s - 1 \<and> ts_localNodeId s < ts_nodeCount s
        \<and> tree_links (pg_nodes (ts_physical s)) \<and> length (pg_nodes (ts_physical s)) = ts_nodeCount s"
proof -
  note d = Decode_sequences [OF assms]
  from UpdateFromSelfID_answers [where r = r and t = t and reg = nodeIDReg and m = m] d show ?thesis
    by (auto split: option.splits sum.splits)
qed

theorem capture_to_topology_witness:
  "UpdateFromSelfID \<lparr>res_quads = [0x10000, 0x807F0800], res_sequences = [(1, 1)], res_generation = 1,
          res_valid = True, res_timedOut = False, res_crcError = False\<rparr> 7 0x8000FFC0 TopologyManager0 \<noteq> None"
proof -
  have "Decode 0x1000C (Some 0x1000C) (sample_capture 0x7000 [0x10000, 0x807F0800, 0x7F80F7FF]) =
     Inr \<lparr>res_quads = [0x10000, 0x807F0800], res_sequences = [(1, 1)], res_generation = 1,
          res_valid = True, res_timedOut = False, res_crcError = False\<rparr>" by code_simp
  from capture_to_topology [OF this, where t = 7 and nodeIDReg = "0x8000FFC0" and m = TopologyManager0]
  show ?thesis by (auto split: option.splits)
qed

end
